(* ===== verification/Prelude.thy ===== *)
theory Prelude
  imports Main "HOL-Library.Word" "HOL-Library.Product_Lexorder" "HOL-Library.Multiset"
begin

text \<open>
  Shared vocabulary of the development: the machine integer types of the Rust code, its
  \<open>Result\<close> and error types, decimal rendering for \<open>format!\<close>, and the standard-library
  searches (\<open>Iterator::position\<close>, \<open>rposition\<close>) with the list facts every component needs.
  Rust's unsigned and signed integers of width \<open>w\<close> are both \<open>w word\<close>: addition,
  subtraction and multiplication wrap as release builds do, an \<open>as\<close> cast between the two
  signs is the identity on bits, \<open>unat\<close>/\<open>uint\<close> read a word as unsigned and \<open>sint\<close> as
  two's complement.
\<close>

section \<open>Machine integers\<close>

type_synonym u8 = "8 word"
type_synonym u32 = "32 word"
type_synonym u64 = "64 word"
type_synonym i64 = "64 word"
type_synonym usize = "64 word"
type_synonym u128 = "128 word"

text \<open>\<open>u64::div_ceil\<close>: quotient, plus one when the remainder is positive.\<close>

definition div_ceil :: "u64 \<Rightarrow> u64 \<Rightarrow> u64" where
  "div_ceil a b = (if a mod b > 0 then a div b + 1 else a div b)"

text \<open>\<open>saturating_sub\<close> and \<open>saturating_add\<close> on unsigned integers.\<close>

definition saturating_sub :: "'a::len word \<Rightarrow> 'a word \<Rightarrow> 'a word" where
  "saturating_sub a b = (if a < b then 0 else a - b)"

definition saturating_add :: "'a::len word \<Rightarrow> 'a word \<Rightarrow> 'a word" where
  "saturating_add a b = (if unat a + unat b < 2 ^ LENGTH('a) then a + b else - 1)"

named_theorems word_nat \<open>reading wrapped word arithmetic as natural-number arithmetic\<close>

lemma unat_saturating_sub [word_nat]: "unat (saturating_sub a b) = unat a - unat b"
proof (cases "a < b")
  case True
  then show ?thesis
    by (simp add: saturating_sub_def word_less_nat_alt)
next
  case False
  then show ?thesis
    by (simp add: saturating_sub_def unat_sub word_le_nat_alt word_less_nat_alt)
qed

lemma unat_saturating_add [word_nat]:
  fixes a b :: "'a::len word"
  shows "unat (saturating_add a b) = min (unat a + unat b) (2 ^ LENGTH('a) - 1)"
proof (cases "unat a + unat b < 2 ^ LENGTH('a)")
  case True
  then show ?thesis
    by (simp add: saturating_add_def unat_word_ariths(1) mod_less)
next
  case False
  then show ?thesis
    by (simp add: saturating_add_def unsigned_minus_1_eq_mask mask_eq_exp_minus_1)
qed

lemma unat_plus_nowrap [word_nat]:
  fixes a b :: "'a::len word"
  shows "unat a + unat b < 2 ^ LENGTH('a) \<Longrightarrow> unat (a + b) = unat a + unat b"
  by (simp add: unat_word_ariths(1))

lemma unat_minus_nowrap [word_nat]: "b \<le> a \<Longrightarrow> unat (a - b) = unat a - unat b"
  by (simp add: unat_sub)

text \<open>A word that is positive when read as signed is below half of the range.\<close>

lemma sint_nonneg_uint:
  fixes w :: "'a::len word"
  assumes "0 \<le> sint w"
  shows "sint w = uint w" and "uint w < 2 ^ (LENGTH('a) - 1)"
proof -
  have lt: "sint w < 2 ^ (LENGTH('a) - 1)" by (rule sint_lt)
  also have "\<dots> \<le> (2 :: int) ^ LENGTH('a)" by (rule power_increasing) simp_all
  finally have "take_bit LENGTH('a) (sint w) = sint w"
    using assms by (simp add: take_bit_int_eq_self)
  then show "sint w = uint w" by (simp add: uint_sint)
  with lt show "uint w < 2 ^ (LENGTH('a) - 1)" by simp
qed

lemma sint_nonneg_unat:
  fixes w :: "'a::len word"
  assumes "0 \<le> sint w"
  shows "unat w < 2 ^ (LENGTH('a) - 1)"
proof -
  have "int (unat w) < int (2 ^ (LENGTH('a) - 1))"
    using sint_nonneg_uint(2) [OF assms] by simp
  then show ?thesis by (simp only: of_nat_less_iff)
qed

lemma sint_eq_0_iff: "sint (w :: 'a::len word) = 0 \<longleftrightarrow> w = 0"
proof
  assume "sint w = 0"
  then have "of_int (sint w) = (0 :: 'a word)" by simp
  then show "w = 0" by simp
qed simp

text \<open>Taking away no more than a positive signed word leaves exactly the difference.\<close>

lemma sint_diff_pos:
  fixes w d :: "'a::len word"
  assumes "0 < sint w" and "d \<le> w"
  shows "sint (w - d) = sint w - uint d" and "0 \<le> sint (w - d)"
proof -
  from assms(1) have w: "sint w = uint w" "uint w < 2 ^ (LENGTH('a) - 1)"
    using sint_nonneg_uint [of w] by simp_all
  have d: "uint d \<le> uint w" using assms(2) by (simp add: word_le_def)
  have diff: "uint (w - d) = uint w - uint d"
    using assms(2) by (simp add: uint_minus_simple_alt)
  have lt: "uint (w - d) < 2 ^ (LENGTH('a) - 1)"
    using w(2) diff uint_ge_0 [of d] by linarith
  have "- (2 ^ (LENGTH('a) - 1)) \<le> uint (w - d)"
    by (rule order_trans [OF _ uint_ge_0]) simp
  with lt have "sint (w - d) = uint (w - d)"
    by (simp add: sint_uint signed_take_bit_int_eq_self)
  with diff show "sint (w - d) = sint w - uint d" "0 \<le> sint (w - d)"
    using w d by simp_all
qed

section \<open>Results and errors\<close>

text \<open>
  The variants of \<open>WalletError\<close> (\<open>src/error.rs\<close>) with their payloads; the
  \<open>Sqlx\<close>, \<open>Io\<close> and \<open>SerdeJson\<close> variants carry errors of other crates and are kept as the
  text those errors display. The review and send results and outpoints of \<open>ReviewActions\<close> are
  values of the \<open>bsv\<close> crate that this code only passes on; they are kept as their JSON text.
  \<open>Result<T, E>\<close> is a sum with \<open>Inl\<close> for \<open>Err\<close>.
\<close>

datatype wallet_error =
    Internal string
  | InvalidParameter string string
  | NotImplemented string
  | BadRequest string
  | Unauthorized string
  | NotActive string
  | InvalidOperation string
  | MissingParameter string
  | InsufficientFunds string int int
  | BroadcastUnavailable
  | NetworkChain string
  | InvalidPublicKey string string
  | ReviewActions string "string list" "string list" "string option" "u8 list option" "string list"
  | InvalidMerkleRoot string string u32 string "string option"
  | Sqlx string
  | Io string
  | SerdeJson string

type_synonym 'a wallet_result = "wallet_error + 'a"

abbreviation Ok :: "'a \<Rightarrow> 'e + 'a" where "Ok \<equiv> Inr"
abbreviation Err :: "'e \<Rightarrow> 'e + 'a" where "Err \<equiv> Inl"

text \<open>The \<open>?\<close> operator: leave with the error or go on with the value.\<close>

definition bind_result :: "'e + 'a \<Rightarrow> ('a \<Rightarrow> 'e + 'b) \<Rightarrow> 'e + 'b" where
  "bind_result r f = (case r of Inl e \<Rightarrow> Inl e | Inr x \<Rightarrow> f x)"

lemma bind_result_simps [simp]:
  "bind_result (Inl e) f = Inl e"
  "bind_result (Inr x) f = f x"
  by (simp_all add: bind_result_def)

lemma bind_result_eq_Inr [simp]:
  "bind_result r f = Inr y \<longleftrightarrow> (\<exists>x. r = Inr x \<and> f x = Inr y)"
  by (cases r) simp_all

lemma bind_result_eq_Inl:
  "bind_result r f = Inl e \<longleftrightarrow> r = Inl e \<or> (\<exists>x. r = Inr x \<and> f x = Inl e)"
  by (cases r) simp_all

section \<open>Decimal rendering\<close>

definition digit_char :: "nat \<Rightarrow> char" where
  "digit_char d = char_of (48 + d)"

fun show_nat :: "nat \<Rightarrow> string" where
  "show_nat n = (if n < 10 then [digit_char n] else show_nat (n div 10) @ [digit_char (n mod 10)])"

declare show_nat.simps [simp del]

definition show_int :: "int \<Rightarrow> string" where
  "show_int i = (if i < 0 then ''-'' @ show_nat (nat (- i)) else show_nat (nat i))"

definition show_bool :: "bool \<Rightarrow> string" where
  "show_bool b = (if b then ''true'' else ''false'')"

section \<open>Searching lists\<close>

text \<open>\<open>Iterator::position\<close> and \<open>rposition\<close>: the first, or the last, index where \<open>P\<close> holds.\<close>

fun position :: "('a \<Rightarrow> bool) \<Rightarrow> 'a list \<Rightarrow> nat option" where
  "position P [] = None"
| "position P (x # xs) = (if P x then Some 0 else map_option Suc (position P xs))"

fun rposition :: "('a \<Rightarrow> bool) \<Rightarrow> 'a list \<Rightarrow> nat option" where
  "rposition P [] = None"
| "rposition P (x # xs) =
     (case rposition P xs of
        Some i \<Rightarrow> Some (Suc i)
      | None \<Rightarrow> (if P x then Some 0 else None))"

lemma position_None_iff [simp]: "position P xs = None \<longleftrightarrow> (\<forall>x \<in> set xs. \<not> P x)"
  by (induction xs) auto

lemma rposition_None_iff [simp]: "rposition P xs = None \<longleftrightarrow> (\<forall>x \<in> set xs. \<not> P x)"
  by (induction xs) (auto split: option.splits)

lemma position_SomeD:
  "position P xs = Some i \<Longrightarrow> i < length xs \<and> P (xs ! i) \<and> (\<forall>j < i. \<not> P (xs ! j))"
proof (induction xs arbitrary: i)
  case Nil
  then show ?case by simp
next
  case (Cons x xs)
  show ?case
  proof (cases "P x")
    case True
    with Cons.prems show ?thesis by simp
  next
    case False
    with Cons.prems obtain k where k: "position P xs = Some k" "i = Suc k" by auto
    from Cons.IH [OF k(1)] False k(2) show ?thesis by (auto simp: less_Suc_eq_0_disj)
  qed
qed

lemma rposition_SomeD:
  "rposition P xs = Some i \<Longrightarrow>
     i < length xs \<and> P (xs ! i) \<and> (\<forall>j. i < j \<longrightarrow> j < length xs \<longrightarrow> \<not> P (xs ! j))"
proof (induction xs arbitrary: i)
  case Nil
  then show ?case by simp
next
  case (Cons x xs)
  show ?case
  proof (cases "rposition P xs")
    case None
    with Cons.prems have "i = 0" "P x" by (auto split: if_splits)
    moreover from None have "\<forall>y \<in> set xs. \<not> P y" by simp
    ultimately show ?thesis by (auto simp: nth_Cons' )
  next
    case (Some k)
    with Cons.prems have "i = Suc k" by simp
    with Cons.IH [OF Some] show ?thesis by (auto simp: nth_Cons split: nat.splits)
  qed
qed

section \<open>Multisets of list elements\<close>

lemma distinct_subseteq_mset:
  assumes "distinct ys" and "mset xs \<subseteq># mset ys"
  shows "distinct xs"
  unfolding distinct_count_atmost_1
proof
  fix a
  have "count (mset xs) a \<le> count (mset ys) a" using assms(2) by (rule mset_subset_eq_count)
  also have "\<dots> \<le> 1" using assms(1) by (simp add: distinct_count_atmost_1)
  finally have "count (mset xs) a \<le> 1" .
  show "count (mset xs) a = (if a \<in> set xs then 1 else 0)"
  proof (cases "a \<in> set xs")
    case True
    then have "0 < count (mset xs) a" by simp
    with \<open>count (mset xs) a \<le> 1\<close> have "count (mset xs) a = 1" by linarith
    with True show ?thesis by simp
  next
    case False
    then show ?thesis by (simp add: count_eq_zero_iff)
  qed
qed

end
