(* ===== verification/ByteArith.thy ===== *)
theory ByteArith
  imports Prelude
begin

unbundle bit_operations_syntax

text \<open>
  The 256-bit arithmetic on 32-byte big-endian arrays of \<open>src/chaintracks/types.rs\<close>: shift,
  comparison, subtraction and the bit-by-bit long division, with the natural number an array
  stands for (\<open>be_val\<close>) as the specification. The byte loops of the source run from the last
  index to the first with a carry or borrow; the functions here recurse to the end of the
  list and combine on the way back, which visits the bytes in the same order.
\<close>

section \<open>The number a byte array stands for\<close>

fun be_val :: "u8 list \<Rightarrow> nat" where
  "be_val [] = 0"
| "be_val (b # bs) = unat b * 256 ^ length bs + be_val bs"

lemma unat_u8 [simp]: "unat (b :: u8) < 256"
  using unsigned_less [of b] by simp

lemma be_val_bound: "be_val bs < 256 ^ length bs"
proof (induction bs)
  case (Cons b bs)
  have "unat b * 256 ^ length bs + be_val bs < (unat b + 1) * 256 ^ length bs"
    using Cons by simp
  also have "\<dots> \<le> 256 * 256 ^ length bs"
    by (rule mult_le_mono1) (simp add: Suc_le_eq)
  finally show ?case by simp
qed simp

lemma be_val_append: "be_val (xs @ ys) = be_val xs * 256 ^ length ys + be_val ys"
  by (induction xs) (simp_all add: power_add algebra_simps)

lemma be_val_replicate_0 [simp]: "be_val (replicate n 0) = 0"
  by (induction n) simp_all

lemma be_val_update:
  "i < length bs \<Longrightarrow>
     be_val (bs[i := v]) + unat (bs ! i) * 256 ^ (length bs - 1 - i) =
     be_val bs + unat v * 256 ^ (length bs - 1 - i)"
  by (induction bs arbitrary: i) (auto split: nat.splits simp: nth_Cons')

lemma be_val_nth:
  "i < length bs \<Longrightarrow> be_val bs div 256 ^ (length bs - 1 - i) mod 256 = unat (bs ! i)"
proof (induction bs arbitrary: i)
  case (Cons b bs)
  show ?case
  proof (cases i)
    case 0
    have "(unat b * 256 ^ length bs + be_val bs) div 256 ^ length bs = unat b"
      using be_val_bound [of bs] by simp
    with 0 show ?thesis by simp
  next
    case (Suc j)
    with Cons.prems have j: "j < length bs" by simp
    define k where "k = length bs - 1 - j"
    have len: "length bs = Suc k + j" using j by (simp add: k_def)
    have eq: "unat b * 256 ^ length bs = (unat b * 256 ^ j * 256) * 256 ^ k"
      unfolding len by (simp add: power_add algebra_simps)
    have "(unat b * 256 ^ length bs + be_val bs) div 256 ^ k mod 256 =
        (unat b * 256 ^ j * 256 + be_val bs div 256 ^ k) mod 256"
      unfolding eq by (subst div_mult_self3) simp_all
    also have "\<dots> = be_val bs div 256 ^ k mod 256" by simp
    finally show ?thesis using Cons.IH [OF j] Suc j by (simp add: k_def)
  qed
qed simp

section \<open>Shift, comparison, subtraction\<close>

fun shl1_bytes :: "u8 list \<Rightarrow> u8 list \<times> u8" where
  "shl1_bytes [] = ([], 0)"
| "shl1_bytes (b # bs) =
     (case shl1_bytes bs of (bs', carry) \<Rightarrow> ((push_bit 1 b OR carry) # bs', drop_bit 7 b))"

definition shl1_bytes32 :: "u8 list \<Rightarrow> u8 list" where
  "shl1_bytes32 b = fst (shl1_bytes b)"

fun cmp_bytes32 :: "u8 list \<Rightarrow> u8 list \<Rightarrow> int" where
  "cmp_bytes32 (a # as) (b # bs) =
     (if a < b then - 1 else if a > b then 1 else cmp_bytes32 as bs)"
| "cmp_bytes32 _ _ = 0"

fun sub_bytes :: "u8 list \<Rightarrow> u8 list \<Rightarrow> u8 list \<times> int" where
  "sub_bytes (a # as) (b # bs) =
     (case sub_bytes as bs of (rs, borrow) \<Rightarrow>
        let diff = uint a - uint b - borrow
        in if diff < 0 then (word_of_int (diff + 256) # rs, 1) else (word_of_int diff # rs, 0))"
| "sub_bytes _ _ = ([], 0)"

definition sub_bytes32 :: "u8 list \<Rightarrow> u8 list \<Rightarrow> u8 list" where
  "sub_bytes32 a b = fst (sub_bytes a b)"

lemma unat_bit_cases: "unat (c :: u8) < 2 \<Longrightarrow> c = 0 \<or> c = 1"
proof -
  assume "unat c < 2"
  then have "unat c = unat (0 :: u8) \<or> unat c = unat (1 :: u8)" by auto
  then show ?thesis by (simp only: word_unat_eq_iff [symmetric])
qed

lemma drop_bit_7_less [simp]: "unat (drop_bit 7 (b :: u8)) < 2"
  using unat_u8 [of b] unfolding unat_drop_bit_eq
  by (simp add: drop_bit_eq_div less_mult_imp_div_less)

lemma or_bit_even:
  fixes x c :: u8
  assumes "even (unat x)" and "unat c < 2"
  shows "unat (x OR c) = unat x + unat c"
proof -
  have ev: "even x" using assms(1) by transfer (simp add: even_nat_iff)
  have "unat (x + 1) = unat x + 1"
  proof -
    have "Suc (unat x) < 256"
      using assms(1) unat_u8 [of x] by (metis Suc_lessI even_Suc even_numeral)
    then show ?thesis using unat_plus_nowrap [of x 1] by simp
  qed
  then show ?thesis using unat_bit_cases [OF assms(2)] ev by (auto simp: or_one_eq)
qed

lemma shl1_carry: "shl1_bytes bs = (bs', c) \<Longrightarrow> unat c < 2 \<and> length bs' = length bs"
  by (induction bs arbitrary: bs' c) (auto split: prod.splits)

lemma shl1_byte:
  fixes b c :: u8
  assumes "unat c < 2"
  shows "unat (push_bit 1 b OR c) + 256 * unat (drop_bit 7 b) = 2 * unat b + unat c"
proof -
  have p: "unat (push_bit 1 b) = 2 * unat b mod 256"
    unfolding unsigned_push_bit_eq by (simp add: take_bit_eq_mod push_bit_eq_mult mult.commute)
  have d: "unat (drop_bit 7 b) = 2 * unat b div 256"
    unfolding unat_drop_bit_eq by (simp add: drop_bit_eq_div)
  have "even (2 * unat b mod 256)" by (simp add: dvd_mod)
  with p assms have "unat (push_bit 1 b OR c) = 2 * unat b mod 256 + unat c"
    by (simp add: or_bit_even)
  then show ?thesis unfolding d using div_mult_mod_eq [of "2 * unat b" 256] by linarith
qed

lemma shl1_bytes_val:
  "shl1_bytes bs = (bs', c) \<Longrightarrow> be_val bs' + unat c * 256 ^ length bs = 2 * be_val bs"
proof (induction bs arbitrary: bs' c)
  case (Cons b bs)
  obtain rs c0 where rec: "shl1_bytes bs = (rs, c0)" by (cases "shl1_bytes bs")
  with Cons.prems have eqs: "bs' = (push_bit 1 b OR c0) # rs" "c = drop_bit 7 b" by simp_all
  have len: "length rs = length bs" and c0: "unat c0 < 2" using shl1_carry [OF rec] by simp_all
  have "(unat (push_bit 1 b OR c0) + 256 * unat (drop_bit 7 b)) * 256 ^ length bs =
      (2 * unat b + unat c0) * 256 ^ length bs"
    using shl1_byte [OF c0] by simp
  with Cons.IH [OF rec] show ?case by (simp add: eqs len algebra_simps)
qed simp

lemma shl1_bytes32_val:
  assumes "length bs = n" and "2 * be_val bs < 256 ^ n"
  shows "be_val (shl1_bytes32 bs) = 2 * be_val bs"
proof -
  obtain bs' c where r: "shl1_bytes bs = (bs', c)" by (cases "shl1_bytes bs")
  have eq: "be_val bs' + unat c * 256 ^ n = 2 * be_val bs"
    using shl1_bytes_val [OF r] assms(1) by simp
  with assms(2) have "unat c * 256 ^ n < 1 * 256 ^ n" by linarith
  then have "unat c = 0" unfolding mult_less_cancel2 by simp
  with eq show ?thesis by (simp add: shl1_bytes32_def r)
qed

lemma length_shl1_bytes32 [simp]: "length (shl1_bytes32 bs) = length bs"
  using shl1_carry [of bs] by (cases "shl1_bytes bs") (simp add: shl1_bytes32_def)

lemma be_val_Cons_less:
  assumes "length as = length bs" and "unat a < unat b"
  shows "be_val (a # as) < be_val (b # bs)"
proof -
  have "be_val (a # as) < (unat a + 1) * 256 ^ length bs"
    using be_val_bound [of as] assms(1) by simp
  also have "\<dots> \<le> unat b * 256 ^ length bs"
    using assms(2) by (intro mult_le_mono1) simp
  finally show ?thesis by simp
qed

lemma cmp_bytes32_val:
  "length as = length bs \<Longrightarrow>
     cmp_bytes32 as bs =
       (if be_val as < be_val bs then - 1 else if be_val as > be_val bs then 1 else 0)"
proof (induction as bs rule: cmp_bytes32.induct)
  case (1 a as b bs)
  then have len: "length as = length bs" by simp
  consider "unat a < unat b" | "unat b < unat a" | "a = b"
    by (metis nat_neq_iff word_unat_eq_iff)
  then show ?case
  proof cases
    assume "unat a < unat b"
    then show ?thesis using be_val_Cons_less [OF len] by (simp add: word_less_nat_alt)
  next
    assume "unat b < unat a"
    then show ?thesis using be_val_Cons_less [OF len [symmetric]]
      by (simp add: word_less_nat_alt not_less_iff_gr_or_eq)
  next
    assume "a = b"
    then show ?thesis using 1 by simp
  qed
qed simp_all

lemma unat_word_of_int_u8: "0 \<le> d \<Longrightarrow> d < 256 \<Longrightarrow> int (unat (word_of_int d :: u8)) = d"
  by (simp add: uint_word_of_int)

lemma sub_bytes_val:
  "length as = length bs \<Longrightarrow> sub_bytes as bs = (rs, c) \<Longrightarrow>
     (c = 0 \<or> c = 1) \<and> length rs = length as \<and>
     int (be_val rs) = int (be_val as) - int (be_val bs) + c * 256 ^ length as"
proof (induction as bs arbitrary: rs c rule: sub_bytes.induct)
  case (1 a as b bs)
  obtain rs0 c0 where rec: "sub_bytes as bs = (rs0, c0)" by (cases "sub_bytes as bs")
  have len: "length as = length bs" using "1.prems"(1) by simp
  note IH = "1.IH" [OF len rec]
  define diff where "diff = uint a - uint b - c0"
  have ub: "0 \<le> uint a" "uint a < 256" "0 \<le> uint b" "uint b < 256"
    using unsigned_less [of a, where 'a = int] unsigned_less [of b, where 'a = int] by simp_all
  have split: "rs = word_of_int (if diff < 0 then diff + 256 else diff) # rs0"
    "c = (if diff < 0 then 1 else 0)"
    using "1.prems"(2) by (auto simp: rec diff_def Let_def split: if_splits)
  have byte: "int (unat (word_of_int (if diff < 0 then diff + 256 else diff) :: u8)) =
      (if diff < 0 then diff + 256 else diff)"
  proof (rule unat_word_of_int_u8)
    have "c0 = 0 \<or> c0 = 1" using IH by simp
    then show "0 \<le> (if diff < 0 then diff + 256 else diff)"
      and "(if diff < 0 then diff + 256 else diff) < 256"
      using ub unfolding diff_def by (split if_split, linarith)+
  qed
  have "int (be_val rs) = (if diff < 0 then diff + 256 else diff) * 256 ^ length bs + int (be_val rs0)"
    unfolding split be_val.simps using IH len by (simp only: byte of_nat_add of_nat_mult of_nat_power) simp
  with IH len split show ?case
    by (cases "diff < 0") (simp_all add: diff_def ring_distribs)
qed simp_all

lemma sub_bytes32_val:
  assumes "length as = length bs" and "be_val bs \<le> be_val as"
  shows "be_val (sub_bytes32 as bs) = be_val as - be_val bs"
    and "length (sub_bytes32 as bs) = length as"
proof -
  obtain rs c where r: "sub_bytes as bs = (rs, c)" by (cases "sub_bytes as bs")
  note v = sub_bytes_val [OF assms(1) r]
  then show "length (sub_bytes32 as bs) = length as" by (simp add: sub_bytes32_def r)
  have "int (be_val rs) < 256 ^ length as"
    using be_val_bound [of rs] v by (metis of_nat_less_iff of_nat_numeral of_nat_power)
  with v assms(2) have "c = 0" by auto
  with v have "int (be_val rs) = int (be_val as) - int (be_val bs)" by simp
  then have "be_val rs = be_val as - be_val bs" by linarith
  then show "be_val (sub_bytes32 as bs) = be_val as - be_val bs"
    by (simp add: sub_bytes32_def r)
qed

section \<open>Long division, one bit at a time\<close>

definition divmod_step :: "u8 list \<Rightarrow> u8 list \<Rightarrow> nat \<Rightarrow> u8 list \<times> u8 list \<Rightarrow> u8 list \<times> u8 list" where
  "divmod_step a b i = (\<lambda>(q, r).
     let r = shl1_bytes32 r;
         byte_idx = i div 8;
         bit_idx = 7 - i mod 8;
         bit = drop_bit bit_idx (a ! byte_idx) AND 1;
         r = r[31 := r ! 31 OR bit]
     in if cmp_bytes32 r b \<ge> 0
        then (q[byte_idx := q ! byte_idx OR push_bit bit_idx 1], sub_bytes32 r b)
        else (q, r))"

definition bytes32_divmod :: "u8 list \<Rightarrow> u8 list \<Rightarrow> u8 list \<times> u8 list" where
  "bytes32_divmod a b = fold (divmod_step a b) [0..<256] (replicate 32 0, replicate 32 0)"

lemma div_pow_bit:
  fixes x :: nat
  assumes "j < 8"
  shows "x mod 256 div 2 ^ j mod 2 = x div 2 ^ j mod 2"
proof -
  obtain k where k: "8 = Suc (j + k)" using less_imp_Suc_add [OF assms] by auto
  have "(256 :: nat) = 2 ^ j * (2 * 2 ^ k)"
    using power_add [of "2 :: nat" j "Suc k"] k by simp
  then have "x mod 256 = 2 ^ j * (x div 2 ^ j mod (2 * 2 ^ k)) + x mod 2 ^ j"
    by (simp only: mod_mult2_eq)
  then have "x mod 256 div 2 ^ j = x div 2 ^ j mod (2 * 2 ^ k)" by simp
  then show ?thesis by (simp add: mod_mod_cancel)
qed

lemma be_val_bit:
  assumes "length bs = 32" and "i < 256"
  shows "unat (bs ! (i div 8)) div 2 ^ (7 - i mod 8) mod 2 = be_val bs div 2 ^ (255 - i) mod 2"
proof -
  have lt: "i div 8 < length bs" using assms by (simp add: less_mult_imp_div_less)
  have ex: "255 - i = 8 * (31 - i div 8) + (7 - i mod 8)"
    using assms(2) lt assms(1) div_mult_mod_eq [of i 8] by presburger
  have e: "(2 :: nat) ^ (255 - i) = 256 ^ (31 - i div 8) * 2 ^ (7 - i mod 8)"
    unfolding ex power_add power_mult by simp
  have "unat (bs ! (i div 8)) = be_val bs div 256 ^ (31 - i div 8) mod 256"
    using be_val_nth [OF lt] assms(1) by simp
  then show ?thesis by (simp add: div_pow_bit e div_mult2_eq)
qed

lemma unat_bit_of_byte: "unat (drop_bit j (x :: u8) AND 1) = unat x div 2 ^ j mod 2"
  unfolding unsigned_and_eq unat_drop_bit_eq by (simp add: and_one_eq drop_bit_eq_div)

lemma or_clear_bit:
  fixes x :: u8
  assumes "j < 8" and "unat x div 2 ^ j mod 2 = 0"
  shows "unat (x OR push_bit j 1) = unat x + 2 ^ j"
proof -
  have "\<not> bit (unat x) j" using assms(2) by (simp add: bit_iff_odd even_iff_mod_2_eq_zero)
  then have "unat x OR 2 ^ j = unat x + 2 ^ j"
    using set_bit_eq [of j "unat x"] by (simp add: set_bit_eq_or push_bit_eq_mult)
  moreover have "unat (push_bit j 1 :: u8) = 2 ^ j"
    using assms(1) unfolding unsigned_push_bit_eq
    by (simp add: push_bit_eq_mult take_bit_nat_eq_self_iff power_strict_increasing [of j 8 2, simplified])
  ultimately show ?thesis unfolding unsigned_or_eq by simp
qed

text \<open>
  After \<open>i\<close> rounds the remainder array holds the first \<open>i\<close> bits of the dividend modulo the
  divisor, and the quotient array the quotient of those bits, aligned to the top.
\<close>

definition divmod_inv :: "u8 list \<Rightarrow> u8 list \<Rightarrow> nat \<Rightarrow> u8 list \<times> u8 list \<Rightarrow> bool" where
  "divmod_inv a b i = (\<lambda>(q, r). length q = 32 \<and> length r = 32 \<and>
     be_val r = be_val a div 2 ^ (256 - i) mod be_val b \<and>
     be_val q = be_val a div 2 ^ (256 - i) div be_val b * 2 ^ (256 - i))"

lemma divmod_digit_step:
  fixes P B c :: nat
  assumes "0 < B" and "c < 2"
  shows "2 * (P mod B) + c \<ge> B \<Longrightarrow>
      (2 * P + c) div B = 2 * (P div B) + 1 \<and> (2 * P + c) mod B = 2 * (P mod B) + c - B"
    and "2 * (P mod B) + c < B \<Longrightarrow>
      (2 * P + c) div B = 2 * (P div B) \<and> (2 * P + c) mod B = 2 * (P mod B) + c"
proof -
  have P: "2 * P + c = 2 * (P mod B) + c + 2 * (P div B) * B"
    using div_mult_mod_eq [of P B] by (simp only: mult.assoc [of 2] add.commute add.left_commute)
  have lt: "P mod B < B" using assms(1) by simp
  show "2 * (P mod B) + c \<ge> B \<Longrightarrow>
      (2 * P + c) div B = 2 * (P div B) + 1 \<and> (2 * P + c) mod B = 2 * (P mod B) + c - B"
  proof -
    assume ge: "2 * (P mod B) + c \<ge> B"
    then have "2 * P + c = (2 * (P mod B) + c - B) + (2 * (P div B) + 1) * B"
      using P by simp
    moreover have "2 * (P mod B) + c - B < B" using lt assms(2) by linarith
    ultimately show ?thesis using assms(1)
      by (metis (no_types, lifting) add.commute add_cancel_right_left div_less div_mult_self1
          less_numeral_extra(3) mod_less mod_mult_self1)
  qed
  show "2 * (P mod B) + c < B \<Longrightarrow>
      (2 * P + c) div B = 2 * (P div B) \<and> (2 * P + c) mod B = 2 * (P mod B) + c"
    using assms(1) by (simp only: P div_mult_self1 mod_mult_self1) simp
qed

lemma set_lsb_val:
  assumes "length bs = 32" and "even (be_val bs)" and "unat c < 2"
  shows "be_val (bs[31 := bs ! 31 OR c]) = be_val bs + unat c"
proof -
  have "unat (bs ! 31) = be_val bs mod 256" using be_val_nth [of 31 bs] assms(1) by simp
  moreover have "even (be_val bs mod 256)" using assms(2) by (simp add: dvd_mod)
  ultimately have "unat (bs ! 31 OR c) = unat (bs ! 31) + unat c"
    using assms(3) by (simp add: or_bit_even)
  with be_val_update [of 31 bs "bs ! 31 OR c"] assms(1) show ?thesis by simp
qed

lemma set_quotient_bit_val:
  assumes "length q = 32" and "i < 256" and "be_val q = k * 2 ^ (256 - i)"
  shows "be_val (q[i div 8 := q ! (i div 8) OR push_bit (7 - i mod 8) 1]) = be_val q + 2 ^ (255 - i)"
proof -
  have e: "256 - i = Suc (255 - i)" using assms(2) by simp
  have "be_val q div 2 ^ (255 - i) mod 2 = 0" unfolding assms(3) e by simp
  then have z: "unat (q ! (i div 8)) div 2 ^ (7 - i mod 8) mod 2 = 0"
    using be_val_bit [OF assms(1,2)] by simp
  have "unat (q ! (i div 8) OR push_bit (7 - i mod 8) 1) = unat (q ! (i div 8)) + 2 ^ (7 - i mod 8)"
    using or_clear_bit [OF _ z] by simp
  moreover have lt: "i div 8 < length q" using assms(1,2) by (simp add: less_mult_imp_div_less)
  moreover have "(2 :: nat) ^ (255 - i) = 2 ^ (7 - i mod 8) * 256 ^ (31 - i div 8)"
  proof -
    have ex: "255 - i = (7 - i mod 8) + 8 * (31 - i div 8)"
      using assms lt div_mult_mod_eq [of i 8] by presburger
    show ?thesis unfolding ex power_add power_mult by simp
  qed
  ultimately show ?thesis
    using be_val_update [OF lt, of "q ! (i div 8) OR push_bit (7 - i mod 8) 1"] assms(1)
    by (simp add: add_mult_distrib)
qed

lemma divmod_step_inv:
  assumes len: "length a = 32" "length b = 32" and pos: "0 < be_val b" and i: "i < 256"
    and inv: "divmod_inv a b i st"
  shows "divmod_inv a b (Suc i) (divmod_step a b i st)"
proof -
  obtain q r where st: "st = (q, r)" by (cases st)
  define P where "P = be_val a div 2 ^ (256 - i)"
  define c where "c = be_val a div 2 ^ (255 - i) mod 2"
  have e: "256 - i = Suc (255 - i)" using i by simp
  have P': "be_val a div 2 ^ (255 - i) = 2 * P + c"
    unfolding P_def c_def e power_Suc2 div_mult2_eq by simp
  have q: "length q = 32" "be_val q = P div be_val b * 2 ^ (256 - i)"
    and r: "length r = 32" "be_val r = P mod be_val b"
    using inv by (simp_all add: divmod_inv_def st P_def)
  define bit where "bit = (drop_bit (7 - i mod 8) (a ! (i div 8)) AND 1 :: u8)"
  have bit: "unat bit = c" "unat bit < 2"
    using be_val_bit [OF len(1) i] by (simp_all add: bit_def unat_bit_of_byte c_def)
  have "2 * be_val r \<le> 2 * P + c" unfolding r using mod_less_eq_dividend [of P "be_val b"] by linarith
  also have "\<dots> \<le> be_val a" unfolding P' [symmetric] by simp
  finally have "2 * be_val r < 256 ^ 32" using be_val_bound [of a] len by simp
  then have sh: "be_val (shl1_bytes32 r) = 2 * (P mod be_val b)"
    using shl1_bytes32_val [OF r(1)] r by simp
  define r2 where "r2 = (shl1_bytes32 r)[31 := shl1_bytes32 r ! 31 OR bit]"
  have r2: "length r2 = 32" "be_val r2 = 2 * (P mod be_val b) + c"
    using set_lsb_val [of "shl1_bytes32 r" bit] bit r by (simp_all add: r2_def sh)
  have c2: "c < 2" using bit by simp
  have e': "256 - Suc i = 255 - i" by simp
  have step: "divmod_step a b i st = (if be_val b \<le> be_val r2
      then (q[i div 8 := q ! (i div 8) OR push_bit (7 - i mod 8) 1], sub_bytes32 r2 b) else (q, r2))"
    using cmp_bytes32_val [of r2 b] r2 len
    by (simp add: divmod_step_def st Let_def bit_def [symmetric] r2_def [symmetric] del: push_bit_of_1)
  show ?thesis
  proof (cases "be_val b \<le> be_val r2")
    case True
    note d = divmod_digit_step(1) [OF pos c2, of P, folded r2(2), OF True]
    have "be_val (q[i div 8 := q ! (i div 8) OR push_bit (7 - i mod 8) 1]) =
        (2 * (P div be_val b) + 1) * 2 ^ (255 - i)"
      using set_quotient_bit_val [OF q(1) i q(2)] q(2) by (simp add: e add_mult_distrib)
    then show ?thesis
      using d sub_bytes32_val [of r2 b] True r2 len q
      by (simp add: step divmod_inv_def e' P' del: push_bit_of_1)
  next
    case False
    then have "be_val r2 < be_val b" by simp
    note d = divmod_digit_step(2) [OF pos c2, of P, folded r2(2), OF this]
    show ?thesis
      using d False r2 q by (simp add: step divmod_inv_def e' P' e)
  qed
qed

lemma bytes32_divmod_inv:
  assumes "length a = 32" "length b = 32" "0 < be_val b" "n \<le> 256"
  shows "divmod_inv a b n (fold (divmod_step a b) [0..<n] (replicate 32 0, replicate 32 0))"
  using assms(4)
proof (induction n)
  case 0
  have "be_val a < 2 ^ 256" using be_val_bound [of a] assms(1) by simp
  then show ?case by (simp add: divmod_inv_def)
next
  case (Suc n)
  then show ?case using divmod_step_inv [OF assms(1-3), of n] by simp
qed

lemma bytes32_divmod_val:
  assumes "length a = 32" "length b = 32" "0 < be_val b"
    and "bytes32_divmod a b = (q, r)"
  shows "be_val q = be_val a div be_val b" "be_val r = be_val a mod be_val b"
    "length q = 32" "length r = 32"
  using bytes32_divmod_inv [OF assms(1-3), of 256] assms(4)
  by (simp_all add: bytes32_divmod_def divmod_inv_def del: upt_rec_numeral)

end
