(* ===== verification/BlockHeaders.thy ===== *)
theory BlockHeaders
  imports ByteArith
begin

unbundle bit_operations_syntax

text \<open>
  The block-header data model of \<open>src/chaintracks/types.rs\<close>: height ranges, the 80-byte
  header serialisation and its hash, the work of a compact difficulty and the cumulative
  chain-work arithmetic, together with the two 80-byte deserialisers of the bulk ingestors
  (\<open>src/chaintracks/ingestors/bulk_woc.rs\<close> and \<open>bulk_cdn.rs\<close>).

  The crates \<open>hex\<close> and \<open>sha2\<close> are not part of the program. Their functions are the fields of
  the record \<open>codec\<close>, an argument of every definition that calls them; \<open>hex_contract\<close> states
  what the program relies on.
\<close>

section \<open>Height ranges\<close>

record height_range =
  hr_low :: u32
  hr_high :: u32

definition range_new :: "u32 \<Rightarrow> u32 \<Rightarrow> height_range" where
  "range_new low high = \<lparr>hr_low = low, hr_high = high\<rparr>"

definition range_count :: "height_range \<Rightarrow> u32" where
  "range_count r = hr_high r - hr_low r + 1"

definition range_contains :: "height_range \<Rightarrow> u32 \<Rightarrow> bool" where
  "range_contains r height \<longleftrightarrow> height \<ge> hr_low r \<and> height \<le> hr_high r"

definition range_overlaps :: "height_range \<Rightarrow> height_range \<Rightarrow> bool" where
  "range_overlaps r other \<longleftrightarrow> hr_low r \<le> hr_high other \<and> hr_low other \<le> hr_high r"

definition range_merge :: "height_range \<Rightarrow> height_range \<Rightarrow> height_range option" where
  "range_merge r other =
     (let self_adj = saturating_add (hr_high r) 1;
          other_adj = saturating_add (hr_high other) 1
      in if self_adj \<ge> hr_low other \<and> other_adj \<ge> hr_low r
         then Some (range_new (min (hr_low r) (hr_low other)) (max (hr_high r) (hr_high other)))
         else None)"

definition range_subtract :: "height_range \<Rightarrow> height_range \<Rightarrow> height_range list" where
  "range_subtract r other =
     (if \<not> range_overlaps r other then [r]
      else (if hr_low other > hr_low r then [range_new (hr_low r) (hr_low other - 1)] else []) @
           (if hr_high other < hr_high r then [range_new (hr_high other + 1) (hr_high r)] else []))"

section \<open>Headers and their bytes\<close>

record codec =
  hex_encode :: "u8 list \<Rightarrow> string"
  hex_decode :: "string \<Rightarrow> u8 list option"
  sha256 :: "u8 list \<Rightarrow> u8 list"

record base_block_header =
  bb_version :: u32
  bb_previous_hash :: string
  bb_merkle_root :: string
  bb_time :: u32
  bb_bits :: u32
  bb_nonce :: u32

record block_header =
  bh_version :: u32
  bh_previous_hash :: string
  bh_merkle_root :: string
  bh_time :: u32
  bh_bits :: u32
  bh_nonce :: u32
  bh_height :: u32
  bh_hash :: string

record live_block_header =
  lh_version :: u32
  lh_previous_hash :: string
  lh_merkle_root :: string
  lh_time :: u32
  lh_bits :: u32
  lh_nonce :: u32
  lh_height :: u32
  lh_hash :: string
  lh_chain_work :: string
  lh_is_chain_tip :: bool
  lh_is_active :: bool
  lh_header_id :: "u64 option"
  lh_previous_header_id :: "u64 option"

definition block_header_from :: "live_block_header \<Rightarrow> block_header" where
  "block_header_from live =
     \<lparr>bh_version = lh_version live, bh_previous_hash = lh_previous_hash live,
      bh_merkle_root = lh_merkle_root live, bh_time = lh_time live, bh_bits = lh_bits live,
      bh_nonce = lh_nonce live, bh_height = lh_height live, bh_hash = lh_hash live\<rparr>"

text \<open>\<open>u32::to_le_bytes\<close> and \<open>u32::from_le_bytes\<close>.\<close>

definition to_le_bytes :: "u32 \<Rightarrow> u8 list" where
  "to_le_bytes w = [ucast w, ucast (drop_bit 8 w), ucast (drop_bit 16 w), ucast (drop_bit 24 w)]"

definition from_le_bytes :: "u8 list \<Rightarrow> u32" where
  "from_le_bytes bs = ucast (bs ! 0) OR push_bit 8 (ucast (bs ! 1)) OR
     push_bit 16 (ucast (bs ! 2)) OR push_bit 24 (ucast (bs ! 3))"

definition display_hex_to_internal :: "codec \<Rightarrow> string \<Rightarrow> u8 list" where
  "display_hex_to_internal C hex_str =
     (let decoded = (case hex_decode C hex_str of Some d \<Rightarrow> d | None \<Rightarrow> replicate 32 0);
          len = min (length decoded) 32
      in rev (take len decoded @ drop len (replicate 32 0)))"

definition to_bytes :: "codec \<Rightarrow> base_block_header \<Rightarrow> u8 list" where
  "to_bytes C h =
     to_le_bytes (bb_version h) @
     display_hex_to_internal C (bb_previous_hash h) @
     display_hex_to_internal C (bb_merkle_root h) @
     to_le_bytes (bb_time h) @
     to_le_bytes (bb_bits h) @
     to_le_bytes (bb_nonce h)"

definition compute_block_hash :: "codec \<Rightarrow> u8 list \<Rightarrow> string" where
  "compute_block_hash C header_bytes =
     (let first = sha256 C header_bytes; second = sha256 C first in hex_encode C (rev second))"

definition to_block_header_at_height :: "codec \<Rightarrow> base_block_header \<Rightarrow> u32 \<Rightarrow> block_header" where
  "to_block_header_at_height C h height =
     \<lparr>bh_version = bb_version h, bh_previous_hash = bb_previous_hash h,
      bh_merkle_root = bb_merkle_root h, bh_time = bb_time h, bh_bits = bb_bits h,
      bh_nonce = bb_nonce h, bh_height = height,
      bh_hash = compute_block_hash C (to_bytes C h)\<rparr>"

text \<open>The WhatsOnChain ingestor reverses both hashes into display order.\<close>

definition woc_deserialize_header :: "codec \<Rightarrow> u8 list \<Rightarrow> u32 \<Rightarrow> block_header" where
  "woc_deserialize_header C data height =
     \<lparr>bh_version = from_le_bytes (take 4 data),
      bh_previous_hash = hex_encode C (rev (take 32 (drop 4 data))),
      bh_merkle_root = hex_encode C (rev (take 32 (drop 36 data))),
      bh_time = from_le_bytes (take 4 (drop 68 data)),
      bh_bits = from_le_bytes (take 4 (drop 72 data)),
      bh_nonce = from_le_bytes (take 4 (drop 76 data)),
      bh_height = height,
      bh_hash = compute_block_hash C data\<rparr>"

text \<open>The CDN ingestor encodes the raw bytes.\<close>

definition cdn_deserialize_header :: "codec \<Rightarrow> u8 list \<Rightarrow> u32 \<Rightarrow> block_header" where
  "cdn_deserialize_header C data height =
     \<lparr>bh_version = from_le_bytes (take 4 data),
      bh_previous_hash = hex_encode C (take 32 (drop 4 data)),
      bh_merkle_root = hex_encode C (take 32 (drop 36 data)),
      bh_time = from_le_bytes (take 4 (drop 68 data)),
      bh_bits = from_le_bytes (take 4 (drop 72 data)),
      bh_nonce = from_le_bytes (take 4 (drop 76 data)),
      bh_height = height,
      bh_hash = compute_block_hash C data\<rparr>"

section \<open>Block work\<close>

definition compact_target_bytes :: "u32 \<Rightarrow> u8 list" where
  "compact_target_bytes bits =
     (let exponent = unat (drop_bit 24 bits AND 0xff);
          mantissa = bits AND 0x007fffff;
          target = replicate 32 0;
          start = 32 - exponent
      in if exponent > 0 \<and> exponent \<le> 32 \<and> start + 2 < 32
         then target[start := ucast (drop_bit 16 mantissa AND 0xff),
                     start + 1 := ucast (drop_bit 8 mantissa AND 0xff),
                     start + 2 := ucast (mantissa AND 0xff)]
         else target)"

text \<open>\<open>u128::from_be_bytes\<close> and \<open>u128::to_be_bytes\<close>.\<close>

definition u128_from_be_bytes :: "u8 list \<Rightarrow> u128" where
  "u128_from_be_bytes bs = of_nat (be_val bs)"

fun nat_to_be :: "nat \<Rightarrow> nat \<Rightarrow> u8 list" where
  "nat_to_be 0 n = []"
| "nat_to_be (Suc k) n = of_nat (n div 256 ^ k mod 256) # nat_to_be k n"

definition u128_to_be_bytes :: "u128 \<Rightarrow> u8 list" where
  "u128_to_be_bytes w = nat_to_be 16 (unat w)"

definition bytes32_to_u128pair :: "u8 list \<Rightarrow> u128 \<times> u128" where
  "bytes32_to_u128pair b = (u128_from_be_bytes (take 16 b), u128_from_be_bytes (drop 16 b))"

definition u128pair_to_bytes32 :: "u128 \<Rightarrow> u128 \<Rightarrow> u8 list" where
  "u128pair_to_bytes32 hi lo = u128_to_be_bytes hi @ u128_to_be_bytes lo"

definition div128_step :: "u128 \<Rightarrow> u64 \<Rightarrow> u128 \<times> u64 list \<Rightarrow> u128 \<times> u64 list" where
  "div128_step d limb = (\<lambda>(r, q_limbs).
     let cur = push_bit 64 r OR ucast limb in (cur mod d, q_limbs @ [ucast (cur div d)]))"

definition div128_by_u128 :: "u128 \<Rightarrow> u128 \<Rightarrow> u128 \<Rightarrow> u128 \<times> u128" where
  "div128_by_u128 hi lo d =
     (let limbs = [ucast (drop_bit 64 hi), ucast hi, ucast (drop_bit 64 lo), ucast lo];
          (r, q_limbs) = fold (div128_step d) limbs (0, []);
          q = push_bit 64 (ucast (q_limbs ! 2)) OR ucast (q_limbs ! 3)
      in (q, r))"

text \<open>\<open>None\<close> is the panic on a zero divisor.\<close>

definition div256 :: "u128 \<Rightarrow> u128 \<Rightarrow> u128 \<Rightarrow> u128 \<Rightarrow> (u128 \<times> u128) option" where
  "div256 a_hi a_lo b_hi b_lo =
     (if b_hi = 0 \<and> b_lo = 0 then None
      else if b_hi = 0 then
        (let (q_hi, r) = div128_by_u128 a_hi 0 b_lo;
             (q_lo, _) = div128_by_u128 a_lo r b_lo
         in Some (q_hi, q_lo))
      else
        (let (q, r) = bytes32_divmod (u128pair_to_bytes32 a_hi a_lo) (u128pair_to_bytes32 b_hi b_lo)
         in Some (bytes32_to_u128pair q)))"

text \<open>\<open>u128::overflowing_add\<close> with one.\<close>

definition overflowing_add1 :: "u128 \<Rightarrow> u128 \<times> bool" where
  "overflowing_add1 w = (w + 1, w = - 1)"

definition hex_digit :: "nat \<Rightarrow> char" where
  "hex_digit d = (if d < 10 then char_of (48 + d) else char_of (87 + d))"

text \<open>The format \<open>{:016x}\<close> of a 64-bit number.\<close>

fun fmt_hex :: "nat \<Rightarrow> nat \<Rightarrow> string" where
  "fmt_hex 0 n = ''''"
| "fmt_hex (Suc k) n = hex_digit (n div 16 ^ k mod 16) # fmt_hex k n"

definition fmt_016x :: "u64 \<Rightarrow> string" where
  "fmt_016x w = fmt_hex 16 (unat w)"

definition work_of_target :: "u8 list \<Rightarrow> (u128 \<times> u128) option" where
  "work_of_target target =
     (let (t_hi, t_lo) = bytes32_to_u128pair target;
          (not_hi, not_lo) = (NOT t_hi, NOT t_lo);
          (t1_lo, carry) = overflowing_add1 t_lo;
          t1_hi = t_hi + of_bool carry
      in map_option (\<lambda>(div_hi, div_lo).
           let (result_lo, carry2) = overflowing_add1 div_lo
           in (div_hi + of_bool carry2, result_lo))
         (div256 not_hi not_lo t1_hi t1_lo))"

definition calculate_work :: "u32 \<Rightarrow> string option" where
  "calculate_work bits =
     map_option (\<lambda>(result_hi, result_lo).
        fmt_016x (ucast (drop_bit 64 result_hi)) @ fmt_016x (ucast result_hi) @
        fmt_016x (ucast (drop_bit 64 result_lo)) @ fmt_016x (ucast result_lo))
     (work_of_target (compact_target_bytes bits))"

section \<open>Cumulative work\<close>

text \<open>\<open>char::is_ascii_hexdigit\<close> and the digit's value.\<close>

definition hexdigit_val :: "char \<Rightarrow> nat option" where
  "hexdigit_val c =
     (let n = of_char c in
      if 48 \<le> n \<and> n \<le> 57 then Some (n - 48)
      else if 97 \<le> n \<and> n \<le> 102 then Some (n - 87)
      else if 65 \<le> n \<and> n \<le> 70 then Some (n - 55)
      else None)"

definition is_ascii_hexdigit :: "char \<Rightarrow> bool" where
  "is_ascii_hexdigit c \<longleftrightarrow> hexdigit_val c \<noteq> None"

text \<open>\<open>u8::from_str_radix(s, 16)\<close> on a two-character string.\<close>

definition from_str_radix16 :: "string \<Rightarrow> u8 option" where
  "from_str_radix16 s =
     (case s of [c, d] \<Rightarrow>
        (case (hexdigit_val c, hexdigit_val d) of
           (Some x, Some y) \<Rightarrow> Some (of_nat (16 * x + y))
         | _ \<Rightarrow> None)
      | _ \<Rightarrow> None)"

definition pad64 :: "string \<Rightarrow> string" where
  "pad64 s = replicate (64 - length s) (CHR ''0'') @ s"

definition work_hex_to_bytes32 :: "string \<Rightarrow> u8 list" where
  "work_hex_to_bytes32 work =
     (let clean = filter is_ascii_hexdigit work;
          start = length clean - 64;
          padded = pad64 (drop start clean)
      in map (\<lambda>i. case from_str_radix16 (take 2 (drop (i * 2) padded)) of
                    Some b \<Rightarrow> b | None \<Rightarrow> 0) [0..<32])"

fun add_bytes :: "u8 list \<Rightarrow> u8 list \<Rightarrow> u8 list \<times> 16 word" where
  "add_bytes (a # as) (b # bs) =
     (case add_bytes as bs of (rs, carry) \<Rightarrow>
        let sum = ucast a + ucast b + carry in (ucast (sum AND 0xff) # rs, drop_bit 8 sum))"
| "add_bytes _ _ = ([], 0)"

definition add_work :: "codec \<Rightarrow> string \<Rightarrow> string \<Rightarrow> string" where
  "add_work C work1 work2 =
     hex_encode C (fst (add_bytes (work_hex_to_bytes32 work1) (work_hex_to_bytes32 work2)))"

definition is_more_work :: "string \<Rightarrow> string \<Rightarrow> bool" where
  "is_more_work work1 work2 \<longleftrightarrow> cmp_bytes32 (work_hex_to_bytes32 work1) (work_hex_to_bytes32 work2) > 0"

section \<open>Ranges as sets of heights\<close>

definition range_set :: "height_range \<Rightarrow> u32 set" where
  "range_set r = {h. range_contains r h}"

definition range_wf :: "height_range \<Rightarrow> bool" where
  "range_wf r \<longleftrightarrow> hr_low r \<le> hr_high r"

lemmas range_defs = range_set_def range_contains_def range_new_def range_wf_def range_overlaps_def

lemma word_le_pred_iff: "(a :: u32) < b \<Longrightarrow> h \<le> b - 1 \<longleftrightarrow> h < b"
  by (auto simp: less_eq_dec_iff)

lemma word_succ_le_iff: "(a :: u32) < b \<Longrightarrow> a + 1 \<le> h \<longleftrightarrow> a < h"
  by (auto simp: inc_less_eq_iff)

lemma unat_max_u32: "unat (- 1 :: u32) = 4294967295"
proof -
  have "(- 1 :: u32) = 4294967295" by simp
  then show ?thesis by (simp only: unat_numeral) simp
qed

lemma word_less_succ: "(b :: u32) \<noteq> - 1 \<Longrightarrow> b < b + 1"
  by (metis add.commute inc_less_eq_iff less_le order.refl add_cancel_right_right zero_neq_one)

lemma word_le_succ_sat_iff: "a \<le> saturating_add (b :: u32) 1 \<longleftrightarrow> a \<le> b \<or> (b < a \<and> a = b + 1)"
proof (cases "b = - 1")
  case True
  then show ?thesis by (simp add: saturating_add_def unat_max_u32)
next
  case False
  then have "unat b \<noteq> unat (- 1 :: u32)" by (metis word_unat_eq_iff)
  then have "unat b + 1 < 2 ^ LENGTH(32)" using unsigned_less [of b, where 'a = nat] by (simp add: unat_max_u32)
  then show ?thesis using word_less_succ [OF False]
    by (auto simp: saturating_add_def le_less dest: less_inc_imp_less_eq)
qed

lemma range_subtract_set:
  "(\<Union>p \<in> set (range_subtract r other). range_set p) = range_set r - range_set other"
  by (auto simp: range_subtract_def range_defs word_le_pred_iff word_succ_le_iff)

lemma range_merge_cases:
  "range_merge r other =
     (if (hr_low other \<le> hr_high r \<or> hr_high r < hr_low other \<and> hr_low other = hr_high r + 1) \<and>
         (hr_low r \<le> hr_high other \<or> hr_high other < hr_low r \<and> hr_low r = hr_high other + 1)
      then Some (range_new (min (hr_low r) (hr_low other)) (max (hr_high r) (hr_high other)))
      else None)"
  by (simp add: range_merge_def Let_def word_le_succ_sat_iff)

lemma range_merge_Some:
  assumes "range_wf r" "range_wf other" "range_merge r other = Some m"
  shows "range_wf m \<and> range_set m = range_set r \<union> range_set other"
  using assms
  by (auto simp: range_merge_cases range_defs min_def max_def split: if_splits
      dest: less_inc_imp_less_eq intro: inc_le simp: not_le)

lemma range_gap_not_interval:
  assumes "range_wf r" "range_wf other"
    and gap: "hr_high r < hr_low other" "hr_low other \<noteq> hr_high r + 1"
  shows "range_set m \<noteq> range_set r \<union> range_set other"
proof
  assume eq: "range_set m = range_set r \<union> range_set other"
  have "hr_high r \<in> range_set m" "hr_low other \<in> range_set m"
    using assms(1,2) unfolding eq by (simp_all add: range_defs)
  moreover have between: "hr_high r < hr_high r + 1" "hr_high r + 1 < hr_low other"
  proof -
    have "hr_high r \<noteq> - 1" using gap(1) by auto
    then show "hr_high r < hr_high r + 1" by (rule word_less_succ)
    show "hr_high r + 1 < hr_low other" using gap(2) inc_le [OF gap(1)] by (simp add: le_less)
  qed
  ultimately have "hr_high r + 1 \<in> range_set m" by (auto simp: range_defs)
  then show False unfolding eq using between by (auto simp: range_defs)
qed

lemma range_merge_None:
  assumes "range_wf r" "range_wf other" "range_merge r other = None"
  shows "range_set m \<noteq> range_set r \<union> range_set other"
  using assms range_gap_not_interval [of r other m] range_gap_not_interval [of other r m]
  by (auto simp: range_merge_cases not_le Un_commute split: if_splits)

section \<open>128-bit halves and bytes\<close>

lemma length_nat_to_be [simp]: "length (nat_to_be k n) = k"
  by (induction k) simp_all

lemma be_val_nat_to_be: "be_val (nat_to_be k n) = n mod 256 ^ k"
proof (induction k)
  case (Suc k)
  have "unat (of_nat (n div 256 ^ k mod 256) :: u8) = n div 256 ^ k mod 256"
    by (simp add: unat_of_nat)
  with Suc show ?case using mod_mult2_eq [of n "256 ^ k" 256]
    by (simp add: mult.commute)
qed simp

lemma unat_u128: "unat (w :: u128) < 256 ^ 16"
  using unsigned_less [of w, where 'a = nat] by simp

lemma be_val_u128_to_be_bytes [simp]: "be_val (u128_to_be_bytes w) = unat w"
  using unat_u128 [of w] by (simp add: u128_to_be_bytes_def be_val_nat_to_be del: nat_to_be.simps)

lemma length_u128_to_be_bytes [simp]: "length (u128_to_be_bytes w) = 16"
  by (simp add: u128_to_be_bytes_def)

lemma unat_u128_from_be_bytes: "length bs = 16 \<Longrightarrow> unat (u128_from_be_bytes bs) = be_val bs"
  using be_val_bound [of bs] by (simp add: u128_from_be_bytes_def unat_of_nat)

definition pair_val :: "u128 \<times> u128 \<Rightarrow> nat" where
  "pair_val p = unat (fst p) * 2 ^ 128 + unat (snd p)"

lemma pair_val_bytes32:
  assumes "length b = 32"
  shows "pair_val (bytes32_to_u128pair b) = be_val b"
proof -
  have "be_val b = be_val (take 16 b @ drop 16 b)" by simp
  also have "\<dots> = be_val (take 16 b) * 256 ^ 16 + be_val (drop 16 b)"
    using assms by (simp only: be_val_append) simp
  finally show ?thesis using assms
    by (simp add: pair_val_def bytes32_to_u128pair_def unat_u128_from_be_bytes)
qed

lemma bytes32_of_pair:
  "be_val (u128pair_to_bytes32 hi lo) = pair_val (hi, lo)" "length (u128pair_to_bytes32 hi lo) = 32"
  by (simp_all add: u128pair_to_bytes32_def be_val_append pair_val_def)

lemma div256_wide:
  assumes "b_hi \<noteq> 0"
  obtains q where "div256 a_hi a_lo b_hi b_lo = Some q"
    and "pair_val q = pair_val (a_hi, a_lo) div pair_val (b_hi, b_lo)"
proof -
  obtain q r where qr: "bytes32_divmod (u128pair_to_bytes32 a_hi a_lo) (u128pair_to_bytes32 b_hi b_lo) = (q, r)"
    by fastforce
  have "0 < be_val (u128pair_to_bytes32 b_hi b_lo)"
    using assms by (simp add: bytes32_of_pair pair_val_def unat_gt_0)
  note v = bytes32_divmod_val [OF bytes32_of_pair(2) bytes32_of_pair(2) this qr]
  show ?thesis
  proof
    show "div256 a_hi a_lo b_hi b_lo = Some (bytes32_to_u128pair q)"
      using assms by (simp add: div256_def qr)
    show "pair_val (bytes32_to_u128pair q) = pair_val (a_hi, a_lo) div pair_val (b_hi, b_lo)"
      using v by (simp add: pair_val_bytes32 bytes32_of_pair)
  qed
qed

lemma pair_val_bound: "pair_val p < 2 ^ 256"
proof -
  have "be_val (u128pair_to_bytes32 (fst p) (snd p)) < 256 ^ 32"
    using be_val_bound [of "u128pair_to_bytes32 (fst p) (snd p)"] by (simp add: bytes32_of_pair)
  then show ?thesis by (simp add: bytes32_of_pair)
qed

lemma unat_minus_one_u128: "unat (- 1 :: u128) = 2 ^ 128 - 1"
proof -
  have "(- 1 :: u128) = 340282366920938463463374607431768211455" by simp
  then show ?thesis by (simp only: unat_numeral) simp
qed

lemma pair_val_succ:
  assumes "pair_val (hi, lo) + 1 < 2 ^ 256" and "overflowing_add1 lo = (lo', carry)"
  shows "pair_val (hi + of_bool carry, lo') = pair_val (hi, lo) + 1"
proof (cases "lo = - 1")
  case True
  with assms have eqs: "lo' = 0" "carry" by (simp_all add: overflowing_add1_def)
  have "unat hi + 1 < 2 ^ 128"
    using assms(1) by (simp add: pair_val_def True unat_minus_one_u128)
  then have "unat (hi + 1) = unat hi + 1" using unat_plus_nowrap [of hi 1] by simp
  with eqs show ?thesis by (simp add: pair_val_def True unat_minus_one_u128)
next
  case False
  with assms have eqs: "lo' = lo + 1" "\<not> carry" by (simp_all add: overflowing_add1_def)
  have "unat lo \<noteq> 2 ^ 128 - 1"
    using False by (metis unat_minus_one_u128 word_unat_eq_iff)
  then have "unat lo + 1 < 2 ^ 128" using unat_u128 [of lo] by simp
  then have "unat (lo + 1) = unat lo + 1" using unat_plus_nowrap [of lo 1] by simp
  with eqs show ?thesis by (simp add: pair_val_def)
qed

lemma unat_not_u128: "unat (NOT w :: u128) = 2 ^ 128 - 1 - unat w"
proof -
  have "NOT w = - 1 - w" by (simp add: not_eq_complement)
  moreover have "w \<le> - 1" by simp
  ultimately show ?thesis using unat_minus_nowrap [of w "- 1"] by (simp add: unat_minus_one_u128)
qed

lemma pair_val_not: "pair_val (NOT hi, NOT lo) = 2 ^ 256 - 1 - pair_val (hi, lo)"
  using unat_u128 [of hi] unat_u128 [of lo] by (simp add: pair_val_def unat_not_u128)

section \<open>The work of a compact difficulty\<close>

text \<open>The target a compact difficulty stands for and the number a work string stands for.\<close>

definition compact_target :: "u32 \<Rightarrow> nat" where
  "compact_target bits =
     (let exponent = unat bits div 2 ^ 24; mantissa = unat bits mod 2 ^ 23
      in if 3 \<le> exponent \<and> exponent \<le> 32 then mantissa * 256 ^ (exponent - 3) else 0)"

definition work_value :: "string \<Rightarrow> nat" where
  "work_value s = foldl (\<lambda>acc c. case hexdigit_val c of Some d \<Rightarrow> acc * 16 + d | None \<Rightarrow> acc) 0 s"

lemma be_val_three_bytes:
  assumes "s + 2 < 32"
  shows "be_val ((replicate 32 0)[s := x, s + 1 := y, s + 2 := z]) =
    (unat x * 65536 + unat y * 256 + unat z) * 256 ^ (29 - s)"
proof -
  define k where "k = 29 - s"
  have k: "31 - s = k + 2" "30 - s = k + 1" "29 - s = k" using assms by (simp_all add: k_def)
  let ?a = "(replicate 32 0)[s := x]" let ?b = "?a[s + 1 := y]"
  have a: "be_val ?a = unat x * 256 ^ (k + 2)"
    using be_val_update [of s "replicate 32 0" x] assms k by simp
  have b: "be_val ?b = be_val ?a + unat y * 256 ^ (k + 1)"
    using be_val_update [of "s + 1" ?a y] assms k by simp
  have "be_val (?b[s + 2 := z]) = be_val ?b + unat z * 256 ^ k"
    using be_val_update [of "s + 2" ?b z] assms k by simp
  then show ?thesis unfolding a b k by (simp add: algebra_simps power_add)
qed

lemma nat_and_255: "(n :: nat) AND 255 = n mod 256"
  using take_bit_eq_mask [of 8 n] by (simp add: mask_eq_exp_minus_1 take_bit_eq_mod)

lemma unat_and_ff [simp]: "unat ((w :: u32) AND 0xff) = unat w mod 256"
  by (simp add: unsigned_and_eq nat_and_255)

lemma unat_byte_of: "unat (ucast ((w :: u32) AND 0xff) :: u8) = unat w mod 256"
  by (simp add: unsigned_ucast_eq take_bit_eq_mod)

lemma unat_mantissa: "unat ((w :: u32) AND 0x007fffff) = unat w mod 2 ^ 23"
  using take_bit_eq_mask [of 23 "unat w"]
  by (simp add: unsigned_and_eq mask_eq_exp_minus_1 take_bit_eq_mod)

lemma unat_drop_bit_div: "unat (drop_bit k (w :: 'a::len word)) = unat w div 2 ^ k"
  unfolding unat_drop_bit_eq by (rule drop_bit_eq_div)

lemma unat_exponent: "unat (drop_bit 24 (bits :: u32) AND 0xff) = unat bits div 2 ^ 24"
  using unsigned_less [of bits, where 'a = nat]
  by (simp only: unat_and_ff unat_drop_bit_div) (simp add: less_mult_imp_div_less)

lemma three_bytes: "(m :: nat) < 2 ^ 24 \<Longrightarrow> m div 2 ^ 16 mod 256 * 65536 + m div 2 ^ 8 mod 256 * 256 + m mod 256 = m"
proof -
  assume "m < 2 ^ 24"
  then have top: "m div 2 ^ 16 mod 256 = m div 256 div 256"
    by (simp add: less_mult_imp_div_less flip: div_mult2_eq)
  have e: "m div 2 ^ 8 = m div 256" by simp
  show ?thesis using div_mult_mod_eq [of m 256] div_mult_mod_eq [of "m div 256" 256]
    unfolding top e by linarith
qed

lemma compact_target_bytes_val: "be_val (compact_target_bytes bits) = compact_target bits"
proof -
  define e where "e = unat bits div 2 ^ 24"
  define m where "m = unat bits mod 2 ^ 23"
  have m: "m < 2 ^ 24" unfolding m_def using mod_less_divisor [of "2 ^ 23" "unat bits"] by simp
  have bytes: "unat (ucast (drop_bit 16 (bits AND 0x007fffff) AND 0xff) :: u8) = m div 2 ^ 16 mod 256"
    "unat (ucast (drop_bit 8 (bits AND 0x007fffff) AND 0xff) :: u8) = m div 2 ^ 8 mod 256"
    "unat (ucast ((bits AND 0x007fffff) AND 0xff) :: u8) = m mod 256"
    unfolding unat_byte_of unat_drop_bit_div unat_mantissa m_def by (rule refl)+
  show ?thesis
  proof (cases "3 \<le> e \<and> e \<le> 32")
    case True
    then have s: "32 - e + 2 < 32" and k: "29 - (32 - e) = e - 3" by auto
    have "compact_target_bytes bits = (replicate 32 0)
        [32 - e := ucast (drop_bit 16 (bits AND 0x007fffff) AND 0xff),
         32 - e + 1 := ucast (drop_bit 8 (bits AND 0x007fffff) AND 0xff),
         32 - e + 2 := ucast ((bits AND 0x007fffff) AND 0xff)]"
      using True by (simp only: compact_target_bytes_def Let_def unat_exponent e_def [symmetric]) auto
    then have "be_val (compact_target_bytes bits) = m * 256 ^ (e - 3)"
      unfolding be_val_three_bytes [OF s] bytes three_bytes [OF m] k
      by (simp only: be_val_three_bytes [OF s] bytes three_bytes [OF m] k)
    with True show ?thesis by (simp add: compact_target_def Let_def e_def m_def)
  next
    case False
    then have "compact_target_bytes bits = replicate 32 0"
      by (simp only: compact_target_bytes_def Let_def unat_exponent e_def [symmetric]) auto
    with False show ?thesis by (auto simp: compact_target_def Let_def e_def)
  qed
qed

lemma length_compact_target_bytes [simp]: "length (compact_target_bytes bits) = 32"
  by (simp add: compact_target_bytes_def Let_def)

lemma compact_target_bound: "compact_target bits < 2 ^ 255"
proof (cases "3 \<le> unat bits div 2 ^ 24 \<and> unat bits div 2 ^ 24 \<le> 32")
  case True
  have "unat bits mod 2 ^ 23 < 2 ^ 23" by simp
  moreover have "(256 :: nat) ^ (unat bits div 2 ^ 24 - 3) \<le> 256 ^ 29"
    using True by (intro power_increasing) auto
  ultimately have "unat bits mod 2 ^ 23 * 256 ^ (unat bits div 2 ^ 24 - 3) < 2 ^ 23 * 256 ^ 29"
    by (intro mult_less_le_imp_less) simp_all
  also have "\<dots> = 2 ^ 255" by simp
  finally show ?thesis using True by (simp only: compact_target_def Let_def) simp
next
  case False
  then show ?thesis by (auto simp: compact_target_def Let_def)
qed

lemma work_of_target_val:
  assumes len: "length t = 32" and lo: "2 ^ 128 \<le> be_val t + 1" and hi: "be_val t < 2 ^ 255"
  obtains p where "work_of_target t = Some p" and "pair_val p = 2 ^ 256 div (be_val t + 1)"
proof -
  obtain t_hi t_lo where pair: "bytes32_to_u128pair t = (t_hi, t_lo)" by (cases "bytes32_to_u128pair t")
  obtain t1_lo c where add: "overflowing_add1 t_lo = (t1_lo, c)" by (cases "overflowing_add1 t_lo")
  have T: "pair_val (t_hi, t_lo) = be_val t" using pair_val_bytes32 [OF len] pair by simp
  have T1: "pair_val (t_hi + of_bool c, t1_lo) = be_val t + 1"
    using pair_val_succ [OF _ add, of t_hi] T hi by simp
  have "t_hi + of_bool c \<noteq> 0"
    using T1 lo unat_u128 [of t1_lo] by (auto simp: pair_val_def)
  then obtain q where q: "div256 (NOT t_hi) (NOT t_lo) (t_hi + of_bool c) t1_lo = Some q"
    and qv: "pair_val q = (2 ^ 256 - 1 - be_val t) div (be_val t + 1)"
    using div256_wide [of "t_hi + of_bool c" "NOT t_hi" "NOT t_lo" t1_lo]
    unfolding pair_val_not T T1 by blast
  obtain q_hi q_lo where qq: "q = (q_hi, q_lo)" by (cases q)
  obtain r_lo c2 where add2: "overflowing_add1 q_lo = (r_lo, c2)" by (cases "overflowing_add1 q_lo")
  have "2 ^ 256 = (2 ^ 256 - 1 - be_val t) + (be_val t + 1)" using hi by simp
  then have whole: "(2 ^ 256 - 1 - be_val t) div (be_val t + 1) + 1 = 2 ^ 256 div (be_val t + 1)"
    by (metis add.commute add_eq_0_iff_both_eq_0 div_add_self2 zero_neq_one)
  have "2 ^ 256 div (be_val t + 1) \<le> 2 ^ 256 div 2 ^ 128" using lo by (intro div_le_mono2) simp_all
  then have "pair_val (q_hi, q_lo) + 1 < 2 ^ 256" using qv whole qq by simp
  then have "pair_val (q_hi + of_bool c2, r_lo) = 2 ^ 256 div (be_val t + 1)"
    using pair_val_succ [OF _ add2, of q_hi] qv whole qq by simp
  moreover have "work_of_target t = Some (q_hi + of_bool c2, r_lo)"
    by (simp add: work_of_target_def pair add q qq add2)
  ultimately show ?thesis using that by blast
qed

section \<open>Work strings\<close>

lemma hexdigit_val_hex_digit: "d < 16 \<Longrightarrow> hexdigit_val (hex_digit d) = Some d"
  by (auto simp: hexdigit_val_def hex_digit_def Let_def)

lemma is_ascii_hexdigit_cases [simp]:
  "hexdigit_val c = None \<Longrightarrow> \<not> is_ascii_hexdigit c"
  "hexdigit_val c = Some d \<Longrightarrow> is_ascii_hexdigit c"
  by (simp_all add: is_ascii_hexdigit_def)

lemma work_value_foldl:
  "foldl (\<lambda>acc c. case hexdigit_val c of Some d \<Rightarrow> acc * 16 + d | None \<Rightarrow> acc) n s =
     n * 16 ^ length (filter is_ascii_hexdigit s) + work_value s"
proof (induction s arbitrary: n)
  case (Cons c s)
  show ?case
    unfolding work_value_def foldl_Cons Cons.IH [of "case hexdigit_val c of Some d \<Rightarrow> n * 16 + d | None \<Rightarrow> n"]
      Cons.IH [of "case hexdigit_val c of Some d \<Rightarrow> 0 * 16 + d | None \<Rightarrow> 0"]
    by (auto simp: algebra_simps work_value_def split: option.splits)
qed (simp add: work_value_def)

lemma work_value_append:
  "work_value (s @ t) = work_value s * 16 ^ length (filter is_ascii_hexdigit t) + work_value t"
  using work_value_foldl [of "work_value s" t] by (simp add: work_value_def)

lemma work_value_Nil [simp]: "work_value [] = 0"
  by (simp add: work_value_def)

lemma work_value_Cons:
  "work_value (c # s) = (case hexdigit_val c of Some d \<Rightarrow> d | None \<Rightarrow> 0) *
     16 ^ length (filter is_ascii_hexdigit s) + work_value s"
  using work_value_append [of "[c]" s] by (simp add: work_value_def split: option.splits)

lemma work_value_filter: "work_value (filter is_ascii_hexdigit s) = work_value s"
proof (induction s)
  case (Cons c s)
  then show ?case
    by (cases "hexdigit_val c") (simp_all add: work_value_Cons)
qed simp

lemma fmt_hex_digits [simp]:
  "length (fmt_hex k n) = k" "filter is_ascii_hexdigit (fmt_hex k n) = fmt_hex k n"
  by (induction k) (simp_all add: is_ascii_hexdigit_def hexdigit_val_hex_digit)

lemma work_value_fmt_hex: "work_value (fmt_hex k n) = n mod 16 ^ k"
proof (induction k)
  case (Suc k)
  then show ?case using mod_mult2_eq [of n "16 ^ k" 16]
    by (simp add: work_value_Cons hexdigit_val_hex_digit mult.commute)
qed simp

lemma unat_u64_halves:
  "unat (ucast (drop_bit 64 (w :: u128)) :: u64) * 2 ^ 64 + unat (ucast w :: u64) = unat w"
proof -
  have "unat (ucast w :: u64) = unat w mod 2 ^ 64"
    by (simp add: unsigned_ucast_eq take_bit_eq_mod)
  moreover have "unat (ucast (drop_bit 64 w) :: u64) = unat w div 2 ^ 64"
    using unat_u128 [of w] unfolding unsigned_ucast_eq unat_drop_bit_div
    by (simp add: take_bit_eq_mod less_mult_imp_div_less)
  ultimately show ?thesis by simp
qed

lemma fmt_016x_facts [simp]:
  "work_value (fmt_016x w) = unat w" "length (fmt_016x w) = 16"
  "filter is_ascii_hexdigit (fmt_016x w) = fmt_016x w"
  using unsigned_less [of w, where 'a = nat]
  by (simp_all add: fmt_016x_def work_value_fmt_hex del: fmt_hex.simps)

definition fmt_pair :: "u128 \<times> u128 \<Rightarrow> string" where
  "fmt_pair p = fmt_016x (ucast (drop_bit 64 (fst p))) @ fmt_016x (ucast (fst p)) @
     fmt_016x (ucast (drop_bit 64 (snd p))) @ fmt_016x (ucast (snd p))"

lemma work_value_fmt_pair: "work_value (fmt_pair p) = pair_val p" "length (fmt_pair p) = 64"
proof -
  have "work_value (fmt_pair p) =
      (unat (ucast (drop_bit 64 (fst p)) :: u64) * 2 ^ 64 + unat (ucast (fst p) :: u64)) * 2 ^ 128 +
      (unat (ucast (drop_bit 64 (snd p)) :: u64) * 2 ^ 64 + unat (ucast (snd p) :: u64))"
    by (simp add: fmt_pair_def work_value_append)
  then show "work_value (fmt_pair p) = pair_val p" unfolding unat_u64_halves pair_val_def .
qed (simp add: fmt_pair_def)

lemma calculate_work_alt: "calculate_work bits = map_option fmt_pair (work_of_target (compact_target_bytes bits))"
  unfolding calculate_work_def fmt_pair_def case_prod_beta' by (rule refl)

lemma calculate_work_wide:
  assumes "2 ^ 128 \<le> compact_target bits + 1"
  obtains w where "calculate_work bits = Some w" "length w = 64"
    "work_value w = 2 ^ 256 div (compact_target bits + 1)"
  using work_of_target_val [of "compact_target_bytes bits"] assms compact_target_bound [of bits]
  unfolding compact_target_bytes_val calculate_work_alt
  by (metis length_compact_target_bytes option.map(2) work_value_fmt_pair)

lemma hexdigit_val_less: "hexdigit_val c = Some d \<Longrightarrow> d < 16"
  by (auto simp: hexdigit_val_def Let_def split: if_splits)

definition pair_byte :: "string \<Rightarrow> nat \<Rightarrow> u8" where
  "pair_byte s i = (case from_str_radix16 (take 2 (drop (i * 2) s)) of Some b \<Rightarrow> b | None \<Rightarrow> 0)"

lemma pair_bytes_val:
  "length s = 2 * n \<Longrightarrow> \<forall>c \<in> set s. is_ascii_hexdigit c \<Longrightarrow>
     be_val (map (pair_byte s) [0..<n]) = work_value s"
proof (induction n arbitrary: s)
  case (Suc n)
  obtain c d t where s: "s = c # d # t"
    using Suc.prems(1) by (metis Suc_length_conv add_Suc mult_2 mult_Suc_right numeral_2_eq_2)
  obtain x y where xy: "hexdigit_val c = Some x" "hexdigit_val d = Some y"
    using Suc.prems(2) by (auto simp: s is_ascii_hexdigit_def)
  have lt: "16 * x + y < 256" using hexdigit_val_less [OF xy(1)] hexdigit_val_less [OF xy(2)] by simp
  have t: "length t = 2 * n" "\<forall>c \<in> set t. is_ascii_hexdigit c" using Suc.prems by (simp_all add: s)
  define b where "b = (of_nat (16 * x + y) :: u8)"
  have b: "unat b = 16 * x + y" using lt by (simp add: b_def unat_of_nat del: of_nat_add)
  have m: "map (pair_byte s) [0..<Suc n] = b # map (pair_byte t) [0..<n]"
    by (simp only: map_upt_Suc) (simp add: pair_byte_def s from_str_radix16_def xy b_def)
  have p: "(16 :: nat) ^ (2 * n) = 256 ^ n" by (simp add: power_mult)
  show ?case unfolding m be_val.simps b Suc.IH [OF t] using t p
    by (simp add: s xy work_value_Cons algebra_simps)
qed simp

lemma work_value_bound: "\<forall>c \<in> set s. is_ascii_hexdigit c \<Longrightarrow> work_value s < 16 ^ length s"
proof (induction s)
  case (Cons c s)
  obtain d where d: "hexdigit_val c = Some d" using Cons.prems by (auto simp: is_ascii_hexdigit_def)
  have "work_value (c # s) < (d + 1) * 16 ^ length s" using Cons d by (simp add: work_value_Cons)
  also have "\<dots> \<le> 16 * 16 ^ length s"
    using hexdigit_val_less [OF d] by (intro mult_le_mono1) simp
  finally show ?case by simp
qed simp

lemma work_value_drop:
  assumes "\<forall>c \<in> set s. is_ascii_hexdigit c"
  shows "work_value (drop (length s - k) s) = work_value s mod 16 ^ k"
proof -
  let ?n = "length s - k"
  have d: "\<forall>c \<in> set (drop ?n s). is_ascii_hexdigit c" using assms by (auto dest: in_set_dropD)
  then have f: "filter is_ascii_hexdigit (drop ?n s) = drop ?n s" by simp
  have len: "length (drop ?n s) \<le> k" by simp
  have "work_value (drop ?n s) < 16 ^ k"
    using work_value_bound [OF d] power_increasing [OF len, of "16 :: nat"] by linarith
  moreover have eq: "work_value s = work_value (take ?n s) * 16 ^ length (drop ?n s) + work_value (drop ?n s)"
    using work_value_append [of "take ?n s" "drop ?n s"] unfolding f by simp
  moreover have "work_value (take ?n s) * 16 ^ length (drop ?n s) = work_value (take ?n s) * 16 ^ k"
    by (cases "k \<le> length s") simp_all
  ultimately show ?thesis by (metis mod_less mod_mult_self3)
qed

lemma pad64_facts:
  assumes "\<forall>c \<in> set s. is_ascii_hexdigit c" "length s \<le> 64"
  shows "work_value (pad64 s) = work_value s" "length (pad64 s) = 64"
    "\<forall>c \<in> set (pad64 s). is_ascii_hexdigit c"
proof -
  have z: "hexdigit_val CHR ''0'' = Some 0" by (simp add: hexdigit_val_def)
  have "work_value (replicate n CHR ''0'') = 0" for n
    by (induction n) (simp_all add: work_value_Cons z)
  then show "work_value (pad64 s) = work_value s" by (simp add: pad64_def work_value_append)
  show "length (pad64 s) = 64" "\<forall>c \<in> set (pad64 s). is_ascii_hexdigit c"
    using assms z by (auto simp: pad64_def)
qed

lemma work_hex_val: "be_val (work_hex_to_bytes32 s) = work_value s mod 2 ^ 256"
proof -
  let ?c = "filter is_ascii_hexdigit s"
  let ?t = "drop (length ?c - 64) ?c"
  have t: "\<forall>c \<in> set ?t. is_ascii_hexdigit c" "length ?t \<le> 64" by (auto dest: in_set_dropD)
  have eq: "work_hex_to_bytes32 s = map (pair_byte (pad64 ?t)) [0..<32]"
    by (simp only: work_hex_to_bytes32_def Let_def pair_byte_def [abs_def])
  have len: "length (pad64 ?t) = 2 * 32" using pad64_facts(2) [OF t] by simp
  have "be_val (work_hex_to_bytes32 s) = work_value (pad64 ?t)"
    unfolding eq by (rule pair_bytes_val [OF len pad64_facts(3) [OF t]])
  also have "\<dots> = work_value ?t" by (rule pad64_facts [OF t])
  also have "\<dots> = work_value s mod 16 ^ 64"
    using work_value_drop [of ?c 64] by (simp add: work_value_filter)
  finally show ?thesis by simp
qed

lemma length_work_hex [simp]: "length (work_hex_to_bytes32 s) = 32"
  by (simp add: work_hex_to_bytes32_def Let_def)

lemma is_more_work_val: "is_more_work w v \<longleftrightarrow> work_value v mod 2 ^ 256 < work_value w mod 2 ^ 256"
  using cmp_bytes32_val [of "work_hex_to_bytes32 w" "work_hex_to_bytes32 v"]
  by (auto simp: is_more_work_def work_hex_val simp del: power_numeral)

lemma add_byte:
  fixes a b :: u8 and c :: "16 word"
  assumes "unat c < 2"
  defines "s \<equiv> ucast a + ucast b + c :: 16 word"
  shows "unat (ucast (s AND 0xff) :: u8) + 256 * unat (drop_bit 8 s) = unat a + unat b + unat c"
    and "unat (drop_bit 8 s) < 2"
proof -
  have u: "unat (ucast a :: 16 word) = unat a" "unat (ucast b :: 16 word) = unat b"
    using less_trans [OF unat_u8 [of a], of 65536] less_trans [OF unat_u8 [of b], of 65536]
    by (simp_all add: unsigned_ucast_eq take_bit_eq_mod)
  have "unat (ucast a + ucast b :: 16 word) = unat a + unat b"
    using unat_plus_nowrap [of "ucast a :: 16 word" "ucast b"] u unat_u8 [of a] unat_u8 [of b] by simp
  then have s: "unat s = unat a + unat b + unat c"
    using unat_plus_nowrap [of "ucast a + ucast b :: 16 word" c] assms unat_u8 [of a] unat_u8 [of b]
    by simp
  have "unat (ucast (s AND 0xff) :: u8) = unat s mod 256"
    by (simp add: unsigned_ucast_eq unsigned_and_eq nat_and_255 take_bit_eq_mod)
  moreover have d: "unat (drop_bit 8 s) = unat s div 256" unfolding unat_drop_bit_div by simp
  ultimately show "unat (ucast (s AND 0xff) :: u8) + 256 * unat (drop_bit 8 s) = unat a + unat b + unat c"
    using s by simp
  show "unat (drop_bit 8 s) < 2"
    unfolding d s using assms(1) unat_u8 [of a] unat_u8 [of b]
    by (intro less_mult_imp_div_less) linarith
qed

lemma add_bytes_val:
  "length as = length bs \<Longrightarrow> add_bytes as bs = (rs, c) \<Longrightarrow>
     unat c < 2 \<and> length rs = length as \<and>
     be_val rs + unat c * 256 ^ length as = be_val as + be_val bs"
proof (induction as bs arbitrary: rs c rule: add_bytes.induct)
  case (1 a as b bs)
  obtain rs0 c0 where rec: "add_bytes as bs = (rs0, c0)" by (cases "add_bytes as bs")
  have len: "length as = length bs" using "1.prems"(1) by simp
  note IH = "1.IH" [OF len rec]
  note byte = add_byte [of c0 a b]
  define s where "s = (ucast a + ucast b + c0 :: 16 word)"
  have eqs: "rs = ucast (s AND 0xff) # rs0" "c = drop_bit 8 s"
    using "1.prems"(2) by (simp_all add: rec s_def Let_def)
  have "(unat (ucast (s AND 0xff) :: u8) + 256 * unat c) * 256 ^ length as =
      (unat a + unat b + unat c0) * 256 ^ length as"
    using byte IH unfolding s_def eqs by simp
  then show ?case using IH byte len unfolding s_def eqs by (simp add: algebra_simps)
qed simp_all

section \<open>What the program relies on of the \<open>hex\<close> crate\<close>

definition hex2 :: "u8 \<Rightarrow> string" where
  "hex2 b = [hex_digit (unat b div 16), hex_digit (unat b mod 16)]"

text \<open>
  \<open>hex::encode\<close> writes two lowercase digits per byte, most significant first, and
  \<open>hex::decode\<close> reads back what it wrote.
\<close>

definition hex_contract :: "codec \<Rightarrow> bool" where
  "hex_contract C \<longleftrightarrow>
     (\<forall>bs. hex_encode C bs = concat (map hex2 bs)) \<and> (\<forall>bs. hex_decode C (hex_encode C bs) = Some bs)"

fun hex_pairs :: "string \<Rightarrow> u8 list option" where
  "hex_pairs [] = Some []"
| "hex_pairs [c] = None"
| "hex_pairs (c # d # s) =
     (case (from_str_radix16 [c, d], hex_pairs s) of
        (Some b, Some bs) \<Rightarrow> Some (b # bs)
      | _ \<Rightarrow> None)"

text \<open>A codec with the hexadecimal functions written out and a placeholder digest.\<close>

definition plain_codec :: codec where
  "plain_codec = \<lparr>hex_encode = \<lambda>bs. concat (map hex2 bs), hex_decode = hex_pairs,
     sha256 = \<lambda>bs. nat_to_be 32 (be_val bs)\<rparr>"

lemma unat_u8_nibbles: "unat (b :: u8) div 16 < 16" "16 * (unat b div 16) + unat b mod 16 = unat b"
  using unat_u8 [of b] by (simp_all add: less_mult_imp_div_less)

lemma from_str_radix16_hex2: "from_str_radix16 (hex2 b) = Some b"
  using unat_u8_nibbles [of b]
  by (simp add: from_str_radix16_def hex2_def hexdigit_val_hex_digit del: of_nat_add)

lemma hex_contract_plain_codec: "hex_contract plain_codec"
proof -
  have "hex_pairs (concat (map hex2 bs)) = Some bs" for bs
    by (induction bs)
      (simp_all add: hex2_def from_str_radix16_hex2 [unfolded hex2_def])
  then show ?thesis by (simp add: hex_contract_def plain_codec_def)
qed

lemma work_value_hex2: "work_value (concat (map hex2 bs)) = be_val bs"
    "filter is_ascii_hexdigit (concat (map hex2 bs)) = concat (map hex2 bs)"
    "length (concat (map hex2 bs)) = 2 * length bs"
proof -
  have d: "hexdigit_val (hex_digit (unat b div 16)) = Some (unat b div 16)"
      "hexdigit_val (hex_digit (unat b mod 16)) = Some (unat b mod 16)" for b :: u8
    using unat_u8_nibbles [of b] by (simp_all add: hexdigit_val_hex_digit)
  show len: "length (concat (map hex2 bs)) = 2 * length bs" for bs
    by (induction bs) (simp_all add: hex2_def)
  show f: "filter is_ascii_hexdigit (concat (map hex2 bs)) = concat (map hex2 bs)" for bs
    by (induction bs) (simp_all add: hex2_def d)
  show "work_value (concat (map hex2 bs)) = be_val bs"
  proof (induction bs)
    case (Cons b bs)
    have "(unat b div 16) * (16 * 256 ^ length bs) + unat b mod 16 * 256 ^ length bs =
        (16 * (unat b div 16) + unat b mod 16) * 256 ^ length bs"
      by (simp only: ring_distribs mult.assoc mult.left_commute)
    also have "\<dots> = unat b * 256 ^ length bs" unfolding unat_u8_nibbles ..
    finally have "(unat b div 16) * (16 * 256 ^ length bs) + unat b mod 16 * 256 ^ length bs =
        unat b * 256 ^ length bs" .
    moreover have "concat (map hex2 (b # bs)) =
        hex_digit (unat b div 16) # hex_digit (unat b mod 16) # concat (map hex2 bs)"
      by (simp add: hex2_def)
    ultimately show ?case using Cons f [of bs] len [of bs]
      by (simp only: work_value_Cons) (simp add: d power_mult)
  qed simp
qed

lemma add_work_val:
  assumes "hex_contract C"
  shows "work_value (add_work C w v) = (work_value w + work_value v) mod 2 ^ 256"
    and "length (add_work C w v) = 64"
proof -
  obtain rs c where r: "add_bytes (work_hex_to_bytes32 w) (work_hex_to_bytes32 v) = (rs, c)" by fastforce
  note v = add_bytes_val [OF _ r, simplified]
  have e: "add_work C w v = concat (map hex2 rs)"
    using assms by (simp add: add_work_def r hex_contract_def)
  show "length (add_work C w v) = 64" unfolding e work_value_hex2(3) using v by simp
  have bound: "be_val rs < 2 ^ 256" using be_val_bound [of rs] v by simp
  have "be_val rs + unat c * 2 ^ 256 = work_value w mod 2 ^ 256 + work_value v mod 2 ^ 256"
    using v unfolding work_hex_val by simp
  then have "(work_value w + work_value v) mod 2 ^ 256 = (be_val rs + unat c * 2 ^ 256) mod 2 ^ 256"
    by (simp only: mod_add_eq)
  also have "\<dots> = be_val rs" using bound by (simp only: mod_mult_self1) (rule mod_less)
  finally show "work_value (add_work C w v) = (work_value w + work_value v) mod 2 ^ 256"
    unfolding e work_value_hex2(1) ..
qed

section \<open>Header bytes\<close>

lemma length_to_le_bytes [simp]: "length (to_le_bytes w) = 4"
  by (simp add: to_le_bytes_def)

lemma length_display_hex_to_internal [simp]: "length (display_hex_to_internal C s) = 32"
  by (simp add: display_hex_to_internal_def Let_def)

lemma length_to_bytes: "length (to_bytes C h) = 80"
  by (simp add: to_bytes_def)

lemma to_le_from_le: "length bs = 4 \<Longrightarrow> to_le_bytes (from_le_bytes bs) = bs"
proof -
  assume "length bs = 4"
  then obtain a b c d where bs: "bs = [a, b, c, d]"
    by (auto simp: length_Suc_conv numeral_eq_Suc)
  have "ucast (from_le_bytes bs) = a" "ucast (drop_bit 8 (from_le_bytes bs)) = b"
    "ucast (drop_bit 16 (from_le_bytes bs)) = c" "ucast (drop_bit 24 (from_le_bytes bs)) = d"
    by (rule bit_word_eqI; auto simp: bs from_le_bytes_def bit_simps dest: bit_imp_le_length)+
  then show ?thesis by (simp add: to_le_bytes_def bs)
qed

definition base_of_header :: "block_header \<Rightarrow> base_block_header" where
  "base_of_header header =
     \<lparr>bb_version = bh_version header, bb_previous_hash = bh_previous_hash header,
      bb_merkle_root = bh_merkle_root header, bb_time = bh_time header, bb_bits = bh_bits header,
      bb_nonce = bh_nonce header\<rparr>"

lemma display_hex_of_encode:
  assumes "hex_contract C" "length bs = 32"
  shows "display_hex_to_internal C (hex_encode C bs) = rev bs"
proof -
  have "hex_decode C (hex_encode C bs) = Some bs" using assms(1) unfolding hex_contract_def by blast
  then show ?thesis using assms(2) by (simp add: display_hex_to_internal_def)
qed

lemma split_header:
  assumes "length data = 80"
  shows "data = take 4 data @ take 32 (drop 4 data) @ take 32 (drop 36 data) @ take 4 (drop 68 data) @
    take 4 (drop 72 data) @ take 4 (drop 76 data)"
proof -
  have s: "drop n data = take k (drop n data) @ drop (n + k) data" for n k
    by (metis append_take_drop_id drop_drop add.commute)
  have "data = take 4 data @ drop 4 data" by simp
  also have "drop 4 data = take 32 (drop 4 data) @ drop 36 data" using s [of 4 32] by simp
  also have "drop 36 data = take 32 (drop 36 data) @ drop 68 data" using s [of 36 32] by simp
  also have "drop 68 data = take 4 (drop 68 data) @ drop 72 data" using s [of 68 4] by simp
  also have "drop 72 data = take 4 (drop 72 data) @ drop 76 data" using s [of 72 4] by simp
  also have "drop 76 data = take 4 (drop 76 data)" using assms by simp
  finally show ?thesis .
qed

lemma woc_to_bytes:
  assumes "hex_contract C" "length data = 80"
  shows "to_bytes C (base_of_header (woc_deserialize_header C data height)) = data"
  using assms split_header [OF assms(2)]
  by (simp add: to_bytes_def base_of_header_def woc_deserialize_header_def display_hex_of_encode to_le_from_le)

lemma cdn_to_bytes:
  assumes "hex_contract C" "length data = 80"
  shows "to_bytes C (base_of_header (cdn_deserialize_header C data height)) =
    take 4 data @ rev (take 32 (drop 4 data)) @ rev (take 32 (drop 36 data)) @ take 4 (drop 68 data) @
    take 4 (drop 72 data) @ take 4 (drop 76 data)"
  using assms
  by (simp add: to_bytes_def base_of_header_def cdn_deserialize_header_def display_hex_of_encode to_le_from_le)

section \<open>Properties\<close>

text \<open>
  \<open>HeightRange::subtract\<close> returns pieces that cover exactly the heights of the range that
  are not in the subtracted one, for every pair of ranges.\<close>

theorem range_subtract_exact:
  "(\<Union>p \<in> set (range_subtract r other). {h. range_contains p h}) =
     {h. range_contains r h \<and> \<not> range_contains other h}"
  using range_subtract_set [of r other] by (simp add: range_set_def set_diff_eq)

text \<open>
  \<open>HeightRange::merge\<close> of two non-empty ranges returns their union when that union is a
  contiguous range and nothing otherwise, also at the top of the 32-bit heights.\<close>

theorem range_merge_union:
  assumes "hr_low r \<le> hr_high r" and "hr_low other \<le> hr_high other"
  shows "(case range_merge r other of
      Some m \<Rightarrow> {h. range_contains m h} = {h. range_contains r h \<or> range_contains other h}
    | None \<Rightarrow> (\<nexists>m. {h. range_contains m h} = {h. range_contains r h \<or> range_contains other h}))"
proof -
  have wf: "range_wf r" "range_wf other" using assms by (simp_all add: range_wf_def)
  show ?thesis
    using range_merge_Some [OF wf] range_merge_None [OF wf]
    by (cases "range_merge r other") (auto simp: range_set_def Un_def)
qed

theorem range_merge_union_witness:
  "\<exists>m. range_merge \<lparr>hr_low = 10, hr_high = 20\<rparr> \<lparr>hr_low = 21, hr_high = 30\<rparr> = Some m \<and>
     {h. range_contains m h} = {h. range_contains \<lparr>hr_low = 10, hr_high = 20\<rparr> h \<or>
       range_contains \<lparr>hr_low = 21, hr_high = 30\<rparr> h}"
  using range_merge_union [of "\<lparr>hr_low = 10, hr_high = 20\<rparr>" "\<lparr>hr_low = 21, hr_high = 30\<rparr>"]
  by (simp add: range_merge_def range_new_def saturating_add_def min_def max_def)

text \<open>
  The bit-by-bit long division on 32-byte big-endian arrays returns the quotient and the
  remainder of the numbers the arrays stand for.\<close>

theorem bytes32_divmod_correct:
  assumes "length a = 32" and "length b = 32" and "0 < be_val b" and "bytes32_divmod a b = (q, r)"
  shows "be_val q = be_val a div be_val b \<and> be_val r = be_val a mod be_val b \<and>
    length q = 32 \<and> length r = 32"
  using bytes32_divmod_val [OF assms] by simp

theorem bytes32_divmod_correct_witness:
  "\<exists>q r. bytes32_divmod (replicate 31 0 @ [200]) (replicate 31 0 @ [7]) = (q, r) \<and>
     be_val q = 28 \<and> be_val r = 4"
proof -
  obtain q r where qr: "bytes32_divmod (replicate 31 0 @ [200]) (replicate 31 0 @ [7]) = (q, r)"
    by fastforce
  have "be_val (replicate 31 0 @ [200]) = 200" "be_val (replicate 31 0 @ [7]) = 7"
    by (simp_all add: be_val_append)
  then show ?thesis using bytes32_divmod_correct [OF _ _ _ qr] qr by simp
qed

text \<open>
  C32: For every compact difficulty whose target needs more than 128 bits, which all block
  difficulties up to now do, the computed work is a 64-digit string for the whole part of
  two to the 256 divided by the target plus one.\<close>

theorem calculate_work_correct:
  assumes "2 ^ 128 \<le> compact_target bits + 1"
  shows "\<exists>w. calculate_work bits = Some w \<and> length w = 64 \<and>
    work_value w = 2 ^ 256 div (compact_target bits + 1)"
  using calculate_work_wide [OF assms] by blast

theorem calculate_work_correct_witness:
  "\<exists>w. calculate_work 0x1d00ffff = Some w \<and> length w = 64 \<and> work_value w = 0x100010001"
proof -
  have "compact_target 0x1d00ffff = 0xffff * 256 ^ 26"
    by (simp add: compact_target_def)
  then show ?thesis using calculate_work_correct [of "0x1d00ffff"] by simp
qed

lemma div256_None_iff: "div256 a_hi a_lo b_hi b_lo = None \<longleftrightarrow> b_hi = 0 \<and> b_lo = 0"
  by (simp add: div256_def Let_def case_prod_beta)

lemma narrow_target_pair:
  assumes "compact_target bits < 2 ^ 128"
  shows "bytes32_to_u128pair (compact_target_bytes bits) = (0, of_nat (compact_target bits))"
proof -
  obtain hi lo where p: "bytes32_to_u128pair (compact_target_bytes bits) = (hi, lo)" by fastforce
  then have v: "unat hi * 2 ^ 128 + unat lo = compact_target bits"
    using pair_val_bytes32 [of "compact_target_bytes bits"]
    by (simp add: compact_target_bytes_val pair_val_def)
  with assms have "unat hi * 2 ^ 128 < 1 * 2 ^ 128" by linarith
  then have "unat hi = 0" unfolding mult_less_cancel2 by simp
  with v have "hi = 0" and lo: "unat lo = compact_target bits" by (simp_all add: unat_eq_zero)
  moreover have "lo = of_nat (compact_target bits)"
    using assms lo by (simp add: word_unat_eq_iff unat_of_nat)
  ultimately show ?thesis using p by simp
qed

lemma calculate_work_Some: "calculate_work bits \<noteq> None"
proof -
  obtain t_hi t_lo where pair: "bytes32_to_u128pair (compact_target_bytes bits) = (t_hi, t_lo)"
    by fastforce
  obtain t1_lo c where add: "overflowing_add1 t_lo = (t1_lo, c)" by fastforce
  have "pair_val (t_hi, t_lo) = compact_target bits"
    using pair_val_bytes32 [of "compact_target_bytes bits"] pair by (simp add: compact_target_bytes_val)
  then have "pair_val (t_hi + of_bool c, t1_lo) = compact_target bits + 1"
    using pair_val_succ [OF _ add, of t_hi] compact_target_bound [of bits] by simp
  then have "\<not> (t_hi + of_bool c = 0 \<and> t1_lo = 0)" by (auto simp: pair_val_def)
  then show ?thesis
    by (simp add: calculate_work_def work_of_target_def pair add div256_None_iff Let_def)
qed

text \<open>
  The work computation never divides by zero: it returns a work string for every one of
  the 32-bit compact difficulties.\<close>

theorem calculate_work_never_panics: "\<exists>w. calculate_work bits = Some w"
  using calculate_work_Some [of bits] by blast

text \<open>The limbs of the fast path are a long division in base two to the 64 while the divisor fits one limb.\<close>

lemma join_limb:
  fixes r :: u128 and limb :: u64
  assumes "unat r < 2 ^ 64"
  shows "unat (push_bit 64 r OR ucast limb) = unat r * 2 ^ 64 + unat limb"
proof -
  have limb: "unat limb < 2 ^ 64" using unsigned_less [of limb, where ?'a = nat] by simp
  have or: "push_bit 64 r OR (ucast limb :: u128) = push_bit 64 r + ucast limb"
    by (rule disjunctive_add [symmetric]) (auto simp: bit_simps dest: bit_imp_le_length)
  have "unat (ucast limb :: u128) = unat limb"
    unfolding unsigned_ucast_eq using limb by (simp add: take_bit_nat_eq_self_iff)
  moreover have "unat (push_bit 64 r) = unat r * 2 ^ 64"
    using assms by (simp add: push_bit_eq_mult unat_word_ariths)
  ultimately show ?thesis using assms limb unfolding or by (simp add: unat_word_ariths)
qed

lemma div128_step_val:
  fixes d r :: u128 and limb :: u64
  assumes "unat d \<le> 2 ^ 64" "r < d"
  obtains r' q :: u128 where "div128_step d limb (r, qs) = (r', qs @ [ucast q])" "r' < d"
    "unat r * 2 ^ 64 + unat limb = unat (ucast q :: u64) * unat d + unat r'"
proof -
  define cur where "cur = push_bit 64 r OR (ucast limb :: u128)"
  have r: "unat r < unat d" using assms(2) by (simp add: word_less_nat_alt)
  have limb: "unat limb < 2 ^ 64" using unsigned_less [of limb, where ?'a = nat] by simp
  have cur: "unat cur = unat r * 2 ^ 64 + unat limb"
    unfolding cur_def using r assms(1) by (intro join_limb) linarith
  have "unat cur < unat d * 2 ^ 64"
    using mult_le_mono1 [of "Suc (unat r)" "unat d" "2 ^ 64"] r limb unfolding cur by simp
  then have "unat (cur div d) < 2 ^ 64" using r by (simp add: unat_div less_mult_imp_div_less mult.commute)
  then have q: "unat (ucast (cur div d) :: u64) = unat cur div unat d"
    unfolding unsigned_ucast_eq by (simp add: take_bit_nat_eq_self_iff unat_div)
  show thesis
  proof
    show "div128_step d limb (r, qs) = (cur mod d, qs @ [ucast (cur div d)])"
      by (simp add: div128_step_def cur_def Let_def)
    show "cur mod d < d" using assms(2) by (intro word_mod_less_divisor) (auto simp: word_gt_0)
    show "unat r * 2 ^ 64 + unat limb = unat (ucast (cur div d) :: u64) * unat d + unat (cur mod d)"
      unfolding q cur [symmetric] by (simp add: unat_mod)
  qed
qed

lemma join_halves: "unat (push_bit 64 (ucast h) OR ucast l :: u128) = unat (h :: u64) * 2 ^ 64 + unat (l :: u64)"
proof -
  have "unat h < 2 ^ 64" using unsigned_less [of h, where ?'a = nat] by simp
  then have "unat (ucast h :: u128) = unat h"
    unfolding unsigned_ucast_eq by (simp add: take_bit_nat_eq_self_iff)
  then show ?thesis using \<open>unat h < 2 ^ 64\<close> join_limb [of "ucast h" l] by simp
qed

lemma div128_by_u128_val:
  assumes "unat d \<le> 2 ^ 64" "0 < d"
  obtains q r where "div128_by_u128 hi lo d = (q, r)"
    "unat q = (unat hi * 2 ^ 128 + unat lo) div unat d mod 2 ^ 128" "unat r = (unat hi * 2 ^ 128 + unat lo) mod unat d"
proof -
  let ?l3 = "ucast (drop_bit 64 hi) :: u64" and ?l2 = "ucast hi :: u64" and ?l1 = "ucast (drop_bit 64 lo) :: u64"
    and ?l0 = "ucast lo :: u64"
  obtain r3 q3 where s3: "div128_step d ?l3 (0, []) = (r3, [ucast (q3 :: u128)])" "r3 < d"
      "unat (0 :: u128) * 2 ^ 64 + unat ?l3 = unat (ucast q3 :: u64) * unat d + unat r3"
    by (rule div128_step_val [OF assms, of ?l3 "[]"]) auto
  obtain r2 q2 where s2: "div128_step d ?l2 (r3, [ucast q3]) = (r2, [ucast q3, ucast (q2 :: u128)])" "r2 < d"
      "unat r3 * 2 ^ 64 + unat ?l2 = unat (ucast q2 :: u64) * unat d + unat r2"
    by (rule div128_step_val [OF assms(1) s3(2), of ?l2 "[ucast q3]"]) auto
  obtain r1 q1 where s1: "div128_step d ?l1 (r2, [ucast q3, ucast q2]) = (r1, [ucast q3, ucast q2, ucast (q1 :: u128)])"
      "r1 < d" "unat r2 * 2 ^ 64 + unat ?l1 = unat (ucast q1 :: u64) * unat d + unat r1"
    by (rule div128_step_val [OF assms(1) s2(2), of ?l1 "[ucast q3, ucast q2]"]) auto
  obtain r0 q0 where s0: "div128_step d ?l0 (r1, [ucast q3, ucast q2, ucast q1]) =
        (r0, [ucast q3, ucast q2, ucast q1, ucast (q0 :: u128)])"
      "r0 < d" "unat r1 * 2 ^ 64 + unat ?l0 = unat (ucast q0 :: u64) * unat d + unat r0"
    by (rule div128_step_val [OF assms(1) s1(2), of ?l0 "[ucast q3, ucast q2, ucast q1]"]) auto
  let ?q = "push_bit 64 (ucast (ucast q1 :: u64)) OR ucast (ucast q0 :: u64) :: u128"
  let ?Q = "(unat (ucast q3 :: u64) * 2 ^ 64 + unat (ucast q2 :: u64)) * 2 ^ 128 + unat ?q"
  have "div128_by_u128 hi lo d = (?q, r0)"
    using s3(1) s2(1) s1(1) s0(1) by (simp add: div128_by_u128_def)
  moreover have N: "unat hi * 2 ^ 128 + unat lo = ?Q * unat d + unat r0"
    using s3(3) s2(3) s1(3) s0(3) unfolding unat_u64_halves [symmetric, of hi] unat_u64_halves [symmetric, of lo] join_halves
    by (simp add: algebra_simps)
  moreover have "unat r0 < unat d" using s0(2) by (simp add: word_less_nat_alt)
  then have "(?Q * unat d + unat r0) div unat d = ?Q" "(?Q * unat d + unat r0) mod unat d = unat r0"
    by (simp_all only: div_mult_self3 mod_mult_self3 div_less mod_less add_0_right)
  moreover have "?Q mod 2 ^ 128 = unat ?q mod 2 ^ 128" by (rule mod_mult_self3)
  moreover have "unat ?q mod 2 ^ 128 = unat ?q" using unsigned_less [of ?q, where ?'a = nat] by simp
  ultimately show thesis by (intro that) (simp_all only:)
qed

lemma narrow_work_low:
  fixes d x r q :: nat
  assumes "0 < d" "r < d" "d \<le> 2 ^ 128" "q = (x + r) div d"
  shows "(q + 1) mod 2 ^ 128 \<noteq> x div d mod 2 ^ 128"
proof -
  have "q = x div d \<or> q = x div d + 1"
  proof -
    have "x div d \<le> q" unfolding assms(4) by (rule div_le_mono) simp
    moreover have "q \<le> (x + d) div d" unfolding assms(4) using assms(2) by (intro div_le_mono) simp
    moreover have "(x + d) div d = x div d + 1" using assms(1) div_add_self2 [of d x] by simp
    ultimately show ?thesis by linarith
  qed
  then obtain e where e: "q + 1 = x div d + e" "e = 1 \<or> e = 2" by auto
  show ?thesis
  proof
    assume "(q + 1) mod 2 ^ 128 = x div d mod 2 ^ 128"
    then have "(2 ^ 128 :: nat) dvd q + 1 - x div d" using e(1) mod_eq_dvd_iff_nat [of "x div d" "q + 1"] by simp
    then have "(2 ^ 128 :: nat) dvd e" using e(1) by simp
    then show False using e(2) by (auto dest!: dvd_imp_le)
  qed
qed

text \<open>
  C35: For every compact difficulty whose target is below two to the 64 the computed work is wrong.
  The fast path of the division is fed its operands in the wrong order, and already the lower 128 bits
  of the result differ from those of two to the 256 divided by the target plus one.\<close>

theorem calculate_work_narrow_target_wrong:
  assumes "compact_target bits < 2 ^ 64"
  shows "\<exists>w. calculate_work bits = Some w \<and>
    work_value w mod 2 ^ 128 \<noteq> 2 ^ 256 div (compact_target bits + 1) mod 2 ^ 128"
proof -
  let ?t = "compact_target bits"
  define d where "d = (of_nat ?t + 1 :: u128)"
  have t: "?t < 2 ^ 128" using assms by simp
  have ut: "unat (of_nat ?t :: u128) = ?t" using t by (simp add: unat_of_nat take_bit_nat_eq_self_iff)
  have ud: "unat d = ?t + 1" using assms unfolding d_def by (simp add: unat_word_ariths ut)
  have d: "unat d \<le> 2 ^ 64" "0 < d" using assms ud by (simp_all add: word_less_nat_alt)
  have lo: "unat (NOT (of_nat ?t) :: u128) = 2 ^ 128 - unat d"
    unfolding ud unat_not_u128 ut by simp
  obtain q1 r where q1: "div128_by_u128 (- 1) 0 d = (q1, r)"
    "unat r = (unat (- 1 :: u128) * 2 ^ 128 + unat (0 :: u128)) mod unat d"
    by (rule div128_by_u128_val [OF d, of "- 1" 0])
  obtain q2 r2 where q2: "div128_by_u128 (NOT (of_nat ?t)) r d = (q2, r2)"
    "unat q2 = ((2 ^ 128 - unat d) * 2 ^ 128 + unat r) div unat d mod 2 ^ 128"
    by (rule div128_by_u128_val [OF d, of "NOT (of_nat ?t)" r]) (simp only: lo)
  have "of_nat ?t \<noteq> (- 1 :: u128)"
  proof
    assume "of_nat ?t = (- 1 :: u128)"
    then have "d = 0" by (simp add: d_def)
    then show False using d(2) by simp
  qed
  then have "work_of_target (compact_target_bytes bits) = Some (q1 + of_bool (q2 = - 1), q2 + 1)"
    using q1(1) q2(1) d(2)
    by (simp add: work_of_target_def narrow_target_pair [OF t] overflowing_add1_def div256_def d_def [symmetric])
  then have "calculate_work bits = Some (fmt_pair (q1 + of_bool (q2 = - 1), q2 + 1))"
    by (simp only: calculate_work_alt option.map)
  moreover have "work_value (fmt_pair (q1 + of_bool (q2 = - 1), q2 + 1)) mod 2 ^ 128 \<noteq> 2 ^ 256 div (?t + 1) mod 2 ^ 128"
  proof -
    have "unat (q2 + 1) = (unat q2 + 1) mod 2 ^ 128" by (simp add: unat_word_ariths)
    moreover have "((2 ^ 128 - unat d) * 2 ^ 128 + unat r) div unat d + 2 ^ 128 = (2 ^ 256 + unat r) div unat d"
    proof -
      have "(2 ^ 128 - unat d) * 2 ^ 128 + unat r + 2 ^ 128 * unat d = 2 ^ 256 + unat r"
        using d(1) by (simp add: algebra_simps)
      moreover have "((2 ^ 128 - unat d) * 2 ^ 128 + unat r + 2 ^ 128 * unat d) div unat d =
          2 ^ 128 + ((2 ^ 128 - unat d) * 2 ^ 128 + unat r) div unat d"
        using ud by (intro div_mult_self1) simp
      ultimately show ?thesis by (simp only: add.commute)
    qed
    then have "unat q2 = (2 ^ 256 + unat r) div unat d mod 2 ^ 128" unfolding q2(2) by (metis mod_add_self2)
    ultimately have "unat (q2 + 1) = ((2 ^ 256 + unat r) div unat d + 1) mod 2 ^ 128"
      by (simp add: mod_simps)
    moreover have "work_value (fmt_pair (q1 + of_bool (q2 = - 1), q2 + 1)) mod 2 ^ 128 = unat (q2 + 1)"
      using unsigned_less [of "q2 + 1", where ?'a = nat] unfolding work_value_fmt_pair by (simp add: pair_val_def)
    moreover have "unat r < unat d" unfolding q1(2) ud by simp
    ultimately show ?thesis using narrow_work_low [of "unat d" "unat r" _ "2 ^ 256"] d(1) ud by simp
  qed
  ultimately show ?thesis by blast
qed

theorem calculate_work_narrow_target_wrong_witness:
  "compact_target 0x03000001 = 1 \<and> (\<exists>w. calculate_work 0x03000001 = Some w \<and> work_value w mod 2 ^ 128 \<noteq> 0)"
proof -
  have t: "compact_target 0x03000001 = 1" by (simp add: compact_target_def)
  have "2 ^ 256 div (1 + 1) mod 2 ^ 128 = (0 :: nat)" by (simp only: one_add_one) simp
  then show ?thesis using calculate_work_narrow_target_wrong [of "0x03000001"] t by (simp only: t) simp
qed

text \<open>
  Work strings are ordered as the 256-bit numbers they stand for.\<close>

theorem is_more_work_correct:
  "is_more_work w v \<longleftrightarrow> work_value v mod 2 ^ 256 < work_value w mod 2 ^ 256"
  by (rule is_more_work_val)

text \<open>
  Adding two work strings gives the 64-digit string of their sum modulo two to the 256,
  whatever the length, the case or the non-hexadecimal characters of the operands.\<close>

theorem add_work_correct:
  assumes "hex_contract C"
  shows "length (add_work C w v) = 64 \<and>
    work_value (add_work C w v) = (work_value w + work_value v) mod 2 ^ 256"
  using add_work_val [OF assms] by blast

theorem add_work_correct_witness:
  "hex_contract plain_codec \<and> work_value (add_work plain_codec ''ff'' ''1'') = 0x100"
  using add_work_correct [OF hex_contract_plain_codec, of "''ff''" "''1''"] hex_contract_plain_codec
  by (simp add: work_value_def hexdigit_val_def)

text \<open>
  C33: A header read from 80 bytes by the WhatsOnChain ingestor serialises to the same 80 bytes,
  and rebuilding it from its base fields gives it back, hash included.\<close>

theorem woc_header_roundtrip:
  assumes "hex_contract C" and "length data = 80"
  shows "to_bytes C (base_of_header (woc_deserialize_header C data height)) = data \<and>
    to_block_header_at_height C (base_of_header (woc_deserialize_header C data height)) height =
      woc_deserialize_header C data height"
proof -
  note b = woc_to_bytes [OF assms, of height]
  then show ?thesis
    unfolding to_block_header_at_height_def b
    by (simp add: base_of_header_def woc_deserialize_header_def)
qed

theorem woc_header_roundtrip_witness:
  "to_bytes plain_codec (base_of_header (woc_deserialize_header plain_codec (replicate 79 7 @ [9]) 5)) =
     replicate 79 7 @ [9]"
  using woc_header_roundtrip [OF hex_contract_plain_codec, of "replicate 79 7 @ [9]" 5] by simp

text \<open>
  C36: The CDN ingestor keeps the previous hash and the merkle root in internal byte order:
  the header it returns serialises to its 80 bytes with both hashes reversed, so not to the
  bytes it was read from unless both hashes are palindromes.\<close>

theorem cdn_header_reverses_hashes:
  assumes "hex_contract C" and "length data = 80"
  shows "to_bytes C (base_of_header (cdn_deserialize_header C data height)) = data \<longleftrightarrow>
    rev (take 32 (drop 4 data)) = take 32 (drop 4 data) \<and>
    rev (take 32 (drop 36 data)) = take 32 (drop 36 data)"
proof -
  let ?tail = "take 4 (drop 68 data) @ take 4 (drop 72 data) @ take 4 (drop 76 data)"
  let ?bytes = "take 4 data @ rev (take 32 (drop 4 data)) @ rev (take 32 (drop 36 data)) @ ?tail"
  have "?bytes = data \<longleftrightarrow>
      ?bytes = take 4 data @ take 32 (drop 4 data) @ take 32 (drop 36 data) @ ?tail"
    by (rule arg_cong [OF split_header [OF assms(2)], of "\<lambda>x. ?bytes = x"])
  also have "\<dots> \<longleftrightarrow> rev (take 32 (drop 4 data)) = take 32 (drop 4 data) \<and>
      rev (take 32 (drop 36 data)) = take 32 (drop 36 data)"
    by (simp only: same_append_eq append_eq_append_conv length_rev append_same_eq)
      (simp only: append_eq_append_conv length_rev simp_thms)
  finally show ?thesis unfolding cdn_to_bytes [OF assms] .
qed

theorem cdn_header_reverses_hashes_witness:
  "to_bytes plain_codec (base_of_header
     (cdn_deserialize_header plain_codec (replicate 4 1 @ [2] @ replicate 75 3) 5)) \<noteq>
   replicate 4 1 @ [2] @ replicate 75 3"
proof -
  have seg: "take 32 (drop 4 (replicate 4 1 @ [2] @ replicate 75 3)) = [2] @ replicate 31 (3 :: u8)"
    by (simp add: take_Cons')
  have "rev ([2] @ replicate 31 (3 :: u8)) ! 0 \<noteq> ([2] @ replicate 31 3) ! 0"
    by (simp add: nth_append)
  then have "rev (take 32 (drop 4 (replicate 4 1 @ [2] @ replicate 75 3))) \<noteq>
      take 32 (drop 4 (replicate 4 1 @ [2] @ replicate 75 (3 :: u8)))"
    unfolding seg by metis
  moreover have "length (replicate 4 1 @ [2] @ replicate 75 (3 :: u8)) = 80" by simp
  ultimately show ?thesis
    using cdn_header_reverses_hashes [OF hex_contract_plain_codec] by blast
qed

end
