(* ===== verification/HeaderStore.thy ===== *)
theory HeaderStore
  imports BlockHeaders "HOL-Library.AList"
begin

text \<open>
  The in-memory header store of \<open>src/chaintracks/storage/memory.rs\<close>: live headers by id with
  indexes by hash, height and merkle root, the chain tip, and the archived headers by height.

  \<open>HashMap\<close>s that the code iterates over are association lists (\<open>AList\<close>), the pure lookup
  indexes are partial maps, and the \<open>BTreeMap\<close> of archived headers is an association list
  kept in ascending key order. The lock is held for the whole of every operation, so an
  operation is one function on the state. The loops that follow \<open>previous_header_id\<close> links
  have no bound in the code: they are partial functions into \<open>option\<close>, where \<open>None\<close> means
  that the loop does not end (or that a called function panics).
\<close>

section \<open>State\<close>

datatype chain = Main | Test

record inner =
  in_headers :: "(u64 \<times> live_block_header) list"
  in_hash_to_id :: "string \<rightharpoonup> u64"
  in_height_to_id :: "u32 \<rightharpoonup> u64"
  in_merkle_to_id :: "string \<rightharpoonup> u64"
  in_next_id :: u64
  in_tip_id :: "u64 option"
  in_bulk :: "(u32 \<times> block_header) list"

record memory_storage =
  ms_chain :: chain
  ms_live_height_threshold :: u32
  ms_reorg_height_threshold :: u32
  ms_inner :: inner

record insert_header_result =
  ir_added :: bool
  ir_dupe :: bool
  ir_is_active_tip :: bool
  ir_reorg_depth :: u32
  ir_prior_tip :: "block_header option"
  ir_deactivated_headers :: "block_header list"
  ir_no_prev :: bool
  ir_bad_prev :: bool
  ir_no_active_ancestor :: bool
  ir_no_tip :: bool

definition insert_result_default :: insert_header_result where
  "insert_result_default = \<lparr>ir_added = False, ir_dupe = False, ir_is_active_tip = False,
     ir_reorg_depth = 0, ir_prior_tip = None, ir_deactivated_headers = [], ir_no_prev = False,
     ir_bad_prev = False, ir_no_active_ancestor = False, ir_no_tip = False\<rparr>"

definition ZERO_HASH :: string where
  "ZERO_HASH = replicate 64 CHR ''0''"

definition empty_inner :: inner where
  "empty_inner = \<lparr>in_headers = [], in_hash_to_id = Map.empty, in_height_to_id = Map.empty,
     in_merkle_to_id = Map.empty, in_next_id = 1, in_tip_id = None, in_bulk = []\<rparr>"

definition with_thresholds :: "chain \<Rightarrow> u32 \<Rightarrow> u32 \<Rightarrow> memory_storage" where
  "with_thresholds c live_threshold reorg_threshold =
     \<lparr>ms_chain = c, ms_live_height_threshold = live_threshold,
      ms_reorg_height_threshold = reorg_threshold, ms_inner = empty_inner\<rparr>"

definition memory_storage_new :: "chain \<Rightarrow> memory_storage" where
  "memory_storage_new c = with_thresholds c 2000 400"

section \<open>Helpers\<close>

definition extend_ranges :: "u32 \<Rightarrow> height_range list \<Rightarrow> height_range list" where
  "extend_ranges h ranges =
     (if ranges \<noteq> [] \<and> h = hr_high (last ranges) + 1
      then butlast ranges @ [(last ranges)\<lparr>hr_high := h\<rparr>]
      else ranges @ [range_new h h])"

definition contiguous_ranges :: "u32 list \<Rightarrow> height_range list" where
  "contiguous_ranges heights = fold extend_ranges heights []"

definition header_count :: "memory_storage \<Rightarrow> nat" where
  "header_count s = length (in_headers (ms_inner s))"

definition bulk_count :: "memory_storage \<Rightarrow> nat" where
  "bulk_count s = length (in_bulk (ms_inner s))"

definition header_values :: "inner \<Rightarrow> live_block_header list" where
  "header_values i = map snd (in_headers i)"

definition get_headers_at_height :: "memory_storage \<Rightarrow> u32 \<Rightarrow> live_block_header list" where
  "get_headers_at_height s height = filter (\<lambda>h. lh_height h = height) (header_values (ms_inner s))"

definition get_active_headers :: "memory_storage \<Rightarrow> live_block_header list" where
  "get_active_headers s = filter lh_is_active (header_values (ms_inner s))"

definition get_fork_headers :: "memory_storage \<Rightarrow> live_block_header list" where
  "get_fork_headers s = filter (\<lambda>h. \<not> lh_is_active h) (header_values (ms_inner s))"

definition find_children :: "memory_storage \<Rightarrow> string \<Rightarrow> live_block_header list" where
  "find_children s parent_hash =
     filter (\<lambda>h. lh_previous_hash h = parent_hash) (header_values (ms_inner s))"

section \<open>Common ancestor and reorganisation\<close>

type_synonym header_map = "(u64 \<times> live_block_header) list"

definition prev_header ::
  "header_map \<Rightarrow> (string \<rightharpoonup> u64) \<Rightarrow> live_block_header \<Rightarrow> live_block_header option" where
  "prev_header headers hash_to_id cur =
     (case (case lh_previous_header_id cur of
              Some pid \<Rightarrow> Some pid
            | None \<Rightarrow> hash_to_id (lh_previous_hash cur)) of
        Some pid \<Rightarrow> map_of headers pid
      | None \<Rightarrow> None)"

text \<open>One of the two loops that bring the headers to the same height; the inner \<open>None\<close> is the
  early return of the function.\<close>

partial_function (option) level_down ::
  "header_map \<Rightarrow> (string \<rightharpoonup> u64) \<Rightarrow> u32 \<Rightarrow> live_block_header \<Rightarrow> live_block_header option option" where
  [code]: "level_down headers hash_to_id height cur =
     (if lh_height cur > height then
        (case prev_header headers hash_to_id cur of
           None \<Rightarrow> Some None
         | Some p \<Rightarrow> level_down headers hash_to_id height p)
      else Some (Some cur))"

fun lockstep ::
  "header_map \<Rightarrow> (string \<rightharpoonup> u64) \<Rightarrow> nat \<Rightarrow> live_block_header \<Rightarrow> live_block_header \<Rightarrow> live_block_header option" where
  "lockstep headers hash_to_id 0 cur1 cur2 = (if lh_hash cur1 = lh_hash cur2 then Some cur1 else None)"
| "lockstep headers hash_to_id (Suc n) cur1 cur2 =
     (if lh_hash cur1 = lh_hash cur2 then Some cur1
      else (case prev_header headers hash_to_id cur1 of
              None \<Rightarrow> None
            | Some p1 \<Rightarrow>
                (case prev_header headers hash_to_id cur2 of
                   None \<Rightarrow> None
                 | Some p2 \<Rightarrow> lockstep headers hash_to_id n p1 p2)))"

definition find_common_ancestor_sync ::
  "u32 \<Rightarrow> header_map \<Rightarrow> (string \<rightharpoonup> u64) \<Rightarrow> u64 \<Rightarrow> u64 \<Rightarrow> live_block_header option option" where
  "find_common_ancestor_sync reorg_height_threshold headers hash_to_id id1 id2 =
     (case (map_of headers id1, map_of headers id2) of
        (Some h1, Some h2) \<Rightarrow>
          Option.bind (level_down headers hash_to_id (lh_height h2) h1) (\<lambda>r1.
            case r1 of
              None \<Rightarrow> Some None
            | Some cur1 \<Rightarrow>
                Option.bind (level_down headers hash_to_id (lh_height cur1) h2) (\<lambda>r2.
                  case r2 of
                    None \<Rightarrow> Some None
                  | Some cur2 \<Rightarrow>
                      Some (lockstep headers hash_to_id (unat reorg_height_threshold) cur1 cur2)))
      | _ \<Rightarrow> Some None)"

definition walk_back :: "header_map \<Rightarrow> u64 \<Rightarrow> u64 option" where
  "walk_back headers cid =
     (case map_of headers cid of
        None \<Rightarrow> None
      | Some h \<Rightarrow>
          (case lh_previous_header_id h of
             Some pid \<Rightarrow> (if map_of headers pid \<noteq> None then Some pid else None)
           | None \<Rightarrow> None))"

definition deactivate :: "u64 \<Rightarrow> live_block_header \<Rightarrow> inner \<Rightarrow> inner" where
  "deactivate cid h i = i\<lparr>
     in_headers := AList.update cid (h\<lparr>lh_is_active := False\<rparr>) (in_headers i),
     in_height_to_id := (in_height_to_id i)(lh_height h := None),
     in_merkle_to_id := (in_merkle_to_id i)(lh_merkle_root h := None)\<rparr>"

definition activate :: "u64 \<Rightarrow> live_block_header \<Rightarrow> inner \<Rightarrow> inner" where
  "activate cid h i = i\<lparr>
     in_headers := AList.update cid (h\<lparr>lh_is_active := True\<rparr>) (in_headers i),
     in_height_to_id := (in_height_to_id i)(lh_height h \<mapsto> cid),
     in_merkle_to_id := (in_merkle_to_id i)(lh_merkle_root h \<mapsto> cid)\<rparr>"

text \<open>The tests at the top of both walks: no id, no such header, or the ancestor reached.\<close>

definition walk_next :: "string \<Rightarrow> header_map \<Rightarrow> u64 option \<Rightarrow> (u64 \<times> live_block_header) option" where
  "walk_next ancestor_hash headers current_id =
     (case current_id of
        None \<Rightarrow> None
      | Some cid \<Rightarrow>
          (case map_of headers cid of
             None \<Rightarrow> None
           | Some header \<Rightarrow> if lh_hash header = ancestor_hash then None else Some (cid, header)))"

partial_function (option) deactivate_walk ::
  "string \<Rightarrow> inner \<Rightarrow> block_header list \<Rightarrow> u64 option \<Rightarrow> (inner \<times> block_header list) option" where
  [code]: "deactivate_walk ancestor_hash i deactivated current_id =
     (case walk_next ancestor_hash (in_headers i) current_id of
        None \<Rightarrow> Some (i, deactivated)
      | Some p \<Rightarrow>
          deactivate_walk ancestor_hash (deactivate (fst p) (snd p) i)
            (deactivated @ [block_header_from (snd p)])
            (walk_back (in_headers (deactivate (fst p) (snd p) i)) (fst p)))"

partial_function (option) activate_walk ::
  "string \<Rightarrow> inner \<Rightarrow> u64 option \<Rightarrow> inner option" where
  [code]: "activate_walk ancestor_hash i current_id =
     (case walk_next ancestor_hash (in_headers i) current_id of
        None \<Rightarrow> Some i
      | Some p \<Rightarrow>
          activate_walk ancestor_hash (activate (fst p) (snd p) i)
            (walk_back (in_headers (activate (fst p) (snd p) i)) (fst p)))"

definition handle_reorg ::
  "u32 \<Rightarrow> inner \<Rightarrow> u64 \<Rightarrow> u64 \<Rightarrow> (inner \<times> u32 \<times> block_header list) option" where
  "handle_reorg reorg_height_threshold i old_tip_id new_tip_id =
     Option.bind (find_common_ancestor_sync reorg_height_threshold (in_headers i) (in_hash_to_id i)
         old_tip_id new_tip_id) (\<lambda>ancestor.
       case ancestor of
         None \<Rightarrow> Some (i, 0, [])
       | Some a \<Rightarrow>
           Option.bind (deactivate_walk (lh_hash a) i [] (Some old_tip_id)) (\<lambda>(i1, deactivated).
             Option.bind (activate_walk (lh_hash a) i1 (Some new_tip_id)) (\<lambda>i2.
               Some (i2, of_nat (length deactivated), deactivated))))"

section \<open>Queries\<close>

definition find_chain_tip_header :: "memory_storage \<Rightarrow> live_block_header option" where
  "find_chain_tip_header s =
     (case in_tip_id (ms_inner s) of
        Some tid \<Rightarrow> map_of (in_headers (ms_inner s)) tid
      | None \<Rightarrow> None)"

definition find_chain_tip_hash :: "memory_storage \<Rightarrow> string option" where
  "find_chain_tip_hash s = map_option lh_hash (find_chain_tip_header s)"

definition find_header_for_height :: "memory_storage \<Rightarrow> u32 \<Rightarrow> block_header option" where
  "find_header_for_height s height =
     (case in_height_to_id (ms_inner s) height of
        Some hid \<Rightarrow> map_option block_header_from (map_of (in_headers (ms_inner s)) hid)
      | None \<Rightarrow> map_of (in_bulk (ms_inner s)) height)"

definition find_live_header_for_block_hash :: "memory_storage \<Rightarrow> string \<Rightarrow> live_block_header option" where
  "find_live_header_for_block_hash s hash =
     (case in_hash_to_id (ms_inner s) hash of
        Some hid \<Rightarrow> map_of (in_headers (ms_inner s)) hid
      | None \<Rightarrow> None)"

definition find_live_header_for_merkle_root :: "memory_storage \<Rightarrow> string \<Rightarrow> live_block_header option" where
  "find_live_header_for_merkle_root s merkle_root =
     (case in_merkle_to_id (ms_inner s) merkle_root of
        Some hid \<Rightarrow> map_of (in_headers (ms_inner s)) hid
      | None \<Rightarrow> None)"

definition base_of_live :: "live_block_header \<Rightarrow> base_block_header" where
  "base_of_live header =
     \<lparr>bb_version = lh_version header, bb_previous_hash = lh_previous_hash header,
      bb_merkle_root = lh_merkle_root header, bb_time = lh_time header, bb_bits = lh_bits header,
      bb_nonce = lh_nonce header\<rparr>"

definition header_bytes_at :: "codec \<Rightarrow> memory_storage \<Rightarrow> u32 \<Rightarrow> u8 list" where
  "header_bytes_at C s h =
     (case (case in_height_to_id (ms_inner s) h of
              Some hid \<Rightarrow> map_option base_of_live (map_of (in_headers (ms_inner s)) hid)
            | None \<Rightarrow> map_option base_of_header (map_of (in_bulk (ms_inner s)) h)) of
        Some base \<Rightarrow> to_bytes C base
      | None \<Rightarrow> [])"

text \<open>The loop over \<open>height..height + count\<close>, where the end is a 32-bit sum.\<close>

definition get_headers_bytes :: "codec \<Rightarrow> memory_storage \<Rightarrow> u32 \<Rightarrow> u32 \<Rightarrow> u8 list" where
  "get_headers_bytes C s height cnt =
     concat (map (\<lambda>h. header_bytes_at C s (of_nat h)) [unat height..<unat (height + cnt)])"

definition get_live_headers :: "memory_storage \<Rightarrow> live_block_header list" where
  "get_live_headers s = rev (sort_key lh_height (rev (header_values (ms_inner s))))"

definition get_available_height_ranges :: "memory_storage \<Rightarrow> height_range list" where
  "get_available_height_ranges s = contiguous_ranges (map fst (in_bulk (ms_inner s)))"

definition find_live_height_range :: "memory_storage \<Rightarrow> height_range option" where
  "find_live_height_range s =
     (if in_headers (ms_inner s) = [] then None
      else let (min_h, max_h) = fold (\<lambda>h (min_h, max_h).
               (if lh_height h < min_h then lh_height h else min_h,
                if lh_height h > max_h then lh_height h else max_h))
             (header_values (ms_inner s)) (- 1, 0)
           in Some (range_new min_h max_h))"

definition resolve_id :: "inner \<Rightarrow> live_block_header \<Rightarrow> u64 option" where
  "resolve_id i h =
     (case lh_header_id h of Some hid \<Rightarrow> Some hid | None \<Rightarrow> in_hash_to_id i (lh_hash h))"

definition find_common_ancestor ::
  "memory_storage \<Rightarrow> live_block_header \<Rightarrow> live_block_header \<Rightarrow> live_block_header option option" where
  "find_common_ancestor s h1 h2 =
     (case (resolve_id (ms_inner s) h1, resolve_id (ms_inner s) h2) of
        (Some id1, Some id2) \<Rightarrow>
          find_common_ancestor_sync (ms_reorg_height_threshold s) (in_headers (ms_inner s))
            (in_hash_to_id (ms_inner s)) id1 id2
      | _ \<Rightarrow> Some None)"

definition find_reorg_depth :: "memory_storage \<Rightarrow> live_block_header \<Rightarrow> u32 option" where
  "find_reorg_depth s new_header =
     (case find_chain_tip_header s of
        Some tip_header \<Rightarrow>
          (if lh_hash tip_header = lh_previous_hash new_header then Some 0
           else map_option (\<lambda>ancestor.
                  case ancestor of
                    Some a \<Rightarrow> lh_height tip_header - lh_height a
                  | None \<Rightarrow> 0)
                (find_common_ancestor s tip_header new_header))
      | None \<Rightarrow> Some 0)"

section \<open>Ingestion\<close>

text \<open>Steps 2 and 3 of \<open>insert_header\<close>: the id, the link to the parent and the cumulative work.\<close>

definition link_header :: "codec \<Rightarrow> inner \<Rightarrow> string \<Rightarrow> live_block_header \<Rightarrow> live_block_header \<times> bool" where
  "link_header C i block_work header =
     (let header = header\<lparr>lh_header_id := Some (in_next_id i)\<rparr>
      in case in_hash_to_id i (lh_previous_hash header) of
           Some prev_id \<Rightarrow>
             (let parent_work = (case map_of (in_headers i) prev_id of
                                   Some p \<Rightarrow> lh_chain_work p
                                 | None \<Rightarrow> [])
              in (header\<lparr>lh_previous_header_id := Some prev_id,
                         lh_chain_work := add_work C parent_work block_work\<rparr>, False))
         | None \<Rightarrow>
             (header\<lparr>lh_chain_work := block_work\<rparr>, lh_previous_hash header \<noteq> ZERO_HASH))"

definition unmark_tip :: "u64 option \<Rightarrow> header_map \<Rightarrow> header_map" where
  "unmark_tip old_tip_id headers =
     (case old_tip_id of
        None \<Rightarrow> headers
      | Some old_id \<Rightarrow>
          (case map_of headers old_id of
             None \<Rightarrow> headers
           | Some old \<Rightarrow> AList.update old_id (old\<lparr>lh_is_chain_tip := False\<rparr>) headers))"

text \<open>The branch of \<open>insert_header\<close> for a header that takes the tip.\<close>

definition insert_as_tip ::
  "u32 \<Rightarrow> inner \<Rightarrow> insert_header_result \<Rightarrow> u64 \<Rightarrow> live_block_header \<Rightarrow> live_block_header option \<Rightarrow>
     (inner \<times> insert_header_result) option" where
  "insert_as_tip reorg_height_threshold i result nid header old_tip =
     (let header = header\<lparr>lh_is_active := True, lh_is_chain_tip := True\<rparr>;
          is_reorg = (case old_tip of Some tip \<Rightarrow> lh_previous_hash header \<noteq> lh_hash tip | None \<Rightarrow> False);
          old_tip_id = in_tip_id i;
          i1 = i\<lparr>
            in_headers := AList.update nid header (unmark_tip old_tip_id (in_headers i)),
            in_hash_to_id := (in_hash_to_id i)(lh_hash header \<mapsto> nid),
            in_height_to_id := (in_height_to_id i)(lh_height header \<mapsto> nid),
            in_merkle_to_id := (in_merkle_to_id i)(lh_merkle_root header \<mapsto> nid)\<rparr>;
          result = result\<lparr>ir_is_active_tip := True, ir_added := True,
            ir_prior_tip := map_option block_header_from old_tip\<rparr>
      in case (is_reorg, old_tip_id) of
           (True, Some old_id) \<Rightarrow>
             map_option (\<lambda>(i2, depth, deactivated).
                 (i2\<lparr>in_tip_id := Some nid\<rparr>,
                  result\<lparr>ir_reorg_depth := depth, ir_deactivated_headers := deactivated\<rparr>))
               (handle_reorg reorg_height_threshold i1 old_id nid)
         | _ \<Rightarrow> Some (i1\<lparr>in_tip_id := Some nid\<rparr>, result))"

definition insert_as_fork ::
  "inner \<Rightarrow> insert_header_result \<Rightarrow> u64 \<Rightarrow> live_block_header \<Rightarrow> inner \<times> insert_header_result" where
  "insert_as_fork i result nid header =
     (i\<lparr>in_headers := AList.update nid header (in_headers i),
        in_hash_to_id := (in_hash_to_id i)(lh_hash header \<mapsto> nid)\<rparr>,
      result\<lparr>ir_added := True\<rparr>)"

text \<open>Step 4 of \<open>insert_header\<close>: the new header takes the tip when it has strictly more work.\<close>

definition fork_choice ::
  "u32 \<Rightarrow> inner \<Rightarrow> insert_header_result \<Rightarrow> u64 \<Rightarrow> live_block_header \<Rightarrow> (inner \<times> insert_header_result) option" where
  "fork_choice reorg_height_threshold i result nid header =
     (let old_tip = Option.bind (in_tip_id i) (map_of (in_headers i));
          becomes_tip = (case old_tip of
              Some tip \<Rightarrow> is_more_work (lh_chain_work header) (lh_chain_work tip)
            | None \<Rightarrow> True);
          result = result\<lparr>ir_no_tip := (old_tip = None)\<rparr>
      in if becomes_tip
         then insert_as_tip reorg_height_threshold i result nid header old_tip
         else Some (insert_as_fork i result nid header))"

definition insert_header ::
  "codec \<Rightarrow> memory_storage \<Rightarrow> live_block_header \<Rightarrow> (memory_storage \<times> insert_header_result) option" where
  "insert_header C s header =
     Option.bind (calculate_work (lh_bits header)) (\<lambda>block_work.
       let i = ms_inner s; result = insert_result_default
       in if in_hash_to_id i (lh_hash header) \<noteq> None then Some (s, result\<lparr>ir_dupe := True\<rparr>)
          else
            (let nid = in_next_id i;
                 (header, no_prev) = link_header C i block_work header;
                 i = i\<lparr>in_next_id := in_next_id i + 1\<rparr>
             in map_option (\<lambda>(i', r). (s\<lparr>ms_inner := i'\<rparr>, r))
                  (fork_choice (ms_reorg_height_threshold s) i (result\<lparr>ir_no_prev := no_prev\<rparr>)
                     nid header)))"

fun insert_headers_batch ::
  "codec \<Rightarrow> memory_storage \<Rightarrow> live_block_header list \<Rightarrow> (memory_storage \<times> insert_header_result list) option" where
  "insert_headers_batch C s [] = Some (s, [])"
| "insert_headers_batch C s (h # hs) =
     Option.bind (insert_header C s h) (\<lambda>(s1, r).
       map_option (\<lambda>(s2, rs). (s2, r # rs)) (insert_headers_batch C s1 hs))"

text \<open>The removal loop shared by pruning, migration and deletion.\<close>

definition remove_header :: "u64 \<Rightarrow> inner \<Rightarrow> inner" where
  "remove_header hid i =
     (case map_of (in_headers i) hid of
        None \<Rightarrow> i
      | Some h \<Rightarrow> i\<lparr>
          in_headers := AList.delete hid (in_headers i),
          in_hash_to_id := (in_hash_to_id i)(lh_hash h := None),
          in_height_to_id := (in_height_to_id i)(lh_height h := None),
          in_merkle_to_id := (in_merkle_to_id i)(lh_merkle_root h := None)\<rparr>)"

definition ids_where :: "(live_block_header \<Rightarrow> bool) \<Rightarrow> inner \<Rightarrow> u64 list" where
  "ids_where P i = map fst (filter (\<lambda>(_, h). P h) (in_headers i))"

definition prune_live_block_headers :: "memory_storage \<Rightarrow> u32 \<Rightarrow> memory_storage \<times> u32" where
  "prune_live_block_headers s active_tip_height =
     (let threshold = saturating_sub active_tip_height (ms_live_height_threshold s);
          i = ms_inner s;
          to_remove = ids_where (\<lambda>h. \<not> lh_is_active h \<and> lh_height h < threshold) i
      in (s\<lparr>ms_inner := fold remove_header to_remove i\<rparr>, of_nat (length to_remove)))"

text \<open>\<open>BTreeMap::insert\<close>.\<close>

fun btree_insert :: "'k::linorder \<Rightarrow> 'v \<Rightarrow> ('k \<times> 'v) list \<Rightarrow> ('k \<times> 'v) list" where
  "btree_insert k v [] = [(k, v)]"
| "btree_insert k v ((k', v') # xs) =
     (if k < k' then (k, v) # (k', v') # xs
      else if k = k' then (k, v) # xs
      else (k', v') # btree_insert k v xs)"

definition migration_candidates :: "inner \<Rightarrow> nat \<Rightarrow> live_block_header list" where
  "migration_candidates i cnt =
     take cnt (sort_key lh_height
       (filter (\<lambda>h. lh_is_active h \<and>
          Some (case lh_header_id h of Some hid \<Rightarrow> hid | None \<Rightarrow> 0) \<noteq> in_tip_id i) (header_values i)))"

definition migrate_live_to_bulk :: "memory_storage \<Rightarrow> u32 \<Rightarrow> memory_storage \<times> u32" where
  "migrate_live_to_bulk s cnt =
     (if cnt = 0 then (s, 0)
      else
        (let i = ms_inner s;
             candidates = migration_candidates i (unat cnt)
         in if candidates = [] then (s, 0)
            else
              (let max_height = Max (set (map lh_height candidates));
                   i1 = i\<lparr>in_bulk := fold (\<lambda>h. btree_insert (lh_height h) (block_header_from h))
                          candidates (in_bulk i)\<rparr>;
                   to_remove = ids_where (\<lambda>h. lh_height h \<le> max_height) i1
               in (s\<lparr>ms_inner := fold remove_header to_remove i1\<rparr>, of_nat (length candidates)))))"

definition delete_older_live_block_headers :: "memory_storage \<Rightarrow> u32 \<Rightarrow> memory_storage \<times> u32" where
  "delete_older_live_block_headers s max_height =
     (let i = ms_inner s;
          to_remove = ids_where (\<lambda>h. lh_height h \<le> max_height) i;
          i1 = fold remove_header to_remove i;
          i2 = (case in_tip_id i1 of
                  Some tid \<Rightarrow> if map_of (in_headers i1) tid = None then i1\<lparr>in_tip_id := None\<rparr> else i1
                | None \<Rightarrow> i1)
      in (s\<lparr>ms_inner := i2\<rparr>, of_nat (length to_remove)))"

definition drop_all_data :: "memory_storage \<Rightarrow> memory_storage" where
  "drop_all_data s = s\<lparr>ms_inner := (ms_inner s)\<lparr>in_headers := [], in_hash_to_id := Map.empty,
     in_height_to_id := Map.empty, in_merkle_to_id := Map.empty, in_bulk := [], in_next_id := 1,
     in_tip_id := None\<rparr>\<rparr>"

definition destroy :: "memory_storage \<Rightarrow> memory_storage" where
  "destroy s = drop_all_data s"

definition make_available :: "memory_storage \<Rightarrow> memory_storage" where
  "make_available s = s"

definition migrate_latest :: "memory_storage \<Rightarrow> memory_storage" where
  "migrate_latest s = s"

section \<open>Well-formed stores\<close>

definition live :: "inner \<Rightarrow> u64 \<rightharpoonup> live_block_header" where
  "live i = map_of (in_headers i)"

text \<open>
  Every live header is stored under its own id, ids are below the counter, parent links point
  to older ids, the hash index lists exactly the live headers, the height and merkle indexes
  point to active headers only, and the archive is sorted and keyed by height.
\<close>

definition headers_wf :: "inner \<Rightarrow> bool" where
  "headers_wf i \<longleftrightarrow> distinct (map fst (in_headers i)) \<and>
     (\<forall>hid h. live i hid = Some h \<longrightarrow>
        lh_header_id h = Some hid \<and> hid < in_next_id i \<and>
        (\<forall>p. lh_previous_header_id h = Some p \<longrightarrow> p < hid))"

definition hash_ok :: "(string \<rightharpoonup> u64) \<Rightarrow> (u64 \<rightharpoonup> live_block_header) \<Rightarrow> bool" where
  "hash_ok idx L \<longleftrightarrow> (\<forall>k hid. idx k = Some hid \<longleftrightarrow> (\<exists>h. L hid = Some h \<and> lh_hash h = k))"

definition hash_wf :: "inner \<Rightarrow> bool" where
  "hash_wf i \<longleftrightarrow> hash_ok (in_hash_to_id i) (live i)"

definition index_ok :: "(live_block_header \<Rightarrow> 'k) \<Rightarrow> ('k \<rightharpoonup> u64) \<Rightarrow> (u64 \<rightharpoonup> live_block_header) \<Rightarrow> bool" where
  "index_ok key idx L \<longleftrightarrow>
     (\<forall>k hid. idx k = Some hid \<longrightarrow> (\<exists>h. L hid = Some h \<and> key h = k \<and> lh_is_active h))"

definition index_wf :: "inner \<Rightarrow> bool" where
  "index_wf i \<longleftrightarrow> index_ok lh_height (in_height_to_id i) (live i) \<and>
     index_ok lh_merkle_root (in_merkle_to_id i) (live i)"

definition bulk_wf :: "inner \<Rightarrow> bool" where
  "bulk_wf i \<longleftrightarrow> sorted_wrt (<) (map fst (in_bulk i)) \<and> (\<forall>(k, b) \<in> set (in_bulk i). bh_height b = k)"

definition store_wf :: "inner \<Rightarrow> bool" where
  "store_wf i \<longleftrightarrow> headers_wf i \<and> hash_wf i \<and> index_wf i \<and> bulk_wf i"

lemma store_wf_empty: "store_wf empty_inner"
  by (simp add: store_wf_def headers_wf_def hash_wf_def index_wf_def hash_ok_def index_ok_def bulk_wf_def empty_inner_def live_def)

lemma live_deactivate [simp]: "live (deactivate cid h i) = (live i)(cid \<mapsto> h\<lparr>lh_is_active := False\<rparr>)"
  by (simp add: live_def deactivate_def update_conv')

lemma live_activate [simp]: "live (activate cid h i) = (live i)(cid \<mapsto> h\<lparr>lh_is_active := True\<rparr>)"
  by (simp add: live_def activate_def update_conv')

lemma frame_deactivate [simp]:
  "in_hash_to_id (deactivate cid h i) = in_hash_to_id i" "in_next_id (deactivate cid h i) = in_next_id i"
  "in_tip_id (deactivate cid h i) = in_tip_id i" "in_bulk (deactivate cid h i) = in_bulk i"
  "in_height_to_id (deactivate cid h i) = (in_height_to_id i)(lh_height h := None)"
  "in_merkle_to_id (deactivate cid h i) = (in_merkle_to_id i)(lh_merkle_root h := None)"
  by (simp_all add: deactivate_def)

lemma frame_activate [simp]:
  "in_hash_to_id (activate cid h i) = in_hash_to_id i" "in_next_id (activate cid h i) = in_next_id i"
  "in_tip_id (activate cid h i) = in_tip_id i" "in_bulk (activate cid h i) = in_bulk i"
  "in_height_to_id (activate cid h i) = (in_height_to_id i)(lh_height h \<mapsto> cid)"
  "in_merkle_to_id (activate cid h i) = (in_merkle_to_id i)(lh_merkle_root h \<mapsto> cid)"
  by (simp_all add: activate_def)

lemma distinct_deactivate [simp]:
  "distinct (map fst (in_headers i)) \<Longrightarrow> distinct (map fst (in_headers (deactivate cid h i)))"
  "distinct (map fst (in_headers i)) \<Longrightarrow> distinct (map fst (in_headers (activate cid h i)))"
  by (simp_all add: deactivate_def activate_def distinct_update)

lemmas wf_defs = store_wf_def headers_wf_def hash_wf_def index_wf_def bulk_wf_def

lemma index_okD:
  assumes "index_ok key idx L" "idx k = Some hid"
  obtains h where "L hid = Some h" "key h = k" "lh_is_active h"
  using assms unfolding index_ok_def by blast

lemma index_ok_unset:
  assumes ok: "index_ok key idx L" and "L c = Some h"
  shows "index_ok key (idx(key h := None)) (L(c := v))"
  unfolding index_ok_def
proof (intro allI impI)
  fix k hid assume "(idx(key h := None)) k = Some hid"
  then have k: "k \<noteq> key h" "idx k = Some hid" by (auto split: if_splits)
  obtain h' where h': "L hid = Some h'" "key h' = k" "lh_is_active h'" using index_okD [OF ok k(2)] .
  with k assms(2) have "hid \<noteq> c" by auto
  with h' show "\<exists>h. (L(c := v)) hid = Some h \<and> key h = k \<and> lh_is_active h" by auto
qed

lemma index_ok_set:
  assumes ok: "index_ok key idx L" and same: "\<And>h0. L c = Some h0 \<Longrightarrow> key h0 = key h"
    and "lh_is_active h"
  shows "index_ok key (idx(key h \<mapsto> c)) (L(c \<mapsto> h))"
  unfolding index_ok_def
proof (intro allI impI)
  fix k hid assume a: "(idx(key h \<mapsto> c)) k = Some hid"
  show "\<exists>h'. (L(c \<mapsto> h)) hid = Some h' \<and> key h' = k \<and> lh_is_active h'"
  proof (cases "k = key h")
    case True
    then show ?thesis using a assms(3) by auto
  next
    case False
    then have k: "idx k = Some hid" using a by auto
    obtain h' where h': "L hid = Some h'" "key h' = k" "lh_is_active h'" using index_okD [OF ok k] .
    with False same have "hid \<noteq> c" by auto
    with h' show ?thesis by auto
  qed
qed

lemma index_ok_same:
  assumes "index_ok key idx L" and "\<And>h. L c = Some h \<Longrightarrow> key h' = key h \<and> (lh_is_active h \<longrightarrow> lh_is_active h')"
  shows "index_ok key idx (L(c \<mapsto> h'))"
  using assms unfolding index_ok_def by (metis fun_upd_apply)

lemma index_wf_deactivate:
  "index_wf i \<Longrightarrow> live i cid = Some h \<Longrightarrow> index_wf (deactivate cid h i)"
  by (simp add: index_wf_def index_ok_unset)

lemma index_wf_activate:
  "index_wf i \<Longrightarrow> live i cid = Some h \<Longrightarrow> index_wf (activate cid h i)"
  using index_ok_set [of lh_height "in_height_to_id i" "live i" cid "h\<lparr>lh_is_active := True\<rparr>"]
    index_ok_set [of lh_merkle_root "in_merkle_to_id i" "live i" cid "h\<lparr>lh_is_active := True\<rparr>"]
  by (simp add: index_wf_def)

lemma hash_ok_set:
  assumes "hash_ok idx L" and "L c = Some h" and "lh_hash h' = lh_hash h"
  shows "hash_ok idx (L(c \<mapsto> h'))"
  using assms unfolding hash_ok_def by auto

lemma hash_ok_new:
  assumes "hash_ok idx L" and "L c = None" and "idx (lh_hash h) = None"
  shows "hash_ok (idx(lh_hash h \<mapsto> c)) (L(c \<mapsto> h))"
  using assms unfolding hash_ok_def by (auto split: if_splits) (metis option.distinct(1))+

lemma hash_ok_remove:
  assumes ok: "hash_ok idx L" and "L c = Some h"
  shows "hash_ok (idx(lh_hash h := None)) (L(c := None))"
  unfolding hash_ok_def
proof (intro allI)
  fix k hid
  have uniq: "hid' = c" if "L hid' = Some h'" "lh_hash h' = lh_hash h" for hid' h'
    using that assms unfolding hash_ok_def by (metis option.inject)
  have iff: "idx k = Some hid \<longleftrightarrow> (\<exists>h. L hid = Some h \<and> lh_hash h = k)"
    using ok unfolding hash_ok_def by blast
  show "(idx(lh_hash h := None)) k = Some hid \<longleftrightarrow> (\<exists>h. (L(c := None)) hid = Some h \<and> lh_hash h = k)"
  proof (cases "hid = c")
    case True
    then show ?thesis using iff assms(2) by auto
  next
    case False
    then show ?thesis using iff uniq by auto
  qed
qed

lemma deactivate_wf:
  assumes "store_wf i" and "live i cid = Some h"
  shows "store_wf (deactivate cid h i)"
proof -
  have "headers_wf (deactivate cid h i)" "bulk_wf (deactivate cid h i)"
    using assms by (auto simp: wf_defs)
  then show ?thesis using assms index_wf_deactivate by (simp add: store_wf_def hash_wf_def hash_ok_set)
qed

lemma activate_wf:
  assumes "store_wf i" and "live i cid = Some h"
  shows "store_wf (activate cid h i)"
proof -
  have "headers_wf (activate cid h i)" "bulk_wf (activate cid h i)"
    using assms by (auto simp: wf_defs)
  then show ?thesis using assms index_wf_activate by (simp add: store_wf_def hash_wf_def hash_ok_set)
qed

lemma remove_header_live [simp]: "live (remove_header hid i) = (live i)(hid := None)"
  by (auto simp: live_def remove_header_def delete_conv' split: option.splits)

lemma remove_header_frame:
  assumes "live i hid = Some h"
  shows "in_hash_to_id (remove_header hid i) = (in_hash_to_id i)(lh_hash h := None)"
    "in_height_to_id (remove_header hid i) = (in_height_to_id i)(lh_height h := None)"
    "in_merkle_to_id (remove_header hid i) = (in_merkle_to_id i)(lh_merkle_root h := None)"
  using assms by (simp_all add: remove_header_def live_def)

lemma remove_header_same [simp]:
  "in_next_id (remove_header hid i) = in_next_id i" "in_tip_id (remove_header hid i) = in_tip_id i"
  "in_bulk (remove_header hid i) = in_bulk i"
  "distinct (map fst (in_headers i)) \<Longrightarrow> distinct (map fst (in_headers (remove_header hid i)))"
  by (simp_all add: remove_header_def distinct_delete split: option.splits)

lemma remove_header_wf:
  assumes "store_wf i"
  shows "store_wf (remove_header hid i)"
proof (cases "live i hid")
  case None
  then show ?thesis using assms by (simp add: remove_header_def live_def)
next
  case (Some h)

  have "headers_wf (remove_header hid i)" "bulk_wf (remove_header hid i)"
    using assms by (auto simp: wf_defs)
  moreover have iwf: "index_wf i" using assms by (simp add: store_wf_def)
  have "index_wf (remove_header hid i)"
    using iwf Some by (simp add: index_wf_def index_ok_unset remove_header_frame [OF Some])
  moreover have "hash_wf (remove_header hid i)"
    using assms Some by (simp add: store_wf_def hash_wf_def hash_ok_remove remove_header_frame [OF Some])
  ultimately show ?thesis by (simp add: store_wf_def)
qed

lemma remove_headers_wf: "store_wf i \<Longrightarrow> store_wf (fold remove_header ids i)"
  by (induction ids arbitrary: i) (simp_all add: remove_header_wf)

lemma remove_headers_live: "live (fold remove_header ids i) x = (if x \<in> set ids then None else live i x)"
  by (induction ids arbitrary: i) auto

section \<open>Walks along parent links\<close>

definition parent_of :: "(u64 \<rightharpoonup> live_block_header) \<Rightarrow> u64 \<Rightarrow> u64 option" where
  "parent_of L cid =
     (case L cid of
        None \<Rightarrow> None
      | Some h \<Rightarrow>
          (case lh_previous_header_id h of
             Some pid \<Rightarrow> (if L pid \<noteq> None then Some pid else None)
           | None \<Rightarrow> None))"

lemma walk_back_parent_of: "walk_back (in_headers i) cid = parent_of (live i) cid"
  by (simp add: walk_back_def parent_of_def live_def)

text \<open>The ids a walk visits before it runs out of headers or meets the ancestor's hash.\<close>

inductive walk_path :: "string \<Rightarrow> (u64 \<rightharpoonup> live_block_header) \<Rightarrow> u64 option \<Rightarrow> u64 list \<Rightarrow> bool" for anc L where
  path_end: "walk_path anc L None []"
| path_gone: "L cid = None \<Longrightarrow> walk_path anc L (Some cid) []"
| path_stop: "L cid = Some h \<Longrightarrow> lh_hash h = anc \<Longrightarrow> walk_path anc L (Some cid) []"
| path_step: "L cid = Some h \<Longrightarrow> lh_hash h \<noteq> anc \<Longrightarrow> walk_path anc L (parent_of L cid) ids \<Longrightarrow>
    walk_path anc L (Some cid) (cid # ids)"

text \<open>Two maps that differ in the activity flags only.\<close>

definition same_links :: "(u64 \<rightharpoonup> live_block_header) \<Rightarrow> (u64 \<rightharpoonup> live_block_header) \<Rightarrow> bool" where
  "same_links L L' \<longleftrightarrow> (\<forall>x. map_option (\<lambda>h. h\<lparr>lh_is_active := False\<rparr>) (L x) =
     map_option (\<lambda>h. h\<lparr>lh_is_active := False\<rparr>) (L' x))"

lemma same_links_refl [simp]: "same_links L L"
  by (simp add: same_links_def)

lemma same_links_sym: "same_links L L' \<Longrightarrow> same_links L' L"
  by (simp add: same_links_def)

lemma same_links_trans: "same_links L L' \<Longrightarrow> same_links L' L'' \<Longrightarrow> same_links L L''"
  by (simp add: same_links_def)

lemma same_links_upd: "L c = Some h \<Longrightarrow> same_links L (L(c \<mapsto> h\<lparr>lh_is_active := b\<rparr>))"
  by (simp add: same_links_def)

lemma eq_but_active:
  "h\<lparr>lh_is_active := False\<rparr> = h'\<lparr>lh_is_active := False\<rparr> \<longleftrightarrow> (\<exists>b. h' = h\<lparr>lh_is_active := b\<rparr>)"
  by (cases h; cases h') auto

lemma same_links_Some:
  assumes "same_links L L'" and "L x = Some h"
  obtains b where "L' x = Some (h\<lparr>lh_is_active := b\<rparr>)"
proof -
  have "Some (h\<lparr>lh_is_active := False\<rparr>) = map_option (\<lambda>h. h\<lparr>lh_is_active := False\<rparr>) (L' x)"
    using assms by (metis option.map(2) same_links_def)
  then obtain h' where h': "L' x = Some h'" "h\<lparr>lh_is_active := False\<rparr> = h'\<lparr>lh_is_active := False\<rparr>"
    by (cases "L' x") auto
  then show ?thesis using that unfolding eq_but_active by blast
qed

lemma same_links_None: "same_links L L' \<Longrightarrow> L x = None \<longleftrightarrow> L' x = None"
  by (metis option.map_disc_iff same_links_def)

lemma same_links_parent: "same_links L L' \<Longrightarrow> parent_of L' x = parent_of L x"
proof (cases "L x")
  case None
  assume "same_links L L'"
  then have "L' x = None" using None same_links_None by metis
  then show ?thesis using None by (simp add: parent_of_def)
next
  case (Some h)
  assume links: "same_links L L'"
  then obtain b where "L' x = Some (h\<lparr>lh_is_active := b\<rparr>)" using Some by (rule same_links_Some)
  then show ?thesis using Some same_links_None [OF links]
    by (simp add: parent_of_def split: option.splits)
qed

definition links_older :: "(u64 \<rightharpoonup> live_block_header) \<Rightarrow> bool" where
  "links_older L \<longleftrightarrow> (\<forall>c p. parent_of L c = Some p \<longrightarrow> p < c)"

lemma store_wf_links_older: "store_wf i \<Longrightarrow> links_older (live i)"
  by (auto simp: wf_defs links_older_def parent_of_def split: option.splits if_splits)

lemma walk_path_exists: "links_older L \<Longrightarrow> \<exists>ids. walk_path anc L cur ids"
proof (cases cur)
  case None
  then show ?thesis using walk_path.path_end by blast
next
  case (Some c)
  assume wf: "links_older L"
  have "\<exists>ids. walk_path anc L (Some c) ids"
  proof (induction c rule: measure_induct_rule [of unat])
    case (less c)
    show ?case
    proof (cases "L c")
      case None
      then show ?thesis using walk_path.path_gone by blast
    next
      case (Some h)
      show ?thesis
      proof (cases "lh_hash h = anc")
        case True
        then show ?thesis using Some walk_path.path_stop by blast
      next
        case False
        have "\<exists>ids. walk_path anc L (parent_of L c) ids"
        proof (cases "parent_of L c")
          case None
          then show ?thesis using walk_path.path_end by auto
        next
          case (Some p)
          then have "unat p < unat c" using wf by (simp add: links_older_def word_less_nat_alt)
          then show ?thesis using less Some by simp
        qed
        then show ?thesis using Some False walk_path.path_step by blast
      qed
    qed
  qed
  then show ?thesis using Some by simp
qed

definition set_all :: "(u64 \<Rightarrow> live_block_header \<Rightarrow> inner \<Rightarrow> inner) \<Rightarrow> u64 list \<Rightarrow> inner \<Rightarrow> inner" where
  "set_all f ids i = fold (\<lambda>c i. case live i c of Some h \<Rightarrow> f c h i | None \<Rightarrow> i) ids i"

lemma set_all_Nil [simp]: "set_all f [] i = i"
  by (simp add: set_all_def)

lemma set_all_Cons: "live i c = Some h \<Longrightarrow> set_all f (c # ids) i = set_all f ids (f c h i)"
  by (simp add: set_all_def)

lemma walk_next_cases:
  assumes "same_links L (live i)"
  shows "walk_next anc (in_headers i) None = None"
    and "L cid = None \<Longrightarrow> walk_next anc (in_headers i) (Some cid) = None"
    and "L cid = Some h \<Longrightarrow> lh_hash h = anc \<Longrightarrow> walk_next anc (in_headers i) (Some cid) = None"
    and "L cid = Some h \<Longrightarrow> lh_hash h \<noteq> anc \<Longrightarrow>
      \<exists>b. walk_next anc (in_headers i) (Some cid) = Some (cid, h\<lparr>lh_is_active := b\<rparr>) \<and>
        live i cid = Some (h\<lparr>lh_is_active := b\<rparr>)"
proof -
  show "walk_next anc (in_headers i) None = None" by (simp add: walk_next_def)
  show "L cid = None \<Longrightarrow> walk_next anc (in_headers i) (Some cid) = None"
    using same_links_None [OF assms, of cid] by (simp add: walk_next_def live_def)
  show "L cid = Some h \<Longrightarrow> lh_hash h = anc \<Longrightarrow> walk_next anc (in_headers i) (Some cid) = None"
    by (erule same_links_Some [OF assms, of cid h]) (auto simp: walk_next_def live_def)
  show "L cid = Some h \<Longrightarrow> lh_hash h \<noteq> anc \<Longrightarrow>
      \<exists>b. walk_next anc (in_headers i) (Some cid) = Some (cid, h\<lparr>lh_is_active := b\<rparr>) \<and>
        live i cid = Some (h\<lparr>lh_is_active := b\<rparr>)"
    by (erule same_links_Some [OF assms, of cid h]) (auto simp: walk_next_def live_def)
qed

lemma block_header_from_active [simp]: "block_header_from (h\<lparr>lh_is_active := b\<rparr>) = block_header_from h"
  by (simp add: block_header_from_def)

lemma deactivate_walk_path:
  "walk_path anc L cur ids \<Longrightarrow> same_links L (live i) \<Longrightarrow>
     deactivate_walk anc i d cur =
       Some (set_all deactivate ids i, d @ map (\<lambda>c. block_header_from (the (L c))) ids)"
proof (induction arbitrary: i d rule: walk_path.induct)
  case (path_step cid h ids)
  obtain b where nxt: "walk_next anc (in_headers i) (Some cid) = Some (cid, h\<lparr>lh_is_active := b\<rparr>)"
    and h: "live i cid = Some (h\<lparr>lh_is_active := b\<rparr>)"
    using walk_next_cases(4) [OF path_step.prems path_step.hyps(1,2)] by blast
  let ?j = "deactivate cid (h\<lparr>lh_is_active := b\<rparr>) i"
  have links: "same_links L (live ?j)"
    using same_links_trans [OF path_step.prems same_links_upd [of "live i" cid, OF h, of False]] by simp
  show ?case
    by (subst deactivate_walk.simps)
      (simp add: nxt walk_back_parent_of same_links_parent [OF links] path_step.IH [OF links]
        set_all_Cons [OF h] path_step.hyps(1) del: live_deactivate)
qed (subst deactivate_walk.simps; simp add: walk_next_cases)+

lemma activate_walk_path:
  "walk_path anc L cur ids \<Longrightarrow> same_links L (live i) \<Longrightarrow>
     activate_walk anc i cur = Some (set_all activate ids i)"
proof (induction arbitrary: i rule: walk_path.induct)
  case (path_step cid h ids)
  obtain b where nxt: "walk_next anc (in_headers i) (Some cid) = Some (cid, h\<lparr>lh_is_active := b\<rparr>)"
    and h: "live i cid = Some (h\<lparr>lh_is_active := b\<rparr>)"
    using walk_next_cases(4) [OF path_step.prems path_step.hyps(1,2)] by blast
  let ?j = "activate cid (h\<lparr>lh_is_active := b\<rparr>) i"
  have links: "same_links L (live ?j)"
    using same_links_trans [OF path_step.prems same_links_upd [of "live i" cid, OF h, of True]] by simp
  show ?case
    by (subst activate_walk.simps)
      (simp add: nxt walk_back_parent_of same_links_parent [OF links] path_step.IH [OF links]
        set_all_Cons [OF h] del: live_activate)
qed (subst activate_walk.simps; simp add: walk_next_cases)+

lemma set_all_wf:
  "store_wf i \<Longrightarrow> (\<And>i c h. store_wf i \<Longrightarrow> live i c = Some h \<Longrightarrow> store_wf (f c h i)) \<Longrightarrow>
     store_wf (set_all f ids i)"
  unfolding set_all_def by (induction ids arbitrary: i) (auto split: option.splits)

lemma set_all_deactivate:
  "live (set_all deactivate ids i) x =
     (if x \<in> set ids then map_option (\<lambda>h. h\<lparr>lh_is_active := False\<rparr>) (live i x) else live i x)"
  "in_hash_to_id (set_all deactivate ids i) = in_hash_to_id i"
  "in_next_id (set_all deactivate ids i) = in_next_id i"
  "in_tip_id (set_all deactivate ids i) = in_tip_id i"
  "in_bulk (set_all deactivate ids i) = in_bulk i"
  unfolding set_all_def
  by (induction ids arbitrary: i) (auto split: option.splits simp: option.map_comp comp_def)

lemma set_all_activate:
  "live (set_all activate ids i) x =
     (if x \<in> set ids then map_option (\<lambda>h. h\<lparr>lh_is_active := True\<rparr>) (live i x) else live i x)"
  "in_hash_to_id (set_all activate ids i) = in_hash_to_id i"
  "in_next_id (set_all activate ids i) = in_next_id i"
  "in_tip_id (set_all activate ids i) = in_tip_id i"
  "in_bulk (set_all activate ids i) = in_bulk i"
  unfolding set_all_def
  by (induction ids arbitrary: i) (auto split: option.splits simp: option.map_comp comp_def)

section \<open>The common ancestor\<close>

text \<open>
  Every header a walk can follow to, by link or by hash, is lower than the header it comes
  from. Callers number headers by their parent's height plus one, so this holds of the stores
  they build; the store itself does not check it.
\<close>

definition heights_ok :: "inner \<Rightarrow> bool" where
  "heights_ok i \<longleftrightarrow> (\<forall>c h p. live i c = Some h \<longrightarrow>
     prev_header (in_headers i) (in_hash_to_id i) h = Some p \<longrightarrow> lh_height p < lh_height h)"

text \<open>No header was stored before its parent.\<close>

definition no_late_parents :: "inner \<Rightarrow> bool" where
  "no_late_parents i \<longleftrightarrow> (\<forall>c h. live i c = Some h \<longrightarrow> lh_previous_header_id h = None \<longrightarrow>
     in_hash_to_id i (lh_previous_hash h) = None)"

definition linked :: "(u64 \<rightharpoonup> live_block_header) \<Rightarrow> u64 \<Rightarrow> u64 \<Rightarrow> bool" where
  "linked L = (\<lambda>c p. parent_of L c = Some p)\<^sup>*\<^sup>*"

lemma linked_refl [simp]: "linked L c c"
  by (simp add: linked_def)

lemma linked_step: "parent_of L c = Some p \<Longrightarrow> linked L p x \<Longrightarrow> linked L c x"
  unfolding linked_def by (rule converse_rtranclp_into_rtranclp)

lemma linked_trans: "linked L a b \<Longrightarrow> linked L b c \<Longrightarrow> linked L a c"
  unfolding linked_def by (rule rtranclp_trans)

lemma linked_cases:
  assumes "linked L c x"
  obtains "x = c" | p where "parent_of L c = Some p" "linked L p x"
  using assms unfolding linked_def by (cases rule: converse_rtranclpE) auto

lemma prev_header_live:
  assumes "store_wf i" "prev_header (in_headers i) (in_hash_to_id i) h = Some p"
  obtains c where "live i c = Some p"
  using assms(2) unfolding prev_header_def live_def by (metis option.case_eq_if option.distinct(1))

lemma prev_header_parent:
  assumes "no_late_parents i" "live i c = Some h"
    "prev_header (in_headers i) (in_hash_to_id i) h = Some p"
  obtains x where "parent_of (live i) c = Some x" "live i x = Some p"
proof (cases "lh_previous_header_id h")
  case (Some pid)
  then have "live i pid = Some p" using assms(3) by (simp add: prev_header_def live_def)
  moreover from this have "parent_of (live i) c = Some pid" using assms(2) Some by (simp add: parent_of_def)
  ultimately show ?thesis using that by blast
next
  case None
  then have "in_hash_to_id i (lh_previous_hash h) = None"
    using assms(1,2) unfolding no_late_parents_def by blast
  then show ?thesis using assms(3) None by (simp add: prev_header_def)
qed

lemma level_down_returns:
  assumes wf: "store_wf i" "heights_ok i"
  shows "live i c = Some h \<Longrightarrow>
    \<exists>r. level_down (in_headers i) (in_hash_to_id i) ht h = Some r \<and>
      (no_late_parents i \<longrightarrow> (\<forall>a. r = Some a \<longrightarrow> (\<exists>x. linked (live i) c x \<and> live i x = Some a)))"
proof (induction h arbitrary: c rule: measure_induct_rule [of "\<lambda>h. unat (lh_height h)"])
  case (less h)
  note h = less.prems
  show ?case
  proof (cases "lh_height h > ht")
    case False
    then show ?thesis using h by (subst level_down.simps) (auto intro!: exI [of _ c])
  next
    case True
    show ?thesis
    proof (cases "prev_header (in_headers i) (in_hash_to_id i) h")
      case None
      then show ?thesis using True by (subst level_down.simps) simp
    next
      case (Some p)
      have lower: "unat (lh_height p) < unat (lh_height h)"
        using wf(2) h Some unfolding heights_ok_def by (simp add: word_less_nat_alt)
      obtain x where x: "live i x = Some p" and
        par: "no_late_parents i \<Longrightarrow> parent_of (live i) c = Some x"
        using prev_header_live [OF wf(1) Some] prev_header_parent [OF _ h Some] by metis
      have eq: "level_down (in_headers i) (in_hash_to_id i) ht h =
          level_down (in_headers i) (in_hash_to_id i) ht p"
        using True Some by (subst level_down.simps) simp
      show ?thesis unfolding eq using less.IH [OF lower x] par linked_step by metis
    qed
  qed
qed

lemma lockstep_sound:
  "no_late_parents i \<Longrightarrow> live i c1 = Some h1 \<Longrightarrow> live i c2 = Some h2 \<Longrightarrow>
    lockstep (in_headers i) (in_hash_to_id i) n h1 h2 = Some a \<Longrightarrow>
    \<exists>x1 x2 a'. linked (live i) c1 x1 \<and> live i x1 = Some a \<and>
      linked (live i) c2 x2 \<and> live i x2 = Some a' \<and> lh_hash a' = lh_hash a"
proof (induction n arbitrary: c1 c2 h1 h2)
  case 0
  then have "h1 = a" "lh_hash h2 = lh_hash a" by (simp_all split: if_splits)
  then show ?case using "0.prems"(2,3) linked_refl by blast
next
  case (Suc n)
  show ?case
  proof (cases "lh_hash h1 = lh_hash h2")
    case True
    then have "h1 = a" "lh_hash h2 = lh_hash a" using Suc.prems(4) by simp_all
    then show ?thesis using Suc.prems(2,3) linked_refl by blast
  next
    case False
    then obtain p1 p2 where p: "prev_header (in_headers i) (in_hash_to_id i) h1 = Some p1"
      "prev_header (in_headers i) (in_hash_to_id i) h2 = Some p2"
      "lockstep (in_headers i) (in_hash_to_id i) n p1 p2 = Some a"
      using Suc.prems(4) by (auto split: option.splits)
    obtain x1 where x1: "parent_of (live i) c1 = Some x1" "live i x1 = Some p1"
      using prev_header_parent [OF Suc.prems(1,2) p(1)] .
    obtain x2 where x2: "parent_of (live i) c2 = Some x2" "live i x2 = Some p2"
      using prev_header_parent [OF Suc.prems(1,3) p(2)] .
    show ?thesis using Suc.IH [OF Suc.prems(1) x1(2) x2(2) p(3)] x1(1) x2(1) linked_step by metis
  qed
qed

lemma same_hash_same_id:
  "store_wf i \<Longrightarrow> live i x = Some h \<Longrightarrow> live i y = Some h' \<Longrightarrow> lh_hash h = lh_hash h' \<Longrightarrow> x = y"
  unfolding store_wf_def hash_wf_def hash_ok_def by (metis option.inject)

lemma store_wf_hash: "store_wf i \<Longrightarrow> live i x = Some h \<Longrightarrow> in_hash_to_id i (lh_hash h) = Some x"
  unfolding store_wf_def hash_wf_def hash_ok_def by blast

lemma store_wf_hash_live: "store_wf i \<Longrightarrow> in_hash_to_id i k = Some x \<Longrightarrow> \<exists>h. live i x = Some h \<and> lh_hash h = k"
  unfolding store_wf_def hash_wf_def hash_ok_def by blast

lemma find_common_ancestor_returns:
  assumes wf: "store_wf i" "heights_ok i"
  shows "\<exists>r. find_common_ancestor_sync t (in_headers i) (in_hash_to_id i) id1 id2 = Some r \<and>
    (no_late_parents i \<longrightarrow> (\<forall>a. r = Some a \<longrightarrow>
       (\<exists>x. linked (live i) id1 x \<and> linked (live i) id2 x \<and> live i x = Some a)))"
proof (cases "live i id1 = None \<or> live i id2 = None")
  case True
  then show ?thesis by (auto simp: find_common_ancestor_sync_def live_def split: option.splits)
next
  case False
  then obtain h1 h2 where h: "live i id1 = Some h1" "live i id2 = Some h2" by auto
  let ?ld = "level_down (in_headers i) (in_hash_to_id i)"
  let ?fc = "find_common_ancestor_sync t (in_headers i) (in_hash_to_id i) id1 id2"
  obtain r1 where r1: "?ld (lh_height h2) h1 = Some r1"
    "no_late_parents i \<Longrightarrow> \<forall>a. r1 = Some a \<longrightarrow> (\<exists>x. linked (live i) id1 x \<and> live i x = Some a)"
    using level_down_returns [OF wf h(1), of "lh_height h2"] by blast
  show ?thesis
  proof (cases r1)
    case None
    then show ?thesis using h r1 by (simp add: find_common_ancestor_sync_def live_def)
  next
    case (Some c1)
    obtain r2 where r2: "?ld (lh_height c1) h2 = Some r2"
      "no_late_parents i \<Longrightarrow> \<forall>a. r2 = Some a \<longrightarrow> (\<exists>x. linked (live i) id2 x \<and> live i x = Some a)"
      using level_down_returns [OF wf h(2), of "lh_height c1"] by blast
    show ?thesis
    proof (cases r2)
      case None
      then show ?thesis using h r1 r2 Some by (simp add: find_common_ancestor_sync_def live_def)
    next
      case (Some c2)
      let ?r = "lockstep (in_headers i) (in_hash_to_id i) (unat t) c1 c2"
      have eq: "?fc = Some ?r"
        using h r1 r2 Some \<open>r1 = Some c1\<close> by (simp add: find_common_ancestor_sync_def live_def)
      moreover have "\<exists>x. linked (live i) id1 x \<and> linked (live i) id2 x \<and> live i x = Some a"
        if late: "no_late_parents i" and a: "?r = Some a" for a
      proof -
        obtain y1 y2 where y: "linked (live i) id1 y1" "live i y1 = Some c1"
          "linked (live i) id2 y2" "live i y2 = Some c2"
          using r1(2) [OF late] r2(2) [OF late] Some \<open>r1 = Some c1\<close> by blast
        obtain x1 x2 a' where x: "linked (live i) y1 x1" "live i x1 = Some a"
          "linked (live i) y2 x2" "live i x2 = Some a'" "lh_hash a' = lh_hash a"
          using lockstep_sound [OF late y(2,4) a] by blast
        have "x2 = x1" using same_hash_same_id [OF wf(1) x(4,2,5)] .
        then show ?thesis using x y linked_trans by metis
      qed
      ultimately show ?thesis by blast
    qed
  qed
qed

section \<open>Insertion keeps the store well formed\<close>

lemma handle_reorg_returns:
  assumes wf: "store_wf i" "heights_ok i"
  shows "\<exists>i' d ds. handle_reorg t i old new = Some (i', d, ds)"
proof -
  obtain r where r: "find_common_ancestor_sync t (in_headers i) (in_hash_to_id i) old new = Some r"
    using find_common_ancestor_returns [OF wf] by blast
  show ?thesis
  proof (cases r)
    case None
    then show ?thesis by (simp add: handle_reorg_def r)
  next
    case (Some a)
    obtain ids where ids: "walk_path (lh_hash a) (live i) (Some old) ids"
      using walk_path_exists [OF store_wf_links_older [OF wf(1)]] by blast
    let ?j = "set_all deactivate ids i"
    have "store_wf ?j" using wf(1) deactivate_wf by (rule set_all_wf)
    then obtain ids' where "walk_path (lh_hash a) (live ?j) (Some new) ids'"
      using walk_path_exists [OF store_wf_links_older] by blast
    then show ?thesis
      using deactivate_walk_path [OF ids, of i "[]"] activate_walk_path [of _ "live ?j"]
      by (simp add: handle_reorg_def r Some)
  qed
qed

lemma handle_reorg_wf:
  assumes wf: "store_wf i" and run: "handle_reorg t i old new = Some (i', d, ds)"
  shows "store_wf i'"
proof -
  obtain r where r: "find_common_ancestor_sync t (in_headers i) (in_hash_to_id i) old new = Some r"
    using run by (auto simp: handle_reorg_def bind_eq_Some_conv)
  show ?thesis
  proof (cases r)
    case None
    then show ?thesis using run wf by (simp add: handle_reorg_def r)
  next
    case (Some a)
    obtain ids where ids: "walk_path (lh_hash a) (live i) (Some old) ids"
      using walk_path_exists [OF store_wf_links_older [OF wf]] by blast
    let ?j = "set_all deactivate ids i"
    have j: "store_wf ?j" using wf deactivate_wf by (rule set_all_wf)
    then obtain ids' where "walk_path (lh_hash a) (live ?j) (Some new) ids'"
      using walk_path_exists [OF store_wf_links_older] by blast
    then have "i' = set_all activate ids' ?j"
      using run deactivate_walk_path [OF ids, of i "[]"] activate_walk_path [of _ "live ?j"]
      by (simp add: handle_reorg_def r Some)
    then show ?thesis using j activate_wf by (auto intro: set_all_wf)
  qed
qed

definition fresh_header :: "live_block_header \<Rightarrow> bool" where
  "fresh_header h \<longleftrightarrow> lh_previous_header_id h = None \<and> \<not> lh_is_active h \<and> \<not> lh_is_chain_tip h"

lemma link_header_facts:
  assumes "store_wf i" and "fresh_header h" and "link_header C i w h = (h', np)"
  shows "lh_header_id h' = Some (in_next_id i)" "lh_hash h' = lh_hash h" "lh_height h' = lh_height h"
    "lh_previous_hash h' = lh_previous_hash h" "\<not> lh_is_active h'"
    "lh_previous_header_id h' = in_hash_to_id i (lh_previous_hash h)"
    "lh_previous_header_id h' = Some p \<Longrightarrow> p < in_next_id i"
proof -
  show "lh_header_id h' = Some (in_next_id i)" "lh_hash h' = lh_hash h" "lh_height h' = lh_height h"
    "lh_previous_hash h' = lh_previous_hash h" "\<not> lh_is_active h'"
    and prev: "lh_previous_header_id h' = in_hash_to_id i (lh_previous_hash h)"
    using assms(2,3) by (auto simp: link_header_def Let_def fresh_header_def split: option.splits)
  assume "lh_previous_header_id h' = Some p"
  then have "in_hash_to_id i (lh_previous_hash h) = Some p" using prev by simp
  then show "p < in_next_id i"
    using assms(1) unfolding store_wf_def headers_wf_def hash_wf_def hash_ok_def by blast
qed

lemma next_id_fresh: "store_wf i \<Longrightarrow> live i (in_next_id i) = None"
  unfolding store_wf_def headers_wf_def by (metis less_irrefl not_None_eq)

lemma live_unmark_tip:
  "map_of (unmark_tip t hs) x = (if t = Some x then map_option (\<lambda>h. h\<lparr>lh_is_chain_tip := False\<rparr>) (map_of hs x)
     else map_of hs x)"
  by (auto simp: unmark_tip_def update_conv' split: option.splits)

lemma distinct_unmark_tip: "distinct (map fst hs) \<Longrightarrow> distinct (map fst (unmark_tip t hs))"
  by (simp add: unmark_tip_def distinct_update split: option.splits)

definition unmarked :: "inner \<Rightarrow> inner" where
  "unmarked i = i\<lparr>in_headers := unmark_tip (in_tip_id i) (in_headers i)\<rparr>"

lemma live_unmarked:
  "live (unmarked i) x = (if in_tip_id i = Some x then map_option (\<lambda>h. h\<lparr>lh_is_chain_tip := False\<rparr>) (live i x)
     else live i x)"
  by (simp add: unmarked_def live_def live_unmark_tip)

lemma unmarked_frame [simp]:
  "in_hash_to_id (unmarked i) = in_hash_to_id i" "in_height_to_id (unmarked i) = in_height_to_id i"
  "in_merkle_to_id (unmarked i) = in_merkle_to_id i" "in_next_id (unmarked i) = in_next_id i"
  "in_tip_id (unmarked i) = in_tip_id i" "in_bulk (unmarked i) = in_bulk i"
  by (simp_all add: unmarked_def)

lemma live_unmarked_Some:
  assumes "live (unmarked i) x = Some h"
  obtains b where "live i x = Some (h\<lparr>lh_is_chain_tip := b\<rparr>)"
proof -
  obtain h0 where h0: "live i x = Some h0" "h = h0 \<or> h = h0\<lparr>lh_is_chain_tip := False\<rparr>"
    using assms by (auto simp: live_unmarked split: if_splits)
  then have "h0 = h\<lparr>lh_is_chain_tip := lh_is_chain_tip h0\<rparr>" by (cases h0) auto
  then show ?thesis using h0 that by metis
qed

lemma unmarked_wf: "store_wf i \<Longrightarrow> store_wf (unmarked i)"
proof -
  assume wf: "store_wf i"
  show ?thesis
  proof (cases "\<exists>t h. in_tip_id i = Some t \<and> live i t = Some h")
    case False
    then have "unmarked i = i" by (cases i) (auto simp: unmarked_def unmark_tip_def live_def split: option.splits)
    then show ?thesis using wf by simp
  next
    case True
    then obtain t h where t: "in_tip_id i = Some t" "live i t = Some h" by blast
    have L: "live (unmarked i) = (live i)(t \<mapsto> h\<lparr>lh_is_chain_tip := False\<rparr>)"
      using t by (auto simp: live_unmarked)
    have "headers_wf (unmarked i)" "bulk_wf (unmarked i)"
      using wf t by (auto simp: wf_defs L) (auto simp: unmarked_def distinct_unmark_tip)
    moreover have "hash_wf (unmarked i)"
      using wf t by (simp add: store_wf_def hash_wf_def L hash_ok_set)
    moreover have "index_wf (unmarked i)"
      using wf t by (auto simp: store_wf_def index_wf_def L intro!: index_ok_same)
    ultimately show ?thesis by (simp add: store_wf_def)
  qed
qed

text \<open>The state after the new tip is stored and before the reorganisation.\<close>

definition tip_stored :: "u64 \<Rightarrow> live_block_header \<Rightarrow> inner \<Rightarrow> inner" where
  "tip_stored nid header i =
     (let header = header\<lparr>lh_is_active := True, lh_is_chain_tip := True\<rparr>; i = unmarked i
      in i\<lparr>in_headers := AList.update nid header (in_headers i),
           in_hash_to_id := (in_hash_to_id i)(lh_hash header \<mapsto> nid),
           in_height_to_id := (in_height_to_id i)(lh_height header \<mapsto> nid),
           in_merkle_to_id := (in_merkle_to_id i)(lh_merkle_root header \<mapsto> nid)\<rparr>)"

lemma tip_stored_frame [simp]:
  "live (tip_stored nid h i) = (live (unmarked i))(nid \<mapsto> h\<lparr>lh_is_active := True, lh_is_chain_tip := True\<rparr>)"
  "in_hash_to_id (tip_stored nid h i) = (in_hash_to_id i)(lh_hash h \<mapsto> nid)"
  "in_height_to_id (tip_stored nid h i) = (in_height_to_id i)(lh_height h \<mapsto> nid)"
  "in_merkle_to_id (tip_stored nid h i) = (in_merkle_to_id i)(lh_merkle_root h \<mapsto> nid)"
  "in_next_id (tip_stored nid h i) = in_next_id i" "in_tip_id (tip_stored nid h i) = in_tip_id i"
  "in_bulk (tip_stored nid h i) = in_bulk i"
  by (simp_all add: tip_stored_def Let_def live_def update_conv')

lemma insert_as_tip_alt:
  "insert_as_tip t i res nid h old_tip =
     (let res' = res\<lparr>ir_is_active_tip := True, ir_added := True,
            ir_prior_tip := map_option block_header_from old_tip\<rparr>
      in case (case old_tip of Some tip \<Rightarrow> lh_previous_hash h \<noteq> lh_hash tip | None \<Rightarrow> False, in_tip_id i) of
           (True, Some old_id) \<Rightarrow>
             map_option (\<lambda>(i2, depth, deactivated).
                 (i2\<lparr>in_tip_id := Some nid\<rparr>,
                  res'\<lparr>ir_reorg_depth := depth, ir_deactivated_headers := deactivated\<rparr>))
               (handle_reorg t (tip_stored nid h i) old_id nid)
         | _ \<Rightarrow> Some ((tip_stored nid h i)\<lparr>in_tip_id := Some nid\<rparr>, res'))"
  by (cases old_tip; cases "in_tip_id i";
      simp add: insert_as_tip_def tip_stored_def unmarked_def Let_def split: bool.splits)

lemma store_wf_tip [simp]: "store_wf (i\<lparr>in_tip_id := t\<rparr>) = store_wf i"
  by (simp add: wf_defs live_def)


definition can_store :: "inner \<Rightarrow> u64 \<Rightarrow> live_block_header \<Rightarrow> bool" where
  "can_store i nid h \<longleftrightarrow> live i nid = None \<and> (\<forall>x. live i x \<noteq> None \<longrightarrow> x < nid) \<and>
     in_hash_to_id i (lh_hash h) = None \<and>
     lh_header_id h = Some nid \<and> nid < in_next_id i \<and> (\<forall>p. lh_previous_header_id h = Some p \<longrightarrow> p < nid)"

lemma tip_stored_wf:
  assumes wf: "store_wf i" and new: "can_store i nid h"
  shows "store_wf (tip_stored nid h i)"
proof -
  let ?h = "h\<lparr>lh_is_active := True, lh_is_chain_tip := True\<rparr>"
  have u: "store_wf (unmarked i)" using wf by (rule unmarked_wf)
  have none: "live (unmarked i) nid = None" using new by (simp add: can_store_def live_unmarked)
  have "distinct (map fst (in_headers (tip_stored nid h i)))"
    using u by (simp add: tip_stored_def Let_def distinct_update store_wf_def headers_wf_def)
  then have "headers_wf (tip_stored nid h i)" "bulk_wf (tip_stored nid h i)"
    using u new by (auto simp: wf_defs can_store_def)
  moreover have "hash_wf (tip_stored nid h i)"
    using hash_ok_new [of "in_hash_to_id i" "live (unmarked i)" nid ?h] u new none
    by (simp add: store_wf_def hash_wf_def can_store_def)
  moreover have "index_wf (tip_stored nid h i)"
    using index_ok_set [of lh_height "in_height_to_id i" "live (unmarked i)" nid ?h]
      index_ok_set [of lh_merkle_root "in_merkle_to_id i" "live (unmarked i)" nid ?h] u none
    by (simp add: store_wf_def index_wf_def)
  ultimately show ?thesis by (simp add: store_wf_def)
qed

lemma insert_as_fork_frame [simp]:
  "live (fst (insert_as_fork i r nid h)) = (live i)(nid \<mapsto> h)"
  "in_hash_to_id (fst (insert_as_fork i r nid h)) = (in_hash_to_id i)(lh_hash h \<mapsto> nid)"
  "in_height_to_id (fst (insert_as_fork i r nid h)) = in_height_to_id i"
  "in_merkle_to_id (fst (insert_as_fork i r nid h)) = in_merkle_to_id i"
  "in_next_id (fst (insert_as_fork i r nid h)) = in_next_id i"
  "in_tip_id (fst (insert_as_fork i r nid h)) = in_tip_id i"
  "in_bulk (fst (insert_as_fork i r nid h)) = in_bulk i"
  by (simp_all add: insert_as_fork_def live_def update_conv')

lemma insert_as_fork_wf:
  assumes wf: "store_wf i" and new: "can_store i nid h"
  shows "store_wf (fst (insert_as_fork i r nid h))"
proof -
  let ?j = "fst (insert_as_fork i r nid h)"
  have none: "live i nid = None" using new by (simp add: can_store_def)
  have "distinct (map fst (in_headers ?j))"
    using wf by (simp add: insert_as_fork_def distinct_update store_wf_def headers_wf_def)
  then have "headers_wf ?j" "bulk_wf ?j" using wf new by (auto simp: wf_defs can_store_def)
  moreover have "hash_wf ?j"
    using hash_ok_new [of "in_hash_to_id i" "live i" nid h] wf new none
    by (simp add: store_wf_def hash_wf_def can_store_def)
  moreover have "index_wf ?j" using wf none by (auto simp: store_wf_def index_wf_def intro!: index_ok_same)
  ultimately show ?thesis by (simp add: store_wf_def)
qed

lemma insert_as_tip_wf:
  assumes "store_wf i" "can_store i nid h" "insert_as_tip t i res nid h old_tip = Some (i', r)"
  shows "store_wf i'"
  using assms(3) tip_stored_wf [OF assms(1,2)] handle_reorg_wf [of "tip_stored nid h i"]
  by (auto simp: insert_as_tip_alt Let_def split: option.splits bool.splits if_splits)

lemma fork_choice_cases:
  assumes "fork_choice t i res nid h = Some (i', r)"
  obtains (tip) res' where "insert_as_tip t i res' nid h (Option.bind (in_tip_id i) (live i)) = Some (i', r)"
      "\<And>tip. Option.bind (in_tip_id i) (live i) = Some tip \<Longrightarrow> is_more_work (lh_chain_work h) (lh_chain_work tip)"
  | (fork) tip where "i' = fst (insert_as_fork i res nid h)" "Option.bind (in_tip_id i) (live i) = Some tip"
      "\<not> is_more_work (lh_chain_work h) (lh_chain_work tip)"
proof (cases "Option.bind (in_tip_id i) (live i)")
  case None
  then show ?thesis using assms tip by (simp add: fork_choice_def live_def Let_def)
next
  case (Some old)
  show ?thesis
  proof (cases "is_more_work (lh_chain_work h) (lh_chain_work old)")
    case True
    then show ?thesis using assms tip Some by (simp add: fork_choice_def live_def Let_def)
  next
    case False
    have "i' = fst (insert_as_fork i (res\<lparr>ir_no_tip := False\<rparr>) nid h)"
      using assms False Some by (simp add: fork_choice_def live_def Let_def)
    then have "i' = fst (insert_as_fork i res nid h)" by (simp add: insert_as_fork_def)
    then show ?thesis using fork False Some by blast
  qed
qed

text \<open>The state as it enters the fork choice.\<close>

definition bump_id :: "inner \<Rightarrow> inner" where
  "bump_id i = i\<lparr>in_next_id := in_next_id i + 1\<rparr>"

lemma bump_id_frame [simp]:
  "live (bump_id i) = live i" "in_hash_to_id (bump_id i) = in_hash_to_id i"
  "in_height_to_id (bump_id i) = in_height_to_id i" "in_merkle_to_id (bump_id i) = in_merkle_to_id i"
  "in_next_id (bump_id i) = in_next_id i + 1" "in_tip_id (bump_id i) = in_tip_id i"
  "in_bulk (bump_id i) = in_bulk i" "in_headers (bump_id i) = in_headers i"
  by (simp_all add: bump_id_def live_def)

lemma insert_header_dupe:
  "in_hash_to_id (ms_inner s) (lh_hash h) \<noteq> None \<Longrightarrow>
     insert_header C s h = Some (s, insert_result_default\<lparr>ir_dupe := True\<rparr>)"
  using calculate_work_Some [of "lh_bits h"] by (auto simp: insert_header_def Let_def)

lemma insert_header_new:
  assumes "in_hash_to_id (ms_inner s) (lh_hash h) = None"
  obtains w h' np where "calculate_work (lh_bits h) = Some w"
    "link_header C (ms_inner s) w h = (h', np)"
    "insert_header C s h = map_option (\<lambda>(i', r). (s\<lparr>ms_inner := i'\<rparr>, r))
       (fork_choice (ms_reorg_height_threshold s) (bump_id (ms_inner s))
          (insert_result_default\<lparr>ir_no_prev := np\<rparr>) (in_next_id (ms_inner s)) h')"
proof -
  obtain w where w: "calculate_work (lh_bits h) = Some w" using calculate_work_Some by blast
  obtain h' np where l: "link_header C (ms_inner s) w h = (h', np)" by fastforce
  show ?thesis
    by (rule that [OF w l]) (simp add: insert_header_def w l assms Let_def bump_id_def)
qed

lemma bump_id_wf:
  assumes wf: "store_wf i" and room: "in_next_id i \<noteq> - 1"
  shows "store_wf (bump_id i)"
proof -
  have lt: "in_next_id i < in_next_id i + 1" using room
    by (metis add.commute inc_less_eq_iff less_le order.refl add_cancel_right_right zero_neq_one)
  then have "headers_wf (bump_id i)" using wf by (auto simp: store_wf_def headers_wf_def dest: less_trans)
  then show ?thesis using wf by (simp add: store_wf_def hash_wf_def index_wf_def bulk_wf_def)
qed

lemma can_store_linked:
  assumes wf: "store_wf i" and room: "in_next_id i \<noteq> - 1" and fresh: "fresh_header h"
    and new: "in_hash_to_id i (lh_hash h) = None" and l: "link_header C i w h = (h', np)"
  shows "can_store (bump_id i) (in_next_id i) h'"
proof -
  have lt: "in_next_id i < in_next_id i + 1" using room
    by (metis add.commute inc_less_eq_iff less_le order.refl add_cancel_right_right zero_neq_one)
  have "\<forall>x. live i x \<noteq> None \<longrightarrow> x < in_next_id i" using wf by (auto simp: store_wf_def headers_wf_def)
  then show ?thesis
    using link_header_facts [OF wf fresh l] new next_id_fresh [OF wf] lt by (simp add: can_store_def)
qed

lemma insert_header_wf:
  assumes wf: "store_wf (ms_inner s)" and room: "in_next_id (ms_inner s) \<noteq> - 1"
    and fresh: "fresh_header h" and run: "insert_header C s h = Some (s', r)"
  shows "store_wf (ms_inner s')"
proof (cases "in_hash_to_id (ms_inner s) (lh_hash h) = None")
  case False
  then show ?thesis using run wf insert_header_dupe by simp
next
  case True
  obtain w h' np where l: "link_header C (ms_inner s) w h = (h', np)"
    and eq: "insert_header C s h = map_option (\<lambda>(i', r). (s\<lparr>ms_inner := i'\<rparr>, r))
       (fork_choice (ms_reorg_height_threshold s) (bump_id (ms_inner s))
          (insert_result_default\<lparr>ir_no_prev := np\<rparr>) (in_next_id (ms_inner s)) h')"
    using insert_header_new [OF True] by metis
  obtain i' where i': "s' = s\<lparr>ms_inner := i'\<rparr>"
    and fc: "fork_choice (ms_reorg_height_threshold s) (bump_id (ms_inner s))
          (insert_result_default\<lparr>ir_no_prev := np\<rparr>) (in_next_id (ms_inner s)) h' = Some (i', r)"
    using run unfolding eq by auto
  note b = bump_id_wf [OF wf room] and c = can_store_linked [OF wf room fresh True l]
  from fc have "store_wf i'"
    by (cases rule: fork_choice_cases) (auto intro: insert_as_tip_wf [OF b c] insert_as_fork_wf [OF b c])
  then show ?thesis using i' by simp
qed

end
