(* ===== verification/ChainSelect.thy ===== *)
theory ChainSelect
  imports HeaderStore
begin

text \<open>
  The chain selection of the in-memory header store: insertion always returns, the tip is a
  header of maximal cumulative work, and the active headers are exactly the tip and its
  ancestors, all found by height.
\<close>

section \<open>Chains of parent links\<close>

lemma linked_le:
  assumes "links_older L" and "linked L c x"
  shows "x \<le> c"
  using assms(2) unfolding linked_def
proof (induction rule: converse_rtranclp_induct)
  case (step y z)
  then have "z < y" using assms(1) by (simp add: links_older_def)
  then show ?case using step.IH by simp
qed simp

lemma linked_linear:
  assumes "linked L a b" "linked L a c"
  shows "linked L b c \<or> linked L c b"
  using assms(1) unfolding linked_def
proof (induction rule: rtranclp_induct)
  case base
  then show ?case using assms(2) by (simp add: linked_def)
next
  case (step y z)
  from step.IH show ?case
  proof
    assume "(\<lambda>c p. parent_of L c = Some p)\<^sup>*\<^sup>* y c"
    then show ?thesis
    proof (cases rule: converse_rtranclpE)
      case base
      then show ?thesis using step.hyps(2) by blast
    next
      case (step w)
      then show ?thesis using \<open>parent_of L y = Some z\<close> by simp
    qed
  next
    assume "(\<lambda>c p. parent_of L c = Some p)\<^sup>*\<^sup>* c y"
    then show ?thesis using step.hyps(2) by (meson rtranclp.rtrancl_into_rtrancl)
  qed
qed

lemma parent_of_live: "parent_of L c = Some p \<Longrightarrow> (\<exists>h. L c = Some h) \<and> (\<exists>h. L p = Some h)"
  by (auto simp: parent_of_def split: option.splits if_splits)

definition heights_drop :: "(u64 \<rightharpoonup> live_block_header) \<Rightarrow> bool" where
  "heights_drop L \<longleftrightarrow> (\<forall>c p h h'. parent_of L c = Some p \<longrightarrow> L c = Some h \<longrightarrow> L p = Some h' \<longrightarrow>
     lh_height h' < lh_height h)"

lemma heights_ok_drop: "heights_ok i \<Longrightarrow> heights_drop (live i)"
  unfolding heights_drop_def
proof (intro allI impI)
  fix c p h h'
  assume ok: "heights_ok i" and par: "parent_of (live i) c = Some p"
    and h: "live i c = Some h" "live i p = Some h'"
  have "prev_header (in_headers i) (in_hash_to_id i) h = Some h'"
    using par h by (auto simp: parent_of_def prev_header_def live_def split: option.splits if_splits)
  then show "lh_height h' < lh_height h" using ok h unfolding heights_ok_def by blast
qed

lemma linked_height:
  assumes drop: "heights_drop L"
  shows "linked L c x \<Longrightarrow> L c = Some h \<Longrightarrow> L x = Some h' \<Longrightarrow> c \<noteq> x \<Longrightarrow> lh_height h' < lh_height h"
  unfolding linked_def
proof (induction arbitrary: h rule: converse_rtranclp_induct)
  case (step y z)
  obtain hz where hz: "L z = Some hz" using parent_of_live [OF step.hyps(1)] by blast
  have lt: "lh_height hz < lh_height h" using drop step hz unfolding heights_drop_def by blast
  show ?case
  proof (cases "z = x")
    case True
    then show ?thesis using lt hz step.prems by simp
  next
    case False
    then show ?thesis using step.IH [OF hz step.prems(2)] lt by simp
  qed
qed simp

lemma walk_path_set:
  assumes path: "walk_path anc L (Some c) ids" and older: "links_older L"
    and uniq: "\<And>y h. L y = Some h \<Longrightarrow> lh_hash h = anc \<Longrightarrow> y = x"
    and x: "L x = Some a" "lh_hash a = anc" and reach: "linked L c x"
  shows "set ids = {y. linked L c y} - {y. linked L x y}"
proof -
  have "walk_path anc L cur ids \<Longrightarrow> cur = Some c \<Longrightarrow> linked L c x \<Longrightarrow>
      set ids = {y. linked L c y} - {y. linked L x y}" for cur c
  proof (induction arbitrary: c rule: walk_path.induct)
    case (path_gone cid)
    from path_gone have "linked L cid x" by simp
    then show ?case
    proof (cases rule: linked_cases)
      case 1
      then show ?thesis using x(1) path_gone by simp
    next
      case (2 p)
      then show ?thesis using parent_of_live [OF 2(1)] path_gone by simp
    qed
  next
    case (path_stop cid h)
    then show ?case using uniq by auto
  next
    case (path_step cid h ids)
    then have c: "c = cid" by simp
    have "cid \<noteq> x" using path_step.hyps(1,2) x by auto
    then obtain p where p: "parent_of L cid = Some p" "linked L p x"
      using linked_cases [OF path_step.prems(2) [unfolded c]] by metis
    have IH: "set ids = {y. linked L p y} - {y. linked L x y}" using path_step.IH p by simp
    have "x \<le> p" "p < cid" using linked_le [OF older p(2)] older p(1) by (auto simp: links_older_def)
    then have "\<not> linked L x cid" using linked_le [OF older, of x cid] by auto
    moreover have "{y. linked L cid y} = insert cid {y. linked L p y}"
    proof (intro set_eqI iffI)
      fix y assume "y \<in> {y. linked L cid y}"
      then have "linked L cid y" by simp
      then show "y \<in> insert cid {y. linked L p y}" using p(1) by (cases rule: linked_cases) auto
    next
      fix y assume "y \<in> insert cid {y. linked L p y}"
      then show "y \<in> {y. linked L cid y}" using linked_step [OF p(1)] by auto
    qed
    ultimately show ?case using IH c by auto
  qed simp
  then show ?thesis using path reach by blast
qed

section \<open>The height index along a walk\<close>

lemma set_all_deactivate_height:
  "in_height_to_id (set_all deactivate ids i) ht =
     (if \<exists>c \<in> set ids. \<exists>h. live i c = Some h \<and> lh_height h = ht then None else in_height_to_id i ht)"
proof (induction ids arbitrary: i)
  case (Cons c ids)
  show ?case
  proof (cases "live i c")
    case None
    then show ?thesis using Cons by (simp add: set_all_def)
  next
    case (Some h)
    show ?thesis unfolding set_all_Cons [of i c, OF Some] Cons using Some by auto
  qed
qed simp

lemma set_all_activate_height:
  "inj_on (\<lambda>c. map_option lh_height (live i c)) (set ids) \<Longrightarrow> distinct ids \<Longrightarrow>
   (\<forall>c \<in> set ids. \<exists>h. live i c = Some h) \<Longrightarrow>
   (\<forall>c \<in> set ids. \<forall>h. live i c = Some h \<longrightarrow> in_height_to_id (set_all activate ids i) (lh_height h) = Some c) \<and>
   (\<forall>ht. (\<forall>c \<in> set ids. \<forall>h. live i c = Some h \<longrightarrow> lh_height h \<noteq> ht) \<longrightarrow>
      in_height_to_id (set_all activate ids i) ht = in_height_to_id i ht)"
proof (induction ids arbitrary: i)
  case (Cons c ids)
  obtain h where h: "live i c = Some h" using Cons.prems by auto
  let ?j = "activate c h i"
  have other: "live ?j x = live i x" if "x \<in> set ids" for x using that Cons.prems(2) by auto
  have inj: "inj_on (\<lambda>c. map_option lh_height (live ?j c)) (set ids)"
    using Cons.prems(1) other by (simp add: inj_on_def del: live_activate)
  have dist: "distinct ids" using Cons.prems(2) by simp
  have lv: "\<forall>c \<in> set ids. \<exists>h. live ?j c = Some h" using Cons.prems(3) other by (simp del: live_activate)
  note IH = Cons.IH [OF inj dist lv]
  have neq: "lh_height h' \<noteq> lh_height h" if "x \<in> set ids" "live i x = Some h'" for x h'
  proof
    assume "lh_height h' = lh_height h"
    then have "map_option lh_height (live i x) = map_option lh_height (live i c)" using that h by simp
    then have "x = c" using inj_onD [OF Cons.prems(1), of x c] that(1) by simp
    then show False using Cons.prems(2) that(1) by simp
  qed
  show ?case unfolding set_all_Cons [of i c, OF h]
  proof (intro conjI ballI allI impI)
    fix x hx assume x: "x \<in> set (c # ids)" "live i x = Some hx"
    show "in_height_to_id (set_all activate ids ?j) (lh_height hx) = Some x"
    proof (cases "x = c")
      case True
      have "in_height_to_id (set_all activate ids ?j) (lh_height h) = in_height_to_id ?j (lh_height h)"
        using IH neq other by (simp del: live_activate)
      then show ?thesis using True x h by simp
    next
      case False
      then show ?thesis using IH x other [of x] by auto
    qed
  next
    fix ht assume no: "\<forall>x \<in> set (c # ids). \<forall>h. live i x = Some h \<longrightarrow> lh_height h \<noteq> ht"
    have "in_height_to_id (set_all activate ids ?j) ht = in_height_to_id ?j ht"
      using IH no other by (simp del: live_activate)
    then show "in_height_to_id (set_all activate ids ?j) ht = in_height_to_id i ht" using no h by auto
  qed
qed simp

lemma walk_path_distinct:
  assumes "walk_path anc L cur ids" and older: "links_older L"
  shows "distinct ids \<and> (\<forall>y \<in> set ids. \<exists>h. L y = Some h) \<and> (\<forall>c. cur = Some c \<longrightarrow> (\<forall>y \<in> set ids. linked L c y))"
  using assms(1)
proof (induction rule: walk_path.induct)
  case (path_step cid h ids)
  have "y < cid" if "y \<in> set ids" for y
  proof (cases "parent_of L cid")
    case None
    then show ?thesis using path_step.hyps(3) that by (auto elim: walk_path.cases)
  next
    case (Some p)
    then have "linked L p y" using path_step.IH that by blast
    then have "y \<le> p" by (rule linked_le [OF older])
    moreover have "p < cid" using older Some by (simp add: links_older_def)
    ultimately show ?thesis by simp
  qed
  then have "cid \<notin> set ids" by blast
  moreover have "\<forall>y \<in> set ids. linked L cid y"
  proof (cases "parent_of L cid")
    case None
    then show ?thesis using path_step.hyps(3) by (auto elim: walk_path.cases)
  next
    case (Some p)
    then show ?thesis using path_step.IH linked_step [OF Some] by blast
  qed
  ultimately show ?case using path_step by auto
qed simp_all

section \<open>The chain invariant\<close>

text \<open>
  The tip is live, the active headers are the tip and its ancestors, and each of them is found
  under its height; without a tip there is no live header.
\<close>

definition chain_ok :: "inner \<Rightarrow> bool" where
  "chain_ok i \<longleftrightarrow>
     (case in_tip_id i of
        None \<Rightarrow> (\<forall>x. live i x = None)
      | Some t \<Rightarrow> live i t \<noteq> None \<and>
          (\<forall>x h. live i x = Some h \<longrightarrow> (lh_is_active h \<longleftrightarrow> linked (live i) t x)) \<and>
          (\<forall>x h. live i x = Some h \<longrightarrow> lh_is_active h \<longrightarrow> in_height_to_id i (lh_height h) = Some x))"

lemma chain_ok_SomeD:
  assumes "chain_ok i" "in_tip_id i = Some t"
  shows "live i t \<noteq> None" "live i x = Some h \<Longrightarrow> lh_is_active h \<longleftrightarrow> linked (live i) t x"
    "live i x = Some h \<Longrightarrow> lh_is_active h \<Longrightarrow> in_height_to_id i (lh_height h) = Some x"
  using assms by (simp_all add: chain_ok_def)

text \<open>Links of the headers already stored are not changed by a new header.\<close>

lemma parent_of_add:
  assumes keep: "\<And>c. c \<noteq> nid \<Longrightarrow> map_option lh_previous_header_id (L' c) = map_option lh_previous_header_id (L c)"
    and old: "\<And>c h p. L c = Some h \<Longrightarrow> lh_previous_header_id h = Some p \<Longrightarrow> p \<noteq> nid"
    and c: "c \<noteq> nid"
  shows "parent_of L' c = parent_of L c"
proof -
  have none: "L' x = None \<longleftrightarrow> L x = None" if "x \<noteq> nid" for x
    using keep [OF that] by (metis option.map_disc_iff)
  show ?thesis
  proof (cases "L c")
    case None
    then show ?thesis using none [OF c] by (simp add: parent_of_def)
  next
    case (Some h)
    then obtain h' where h': "L' c = Some h'" "lh_previous_header_id h' = lh_previous_header_id h"
      using keep [OF c] by (cases "L' c") auto
    then show ?thesis using Some none old [OF Some]
      by (cases "lh_previous_header_id h") (auto simp: parent_of_def)
  qed
qed

lemma linked_add:
  assumes same: "\<And>c. c \<noteq> nid \<Longrightarrow> parent_of L' c = parent_of L c" and gone: "L nid = None" and c: "c \<noteq> nid"
  shows "linked L' c x \<longleftrightarrow> linked L c x"
proof -
  have stay: "z \<noteq> nid" if "parent_of L y = Some z" for y z
    using parent_of_live [OF that] gone by auto
  have "linked L c x \<Longrightarrow> c \<noteq> nid \<Longrightarrow> linked L' c x" for c
    unfolding linked_def
  proof (induction rule: converse_rtranclp_induct)
    case (step y z)
    then have "parent_of L' y = Some z" "z \<noteq> nid" using same stay by auto
    then show ?case using step.IH by (meson converse_rtranclp_into_rtranclp)
  qed simp
  moreover have "linked L' c x \<Longrightarrow> c \<noteq> nid \<Longrightarrow> linked L c x" for c
    unfolding linked_def
  proof (induction rule: converse_rtranclp_induct)
    case (step y z)
    then have "parent_of L y = Some z" "z \<noteq> nid" using same [of y] stay by auto
    then show ?case using step.IH by (meson converse_rtranclp_into_rtranclp)
  qed simp
  ultimately show ?thesis using c by blast
qed

lemma can_store_older:
  assumes "store_wf i" "can_store i nid h" "live i c = Some hc" "lh_previous_header_id hc = Some p"
  shows "p \<noteq> nid"
proof -
  have "p < c" using assms unfolding store_wf_def headers_wf_def by blast
  moreover have "c < nid" using assms unfolding can_store_def by blast
  ultimately show ?thesis by auto
qed

lemma parent_of_tip_stored:
  assumes wf: "store_wf i" and new: "can_store i nid h"
  shows "c \<noteq> nid \<Longrightarrow> parent_of (live (tip_stored nid h i)) c = parent_of (live i) c"
    and "parent_of (live (tip_stored nid h i)) nid =
      (case lh_previous_header_id h of Some p \<Rightarrow> if live i p \<noteq> None then Some p else None | None \<Rightarrow> None)"
proof -
  let ?L = "live (tip_stored nid h i)"
  show "c \<noteq> nid \<Longrightarrow> parent_of ?L c = parent_of (live i) c"
    using can_store_older [OF wf new]
    by (intro parent_of_add) (auto simp: live_unmarked option.map_comp comp_def)
  have none: "?L x = None \<longleftrightarrow> x \<noteq> nid \<and> live i x = None" for x
    by (simp add: live_unmarked)
  have "lh_previous_header_id h = Some p \<Longrightarrow> ?L p = None \<longleftrightarrow> live i p = None" for p
    using none new by (auto simp: can_store_def)
  moreover have "?L nid = Some (h\<lparr>lh_is_active := True, lh_is_chain_tip := True\<rparr>)" by simp
  ultimately show "parent_of ?L nid =
      (case lh_previous_header_id h of Some p \<Rightarrow> if live i p \<noteq> None then Some p else None | None \<Rightarrow> None)"
    by (simp add: parent_of_def del: tip_stored_frame split: option.splits)
qed

lemma linked_tip_stored:
  assumes "store_wf i" and new: "can_store i nid h" and "c \<noteq> nid"
  shows "linked (live (tip_stored nid h i)) c x \<longleftrightarrow> linked (live i) c x"
  using new by (intro linked_add [OF parent_of_tip_stored(1) [OF assms(1,2)]])
    (auto simp: can_store_def assms(3))

section \<open>What the caller guarantees of a new header\<close>

text \<open>
  The header is above its parent if that is stored, below the stored headers that wait for it
  as their parent, and not its own parent.
\<close>

definition fits :: "inner \<Rightarrow> live_block_header \<Rightarrow> bool" where
  "fits i h \<longleftrightarrow>
     (\<forall>p hp. in_hash_to_id i (lh_previous_hash h) = Some p \<longrightarrow> live i p = Some hp \<longrightarrow> lh_height hp < lh_height h) \<and>
     (\<forall>c hc. live i c = Some hc \<longrightarrow> lh_previous_header_id hc = None \<longrightarrow>
        lh_previous_hash hc = lh_hash h \<longrightarrow> lh_height h < lh_height hc) \<and>
     lh_previous_hash h \<noteq> lh_hash h"

lemma prev_header_alt:
  "prev_header (in_headers i) (in_hash_to_id i) h =
     Option.bind (case lh_previous_header_id h of Some p \<Rightarrow> Some p | None \<Rightarrow> in_hash_to_id i (lh_previous_hash h))
       (live i)"
  by (auto simp: prev_header_def live_def split: option.splits)

lemma heights_okI:
  assumes "\<And>c h p hp. live i c = Some h \<Longrightarrow>
      (case lh_previous_header_id h of Some p \<Rightarrow> Some p | None \<Rightarrow> in_hash_to_id i (lh_previous_hash h)) = Some p \<Longrightarrow>
      live i p = Some hp \<Longrightarrow> lh_height hp < lh_height h"
  shows "heights_ok i"
  using assms unfolding heights_ok_def prev_header_alt by (auto simp: bind_eq_Some_conv)

lemma heights_okD:
  assumes "heights_ok i" "live i c = Some h"
    "(case lh_previous_header_id h of Some p \<Rightarrow> Some p | None \<Rightarrow> in_hash_to_id i (lh_previous_hash h)) = Some p"
    "live i p = Some hp"
  shows "lh_height hp < lh_height h"
  using assms unfolding heights_ok_def prev_header_alt by (metis bind.bind_lunit)

text \<open>The live map after an insertion, read back to the headers before it.\<close>

lemma stored_cases:
  assumes "live (tip_stored nid h i) x = Some hx"
  obtains "x = nid" "hx = h\<lparr>lh_is_active := True, lh_is_chain_tip := True\<rparr>"
  | b where "x \<noteq> nid" "live i x = Some (hx\<lparr>lh_is_chain_tip := b\<rparr>)"
  using assms live_unmarked_Some [of i x hx] by (cases "x = nid") auto

text \<open>The headers after an insertion are the headers before it and the new one, up to the flags.\<close>

definition extended :: "inner \<Rightarrow> u64 \<Rightarrow> live_block_header \<Rightarrow> inner \<Rightarrow> bool" where
  "extended i nid h i' \<longleftrightarrow>
     (\<forall>x hx. live i' x = Some hx \<longrightarrow>
        x = nid \<and> (\<exists>a t. hx = h\<lparr>lh_is_active := a, lh_is_chain_tip := t\<rparr>) \<or>
        x \<noteq> nid \<and> (\<exists>a t. live i x = Some (hx\<lparr>lh_is_active := a, lh_is_chain_tip := t\<rparr>))) \<and>
     (\<forall>x. live i' x = None \<longleftrightarrow> x \<noteq> nid \<and> live i x = None) \<and>
     in_hash_to_id i' = (in_hash_to_id i)(lh_hash h \<mapsto> nid) \<and> in_next_id i' = in_next_id i \<and>
     in_bulk i' = in_bulk i"

lemma extended_tip_stored: "extended i nid h (tip_stored nid h i)"
proof -
  have "x = nid \<and> (\<exists>a t. hx = h\<lparr>lh_is_active := a, lh_is_chain_tip := t\<rparr>) \<or>
      x \<noteq> nid \<and> (\<exists>a t. live i x = Some (hx\<lparr>lh_is_active := a, lh_is_chain_tip := t\<rparr>))"
    if "live (tip_stored nid h i) x = Some hx" for x hx
    using that
  proof (cases rule: stored_cases)
    case (2 b)
    have "hx\<lparr>lh_is_chain_tip := b\<rparr> = hx\<lparr>lh_is_active := lh_is_active hx, lh_is_chain_tip := b\<rparr>" by simp
    then show ?thesis using 2 by metis
  qed blast
  then show ?thesis by (auto simp: extended_def live_unmarked split: if_splits)
qed

lemma extended_fork: "extended i nid h (fst (insert_as_fork i r nid h))"
proof -
  let ?L = "live (fst (insert_as_fork i r nid h))"
  have "x = nid \<and> (\<exists>a t. hx = h\<lparr>lh_is_active := a, lh_is_chain_tip := t\<rparr>) \<or>
      x \<noteq> nid \<and> (\<exists>a t. live i x = Some (hx\<lparr>lh_is_active := a, lh_is_chain_tip := t\<rparr>))"
    if "?L x = Some hx" for x hx
  proof (cases "x = nid")
    case True
    then have "hx = h\<lparr>lh_is_active := lh_is_active h, lh_is_chain_tip := lh_is_chain_tip h\<rparr>" using that by simp
    then show ?thesis using True by blast
  next
    case False
    then have "live i x = Some (hx\<lparr>lh_is_active := lh_is_active hx, lh_is_chain_tip := lh_is_chain_tip hx\<rparr>)"
      using that by simp
    then show ?thesis using False by blast
  qed
  then show ?thesis by (auto simp: extended_def split: if_splits)
qed

lemma heights_ok_extended:
  assumes wf: "store_wf i" and ok: "heights_ok i" and new: "can_store i nid h" and fit: "fits i h"
    and link: "lh_previous_header_id h = in_hash_to_id i (lh_previous_hash h)"
    and ex: "extended i nid h k"
  shows "heights_ok k"
proof (rule heights_okI)
  fix c hc p hp
  assume c: "live k c = Some hc"
    "(case lh_previous_header_id hc of Some p \<Rightarrow> Some p
      | None \<Rightarrow> in_hash_to_id k (lh_previous_hash hc)) = Some p"
    "live k p = Some hp"
  have L: "x = nid \<and> (\<exists>a t. hx = h\<lparr>lh_is_active := a, lh_is_chain_tip := t\<rparr>) \<or>
      x \<noteq> nid \<and> (\<exists>a t. live i x = Some (hx\<lparr>lh_is_active := a, lh_is_chain_tip := t\<rparr>))"
    if "live k x = Some hx" for x hx using ex that unfolding extended_def by blast
  have idx: "in_hash_to_id k = (in_hash_to_id i)(lh_hash h \<mapsto> nid)" using ex by (simp add: extended_def)
  show "lh_height hp < lh_height hc"
  proof (cases "c = nid")
    case True
    obtain a t where hc: "hc = h\<lparr>lh_is_active := a, lh_is_chain_tip := t\<rparr>" using L [OF c(1)] True by blast
    have p: "in_hash_to_id i (lh_previous_hash h) = Some p"
      using c(2) fit link by (auto simp: hc fits_def idx split: option.splits)
    then have "p \<noteq> nid" using new link by (auto simp: can_store_def)
    then obtain a t where "live i p = Some (hp\<lparr>lh_is_active := a, lh_is_chain_tip := t\<rparr>)" using L [OF c(3)] by blast
    then have "lh_height (hp\<lparr>lh_is_active := a, lh_is_chain_tip := t\<rparr>) < lh_height h"
      using fit p unfolding fits_def by blast
    then show ?thesis by (simp add: hc)
  next
    case False
    then obtain a t where t: "live i c = Some (hc\<lparr>lh_is_active := a, lh_is_chain_tip := t\<rparr>)"
      using L [OF c(1)] by blast
    show ?thesis
    proof (cases "p = nid")
      case True
      obtain a' t' where hp: "hp = h\<lparr>lh_is_active := a', lh_is_chain_tip := t'\<rparr>" using L [OF c(3)] True by blast
      have none: "lh_previous_header_id hc = None"
        using can_store_older [OF wf new t, of nid] c(2) True by (cases "lh_previous_header_id hc") auto
      have "in_hash_to_id i (lh_previous_hash hc) \<noteq> Some nid"
        using wf new unfolding store_wf_def hash_wf_def hash_ok_def can_store_def by (metis option.distinct(1))
      then have "lh_previous_header_id (hc\<lparr>lh_is_active := a, lh_is_chain_tip := t\<rparr>) = None"
        "lh_previous_hash (hc\<lparr>lh_is_active := a, lh_is_chain_tip := t\<rparr>) = lh_hash h"
        using none c(2) True by (auto simp: idx split: if_splits)
      then have "lh_height h < lh_height (hc\<lparr>lh_is_active := a, lh_is_chain_tip := t\<rparr>)"
        using fit t unfolding fits_def by blast
      then show ?thesis by (simp add: hp)
    next
      case False
      then obtain a' t' where t': "live i p = Some (hp\<lparr>lh_is_active := a', lh_is_chain_tip := t'\<rparr>)"
        using L [OF c(3)] by blast
      let ?hc = "hc\<lparr>lh_is_active := a, lh_is_chain_tip := t\<rparr>"
      have "(case lh_previous_header_id ?hc of Some p \<Rightarrow> Some p
          | None \<Rightarrow> in_hash_to_id i (lh_previous_hash ?hc)) = Some p"
        using c(2) False by (auto simp: idx split: option.splits if_splits)
      from heights_okD [OF ok t this t'] show ?thesis by simp
    qed
  qed
qed

lemma heights_ok_tip_stored:
  assumes "store_wf i" "heights_ok i" "can_store i nid h" "fits i h"
    "lh_previous_header_id h = in_hash_to_id i (lh_previous_hash h)"
  shows "heights_ok (tip_stored nid h i)"
  by (rule heights_ok_extended [OF assms extended_tip_stored])

section \<open>Insertion returns\<close>

lemma insert_as_tip_returns:
  assumes "store_wf (tip_stored nid h i)" "heights_ok (tip_stored nid h i)"
  shows "\<exists>i' r. insert_as_tip t i res nid h old_tip = Some (i', r)"
proof -
  have "\<exists>i' d ds. handle_reorg t (tip_stored nid h i) old nid = Some (i', d, ds)" for old
    by (rule handle_reorg_returns [OF assms])
  then show ?thesis
    unfolding insert_as_tip_alt Let_def
    by (cases old_tip; cases "in_tip_id i"; simp split: bool.splits)
qed

lemma fork_choice_returns:
  assumes "store_wf (tip_stored nid h i)" "heights_ok (tip_stored nid h i)"
  shows "\<exists>i' r. fork_choice t i res nid h = Some (i', r)"
  using insert_as_tip_returns [OF assms, of t]
  by (auto simp: fork_choice_def Let_def split: option.splits)

lemma fits_bump [simp]: "fits (bump_id i) h = fits i h"
  by (simp add: fits_def)

lemma heights_ok_bump [simp]: "heights_ok (bump_id i) = heights_ok i"
  by (simp add: heights_ok_def)

lemma fits_cong:
  "lh_hash h' = lh_hash h \<Longrightarrow> lh_previous_hash h' = lh_previous_hash h \<Longrightarrow> lh_height h' = lh_height h \<Longrightarrow>
    fits i h' = fits i h"
  by (simp add: fits_def)

lemma insert_header_returns:
  assumes wf: "store_wf (ms_inner s)" and ok: "heights_ok (ms_inner s)"
    and room: "in_next_id (ms_inner s) \<noteq> - 1" and fresh: "fresh_header h" and fit: "fits (ms_inner s) h"
  shows "\<exists>s' r. insert_header C s h = Some (s', r)"
proof (cases "in_hash_to_id (ms_inner s) (lh_hash h) = None")
  case False
  then show ?thesis using insert_header_dupe by blast
next
  case True
  obtain w h' np where l: "link_header C (ms_inner s) w h = (h', np)"
    and eq: "insert_header C s h = map_option (\<lambda>(i', r). (s\<lparr>ms_inner := i'\<rparr>, r))
       (fork_choice (ms_reorg_height_threshold s) (bump_id (ms_inner s))
          (insert_result_default\<lparr>ir_no_prev := np\<rparr>) (in_next_id (ms_inner s)) h')"
    using insert_header_new [OF True] by metis
  note b = bump_id_wf [OF wf room] and c = can_store_linked [OF wf room fresh True l]
    and f = link_header_facts [OF wf fresh l]
  have "fits (bump_id (ms_inner s)) h'" using fit fits_cong [OF f(2,4,3)] by simp
  moreover have "lh_previous_header_id h' = in_hash_to_id (bump_id (ms_inner s)) (lh_previous_hash h')"
    using f(4,6) by simp
  ultimately have "heights_ok (tip_stored (in_next_id (ms_inner s)) h' (bump_id (ms_inner s)))"
    using heights_ok_tip_stored [OF b _ c] ok by simp
  from fork_choice_returns [OF tip_stored_wf [OF b c] this, of "ms_reorg_height_threshold s"]
  show ?thesis unfolding eq by (metis case_prod_conv option.map(2))
qed

section \<open>The best chain is the active chain\<close>

lemma height_index_set:
  assumes "heights_drop L" "linked L t x" "linked L t y" "L x = Some hx" "L y = Some hy"
    "lh_height hx = lh_height hy"
  shows "x = y"
  using linked_linear [OF assms(2,3)] linked_height [OF assms(1)] assms(4-6) by (metis less_irrefl)

text \<open>The first header of an empty store, and a header that extends the tip.\<close>

lemma chain_ok_extend:
  assumes wf: "store_wf i" and new: "can_store i nid h" and drop: "heights_drop (live (tip_stored nid h i))"
    and ok: "chain_ok i"
    and parent: "in_tip_id i = None \<or> (\<exists>t. in_tip_id i = Some t \<and> lh_previous_header_id h = Some t)"
  shows "chain_ok ((tip_stored nid h i)\<lparr>in_tip_id := Some nid\<rparr>)"
proof -
  let ?L = "live (tip_stored nid h i)"
  have anc: "linked ?L nid x \<longleftrightarrow> x = nid \<or> (\<exists>t. in_tip_id i = Some t \<and> linked (live i) t x)" for x
  proof (cases "in_tip_id i")
    case None
    then have empty: "live i y = None" for y using ok by (simp add: chain_ok_def)
    have "parent_of ?L nid = None"
      using parent_of_tip_stored(2) [OF wf new] by (simp add: empty split: option.splits)
    then show ?thesis using None by (auto elim: linked_cases)
  next
    case (Some t)
    then have t: "live i t \<noteq> None" "lh_previous_header_id h = Some t" using ok parent by (auto simp: chain_ok_def)
    then have "parent_of ?L nid = Some t" using parent_of_tip_stored(2) [OF wf new] by simp
    moreover have "t \<noteq> nid" using t new by (auto simp: can_store_def)
    then have "linked ?L t x \<longleftrightarrow> linked (live i) t x" using linked_tip_stored [OF wf new] by simp
    ultimately show ?thesis using Some linked_step by (auto elim: linked_cases)
  qed
  have act: "lh_is_active hx \<longleftrightarrow> linked ?L nid x" if x: "?L x = Some hx" for x hx
    using x
  proof (cases rule: stored_cases)
    case 1
    then show ?thesis by simp
  next
    case (2 b)
    then obtain t where t: "in_tip_id i = Some t" using ok by (cases "in_tip_id i") (auto simp: chain_ok_def)
    have "lh_is_active (hx\<lparr>lh_is_chain_tip := b\<rparr>) \<longleftrightarrow> linked (live i) t x"
      by (rule chain_ok_SomeD(2) [OF ok t 2(2)])
    then show ?thesis using anc t 2(1) by simp
  qed
  have hts: "in_height_to_id (tip_stored nid h i) (lh_height hx) = Some x"
    if x: "?L x = Some hx" and a: "lh_is_active hx" for x hx
    using x
  proof (cases rule: stored_cases)
    case 1
    then show ?thesis by simp
  next
    case (2 b)
    then obtain t where t: "in_tip_id i = Some t" using ok by (cases "in_tip_id i") (auto simp: chain_ok_def)
    have "in_height_to_id i (lh_height hx) = Some x"
      using chain_ok_SomeD(3) [OF ok t 2(2)] a by simp
    moreover have "lh_height hx < lh_height h"
      using linked_height [OF drop act [OF x, THEN iffD1, OF a] _ x] 2(1) by simp
    ultimately show ?thesis by auto
  qed
  have "live ((tip_stored nid h i)\<lparr>in_tip_id := Some nid\<rparr>) = ?L" by (simp add: live_def)
  then show ?thesis using act hts by (simp add: chain_ok_def del: tip_stored_frame) simp
qed

text \<open>
  A reorganisation over a common ancestor \<open>x\<close> of the old and the new tip. The hypotheses hold
  of the state after the new header is stored: the active headers are the new tip and the
  ancestors of the old one, and those are found by height unless the new tip took their place.
\<close>

lemma same_links_linked: "same_links L L' \<Longrightarrow> linked L' = linked L"
  by (simp add: linked_def same_links_parent)

lemma linked_below:
  assumes older: "links_older L" and drop: "heights_drop L"
    and c: "linked L c x" "c \<noteq> x" "linked L x y" and h: "L c = Some hc" "L y = Some hy"
  shows "lh_height hy < lh_height hc"
proof -
  have "x \<le> c" "y \<le> x" using linked_le [OF older] c by blast+
  then have "c \<noteq> y" using c(2) by auto
  then show ?thesis using linked_height [OF drop linked_trans [OF c(1,3)] h] by simp
qed

definition reorged :: "u64 list \<Rightarrow> u64 list \<Rightarrow> inner \<Rightarrow> inner" where
  "reorged ids ids' i = set_all activate ids' (set_all deactivate ids i)"

lemma live_reorged:
  "live (reorged ids ids' i) y =
     (if y \<in> set ids' then map_option (\<lambda>h. h\<lparr>lh_is_active := True\<rparr>) (live i y)
      else if y \<in> set ids then map_option (\<lambda>h. h\<lparr>lh_is_active := False\<rparr>) (live i y) else live i y)"
  by (simp add: reorged_def set_all_activate set_all_deactivate option.map_comp comp_def)

lemma same_links_reorged: "same_links (live i) (live (reorged ids ids' i))"
  unfolding same_links_def live_reorged by (simp add: option.map_comp comp_def)

lemma reorg_active:
  assumes act: "\<And>y h. live i y = Some h \<Longrightarrow> lh_is_active h \<longleftrightarrow> y = new \<or> linked (live i) old y"
    and x: "linked (live i) old x" "linked (live i) new x"
    and S: "set ids = {y. linked (live i) old y} - {y. linked (live i) x y}"
      "set ids' = {y. linked (live i) new y} - {y. linked (live i) x y}"
    and y: "live (reorged ids ids' i) y = Some h"
  shows "lh_is_active h \<longleftrightarrow> linked (live i) new y"
proof -
  obtain h0 where h0: "live i y = Some h0"
    using y same_links_None [OF same_links_reorged [of i ids ids'], of y] by (cases "live i y") auto
  have m: "y \<in> set ids \<longleftrightarrow> linked (live i) old y \<and> \<not> linked (live i) x y"
    "y \<in> set ids' \<longleftrightarrow> linked (live i) new y \<and> \<not> linked (live i) x y"
    using S by auto
  have t: "linked (live i) x y \<Longrightarrow> linked (live i) old y" "linked (live i) x y \<Longrightarrow> linked (live i) new y"
    using x linked_trans by blast+
  have r: "y = new \<Longrightarrow> linked (live i) new y" by simp
  show ?thesis
  proof (cases "y \<in> set ids'")
    case True
    then show ?thesis using y h0 m by (auto simp: live_reorged)
  next
    case False
    have "lh_is_active h \<longleftrightarrow> y \<notin> set ids \<and> (y = new \<or> linked (live i) old y)"
      using y h0 act [OF h0] False by (cases "y \<in> set ids") (auto simp: live_reorged)
    then show ?thesis using False m t r by argo
  qed
qed

lemma reorg_height:
  assumes older: "links_older (live i)" and drop: "heights_drop (live i)"
    and hts: "\<And>y h. live i y = Some h \<Longrightarrow> linked (live i) old y \<Longrightarrow> lh_height h \<noteq> lh_height hn \<Longrightarrow>
      in_height_to_id i (lh_height h) = Some y"
    and new: "live i new = Some hn" "x \<noteq> new"
    and x: "linked (live i) old x" "linked (live i) new x"
    and S: "set ids = {y. linked (live i) old y} - {y. linked (live i) x y}"
      "set ids' = {y. linked (live i) new y} - {y. linked (live i) x y}"
    and dist: "distinct ids'" and alive: "\<forall>y \<in> set ids'. \<exists>h. live i y = Some h"
    and y: "live i y = Some h" "linked (live i) new y"
  shows "in_height_to_id (reorged ids ids' i) (lh_height h) = Some y"
proof -
  let ?L = "live i" let ?j = "set_all deactivate ids i"
  have Lj: "map_option lh_height (live ?j c) = map_option lh_height (?L c)" for c
    by (simp add: set_all_deactivate option.map_comp comp_def)
  have inj: "inj_on (\<lambda>c. map_option lh_height (live ?j c)) (set ids')"
  proof (rule inj_onI)
    fix c d assume cd: "c \<in> set ids'" "d \<in> set ids'"
      "map_option lh_height (live ?j c) = map_option lh_height (live ?j d)"
    obtain hc hd where h: "?L c = Some hc" "?L d = Some hd" using alive cd by blast
    then have "lh_height hc = lh_height hd" using cd(3) unfolding Lj by simp
    then show "c = d" using height_index_set [OF drop _ _ h] S(2) cd by blast
  qed
  have lv: "\<forall>c \<in> set ids'. \<exists>h. live ?j c = Some h" using alive by (auto simp: set_all_deactivate)
  note A = set_all_activate_height [OF inj dist lv, folded reorged_def]
  show ?thesis
  proof (cases "y \<in> set ids'")
    case True
    obtain hj where hj: "live ?j y = Some hj" "lh_height hj = lh_height h" using Lj [of y] y(1) by auto
    then show ?thesis using A True by metis
  next
    case False
    then have xy: "linked ?L x y" using S(2) y(2) by blast
    have off: "lh_height hc \<noteq> lh_height h" if "linked ?L t c" "linked ?L t x" "\<not> linked ?L x c" "?L c = Some hc" for t c hc
      using linked_below [OF older drop _ _ xy that(4) y(1)] linked_linear [OF that(1,2)] that(3) by force
    have "lh_height hc \<noteq> lh_height h" if c: "c \<in> set ids'" "live ?j c = Some hc" for c hc
    proof -
      obtain hc0 where hc0: "?L c = Some hc0" "lh_height hc0 = lh_height hc"
        using Lj [of c] c(2) by (cases "?L c") auto
      show ?thesis using off [OF _ x(2) _ hc0(1)] hc0(2) c(1) S(2) by auto
    qed
    then have "in_height_to_id (reorged ids ids' i) (lh_height h) = in_height_to_id ?j (lh_height h)"
      using A by blast
    also have "\<dots> = in_height_to_id i (lh_height h)"
      using off [OF _ x(1)] S(1) unfolding set_all_deactivate_height by auto
    also have "\<dots> = Some y"
      using hts [OF y(1)] linked_trans [OF x(1) xy] linked_below [OF older drop x(2) _ xy new(1) y(1)] new(2)
      by fastforce
    finally show ?thesis .
  qed
qed

lemma reorg_chain_ok:
  assumes wf: "store_wf i" and drop: "heights_drop (live i)"
    and act: "\<And>y h. live i y = Some h \<Longrightarrow> lh_is_active h \<longleftrightarrow> y = new \<or> linked (live i) old y"
    and hts: "\<And>y h. live i y = Some h \<Longrightarrow> linked (live i) old y \<Longrightarrow> lh_height h \<noteq> lh_height hn \<Longrightarrow>
      in_height_to_id i (lh_height h) = Some y"
    and new: "live i new = Some hn" "\<not> linked (live i) old new"
    and x: "live i x = Some a" "linked (live i) old x" "linked (live i) new x"
    and ids: "walk_path (lh_hash a) (live i) (Some old) ids"
    and ids': "walk_path (lh_hash a) (live i) (Some new) ids'"
  shows "chain_ok ((reorged ids ids' i)\<lparr>in_tip_id := Some new\<rparr>)"
proof -
  let ?L = "live i" let ?k = "reorged ids ids' i"
  note older = store_wf_links_older [OF wf] and links = same_links_reorged [of i ids ids']
  have uniq: "y = x" if "?L y = Some h" "lh_hash h = lh_hash a" for y h
    using same_hash_same_id [OF wf that(1) x(1) that(2)] .
  have S: "set ids = {y. linked ?L old y} - {y. linked ?L x y}"
    "set ids' = {y. linked ?L new y} - {y. linked ?L x y}"
    by (rule walk_path_set [OF ids older uniq x(1) refl x(2)], assumption+)
      (rule walk_path_set [OF ids' older uniq x(1) refl x(3)], assumption+)
  have x_new: "x \<noteq> new" using x(2) new(2) by blast
  have active: "lh_is_active h \<longleftrightarrow> linked ?L new y" if "live ?k y = Some h" for y h
    by (rule reorg_active [OF act x(2,3) S that])
  have height: "in_height_to_id ?k (lh_height h) = Some y" if y: "live ?k y = Some h" and a: "lh_is_active h" for y h
  proof -
    obtain b where h0: "?L y = Some (h\<lparr>lh_is_active := b\<rparr>)"
      using same_links_Some [OF same_links_sym [OF links] y] .
    have d: "distinct ids'" "\<forall>y \<in> set ids'. \<exists>h. ?L y = Some h" using walk_path_distinct [OF ids' older] by auto
    have "in_height_to_id ?k (lh_height (h\<lparr>lh_is_active := b\<rparr>)) = Some y"
      using reorg_height [of i old hn new x ids ids' y, OF older drop hts new(1) x_new x(2,3) S d h0]
        active [OF y] a by blast
    then show ?thesis by simp
  qed
  have "live (?k\<lparr>in_tip_id := Some new\<rparr>) = live ?k" by (simp add: live_def)
  moreover have "live ?k new \<noteq> None" using new(1) same_links_None [OF links, of new] by auto
  ultimately show ?thesis using active height same_links_linked [OF links] by (simp add: chain_ok_def)
qed

section \<open>Insertion keeps the chain invariant\<close>

lemma fork_chain_ok:
  assumes wf: "store_wf i" and new: "can_store i nid h" and ok: "chain_ok i" and tip: "in_tip_id i = Some t"
    and idle: "\<not> lh_is_active h"
  shows "chain_ok (fst (insert_as_fork i r nid h))"
proof -
  let ?L = "live (fst (insert_as_fork i r nid h))"
  have par: "c \<noteq> nid \<Longrightarrow> parent_of ?L c = parent_of (live i) c" for c
    using can_store_older [OF wf new] by (intro parent_of_add) auto
  have t: "live i t \<noteq> None" "t \<noteq> nid" using chain_ok_SomeD(1) [OF ok tip] new by (auto simp: can_store_def)
  have lk: "linked ?L t x \<longleftrightarrow> linked (live i) t x" for x
    using new t by (intro linked_add [OF par]) (auto simp: can_store_def)
  have "linked (live i) t x \<Longrightarrow> x \<noteq> nid" for x
  proof -
    assume "linked (live i) t x"
    then have "x \<le> t" by (rule linked_le [OF store_wf_links_older [OF wf]])
    moreover have "t < nid" using new t by (simp add: can_store_def)
    ultimately show ?thesis by auto
  qed
  then show ?thesis
    using chain_ok_SomeD [OF ok tip] lk idle tip t by (auto simp: chain_ok_def)
qed

lemma no_late_extended:
  assumes late: "no_late_parents i" and ex: "extended i nid h k"
    and link: "lh_previous_header_id h = in_hash_to_id i (lh_previous_hash h)"
    and order: "\<And>c hc. live i c = Some hc \<Longrightarrow> lh_previous_hash hc \<noteq> lh_hash h"
    and self: "lh_previous_hash h \<noteq> lh_hash h"
  shows "no_late_parents k"
  unfolding no_late_parents_def
proof (intro allI impI)
  fix c hc assume c: "live k c = Some hc" "lh_previous_header_id hc = None"
  have idx: "in_hash_to_id k = (in_hash_to_id i)(lh_hash h \<mapsto> nid)" using ex by (simp add: extended_def)
  from c(1) ex have "c = nid \<and> (\<exists>a t. hc = h\<lparr>lh_is_active := a, lh_is_chain_tip := t\<rparr>) \<or>
      c \<noteq> nid \<and> (\<exists>a t. live i c = Some (hc\<lparr>lh_is_active := a, lh_is_chain_tip := t\<rparr>))"
    unfolding extended_def by blast
  then show "in_hash_to_id k (lh_previous_hash hc) = None"
  proof (elim disjE conjE exE)
    fix a t assume "hc = h\<lparr>lh_is_active := a, lh_is_chain_tip := t\<rparr>"
    then show ?thesis using c(2) link self idx by simp
  next
    fix a t assume t: "live i c = Some (hc\<lparr>lh_is_active := a, lh_is_chain_tip := t\<rparr>)"
    have "lh_previous_header_id (hc\<lparr>lh_is_active := a, lh_is_chain_tip := t\<rparr>) = None" using c(2) by simp
    then have "in_hash_to_id i (lh_previous_hash (hc\<lparr>lh_is_active := a, lh_is_chain_tip := t\<rparr>)) = None"
      using late t unfolding no_late_parents_def by blast
    then show ?thesis using order [OF t] idx by simp
  qed
qed

lemma handle_reorg_found:
  assumes wf: "store_wf i"
    and anc: "find_common_ancestor_sync t (in_headers i) (in_hash_to_id i) old new = Some (Some a)"
    and run: "handle_reorg t i old new = Some (i', d, ds)"
  obtains ids ids' where "walk_path (lh_hash a) (live i) (Some old) ids"
    "walk_path (lh_hash a) (live i) (Some new) ids'" "i' = reorged ids ids' i"
proof -
  obtain ids where ids: "walk_path (lh_hash a) (live i) (Some old) ids"
    using walk_path_exists [OF store_wf_links_older [OF wf]] by blast
  obtain ids' where ids': "walk_path (lh_hash a) (live i) (Some new) ids'"
    using walk_path_exists [OF store_wf_links_older [OF wf]] by blast
  have links: "same_links (live i) (live (set_all deactivate ids i))"
    unfolding same_links_def set_all_deactivate by (simp add: option.map_comp comp_def)
  have "i' = reorged ids ids' i"
    using run deactivate_walk_path [OF ids, of i "[]"] activate_walk_path [OF ids' links]
    by (simp add: handle_reorg_def anc reorged_def)
  then show ?thesis using that ids ids' by blast
qed

lemma tip_reorg_chain_ok:
  assumes wf: "store_wf i" and new: "can_store i nid h" and ok: "chain_ok i" and tip: "in_tip_id i = Some old"
    and I: "heights_ok (tip_stored nid h i)" "no_late_parents (tip_stored nid h i)"
    and anc: "find_common_ancestor_sync t (in_headers (tip_stored nid h i))
      (in_hash_to_id (tip_stored nid h i)) old nid = Some (Some a)"
    and run: "handle_reorg t (tip_stored nid h i) old nid = Some (i', d, ds)"
  shows "chain_ok (i'\<lparr>in_tip_id := Some nid\<rparr>)"
proof -
  let ?I = "tip_stored nid h i"
  note wfI = tip_stored_wf [OF wf new] and drop = heights_ok_drop [OF I(1)]
  obtain x where x: "linked (live ?I) old x" "linked (live ?I) nid x" "live ?I x = Some a"
    using find_common_ancestor_returns [OF wfI I(1), of t old nid] anc I(2) by auto
  obtain ids ids' where p: "walk_path (lh_hash a) (live ?I) (Some old) ids"
    "walk_path (lh_hash a) (live ?I) (Some nid) ids'" "i' = reorged ids ids' ?I"
    using handle_reorg_found [OF wfI anc run] .
  have o: "old \<noteq> nid" "old < nid" using chain_ok_SomeD(1) [OF ok tip] new by (auto simp: can_store_def)
  note lk = linked_tip_stored [OF wf new o(1)]
  have top: "\<not> linked (live ?I) old nid"
    using linked_le [OF store_wf_links_older [OF wfI], of old nid] o(2) by auto
  show ?thesis unfolding p(3)
  proof (rule reorg_chain_ok [OF wfI drop _ _ _ top x(3,1,2) p(1,2)])
    show "live ?I nid = Some (h\<lparr>lh_is_active := True, lh_is_chain_tip := True\<rparr>)" by simp
  next
    fix y hy assume "live ?I y = Some hy"
    then show "lh_is_active hy \<longleftrightarrow> y = nid \<or> linked (live ?I) old y"
    proof (cases rule: stored_cases)
      case (2 b)
      then show ?thesis using chain_ok_SomeD(2) [OF ok tip 2(2)] lk by simp
    qed simp
  next
    fix y hy
    assume y: "live ?I y = Some hy" "linked (live ?I) old y"
      "lh_height hy \<noteq> lh_height (h\<lparr>lh_is_active := True, lh_is_chain_tip := True\<rparr>)"
    from y(1) show "in_height_to_id ?I (lh_height hy) = Some y"
    proof (cases rule: stored_cases)
      case 1
      then show ?thesis using y(3) by simp
    next
      case (2 b)
      have "lh_is_active (hy\<lparr>lh_is_chain_tip := b\<rparr>)" using chain_ok_SomeD(2) [OF ok tip 2(2)] y(2) lk by simp
      then show ?thesis using chain_ok_SomeD(3) [OF ok tip 2(2)] y(3) by simp
    qed
  qed
qed

text \<open>
  Heights count the links: every header stands one above the parent it is linked to. Then two
  branches levelled to the same height meet in lockstep, within as many steps as the fork is
  deep.
\<close>

definition consecutive :: "(u64 \<rightharpoonup> live_block_header) \<Rightarrow> bool" where
  "consecutive L \<longleftrightarrow> (\<forall>c p h h'. parent_of L c = Some p \<longrightarrow> L c = Some h \<longrightarrow> L p = Some h' \<longrightarrow>
     unat (lh_height h) = Suc (unat (lh_height h')))"

lemma consecutiveD:
  "consecutive L \<Longrightarrow> parent_of L c = Some p \<Longrightarrow> L c = Some h \<Longrightarrow> L p = Some h' \<Longrightarrow>
    unat (lh_height h) = Suc (unat (lh_height h'))"
  unfolding consecutive_def by blast

lemma consecutive_drop: "consecutive L \<Longrightarrow> heights_drop L"
  unfolding consecutive_def heights_drop_def by (metis lessI word_less_nat_alt)

lemma prev_header_linked:
  "live i c = Some h \<Longrightarrow> parent_of (live i) c = Some p \<Longrightarrow> live i p = Some hp \<Longrightarrow>
    prev_header (in_headers i) (in_hash_to_id i) h = Some hp"
  by (auto simp: parent_of_def prev_header_alt split: option.splits if_splits)

lemma level_down_found:
  assumes cons: "consecutive (live i)" and a: "live i a = Some ha" "lh_height ha \<le> ht"
  shows "linked (live i) c a \<Longrightarrow> live i c = Some h \<Longrightarrow>
    \<exists>x hx. level_down (in_headers i) (in_hash_to_id i) ht h = Some (Some hx) \<and> live i x = Some hx \<and>
      linked (live i) x a \<and> lh_height hx = min ht (lh_height h)"
  unfolding linked_def
proof (induction arbitrary: h rule: converse_rtranclp_induct)
  case base
  then have "level_down (in_headers i) (in_hash_to_id i) ht h = Some (Some h)"
    using a by (subst level_down.simps) (simp add: not_less [symmetric])
  then show ?case using base a by (intro exI [of _ a] exI [of _ h]) simp
next
  case (step y z)
  show ?case
  proof (cases "lh_height h > ht")
    case False
    then have "level_down (in_headers i) (in_hash_to_id i) ht h = Some (Some h)"
      by (subst level_down.simps) simp
    then show ?thesis
      using step.hyps step.prems False
      by (intro exI [of _ y] exI [of _ h]) (simp add: converse_rtranclp_into_rtranclp [where b = z])
  next
    case True
    obtain hz where hz: "live i z = Some hz" using parent_of_live [OF step.hyps(1)] by blast
    have "unat (lh_height h) = Suc (unat (lh_height hz))"
      by (rule consecutiveD [OF cons step.hyps(1) step.prems hz])
    then have "min ht (lh_height hz) = min ht (lh_height h)"
      using True by (simp add: min_def word_le_nat_alt word_less_nat_alt)
    moreover have "level_down (in_headers i) (in_hash_to_id i) ht h =
        level_down (in_headers i) (in_hash_to_id i) ht hz"
      using True prev_header_linked [OF step.prems step.hyps(1) hz] by (subst level_down.simps) simp
    ultimately show ?thesis using step.IH [OF hz] by simp
  qed
qed

lemma linked_same_height:
  assumes "heights_drop L" "linked L c a" "L c = Some h" "L a = Some ha" "lh_height h \<le> lh_height ha"
  shows "c = a"
  using linked_height [OF assms(1-4)] assms(5) by (meson leD)

lemma lockstep_found:
  assumes cons: "consecutive (live i)" and a: "live i a = Some ha"
  shows "live i c1 = Some h1 \<Longrightarrow> live i c2 = Some h2 \<Longrightarrow> lh_height h1 = lh_height h2 \<Longrightarrow>
    linked (live i) c1 a \<Longrightarrow> linked (live i) c2 a \<Longrightarrow> unat (lh_height h1) \<le> unat (lh_height ha) + n \<Longrightarrow>
    \<exists>r. lockstep (in_headers i) (in_hash_to_id i) n h1 h2 = Some r"
proof (induction n arbitrary: c1 c2 h1 h2)
  case 0
  note same = linked_same_height [OF consecutive_drop [OF cons] _ _ a]
  have "c1 = a" "c2 = a" using 0 same [of c1 h1] same [of c2 h2] by (simp_all add: word_le_nat_alt)
  then show ?case using 0 by simp
next
  case (Suc n)
  show ?case
  proof (cases "lh_hash h1 = lh_hash h2")
    case False
    note same = linked_same_height [OF consecutive_drop [OF cons] _ _ a]
    have "c1 \<noteq> a \<or> c2 \<noteq> a" using False Suc.prems(1,2) by auto
    then have ne: "a \<noteq> c1" "a \<noteq> c2" using same [of c1 h1] same [of c2 h2] Suc.prems a by auto
    obtain p1 where p1: "parent_of (live i) c1 = Some p1" "linked (live i) p1 a"
      using Suc.prems(4) ne(1) by (auto elim: linked_cases)
    obtain p2 where p2: "parent_of (live i) c2 = Some p2" "linked (live i) p2 a"
      using Suc.prems(5) ne(2) by (auto elim: linked_cases)
    obtain k1 k2 where k: "live i p1 = Some k1" "live i p2 = Some k2"
      using parent_of_live [OF p1(1)] parent_of_live [OF p2(1)] by blast
    have u: "unat (lh_height h1) = Suc (unat (lh_height k1))" "unat (lh_height h2) = Suc (unat (lh_height k2))"
      using consecutiveD [OF cons p1(1) Suc.prems(1) k(1)] consecutiveD [OF cons p2(1) Suc.prems(2) k(2)] .
    then have "lh_height k1 = lh_height k2" using Suc.prems(3) by (simp add: word_unat_eq_iff)
    moreover have "unat (lh_height k1) \<le> unat (lh_height ha) + n" using u(1) Suc.prems(6) by simp
    ultimately obtain r where "lockstep (in_headers i) (in_hash_to_id i) n k1 k2 = Some r"
      using Suc.IH [OF k _ p1(2) p2(2)] by blast
    then show ?thesis
      using prev_header_linked [OF Suc.prems(1) p1(1) k(1)] prev_header_linked [OF Suc.prems(2) p2(1) k(2)] False
      by simp
  qed simp
qed

lemma find_common_ancestor_found:
  assumes cons: "consecutive (live i)" and a: "live i a = Some ha"
    and h: "live i x = Some h1" "live i y = Some h2" and l: "linked (live i) x a" "linked (live i) y a"
    and near: "min (unat (lh_height h1)) (unat (lh_height h2)) \<le> unat (lh_height ha) + unat t"
  shows "\<exists>r. find_common_ancestor_sync t (in_headers i) (in_hash_to_id i) x y = Some (Some r)"
proof -
  let ?ld = "level_down (in_headers i) (in_hash_to_id i)"
  have above: "lh_height ha \<le> lh_height hc" if "linked (live i) c a" "live i c = Some hc" for c hc
    using linked_height [OF consecutive_drop [OF cons] that a] that a by (cases "c = a") auto
  obtain x1 c1 where c1: "?ld (lh_height h2) h1 = Some (Some c1)" "live i x1 = Some c1"
    "linked (live i) x1 a" "lh_height c1 = min (lh_height h2) (lh_height h1)"
    using level_down_found [OF cons a above [OF l(2) h(2)] l(1) h(1)] by blast
  obtain x2 c2 where c2: "?ld (lh_height c1) h2 = Some (Some c2)" "live i x2 = Some c2"
    "linked (live i) x2 a" "lh_height c2 = min (lh_height c1) (lh_height h2)"
    using level_down_found [OF cons a above [OF c1(3,2)] l(2) h(2)] by blast
  have "lh_height c1 = lh_height c2" using c1(4) c2(4) by (simp add: min.commute [of _ "lh_height h2"])
  moreover have "unat (lh_height c1) \<le> unat (lh_height ha) + unat t"
    using near c1(4) by (simp add: min_def word_le_nat_alt split: if_splits)
  ultimately obtain r where "lockstep (in_headers i) (in_hash_to_id i) (unat t) c1 c2 = Some r"
    using lockstep_found [OF cons a c1(2) c2(2) _ c1(3) c2(3)] by blast
  then show ?thesis using c1(1) c2(1) h by (simp add: find_common_ancestor_sync_def live_def)
qed

text \<open>
  The new header continues a branch that leaves the active chain within the reorganisation
  threshold: its parent is stored and one below it, and some active ancestor of the parent (or
  the parent itself) is at most the threshold below the lower of the new header and the tip.
  The first header of a store attaches to nothing.
\<close>

definition attaches :: "u32 \<Rightarrow> inner \<Rightarrow> live_block_header \<Rightarrow> bool" where
  "attaches t i h \<longleftrightarrow>
     (\<forall>tip. Option.bind (in_tip_id i) (live i) = Some tip \<longrightarrow>
        (\<exists>p hp a ha. in_hash_to_id i (lh_previous_hash h) = Some p \<and> live i p = Some hp \<and>
           unat (lh_height h) = Suc (unat (lh_height hp)) \<and>
           linked (live i) p a \<and> live i a = Some ha \<and> lh_is_active ha \<and>
           min (unat (lh_height tip)) (unat (lh_height h)) \<le> unat (lh_height ha) + unat t))"

lemma attaches_bump [simp]: "attaches t (bump_id i) h = attaches t i h"
  by (simp add: attaches_def)

lemma attaches_cong:
  "lh_previous_hash h' = lh_previous_hash h \<Longrightarrow> lh_height h' = lh_height h \<Longrightarrow> attaches t i h' = attaches t i h"
  by (simp add: attaches_def)

lemma extended_parent:
  assumes wf: "store_wf i" and new: "can_store i nid h" and ex: "extended i nid h k"
  shows "c \<noteq> nid \<Longrightarrow> parent_of (live k) c = parent_of (live i) c"
    and "parent_of (live k) nid = Some p \<Longrightarrow> lh_previous_header_id h = Some p"
proof -
  have L: "x = nid \<and> (\<exists>a t. hx = h\<lparr>lh_is_active := a, lh_is_chain_tip := t\<rparr>) \<or>
      x \<noteq> nid \<and> (\<exists>a t. live i x = Some (hx\<lparr>lh_is_active := a, lh_is_chain_tip := t\<rparr>))"
    if "live k x = Some hx" for x hx using ex that unfolding extended_def by blast
  have N: "live k x = None \<longleftrightarrow> x \<noteq> nid \<and> live i x = None" for x using ex unfolding extended_def by blast
  have keep: "map_option lh_previous_header_id (live k x) = map_option lh_previous_header_id (live i x)"
    if "x \<noteq> nid" for x
    using N [of x] L [of x] that by (cases "live k x") auto
  show "c \<noteq> nid \<Longrightarrow> parent_of (live k) c = parent_of (live i) c"
    by (rule parent_of_add [OF keep can_store_older [OF wf new]])
  assume "parent_of (live k) nid = Some p"
  then obtain hn where "live k nid = Some hn" "lh_previous_header_id hn = Some p"
    by (auto simp: parent_of_def split: option.splits if_splits)
  then show "lh_previous_header_id h = Some p" using L by fastforce
qed

lemma extended_height:
  assumes "extended i nid h k" "live k x = Some hx"
  obtains "x = nid" "lh_height hx = lh_height h" | h0 where "x \<noteq> nid" "live i x = Some h0" "lh_height hx = lh_height h0"
proof -
  from assms have "x = nid \<and> (\<exists>a t. hx = h\<lparr>lh_is_active := a, lh_is_chain_tip := t\<rparr>) \<or>
      x \<noteq> nid \<and> (\<exists>a t. live i x = Some (hx\<lparr>lh_is_active := a, lh_is_chain_tip := t\<rparr>))"
    unfolding extended_def by blast
  then show ?thesis using that by auto
qed

lemma consecutive_extended:
  assumes wf: "store_wf i" and new: "can_store i nid h" and ok: "chain_ok i" and cons: "consecutive (live i)"
    and link: "lh_previous_header_id h = in_hash_to_id i (lh_previous_hash h)" and att: "attaches t i h"
    and ex: "extended i nid h k"
  shows "consecutive (live k)"
  unfolding consecutive_def
proof (intro allI impI)
  fix c p hc hp
  assume par: "parent_of (live k) c = Some p" and c: "live k c = Some hc" and p: "live k p = Some hp"
  note up = extended_parent [OF wf new ex]
  have "p \<noteq> nid" using par up parent_of_live [of "live i" c p] new
    by (cases "c = nid") (auto simp: can_store_def)
  then obtain h0 where h0: "live i p = Some h0" "lh_height hp = lh_height h0"
    using extended_height [OF ex p] by metis
  from ex c show "unat (lh_height hc) = Suc (unat (lh_height hp))"
  proof (cases rule: extended_height)
    case 1
    have id: "lh_previous_header_id h = Some p" using par up(2) 1(1) by simp
    obtain tid where tid: "in_tip_id i = Some tid" using ok h0(1) by (cases "in_tip_id i") (auto simp: chain_ok_def)
    then obtain tip where "Option.bind (in_tip_id i) (live i) = Some tip" using chain_ok_SomeD(1) [OF ok tid] by auto
    then obtain q hq where "in_hash_to_id i (lh_previous_hash h) = Some q" "live i q = Some hq"
      "unat (lh_height h) = Suc (unat (lh_height hq))"
      using att unfolding attaches_def by blast
    then show ?thesis using id link h0 1 by simp
  next
    case (2 c0)
    then show ?thesis using consecutiveD [OF cons _ 2(2) h0(1)] par up(1) [OF 2(1)] h0(2) by simp
  qed
qed

lemma attached_ancestor_found:
  assumes wf: "store_wf i" and new: "can_store i nid h" and ok: "chain_ok i" and tip: "in_tip_id i = Some old"
    and cons: "consecutive (live (tip_stored nid h i))"
    and link: "lh_previous_header_id h = in_hash_to_id i (lh_previous_hash h)" and att: "attaches t i h"
  shows "\<exists>r. find_common_ancestor_sync t (in_headers (tip_stored nid h i))
      (in_hash_to_id (tip_stored nid h i)) old nid = Some (Some r)"
proof -
  let ?L = "live (tip_stored nid h i)"
  obtain ht where ht: "live i old = Some ht" using chain_ok_SomeD(1) [OF ok tip] by auto
  obtain p hp a ha where p: "in_hash_to_id i (lh_previous_hash h) = Some p" "live i p = Some hp"
    "linked (live i) p a" "live i a = Some ha" "lh_is_active ha"
    "min (unat (lh_height ht)) (unat (lh_height h)) \<le> unat (lh_height ha) + unat t"
    using att tip ht unfolding attaches_def by (auto simp: bind_eq_Some_conv)
  have ne: "p \<noteq> nid" "old \<noteq> nid" "a \<noteq> nid" using p ht new by (auto simp: can_store_def)
  have up: "parent_of ?L nid = Some p" using parent_of_tip_stored(2) [OF wf new] link p by simp
  have "linked ?L p a" using linked_tip_stored [OF wf new ne(1)] p(3) by simp
  then have la: "linked ?L nid a" using up by (rule linked_step [rotated])
  have lo: "linked ?L old a"
    using linked_tip_stored [OF wf new ne(2)] chain_ok_SomeD(2) [OF ok tip p(4)] p(5) by simp
  obtain hb where hb: "?L a = Some hb" "lh_height hb = lh_height ha"
    using p(4) ne(3) by (cases "in_tip_id i = Some a") (auto simp: live_unmarked)
  obtain ho where ho: "?L old = Some ho" "lh_height ho = lh_height ht"
    using ht ne(2) by (cases "in_tip_id i = Some old") (auto simp: live_unmarked)
  show ?thesis
    by (rule find_common_ancestor_found [OF cons hb(1) ho(1) _ lo la, of "h\<lparr>lh_is_active := True, lh_is_chain_tip := True\<rparr>"])
      (use p(6) hb(2) ho(2) in simp_all)
qed

lemma insert_as_tip_chain:
  assumes wf: "store_wf i" and new: "can_store i nid h" and ok: "chain_ok i"
    and I: "heights_ok (tip_stored nid h i)" "no_late_parents (tip_stored nid h i)"
    and cons: "consecutive (live (tip_stored nid h i))"
    and link: "lh_previous_header_id h = in_hash_to_id i (lh_previous_hash h)" and att: "attaches t i h"
    and old: "old_tip = Option.bind (in_tip_id i) (live i)"
    and run: "insert_as_tip t i res nid h old_tip = Some (i', r)"
  shows "chain_ok i'"
proof (cases "\<exists>oid tip. in_tip_id i = Some oid \<and> old_tip = Some tip \<and> lh_previous_hash h \<noteq> lh_hash tip")
  case True
  then obtain oid tip where o: "in_tip_id i = Some oid" "old_tip = Some tip" "lh_previous_hash h \<noteq> lh_hash tip"
    by blast
  obtain i2 d ds where hr: "handle_reorg t (tip_stored nid h i) oid nid = Some (i2, d, ds)"
    and i': "i' = i2\<lparr>in_tip_id := Some nid\<rparr>"
    using run o by (auto simp: insert_as_tip_alt Let_def)
  obtain a where "find_common_ancestor_sync t (in_headers (tip_stored nid h i))
      (in_hash_to_id (tip_stored nid h i)) oid nid = Some (Some a)"
    using attached_ancestor_found [OF wf new ok o(1) cons link att] by blast
  then show ?thesis using tip_reorg_chain_ok [OF wf new ok o(1) I _ hr] i' by simp
next
  case False
  have i': "i' = (tip_stored nid h i)\<lparr>in_tip_id := Some nid\<rparr>"
    using run False old by (auto simp: insert_as_tip_alt Let_def split: option.splits bool.splits)
  have "in_tip_id i = None \<or> (\<exists>t. in_tip_id i = Some t \<and> lh_previous_header_id h = Some t)"
  proof (cases "in_tip_id i")
    case (Some t)
    then obtain tip where tip: "live i t = Some tip" using chain_ok_SomeD(1) [OF ok Some] by auto
    then have "lh_previous_hash h = lh_hash tip" using False old Some by auto
    then have "in_hash_to_id i (lh_previous_hash h) = Some t"
      using store_wf_hash [OF wf tip] by simp
    then show ?thesis using Some link by simp
  qed simp
  then show ?thesis using chain_ok_extend [OF wf new heights_ok_drop [OF I(1)] ok] i' by blast
qed

lemma bump_facts [simp]: "chain_ok (bump_id i) = chain_ok i" "no_late_parents (bump_id i) = no_late_parents i"
  by (simp_all add: chain_ok_def no_late_parents_def split: option.splits)

lemma fork_choice_cases_res:
  assumes "fork_choice t i res nid h = Some (i', r)"
  shows "insert_as_tip t i (res\<lparr>ir_no_tip := Option.bind (in_tip_id i) (live i) = None\<rparr>) nid h
      (Option.bind (in_tip_id i) (live i)) = Some (i', r) \<or>
    i' = fst (insert_as_fork i res nid h) \<and> Option.bind (in_tip_id i) (live i) \<noteq> None"
  using assms unfolding fork_choice_def Let_def live_def [symmetric]
  by (cases "Option.bind (in_tip_id i) (live i)") (auto simp: insert_as_fork_def split: if_splits)

lemma insert_header_chain:
  assumes wf: "store_wf (ms_inner s)" and ok: "heights_ok (ms_inner s)" "no_late_parents (ms_inner s)"
    "chain_ok (ms_inner s)" and cons: "consecutive (live (ms_inner s))"
    and room: "in_next_id (ms_inner s) \<noteq> - 1"
    and fresh: "fresh_header h" and fit: "fits (ms_inner s) h"
    and att: "attaches (ms_reorg_height_threshold s) (ms_inner s) h"
    and order: "\<And>c hc. live (ms_inner s) c = Some hc \<Longrightarrow> lh_previous_hash hc \<noteq> lh_hash h"
    and run: "insert_header C s h = Some (s', r)"
  shows "chain_ok (ms_inner s')"
proof (cases "in_hash_to_id (ms_inner s) (lh_hash h) = None")
  case False
  then show ?thesis using run ok insert_header_dupe by simp
next
  case True
  let ?i = "bump_id (ms_inner s)" let ?n = "in_next_id (ms_inner s)"
  obtain w h' np where l: "link_header C (ms_inner s) w h = (h', np)"
    and eq: "insert_header C s h = map_option (\<lambda>(i', r). (s\<lparr>ms_inner := i'\<rparr>, r))
       (fork_choice (ms_reorg_height_threshold s) ?i (insert_result_default\<lparr>ir_no_prev := np\<rparr>) ?n h')"
    using insert_header_new [OF True] by metis
  obtain i' where i': "s' = s\<lparr>ms_inner := i'\<rparr>"
    and fc: "fork_choice (ms_reorg_height_threshold s) ?i
          (insert_result_default\<lparr>ir_no_prev := np\<rparr>) ?n h' = Some (i', r)"
    using run unfolding eq by auto
  note b = bump_id_wf [OF wf room] and c = can_store_linked [OF wf room fresh True l]
    and f = link_header_facts [OF wf fresh l]
  have link: "lh_previous_header_id h' = in_hash_to_id ?i (lh_previous_hash h')" using f(4,6) by simp
  have fit': "fits ?i h'" using fit fits_cong [OF f(2,4,3)] by simp
  have H: "heights_ok (tip_stored ?n h' ?i)" using heights_ok_tip_stored [OF b _ c fit' link] ok by simp
  have N: "no_late_parents (tip_stored ?n h' ?i)"
  proof (rule no_late_extended [OF _ extended_tip_stored link])
    show "no_late_parents ?i" using ok by simp
    show "lh_previous_hash h' \<noteq> lh_hash h'" using fit' by (simp add: fits_def)
    show "lh_previous_hash hc \<noteq> lh_hash h'" if "live ?i c = Some hc" for c hc using order that f(2) by simp
  qed
  have att': "attaches (ms_reorg_height_threshold s) ?i h'" using att attaches_cong [OF f(4,3)] by simp
  have S: "consecutive (live (tip_stored ?n h' ?i))"
    by (rule consecutive_extended [OF b c _ _ link att' extended_tip_stored]) (use ok cons in simp_all)
  from fork_choice_cases_res [OF fc] have "chain_ok i'"
  proof
    assume t: "insert_as_tip (ms_reorg_height_threshold s) ?i
        (insert_result_default\<lparr>ir_no_prev := np, ir_no_tip := Option.bind (in_tip_id ?i) (live ?i) = None\<rparr>) ?n h'
        (Option.bind (in_tip_id ?i) (live ?i)) = Some (i', r)"
    show ?thesis using insert_as_tip_chain [OF b c _ H N S link att' refl t] ok by simp
  next
    assume "i' = fst (insert_as_fork ?i (insert_result_default\<lparr>ir_no_prev := np\<rparr>) ?n h') \<and>
        Option.bind (in_tip_id ?i) (live ?i) \<noteq> None"
    then show ?thesis using fork_chain_ok [OF b c _ _ f(5)] ok by (cases "in_tip_id ?i") auto
  qed
  then show ?thesis using i' by simp
qed

section \<open>What an insertion leaves unchanged\<close>

lemma handle_reorg_frame:
  assumes wf: "store_wf i" and run: "handle_reorg t i old new = Some (i', d, ds)"
  shows "same_links (live i) (live i')" "in_hash_to_id i' = in_hash_to_id i"
    "in_next_id i' = in_next_id i" "in_bulk i' = in_bulk i"
proof -
  obtain r where r: "find_common_ancestor_sync t (in_headers i) (in_hash_to_id i) old new = Some r"
    using run by (auto simp: handle_reorg_def bind_eq_Some_conv)
  have "i' = i \<or> (\<exists>ids ids'. i' = reorged ids ids' i)"
  proof (cases r)
    case None
    then show ?thesis using run by (simp add: handle_reorg_def r)
  next
    case (Some a)
    then show ?thesis using handle_reorg_found [OF wf _ run] r by metis
  qed
  then show "same_links (live i) (live i')" "in_hash_to_id i' = in_hash_to_id i"
    "in_next_id i' = in_next_id i" "in_bulk i' = in_bulk i"
    by (auto simp: reorged_def set_all_activate set_all_deactivate intro: same_links_reorged [unfolded reorged_def])
qed

lemma extended_same_links:
  assumes ex: "extended i nid h j" and links: "same_links (live j) (live k)"
    and "in_hash_to_id k = in_hash_to_id j" "in_next_id k = in_next_id j" "in_bulk k = in_bulk j"
  shows "extended i nid h k"
proof -
  have "x = nid \<and> (\<exists>a t. hx = h\<lparr>lh_is_active := a, lh_is_chain_tip := t\<rparr>) \<or>
      x \<noteq> nid \<and> (\<exists>a t. live i x = Some (hx\<lparr>lh_is_active := a, lh_is_chain_tip := t\<rparr>))"
    if x: "live k x = Some hx" for x hx
  proof -
    obtain b where j: "live j x = Some (hx\<lparr>lh_is_active := b\<rparr>)"
      using same_links_Some [OF same_links_sym [OF links] x] .
    have eq: "hx\<lparr>lh_is_active := b\<rparr> = h\<lparr>lh_is_active := a, lh_is_chain_tip := t\<rparr> \<Longrightarrow>
        hx = h\<lparr>lh_is_active := lh_is_active hx, lh_is_chain_tip := t\<rparr>" for a t
      by (cases hx; cases h) simp
    from j ex have "x = nid \<and> (\<exists>a t. hx\<lparr>lh_is_active := b\<rparr> = h\<lparr>lh_is_active := a, lh_is_chain_tip := t\<rparr>) \<or>
      x \<noteq> nid \<and> (\<exists>a t. live i x = Some (hx\<lparr>lh_is_active := b\<rparr>\<lparr>lh_is_active := a, lh_is_chain_tip := t\<rparr>))"
      unfolding extended_def by blast
    moreover have "hx\<lparr>lh_is_active := b\<rparr>\<lparr>lh_is_active := a, lh_is_chain_tip := t\<rparr> =
        hx\<lparr>lh_is_active := a, lh_is_chain_tip := t\<rparr>" for a t by simp
    ultimately show ?thesis using eq by metis
  qed
  moreover have "live k x = None \<longleftrightarrow> x \<noteq> nid \<and> live i x = None" for x
    using same_links_None [OF links, of x] ex by (simp add: extended_def)
  ultimately show ?thesis using ex assms(3-5) by (simp add: extended_def)
qed

lemma insert_as_tip_extended:
  assumes wf: "store_wf i" and new: "can_store i nid h"
    and run: "insert_as_tip t i res nid h old_tip = Some (i', r)"
  shows "extended i nid h i' \<and> in_tip_id i' = Some nid"
proof -
  have tip: "extended i nid h (j\<lparr>in_tip_id := Some nid\<rparr>) = extended i nid h j" for j
    by (simp add: extended_def live_def)
  have "extended i nid h (i2\<lparr>in_tip_id := Some nid\<rparr>)"
    if "handle_reorg t (tip_stored nid h i) old nid = Some (i2, d, ds)" for old i2 d ds
    using extended_same_links [OF extended_tip_stored handle_reorg_frame [OF tip_stored_wf [OF wf new] that]]
    by (simp add: tip)
  moreover have "extended i nid h ((tip_stored nid h i)\<lparr>in_tip_id := Some nid\<rparr>)"
    using extended_tip_stored by (simp add: tip)
  ultimately show ?thesis
    using run by (auto simp: insert_as_tip_alt Let_def split: option.splits bool.splits)
qed

text \<open>The work of the tip is maximal.\<close>

definition tip_max :: "inner \<Rightarrow> bool" where
  "tip_max i \<longleftrightarrow> (\<forall>t ht x h. in_tip_id i = Some t \<longrightarrow> live i t = Some ht \<longrightarrow> live i x = Some h \<longrightarrow>
     \<not> is_more_work (lh_chain_work h) (lh_chain_work ht))"

lemma tip_max_bump [simp]: "tip_max (bump_id i) = tip_max i"
  by (simp add: tip_max_def)

lemma more_work_trans:
  "\<not> is_more_work a b \<Longrightarrow> is_more_work c b \<Longrightarrow> \<not> is_more_work a c"
  by (simp add: is_more_work_val)

lemma more_work_irrefl [simp]: "\<not> is_more_work a a"
  by (simp add: is_more_work_val)

lemma extended_works:
  assumes "extended i nid h i'" "live i' x = Some hx"
  shows "x = nid \<and> lh_chain_work hx = lh_chain_work h \<or>
    x \<noteq> nid \<and> (\<exists>h0. live i x = Some h0 \<and> lh_chain_work h0 = lh_chain_work hx)"
proof -
  from assms have "x = nid \<and> (\<exists>a t. hx = h\<lparr>lh_is_active := a, lh_is_chain_tip := t\<rparr>) \<or>
      x \<noteq> nid \<and> (\<exists>a t. live i x = Some (hx\<lparr>lh_is_active := a, lh_is_chain_tip := t\<rparr>))"
    unfolding extended_def by blast
  then show ?thesis by auto
qed

lemma tip_max_new_tip:
  assumes ex: "extended i nid h i'" and tip: "in_tip_id i' = Some nid" and ok: "chain_ok i" and mx: "tip_max i"
    and more: "\<And>tip. Option.bind (in_tip_id i) (live i) = Some tip \<Longrightarrow> is_more_work (lh_chain_work h) (lh_chain_work tip)"
  shows "tip_max i'"
  unfolding tip_max_def
proof (intro allI impI)
  fix t ht x hx
  assume a: "in_tip_id i' = Some t" "live i' t = Some ht" "live i' x = Some hx"
  have ht: "lh_chain_work ht = lh_chain_work h" using extended_works [OF ex a(2)] a(1) tip by auto
  show "\<not> is_more_work (lh_chain_work hx) (lh_chain_work ht)"
  proof (cases "x = nid")
    case True
    then show ?thesis using extended_works [OF ex a(3)] ht by auto
  next
    case False
    then obtain h0 where h0: "live i x = Some h0" "lh_chain_work h0 = lh_chain_work hx"
      using extended_works [OF ex a(3)] by blast
    then obtain o' where o': "in_tip_id i = Some o'" using ok by (cases "in_tip_id i") (auto simp: chain_ok_def)
    then obtain tip where tip: "live i o' = Some tip" using chain_ok_SomeD(1) [OF ok o'] by auto
    have "\<not> is_more_work (lh_chain_work h0) (lh_chain_work tip)"
      using mx o' tip h0 unfolding tip_max_def by blast
    moreover have "is_more_work (lh_chain_work h) (lh_chain_work tip)" using more o' tip by simp
    ultimately show ?thesis using more_work_trans ht h0(2) by metis
  qed
qed

lemma tip_max_fork:
  assumes ex: "extended i nid h i'" and tip: "in_tip_id i' = in_tip_id i" and mx: "tip_max i"
    and new: "live i nid = None"
    and t: "in_tip_id i = Some t" "live i t = Some ht" "\<not> is_more_work (lh_chain_work h) (lh_chain_work ht)"
  shows "tip_max i'"
  unfolding tip_max_def
proof (intro allI impI)
  fix t' ht' x hx
  assume a: "in_tip_id i' = Some t'" "live i' t' = Some ht'" "live i' x = Some hx"
  have t': "t' = t" "t \<noteq> nid" using a(1) tip t(1,2) new by auto
  have w: "lh_chain_work ht' = lh_chain_work ht" using extended_works [OF ex a(2)] t' t(2) by auto
  from extended_works [OF ex a(3)] show "\<not> is_more_work (lh_chain_work hx) (lh_chain_work ht')"
  proof (elim disjE conjE exE)
    assume "lh_chain_work hx = lh_chain_work h"
    then show ?thesis using t(3) w by simp
  next
    fix h0 assume "live i x = Some h0" "lh_chain_work h0 = lh_chain_work hx"
    then show ?thesis using mx t(1,2) w unfolding tip_max_def by metis
  qed
qed

lemma fork_choice_extended:
  assumes wf: "store_wf i" and new: "can_store i nid h" and run: "fork_choice t i res nid h = Some (i', r)"
  shows "extended i nid h i'"
  using fork_choice_cases_res [OF run] insert_as_tip_extended [OF wf new] extended_fork by metis

lemma fork_choice_tip_max:
  assumes wf: "store_wf i" and new: "can_store i nid h" and ok: "chain_ok i" and mx: "tip_max i"
    and run: "fork_choice t i res nid h = Some (i', r)"
  shows "tip_max i'"
  using run
proof (cases rule: fork_choice_cases)
  case (tip res')
  then show ?thesis
    using tip_max_new_tip [OF _ _ ok mx] insert_as_tip_extended [OF wf new tip(1)] by blast
next
  case (fork tip)
  obtain tid where tid: "in_tip_id i = Some tid" "live i tid = Some tip"
    using fork(2) by (auto simp: bind_eq_Some_conv)
  show ?thesis
    using tip_max_fork [OF extended_fork _ mx _ tid fork(3)] new fork(1) by (simp add: can_store_def)
qed

section \<open>Stores grown from the empty one\<close>

definition accepts :: "memory_storage \<Rightarrow> live_block_header \<Rightarrow> bool" where
  "accepts s h \<longleftrightarrow> fresh_header h \<and> fits (ms_inner s) h \<and> in_next_id (ms_inner s) \<noteq> - 1 \<and>
     (\<forall>c hc. live (ms_inner s) c = Some hc \<longrightarrow> lh_previous_hash hc \<noteq> lh_hash h)"

definition chain_inv :: "memory_storage \<Rightarrow> bool" where
  "chain_inv s \<longleftrightarrow> store_wf (ms_inner s) \<and> heights_ok (ms_inner s) \<and> no_late_parents (ms_inner s) \<and>
     chain_ok (ms_inner s) \<and> tip_max (ms_inner s)"

lemma chain_inv_empty: "chain_inv (with_thresholds c lt rt)"
  by (simp add: chain_inv_def with_thresholds_def store_wf_empty)
    (simp add: empty_inner_def heights_ok_def no_late_parents_def chain_ok_def tip_max_def live_def)

lemma insert_header_chain_inv:
  assumes inv: "chain_inv s" "consecutive (live (ms_inner s))"
    and acc: "accepts s h" "attaches (ms_reorg_height_threshold s) (ms_inner s) h"
    and run: "insert_header C s h = Some (s', r)"
  shows "chain_inv s' \<and> consecutive (live (ms_inner s'))"
proof (cases "in_hash_to_id (ms_inner s) (lh_hash h) = None")
  case False
  then show ?thesis using run inv insert_header_dupe by simp
next
  case True
  have wf: "store_wf (ms_inner s)" and ok: "heights_ok (ms_inner s)" "no_late_parents (ms_inner s)"
      "chain_ok (ms_inner s)" "tip_max (ms_inner s)"
    and room: "in_next_id (ms_inner s) \<noteq> - 1" and fresh: "fresh_header h" and fit: "fits (ms_inner s) h"
    and order: "\<And>c hc. live (ms_inner s) c = Some hc \<Longrightarrow> lh_previous_hash hc \<noteq> lh_hash h"
    using inv(1) acc(1) unfolding chain_inv_def accepts_def by blast+
  let ?i = "bump_id (ms_inner s)" let ?n = "in_next_id (ms_inner s)"
  obtain w h' np where l: "link_header C (ms_inner s) w h = (h', np)"
    and eq: "insert_header C s h = map_option (\<lambda>(i', r). (s\<lparr>ms_inner := i'\<rparr>, r))
       (fork_choice (ms_reorg_height_threshold s) ?i (insert_result_default\<lparr>ir_no_prev := np\<rparr>) ?n h')"
    using insert_header_new [OF True] by metis
  obtain i' where i': "s' = s\<lparr>ms_inner := i'\<rparr>"
    and fc: "fork_choice (ms_reorg_height_threshold s) ?i
          (insert_result_default\<lparr>ir_no_prev := np\<rparr>) ?n h' = Some (i', r)"
    using run unfolding eq by auto
  note b = bump_id_wf [OF wf room] and c = can_store_linked [OF wf room fresh True l]
    and f = link_header_facts [OF wf fresh l]
  have link: "lh_previous_header_id h' = in_hash_to_id ?i (lh_previous_hash h')" using f(4,6) by simp
  have fit': "fits ?i h'" using fit fits_cong [OF f(2,4,3)] by simp
  have att': "attaches (ms_reorg_height_threshold s) ?i h'" using acc(2) attaches_cong [OF f(4,3)] by simp
  note ex = fork_choice_extended [OF b c fc]
  have "heights_ok i'" using heights_ok_extended [OF b _ c fit' link ex] ok by simp
  moreover have "no_late_parents i'"
    using no_late_extended [OF _ ex link] ok order f(2) fit' by (simp add: fits_def)
  moreover have "tip_max i'"
    using fork_choice_tip_max [OF b c _ _ fc] ok by simp
  moreover have "consecutive (live i')"
    by (rule consecutive_extended [OF b c _ _ link att' ex]) (use ok inv(2) in simp_all)
  moreover have "store_wf (ms_inner s')" by (rule insert_header_wf [OF wf room fresh run])
  moreover have "chain_ok (ms_inner s')"
    by (rule insert_header_chain [OF wf ok(1,2,3) inv(2) room fresh fit acc(2) order run])
  ultimately show ?thesis using i' by (simp add: chain_inv_def)
qed

text \<open>
  The stores built from the empty one by insertions, each of a header that the caller numbers
  one above its stored parent and whose branch leaves the active chain within the
  reorganisation threshold.
\<close>

inductive grown :: "codec \<Rightarrow> memory_storage \<Rightarrow> bool" for C where
  grown_empty: "grown C (with_thresholds c lt rt)"
| grown_insert: "grown C s \<Longrightarrow> accepts s h \<Longrightarrow> attaches (ms_reorg_height_threshold s) (ms_inner s) h \<Longrightarrow>
    insert_header C s h = Some (s', r) \<Longrightarrow> grown C s'"

lemma consecutive_empty: "consecutive (live (ms_inner (with_thresholds c lt rt)))"
  by (simp add: consecutive_def with_thresholds_def empty_inner_def live_def)

lemma grown_chain_inv: "grown C s \<Longrightarrow> chain_inv s \<and> consecutive (live (ms_inner s))"
  by (induction rule: grown.induct) (use chain_inv_empty consecutive_empty insert_header_chain_inv in blast)+

section \<open>Properties\<close>

lemma header_values_live:
  "store_wf i \<Longrightarrow> h \<in> set (header_values i) \<longleftrightarrow> (\<exists>x. live i x = Some h)"
  unfolding store_wf_def headers_wf_def header_values_def live_def by force

lemma active_found_by_height:
  assumes "chain_inv s" "h \<in> set (get_active_headers s)"
  shows "find_header_for_height s (lh_height h) = Some (block_header_from h)"
proof -
  have wf: "store_wf (ms_inner s)" and ok: "chain_ok (ms_inner s)" using assms(1) by (auto simp: chain_inv_def)
  obtain x where x: "live (ms_inner s) x = Some h" "lh_is_active h"
    using assms(2) header_values_live [OF wf] by (auto simp: get_active_headers_def)
  then obtain t where t: "in_tip_id (ms_inner s) = Some t"
    using ok by (cases "in_tip_id (ms_inner s)") (auto simp: chain_ok_def)
  show ?thesis using chain_ok_SomeD(3) [OF ok t x] x(1) by (simp add: find_header_for_height_def live_def)
qed

text \<open>
  C14: In every store grown from the empty one by inserting headers one above their stored
  parents, on branches that leave the active chain within the reorganisation threshold (fresh
  headers without link or flags, none before its parent, and while ids are left), whatever
  reorganisations the insertions cause: no live header has more cumulative work than the tip, the active headers are
  exactly the tip and its ancestors, and each of them is the header found for its height.\<close>

theorem best_chain_selected:
  assumes "grown C s" and "find_chain_tip_header s = Some tip"
  shows "(\<forall>h \<in> set (header_values (ms_inner s)). \<not> is_more_work (lh_chain_work h) (lh_chain_work tip)) \<and>
    (\<exists>t. in_tip_id (ms_inner s) = Some t \<and>
       (\<forall>x h. live (ms_inner s) x = Some h \<longrightarrow> (lh_is_active h \<longleftrightarrow> linked (live (ms_inner s)) t x))) \<and>
    (\<forall>h \<in> set (get_active_headers s). find_header_for_height s (lh_height h) = Some (block_header_from h))"
proof (intro conjI)
  have inv: "chain_inv s" using grown_chain_inv [OF assms(1)] by blast
  then have wf: "store_wf (ms_inner s)" and ok: "chain_ok (ms_inner s)" and mx: "tip_max (ms_inner s)"
    by (auto simp: chain_inv_def)
  obtain t where t: "in_tip_id (ms_inner s) = Some t" "live (ms_inner s) t = Some tip"
    using assms(2) by (auto simp: find_chain_tip_header_def live_def split: option.splits)
  show "\<forall>h \<in> set (header_values (ms_inner s)). \<not> is_more_work (lh_chain_work h) (lh_chain_work tip)"
    using mx t header_values_live [OF wf] unfolding tip_max_def by blast
  show "\<exists>t. in_tip_id (ms_inner s) = Some t \<and>
       (\<forall>x h. live (ms_inner s) x = Some h \<longrightarrow> (lh_is_active h \<longleftrightarrow> linked (live (ms_inner s)) t x))"
    using chain_ok_SomeD(2) [OF ok t(1)] t(1) by blast
  show "\<forall>h \<in> set (get_active_headers s). find_header_for_height s (lh_height h) = Some (block_header_from h)"
    using active_found_by_height [OF inv] by blast
qed

definition sample_header :: live_block_header where
  "sample_header = \<lparr>lh_version = 1, lh_previous_hash = ZERO_HASH, lh_merkle_root = ''m'', lh_time = 0,
     lh_bits = 0x1d00ffff, lh_nonce = 0, lh_height = 7, lh_hash = ''h'', lh_chain_work = '''',
     lh_is_chain_tip = False, lh_is_active = False, lh_header_id = None, lh_previous_header_id = None\<rparr>"

lemma sample_accepted: "accepts (with_thresholds c lt rt) sample_header"
  by (simp add: accepts_def fresh_header_def fits_def sample_header_def with_thresholds_def empty_inner_def
      live_def ZERO_HASH_def numeral_eq_Suc)

lemma sample_inserted:
  obtains s r where "insert_header plain_codec (with_thresholds Main 2000 400) sample_header = Some (s, r)"
    "\<exists>tip. find_chain_tip_header s = Some tip \<and> lh_height tip = 7"
    "ir_prior_tip r = None"
proof -
  obtain w where w: "calculate_work 0x1d00ffff = Some w" using calculate_work_Some by blast
  show ?thesis
    by (rule that, simp add: insert_header_def sample_header_def w with_thresholds_def empty_inner_def
        link_header_def fork_choice_def insert_as_tip_def unmark_tip_def Let_def)
      (simp_all add: find_chain_tip_header_def insert_result_default_def)
qed

text \<open>
  A store with a fork: \<open>a1\<close> and \<open>b1\<close> follow \<open>g0\<close> with equal work, so \<open>a1\<close>, stored first, is the
  tip; then \<open>b2\<close> on top of \<open>b1\<close> has more work and takes over.
\<close>

definition fork_header :: "string \<Rightarrow> string \<Rightarrow> u32 \<Rightarrow> live_block_header" where
  "fork_header hash prev height = sample_header\<lparr>lh_hash := hash, lh_previous_hash := prev,
     lh_merkle_root := hash, lh_height := height\<rparr>"

lemma sample_work:
  obtains w where "calculate_work 0x1d00ffff = Some w" "work_value w = 0x100010001"
proof -
  have t: "compact_target 0x1d00ffff = 0xffff * 2 ^ 208" by (simp add: compact_target_def)
  have "2 ^ 128 \<le> compact_target 0x1d00ffff + 1" unfolding t by simp
  from calculate_work_wide [OF this] that show ?thesis unfolding t by auto
qed

lemma sample_more_work:
  assumes "work_value w = 0x100010001"
  shows "is_more_work (add_work plain_codec w w) w"
    "is_more_work (add_work plain_codec (add_work plain_codec w w) w) (add_work plain_codec w w)"
  using assms by (simp_all add: is_more_work_val add_work_val(1) [OF hex_contract_plain_codec])


definition fork_stored ::
  "u64 \<Rightarrow> u64 option \<Rightarrow> string \<Rightarrow> bool \<Rightarrow> bool \<Rightarrow> live_block_header \<Rightarrow> u64 \<times> live_block_header" where
  "fork_stored hid prev work active tip h = (hid, h\<lparr>lh_header_id := Some hid, lh_previous_header_id := prev,
     lh_chain_work := work, lh_is_active := active, lh_is_chain_tip := tip\<rparr>)"

abbreviation "fork_g0 \<equiv> fork_header ''g0'' ZERO_HASH 1"
abbreviation "fork_a1 \<equiv> fork_header ''a1'' ''g0'' 2"
abbreviation "fork_b1 \<equiv> fork_header ''b1'' ''g0'' 2"
abbreviation "fork_b2 \<equiv> fork_header ''b2'' ''b1'' 3"

abbreviation "fork_start \<equiv> with_thresholds Main 2000 1"

definition fork_store_1 :: "string \<Rightarrow> memory_storage" where
  "fork_store_1 w = fork_start\<lparr>ms_inner := \<lparr>
      in_headers = [fork_stored 1 None w True True fork_g0],
      in_hash_to_id = [''g0'' \<mapsto> 1], in_height_to_id = [1 \<mapsto> 1],
      in_merkle_to_id = [''g0'' \<mapsto> 1], in_next_id = 2, in_tip_id = Some 1, in_bulk = []\<rparr>\<rparr>"

definition fork_store_2 :: "string \<Rightarrow> memory_storage" where
  "fork_store_2 w = fork_start\<lparr>ms_inner := \<lparr>
      in_headers = [fork_stored 1 None w True False fork_g0,
        fork_stored 2 (Some 1) (add_work plain_codec w w) True True fork_a1],
      in_hash_to_id = [''g0'' \<mapsto> 1, ''a1'' \<mapsto> 2], in_height_to_id = [1 \<mapsto> 1, 2 \<mapsto> 2],
      in_merkle_to_id = [''g0'' \<mapsto> 1, ''a1'' \<mapsto> 2], in_next_id = 3, in_tip_id = Some 2, in_bulk = []\<rparr>\<rparr>"

definition fork_store_3 :: "string \<Rightarrow> memory_storage" where
  "fork_store_3 w = (fork_store_2 w)\<lparr>ms_inner := (ms_inner (fork_store_2 w))\<lparr>
      in_headers := in_headers (ms_inner (fork_store_2 w)) @
        [fork_stored 3 (Some 1) (add_work plain_codec w w) False False fork_b1],
      in_hash_to_id := [''g0'' \<mapsto> 1, ''a1'' \<mapsto> 2, ''b1'' \<mapsto> 3], in_next_id := 4\<rparr>\<rparr>"

lemma ZERO_HASH_other: "ZERO_HASH \<noteq> ''g0''" "ZERO_HASH \<noteq> ''a1''" "ZERO_HASH \<noteq> ''b1''" "ZERO_HASH \<noteq> ''b2''"
  by (simp_all add: ZERO_HASH_def numeral_eq_Suc)

lemmas fork_defs = fork_header_def sample_header_def with_thresholds_def empty_inner_def fork_store_1_def
  fork_store_2_def fork_store_3_def fork_stored_def

lemmas insert_defs = insert_header_def link_header_def fork_choice_def insert_as_tip_def insert_as_fork_def
  unmark_tip_def Let_def

lemma fork_store_built:
  assumes w: "calculate_work 0x1d00ffff = Some w" "work_value w = 0x100010001"
  obtains r1 r2 r3 where "insert_header plain_codec fork_start fork_g0 = Some (fork_store_1 w, r1)"
    "insert_header plain_codec (fork_store_1 w) fork_a1 = Some (fork_store_2 w, r2)"
    "insert_header plain_codec (fork_store_2 w) fork_b1 = Some (fork_store_3 w, r3)"
proof (rule that)
  show "insert_header plain_codec fork_start fork_g0 = Some (fork_store_1 w, insert_result_default\<lparr>ir_is_active_tip := True, ir_added := True, ir_no_tip := True\<rparr>)"
    by (simp add: insert_defs fork_defs insert_result_default_def w(1) ZERO_HASH_other)
  show "insert_header plain_codec (fork_store_1 w) fork_a1 = Some (fork_store_2 w, insert_result_default\<lparr>
      ir_is_active_tip := True, ir_added := True, ir_prior_tip := Some (block_header_from (snd (fork_stored 1 None w True True fork_g0)))\<rparr>)"
    by (simp add: insert_defs fork_defs insert_result_default_def w(1) ZERO_HASH_other sample_more_work [OF w(2)])
  show "insert_header plain_codec (fork_store_2 w) fork_b1 = Some (fork_store_3 w, insert_result_default\<lparr>ir_added := True\<rparr>)"
    by (simp add: insert_defs fork_defs insert_result_default_def w(1) ZERO_HASH_other)
qed

lemma fork_threshold [simp]:
  "ms_reorg_height_threshold fork_start = 1" "ms_reorg_height_threshold (fork_store_1 w) = 1"
  "ms_reorg_height_threshold (fork_store_2 w) = 1" "ms_reorg_height_threshold (fork_store_3 w) = 1"
  by (simp_all add: fork_defs)

lemma fork_accepted:
  "accepts fork_start fork_g0" "accepts (fork_store_1 w) fork_a1" "accepts (fork_store_2 w) fork_b1" "accepts (fork_store_3 w) fork_b2"
  by (simp_all add: accepts_def fresh_header_def fits_def fork_defs live_def ZERO_HASH_other split: if_splits)

lemma fork_attached:
  "attaches 1 (ms_inner fork_start) fork_g0" "attaches 1 (ms_inner (fork_store_1 w)) fork_a1"
  "attaches 1 (ms_inner (fork_store_2 w)) fork_b1" "attaches 1 (ms_inner (fork_store_3 w)) fork_b2"
proof -
  show "attaches 1 (ms_inner fork_start) fork_g0" by (simp add: attaches_def fork_defs)
  show "attaches 1 (ms_inner (fork_store_1 w)) fork_a1" by (simp add: attaches_def fork_defs live_def)
  show "attaches 1 (ms_inner (fork_store_2 w)) fork_b1"
    unfolding attaches_def
    by (intro allI impI exI [of _ 1]) (auto simp: fork_defs live_def intro!: exI [of _ 1])
  have "linked (live (ms_inner (fork_store_3 w))) 3 1"
    by (rule linked_step [OF _ linked_refl]) (simp add: parent_of_def fork_defs live_def)
  then show "attaches 1 (ms_inner (fork_store_3 w)) fork_b2"
    unfolding attaches_def
    by (intro allI impI exI [of _ 3] exI [of _ "snd (fork_stored 3 (Some 1) (add_work plain_codec w w) False False fork_b1)"]
        exI [of _ 1] exI [of _ "snd (fork_stored 1 None w True False fork_g0)"])
      (auto simp: fork_defs live_def)
qed

lemma fork_taken_over:
  assumes w: "calculate_work 0x1d00ffff = Some w" "work_value w = 0x100010001"
  obtains s r where "insert_header plain_codec (fork_store_3 w) fork_b2 = Some (s, r)"
    "map_option lh_hash (find_chain_tip_header s) = Some ''b2''"
    "map lh_hash (get_active_headers s) = [''g0'', ''b1'', ''b2'']"
    "map bh_hash (ir_deactivated_headers r) = [''a1'']"
proof -
  note insert_defs [simp] fork_defs [simp] w(1) [simp] ZERO_HASH_other [simp] sample_more_work [OF w(2), simp]
  have "map_option (\<lambda>(s, r). (map_option lh_hash (find_chain_tip_header s), map lh_hash (get_active_headers s),
      map bh_hash (ir_deactivated_headers r))) (insert_header plain_codec (fork_store_3 w) fork_b2) =
    Some (Some ''b2'', [''g0'', ''b1'', ''b2''], [''a1''])"
    by (simp add: handle_reorg_def find_common_ancestor_sync_def)
      (simp add: level_down.simps prev_header_def deactivate_walk.simps activate_walk.simps walk_next_def
        walk_back_def deactivate_def activate_def block_header_from_def find_chain_tip_header_def
        get_active_headers_def header_values_def)
  then show ?thesis using that by (auto simp del: insert_defs)
qed

theorem best_chain_selected_witness:
  "\<exists>s tip. grown plain_codec s \<and> find_chain_tip_header s = Some tip \<and> lh_hash tip = ''b2'' \<and>
     map lh_hash (get_active_headers s) = [''g0'', ''b1'', ''b2''] \<and>
     (\<forall>h \<in> set (header_values (ms_inner s)). \<not> is_more_work (lh_chain_work h) (lh_chain_work tip)) \<and>
     (\<forall>h \<in> set (get_active_headers s). find_header_for_height s (lh_height h) = Some (block_header_from h))"
proof -
  obtain w where w: "calculate_work 0x1d00ffff = Some w" "work_value w = 0x100010001" using sample_work .
  obtain r1 r2 r3 where i: "insert_header plain_codec fork_start fork_g0 = Some (fork_store_1 w, r1)"
    "insert_header plain_codec (fork_store_1 w) fork_a1 = Some (fork_store_2 w, r2)"
    "insert_header plain_codec (fork_store_2 w) fork_b1 = Some (fork_store_3 w, r3)"
    using fork_store_built [OF w] .
  obtain s r where s: "insert_header plain_codec (fork_store_3 w) fork_b2 = Some (s, r)"
    "map_option lh_hash (find_chain_tip_header s) = Some ''b2''"
    "map lh_hash (get_active_headers s) = [''g0'', ''b1'', ''b2'']"
    using fork_taken_over [OF w] .
  have "grown plain_codec fork_start" by (rule grown_empty)
  then have "grown plain_codec (fork_store_1 w)"
    by (rule grown_insert [OF _ fork_accepted(1) _ i(1)]) (simp add: fork_attached)
  then have "grown plain_codec (fork_store_2 w)"
    by (rule grown_insert [OF _ fork_accepted(2) _ i(2)]) (simp add: fork_attached)
  then have "grown plain_codec (fork_store_3 w)"
    by (rule grown_insert [OF _ fork_accepted(3) _ i(3)]) (simp add: fork_attached)
  then have g: "grown plain_codec s"
    by (rule grown_insert [OF _ fork_accepted(4) _ s(1)]) (simp add: fork_attached)
  obtain tip where tip: "find_chain_tip_header s = Some tip" "lh_hash tip = ''b2''" using s(2) by auto
  show ?thesis
    by (intro exI [of _ s] exI [of _ tip] conjI) (use best_chain_selected [OF g tip(1)] g tip s(3) in simp_all)
qed

text \<open>
  C30: Inserting a header into a well-formed store returns: the searches for the common
  ancestor and both reorganisation walks end, whatever forks the store holds, as long as
  headers are numbered above their parents.\<close>

theorem insert_header_total:
  assumes "store_wf (ms_inner s)" and "heights_ok (ms_inner s)" and "in_next_id (ms_inner s) \<noteq> - 1"
    and "fresh_header h" and "fits (ms_inner s) h"
  shows "\<exists>s' r. insert_header C s h = Some (s', r)"
  by (rule insert_header_returns [OF assms])

theorem insert_header_total_witness:
  "\<exists>s' r. insert_header plain_codec (with_thresholds Main 2000 400) sample_header = Some (s', r)"
  using insert_header_total [of "with_thresholds Main 2000 400" sample_header plain_codec]
    chain_inv_empty [of Main 2000 400] sample_accepted [of Main 2000 400]
  by (simp add: chain_inv_def accepts_def)

text \<open>
  C31: An insertion keeps the store well formed: ids match, links point to older headers, the
  hash index lists exactly the live headers, the height and merkle indexes point to active
  headers, and the archive stays sorted by height.\<close>

theorem insert_header_keeps_wf:
  assumes "store_wf (ms_inner s)" and "in_next_id (ms_inner s) \<noteq> - 1" and "fresh_header h"
    and "insert_header C s h = Some (s', r)"
  shows "store_wf (ms_inner s')"
  by (rule insert_header_wf [OF assms])

theorem insert_header_keeps_wf_witness:
  "\<exists>s' r. insert_header plain_codec (with_thresholds Main 2000 400) sample_header = Some (s', r) \<and>
     store_wf (ms_inner s')"
  using sample_inserted insert_header_keeps_wf [of "with_thresholds Main 2000 400" sample_header plain_codec]
    chain_inv_empty [of Main 2000 400] sample_accepted [of Main 2000 400]
  unfolding chain_inv_def accepts_def by metis

section \<open>Lookup after insertion\<close>

lemma insert_as_tip_result:
  "insert_as_tip t i res nid h old_tip = Some (i', r) \<Longrightarrow> ir_added r \<and> ir_dupe r = ir_dupe res"
  by (auto simp: insert_as_tip_alt Let_def split: option.splits bool.splits)

lemma fork_choice_result:
  "fork_choice t i res nid h = Some (i', r) \<Longrightarrow> ir_added r \<and> ir_dupe r = ir_dupe res"
  by (auto simp: fork_choice_def Let_def insert_as_fork_def dest!: insert_as_tip_result split: if_splits)

lemma link_header_work:
  assumes "store_wf i" "link_header C i w h = (h', np)"
  shows "lh_chain_work h' = (case Option.bind (in_hash_to_id i (lh_previous_hash h)) (live i) of
      Some p \<Rightarrow> add_work C (lh_chain_work p) w | None \<Rightarrow> w)"
    and "block_header_from h' = block_header_from h"
proof -
  show "lh_chain_work h' = (case Option.bind (in_hash_to_id i (lh_previous_hash h)) (live i) of
      Some p \<Rightarrow> add_work C (lh_chain_work p) w | None \<Rightarrow> w)"
  proof (cases "in_hash_to_id i (lh_previous_hash h)")
    case None
    then show ?thesis using assms(2) by (auto simp: link_header_def Let_def)
  next
    case (Some pid)
    then obtain p where p: "live i pid = Some p" using store_wf_hash_live [OF assms(1)] by blast
    then show ?thesis using assms(2) Some by (auto simp: link_header_def Let_def live_def)
  qed
  show "block_header_from h' = block_header_from h"
    using assms(2) by (auto simp: link_header_def Let_def block_header_from_def split: option.splits)
qed

lemma find_by_hash_alt:
  "find_live_header_for_block_hash s k = Option.bind (in_hash_to_id (ms_inner s) k) (live (ms_inner s))"
  by (simp add: find_live_header_for_block_hash_def live_def split: option.splits)

lemma find_by_hash_None: "store_wf (ms_inner s) \<Longrightarrow>
    find_live_header_for_block_hash s k = None \<longleftrightarrow> in_hash_to_id (ms_inner s) k = None"
  using store_wf_hash_live [of "ms_inner s" k]
  by (cases "in_hash_to_id (ms_inner s) k") (auto simp: find_by_hash_alt)

lemma extended_lookup:
  assumes "extended i nid h i'"
  shows "\<exists>a t. live i' nid = Some (h\<lparr>lh_is_active := a, lh_is_chain_tip := t\<rparr>)"
  using assms unfolding extended_def by (metis not_Some_eq)

lemma insert_header_new_cases:
  assumes wf: "store_wf (ms_inner s)" and room: "in_next_id (ms_inner s) \<noteq> - 1" and fresh: "fresh_header h"
    and new: "in_hash_to_id (ms_inner s) (lh_hash h) = None" and run: "insert_header C s h = Some (s', r)"
  obtains w h' np where "calculate_work (lh_bits h) = Some w" "link_header C (ms_inner s) w h = (h', np)"
    "extended (bump_id (ms_inner s)) (in_next_id (ms_inner s)) h' (ms_inner s')" "ir_added r" "\<not> ir_dupe r"
proof -
  obtain w h' np where l: "calculate_work (lh_bits h) = Some w" "link_header C (ms_inner s) w h = (h', np)"
    and eq: "insert_header C s h = map_option (\<lambda>(i', r). (s\<lparr>ms_inner := i'\<rparr>, r))
       (fork_choice (ms_reorg_height_threshold s) (bump_id (ms_inner s))
          (insert_result_default\<lparr>ir_no_prev := np\<rparr>) (in_next_id (ms_inner s)) h')"
    using insert_header_new [OF new] by metis
  obtain i' where i': "s' = s\<lparr>ms_inner := i'\<rparr>"
    and fc: "fork_choice (ms_reorg_height_threshold s) (bump_id (ms_inner s))
          (insert_result_default\<lparr>ir_no_prev := np\<rparr>) (in_next_id (ms_inner s)) h' = Some (i', r)"
    using run unfolding eq by auto
  have "extended (bump_id (ms_inner s)) (in_next_id (ms_inner s)) h' (ms_inner s')"
    using fork_choice_extended [OF bump_id_wf [OF wf room] can_store_linked [OF wf room fresh new l(2)] fc] i'
    by simp
  then show ?thesis using that l fork_choice_result [OF fc] by (simp add: insert_result_default_def)
qed

text \<open>
  Inserting a known hash changes nothing and reports a duplicate. Inserting a new one
  reports it added, and looking its hash up afterwards gives the header with the same block
  fields, whose cumulative work is its parent's plus its own, modulo two to the 256, or its
  own when the parent is not live.\<close>

theorem insert_header_stores:
  assumes "store_wf (ms_inner s)" and "in_next_id (ms_inner s) \<noteq> - 1" and "fresh_header h"
    and "hex_contract C" and "insert_header C s h = Some (s', r)" and "calculate_work (lh_bits h) = Some w"
  shows "(find_live_header_for_block_hash s (lh_hash h) \<noteq> None \<and> s' = s \<and> ir_dupe r \<and> \<not> ir_added r) \<or>
    (find_live_header_for_block_hash s (lh_hash h) = None \<and> ir_added r \<and> \<not> ir_dupe r \<and>
     (\<exists>h'. find_live_header_for_block_hash s' (lh_hash h) = Some h' \<and>
        block_header_from h' = block_header_from h \<and>
        work_value (lh_chain_work h') =
          (case find_live_header_for_block_hash s (lh_previous_hash h) of
             Some p \<Rightarrow> (work_value (lh_chain_work p) + work_value w) mod 2 ^ 256
           | None \<Rightarrow> work_value w)))"
proof (cases "in_hash_to_id (ms_inner s) (lh_hash h) = None")
  case False
  then show ?thesis using assms(5) insert_header_dupe [of s h C] find_by_hash_None [OF assms(1)]
    by (auto simp: insert_result_default_def)
next
  case True
  obtain h' np where l: "link_header C (ms_inner s) w h = (h', np)"
    and ex: "extended (bump_id (ms_inner s)) (in_next_id (ms_inner s)) h' (ms_inner s')"
    and r: "ir_added r" "\<not> ir_dupe r"
    using insert_header_new_cases [OF assms(1-3) True assms(5)] assms(6) by (metis option.inject)
  note f = link_header_facts [OF assms(1,3) l] and wk = link_header_work [OF assms(1) l]
  obtain a t where n: "live (ms_inner s') (in_next_id (ms_inner s)) =
      Some (h'\<lparr>lh_is_active := a, lh_is_chain_tip := t\<rparr>)"
    using extended_lookup [OF ex] by blast
  have "in_hash_to_id (ms_inner s') (lh_hash h) = Some (in_next_id (ms_inner s))"
    using ex f(2) by (simp add: extended_def)
  then have look: "find_live_header_for_block_hash s' (lh_hash h) =
      Some (h'\<lparr>lh_is_active := a, lh_is_chain_tip := t\<rparr>)"
    using n by (simp add: find_by_hash_alt)
  have "block_header_from (h'\<lparr>lh_is_active := a, lh_is_chain_tip := t\<rparr>) = block_header_from h"
    using wk(2) by (simp add: block_header_from_def)
  moreover have "work_value (lh_chain_work (h'\<lparr>lh_is_active := a, lh_is_chain_tip := t\<rparr>)) =
      (case find_live_header_for_block_hash s (lh_previous_hash h) of
         Some p \<Rightarrow> (work_value (lh_chain_work p) + work_value w) mod 2 ^ 256 | None \<Rightarrow> work_value w)"
    using wk(1) add_work_val(1) [OF assms(4)] by (simp add: find_by_hash_alt split: option.splits)
  ultimately show ?thesis using look r True find_by_hash_None [OF assms(1)] by blast
qed

theorem insert_header_stores_witness:
  "\<exists>s r h'. insert_header plain_codec (with_thresholds Main 2000 400) sample_header = Some (s, r) \<and>
     find_live_header_for_block_hash s ''h'' = Some h' \<and> block_header_from h' = block_header_from sample_header"
proof -
  obtain w where w: "calculate_work (lh_bits sample_header) = Some w" using calculate_work_Some by blast
  obtain s r where s: "insert_header plain_codec (with_thresholds Main 2000 400) sample_header = Some (s, r)"
    using sample_inserted by metis
  have e: "find_live_header_for_block_hash (with_thresholds Main 2000 400) ''h'' = None" "lh_hash sample_header = ''h''"
    by (simp_all add: find_live_header_for_block_hash_def with_thresholds_def empty_inner_def sample_header_def)
  have "store_wf (ms_inner (with_thresholds Main 2000 400))" "in_next_id (ms_inner (with_thresholds Main 2000 400)) \<noteq> - 1"
    "fresh_header sample_header"
    using chain_inv_empty [of Main 2000 400] sample_accepted [of Main 2000 400] by (simp_all add: chain_inv_def accepts_def)
  then show ?thesis
    using insert_header_stores [OF _ _ _ hex_contract_plain_codec s w] s e by auto
qed

section \<open>The ingestion interface\<close>

text \<open>
  What a client that inserts one header after the other relies on: an accepted insertion keeps
  the store's invariant, uses up at most one unit of its capacity, makes the header findable
  by hash and loses no header that was.
\<close>

locale header_ingest =
  fixes inv :: "'s \<Rightarrow> bool" and cap :: "'s \<Rightarrow> nat" and ok :: "'h \<Rightarrow> bool"
    and found :: "'s \<Rightarrow> string \<Rightarrow> bool" and hash :: "'h \<Rightarrow> string"
    and ins :: "'s \<Rightarrow> 'h \<Rightarrow> ('s \<times> 'r) option"
  assumes ins_inv: "inv s \<Longrightarrow> 0 < cap s \<Longrightarrow> ok h \<Longrightarrow> ins s h = Some (s', r) \<Longrightarrow> inv s' \<and> cap s \<le> cap s' + 1"
    and ins_found: "inv s \<Longrightarrow> 0 < cap s \<Longrightarrow> ok h \<Longrightarrow> ins s h = Some (s', r) \<Longrightarrow> found s' (hash h)"
    and ins_keeps: "inv s \<Longrightarrow> 0 < cap s \<Longrightarrow> ok h \<Longrightarrow> ins s h = Some (s', r) \<Longrightarrow> found s k \<Longrightarrow> found s' k"
begin

fun ins_all :: "'s \<Rightarrow> 'h list \<Rightarrow> ('s \<times> 'r list) option" where
  "ins_all s [] = Some (s, [])"
| "ins_all s (h # hs) =
     Option.bind (ins s h) (\<lambda>(s1, r). map_option (\<lambda>(s2, rs). (s2, r # rs)) (ins_all s1 hs))"

lemma ins_all_found:
  "inv s \<Longrightarrow> length hs \<le> cap s \<Longrightarrow> \<forall>h \<in> set hs. ok h \<Longrightarrow> ins_all s hs = Some (s', rs) \<Longrightarrow>
     inv s' \<and> length rs = length hs \<and> (\<forall>h \<in> set hs. found s' (hash h)) \<and> (\<forall>k. found s k \<longrightarrow> found s' k)"
proof (induction hs arbitrary: s rs)
  case (Cons h hs)
  obtain s1 r rs' where run: "ins s h = Some (s1, r)" "ins_all s1 hs = Some (s', rs')" "rs = r # rs'"
    using Cons.prems(4) by (auto simp: bind_eq_Some_conv)
  have pre: "inv s" "0 < cap s" "ok h" using Cons.prems by auto
  note step = ins_inv [OF pre run(1)] ins_found [OF pre run(1)] ins_keeps [OF pre run(1)]
  have "length hs \<le> cap s1" using step(1) Cons.prems(2) by simp
  with Cons.IH [OF _ this _ run(2)] step Cons.prems(3) run(3) show ?case by auto
qed simp

end

lemma insert_header_found:
  assumes wf: "store_wf (ms_inner s)" and room: "in_next_id (ms_inner s) \<noteq> - 1" and fresh: "fresh_header h"
    and run: "insert_header C s h = Some (s', r)"
  shows "in_hash_to_id (ms_inner s') = (if in_hash_to_id (ms_inner s) (lh_hash h) = None
      then (in_hash_to_id (ms_inner s))(lh_hash h \<mapsto> in_next_id (ms_inner s)) else in_hash_to_id (ms_inner s))"
    and "in_next_id (ms_inner s') = in_next_id (ms_inner s) \<or> in_next_id (ms_inner s') = in_next_id (ms_inner s) + 1"
proof -
  have "(in_hash_to_id (ms_inner s') = (if in_hash_to_id (ms_inner s) (lh_hash h) = None
      then (in_hash_to_id (ms_inner s))(lh_hash h \<mapsto> in_next_id (ms_inner s)) else in_hash_to_id (ms_inner s))) \<and>
    (in_next_id (ms_inner s') = in_next_id (ms_inner s) \<or> in_next_id (ms_inner s') = in_next_id (ms_inner s) + 1)"
  proof (cases "in_hash_to_id (ms_inner s) (lh_hash h) = None")
    case False
    then show ?thesis using run insert_header_dupe [of s h C] by auto
  next
    case True
    show ?thesis
    proof (rule insert_header_new_cases [OF wf room fresh True run])
      fix w h' np
      assume l: "link_header C (ms_inner s) w h = (h', np)"
        and ex: "extended (bump_id (ms_inner s)) (in_next_id (ms_inner s)) h' (ms_inner s')"
      then show ?thesis using True link_header_facts(2) [OF wf fresh l] by (simp add: extended_def)
    qed
  qed
  then show "in_hash_to_id (ms_inner s') = (if in_hash_to_id (ms_inner s) (lh_hash h) = None
      then (in_hash_to_id (ms_inner s))(lh_hash h \<mapsto> in_next_id (ms_inner s)) else in_hash_to_id (ms_inner s))"
    and "in_next_id (ms_inner s') = in_next_id (ms_inner s) \<or> in_next_id (ms_inner s') = in_next_id (ms_inner s) + 1"
    by blast+
qed

definition id_room :: "memory_storage \<Rightarrow> nat" where
  "id_room s = 2 ^ 64 - 1 - unat (in_next_id (ms_inner s))"

lemma id_room_pos: "0 < id_room s \<Longrightarrow> in_next_id (ms_inner s) \<noteq> - 1"
proof
  assume "0 < id_room s" "in_next_id (ms_inner s) = - 1"
  moreover have "(- 1 :: u64) = 18446744073709551615" by simp
  then have "unat (- 1 :: u64) = 2 ^ 64 - 1" by (simp only: unat_numeral) simp
  ultimately show False by (simp add: id_room_def)
qed

interpretation mem: header_ingest "\<lambda>s. store_wf (ms_inner s)" id_room fresh_header
  "\<lambda>s k. find_live_header_for_block_hash s k \<noteq> None" lh_hash "insert_header C" for C
proof
  fix s s' :: memory_storage and h r k
  assume wf: "store_wf (ms_inner s)" and cap: "0 < id_room s" and fresh: "fresh_header h"
    and run: "insert_header C s h = Some (s', r)"
  note room = id_room_pos [OF cap] and f = insert_header_found [OF wf id_room_pos [OF cap] fresh run]
  have wf': "store_wf (ms_inner s')" by (rule insert_header_wf [OF wf room fresh run])
  have "unat (in_next_id (ms_inner s) + 1) = unat (in_next_id (ms_inner s)) + 1"
    using cap by (subst unat_plus_nowrap) (auto simp: id_room_def)
  then show "store_wf (ms_inner s') \<and> id_room s \<le> id_room s' + 1"
    using wf' f(2) by (auto simp: id_room_def)
  show "find_live_header_for_block_hash s' (lh_hash h) \<noteq> None"
    using f(1) find_by_hash_None [OF wf'] by (auto split: if_splits)
  show "find_live_header_for_block_hash s k \<noteq> None \<Longrightarrow> find_live_header_for_block_hash s' k \<noteq> None"
    using f(1) find_by_hash_None [OF wf'] find_by_hash_None [OF wf] by (auto split: if_splits)
qed

lemma insert_headers_batch_eq: "insert_headers_batch C s hs = mem.ins_all C s hs"
  by (induction hs arbitrary: s) simp_all

text \<open>
  After a batch of new headers is inserted, every header of the batch is found by its hash,
  no header found before is lost, and there is one result per header.\<close>

theorem insert_batch_found:
  assumes "store_wf (ms_inner s)" and "length hs \<le> id_room s" and "\<forall>h \<in> set hs. fresh_header h"
    and "insert_headers_batch C s hs = Some (s', rs)"
  shows "length rs = length hs \<and>
    (\<forall>h \<in> set hs. find_live_header_for_block_hash s' (lh_hash h) \<noteq> None) \<and>
    (\<forall>k. find_live_header_for_block_hash s k \<noteq> None \<longrightarrow> find_live_header_for_block_hash s' k \<noteq> None)"
  using mem.ins_all_found [OF assms(1-3)] assms(4) unfolding insert_headers_batch_eq by blast

theorem insert_batch_found_witness:
  "\<exists>s rs. insert_headers_batch plain_codec (with_thresholds Main 2000 400) [sample_header] = Some (s, rs) \<and>
     find_live_header_for_block_hash s ''h'' \<noteq> None"
proof -
  obtain s r where "insert_header plain_codec (with_thresholds Main 2000 400) sample_header = Some (s, r)"
    using sample_inserted by metis
  then have b: "insert_headers_batch plain_codec (with_thresholds Main 2000 400) [sample_header] = Some (s, [r])"
    by simp
  have "length [sample_header] \<le> id_room (with_thresholds Main 2000 400)"
    by (simp add: id_room_def with_thresholds_def empty_inner_def)
  then show ?thesis
    using insert_batch_found [OF _ _ _ b] b chain_inv_empty [of Main 2000 400] sample_accepted [of Main 2000 400]
    by (auto simp: chain_inv_def accepts_def sample_header_def)
qed

end
