(* ===== verification/HeaderArchive.thy ===== *)
theory HeaderArchive
  imports ChainSelect
begin

text \<open>
  Pruning, migration to the archive, deletion and the range queries of the in-memory header
  store (\<open>src/chaintracks/storage/memory.rs\<close>): what they keep and what they lose.
\<close>

section \<open>Removing live headers\<close>

lemma ids_where_set:
  "store_wf i \<Longrightarrow> set (ids_where P i) = {x. \<exists>h. live i x = Some h \<and> P h}"
  unfolding ids_where_def store_wf_def headers_wf_def live_def by force

lemma remove_headers_height:
  "distinct ids \<Longrightarrow> in_height_to_id (fold remove_header ids i) ht =
     (if \<exists>c \<in> set ids. \<exists>h. live i c = Some h \<and> lh_height h = ht then None else in_height_to_id i ht)"
proof (induction ids arbitrary: i)
  case (Cons c ids)
  let ?j = "remove_header c i"
  have other: "x \<in> set ids \<Longrightarrow> live ?j x = live i x" for x using Cons.prems by auto
  have IH: "in_height_to_id (fold remove_header ids ?j) ht =
      (if \<exists>c \<in> set ids. \<exists>h. live i c = Some h \<and> lh_height h = ht then None else in_height_to_id ?j ht)"
    using Cons.IH [of ?j] Cons.prems other by (simp del: remove_header_live cong: bex_cong)
  show ?case
  proof (cases "live i c")
    case None
    then have "?j = i" by (simp add: remove_header_def live_def)
    then show ?thesis using IH None by auto
  next
    case (Some h)
    then show ?thesis using IH by (auto simp: remove_header_frame(2) [OF Some])
  qed
qed simp

lemma remove_headers_same [simp]:
  "in_bulk (fold remove_header ids i) = in_bulk i" "in_tip_id (fold remove_header ids i) = in_tip_id i"
  by (induction ids arbitrary: i) simp_all

lemma ids_where_distinct: "store_wf i \<Longrightarrow> distinct (ids_where P i)"
  unfolding ids_where_def store_wf_def headers_wf_def by (simp add: distinct_map_filter)

section \<open>The archive\<close>

lemma map_of_btree_insert: "map_of (btree_insert k v xs) = (map_of xs)(k \<mapsto> v)"
  by (induction k v xs rule: btree_insert.induct) (auto simp: fun_eq_iff)

lemma btree_insert_set: "set (map fst (btree_insert k v xs)) = insert k (set (map fst xs))"
  by (induction k v xs rule: btree_insert.induct) auto

lemma btree_insert_sorted:
  "sorted_wrt (<) (map fst xs) \<Longrightarrow> sorted_wrt (<) (map fst (btree_insert k v xs))"
proof (induction k v xs rule: btree_insert.induct)
  case (2 k v k' v' xs)
  then show ?case using btree_insert_set [of k v xs] by (auto simp: image_iff)
qed simp

lemma btree_insert_content:
  "p \<in> set (btree_insert k v xs) \<Longrightarrow> p = (k, v) \<or> p \<in> set xs"
  by (induction k v xs rule: btree_insert.induct) (auto split: if_splits)

definition archive_all :: "live_block_header list \<Rightarrow> (u32 \<times> block_header) list \<Rightarrow> (u32 \<times> block_header) list" where
  "archive_all hs b = fold (\<lambda>h. btree_insert (lh_height h) (block_header_from h)) hs b"

lemma archive_all_wf:
  "sorted_wrt (<) (map fst b) \<and> (\<forall>(k, v) \<in> set b. bh_height v = k) \<Longrightarrow>
   sorted_wrt (<) (map fst (archive_all hs b)) \<and> (\<forall>(k, v) \<in> set (archive_all hs b). bh_height v = k)"
  unfolding archive_all_def
proof (induction hs arbitrary: b)
  case (Cons h hs)
  have "sorted_wrt (<) (map fst (btree_insert (lh_height h) (block_header_from h) b))"
    by (rule btree_insert_sorted [OF conjunct1 [OF Cons.prems]])
  moreover have "\<forall>(k, v) \<in> set (btree_insert (lh_height h) (block_header_from h) b). bh_height v = k"
  proof (rule ballI)
    fix p assume "p \<in> set (btree_insert (lh_height h) (block_header_from h) b)"
    then have "p = (lh_height h, block_header_from h) \<or> p \<in> set b" by (rule btree_insert_content)
    then show "case p of (k, v) \<Rightarrow> bh_height v = k" using Cons.prems by (auto simp: block_header_from_def)
  qed
  ultimately show ?case unfolding fold_simps by (intro Cons.IH conjI)
qed simp

lemma archive_all_other:
  "(\<forall>h \<in> set hs. lh_height h \<noteq> ht) \<Longrightarrow> map_of (archive_all hs b) ht = map_of b ht"
  unfolding archive_all_def by (induction hs arbitrary: b) (auto simp: map_of_btree_insert)

lemma archive_all_found:
  "h \<in> set hs \<Longrightarrow> (\<And>h'. h' \<in> set hs \<Longrightarrow> lh_height h' = lh_height h \<Longrightarrow> h' = h) \<Longrightarrow>
     map_of (archive_all hs b) (lh_height h) = Some (block_header_from h)"
proof (induction hs arbitrary: b)
  case (Cons g hs)
  show ?case
  proof (cases "h \<in> set hs")
    case True
    then show ?thesis using Cons.IH [OF True] Cons.prems(2) by (simp add: archive_all_def)
  next
    case False
    then have g: "g = h" using Cons.prems(1) by simp
    have "\<forall>h' \<in> set hs. lh_height h' \<noteq> lh_height h" using Cons.prems(2) False by auto
    then have "map_of (archive_all hs (btree_insert (lh_height h) (block_header_from h) b)) (lh_height h) =
        map_of (btree_insert (lh_height h) (block_header_from h) b) (lh_height h)"
      by (rule archive_all_other)
    then show ?thesis by (simp add: g archive_all_def map_of_btree_insert)
  qed
qed simp

lemma take_sort_below:
  assumes "x \<in> set xs" "x \<notin> set (take n (sort_key f xs))" "y \<in> set (take n (sort_key f xs))"
  shows "f y \<le> (f x :: 'b::linorder)"
proof -
  let ?s = "sort_key f xs"
  have "x \<in> set (take n ?s @ drop n ?s)" using assms(1) by (simp only: append_take_drop_id set_sort)
  then have "x \<in> set (drop n ?s)" using assms(2) unfolding set_append by blast
  moreover have "sorted (map f (take n ?s @ drop n ?s))" by (simp only: append_take_drop_id) (rule sorted_sort_key)
  then have "\<forall>a \<in> set (take n ?s). \<forall>b \<in> set (drop n ?s). f a \<le> f b"
    by (simp only: map_append sorted_append) auto
  ultimately show ?thesis using assms(3) by blast
qed

section \<open>Migration\<close>

lemma migrate_unfold:
  assumes "migration_candidates (ms_inner s) (unat cnt) = cs" "cs \<noteq> []" "cnt \<noteq> 0"
  defines "m \<equiv> Max (set (map lh_height cs))"
  defines "i1 \<equiv> (ms_inner s)\<lparr>in_bulk := archive_all cs (in_bulk (ms_inner s))\<rparr>"
  shows "migrate_live_to_bulk s cnt =
    (s\<lparr>ms_inner := fold remove_header (ids_where (\<lambda>h. lh_height h \<le> m) i1) i1\<rparr>, of_nat (length cs))"
  using assms by (simp add: migrate_live_to_bulk_def Let_def archive_all_def)

lemma archived_wf:
  assumes "store_wf i"
  shows "store_wf (i\<lparr>in_bulk := archive_all cs (in_bulk i)\<rparr>)"
proof -
  have "live (i\<lparr>in_bulk := b\<rparr>) = live i" for b by (simp add: live_def)
  then show ?thesis using assms archive_all_wf [of "in_bulk i" cs]
    by (simp add: wf_defs)
qed

lemma migrate_wf:
  assumes "store_wf (ms_inner s)"
  shows "store_wf (ms_inner (fst (migrate_live_to_bulk s cnt)))"
proof (cases "cnt = 0 \<or> migration_candidates (ms_inner s) (unat cnt) = []")
  case True
  then show ?thesis using assms by (auto simp: migrate_live_to_bulk_def Let_def)
next
  case False
  then show ?thesis
    using migrate_unfold [OF refl, of s cnt] remove_headers_wf [OF archived_wf [OF assms]] by simp
qed

lemma candidates_active:
  assumes "store_wf i" "h \<in> set (migration_candidates i n)"
  obtains x where "live i x = Some h" "lh_is_active h" "in_tip_id i \<noteq> Some x"
proof -
  have h: "h \<in> set (header_values i)" "lh_is_active h"
    "Some (case lh_header_id h of Some hid \<Rightarrow> hid | None \<Rightarrow> 0) \<noteq> in_tip_id i"
    using assms(2) unfolding migration_candidates_def by (auto dest!: in_set_takeD)
  obtain x where x: "live i x = Some h" using h(1) header_values_live [OF assms(1)] by blast
  then have "lh_header_id h = Some x" using assms(1) unfolding store_wf_def headers_wf_def by blast
  then show ?thesis using that x h by auto
qed

lemma tip_above_active:
  assumes inv: "chain_inv s" and t: "in_tip_id (ms_inner s) = Some t" "live (ms_inner s) t = Some tip"
    and x: "live (ms_inner s) x = Some h" "lh_is_active h" "x \<noteq> t"
  shows "lh_height h < lh_height tip"
proof -
  have ok: "chain_ok (ms_inner s)" "heights_ok (ms_inner s)" using inv by (auto simp: chain_inv_def)
  then have "linked (live (ms_inner s)) t x" using chain_ok_SomeD(2) [OF ok(1) t(1) x(1)] x(2) by simp
  then show ?thesis using linked_height [OF heights_ok_drop [OF ok(2)] _ t(2) x(1)] x(3) by blast
qed

lemma active_unique:
  assumes inv: "chain_inv s" and x: "live (ms_inner s) x = Some h" "lh_is_active h"
    and y: "live (ms_inner s) y = Some h'" "lh_is_active h'" and eq: "lh_height h = lh_height h'"
  shows "x = y"
proof -
  have ok: "chain_ok (ms_inner s)" using inv by (auto simp: chain_inv_def)
  then obtain t where t: "in_tip_id (ms_inner s) = Some t"
    using x by (cases "in_tip_id (ms_inner s)") (auto simp: chain_ok_def)
  show ?thesis using chain_ok_SomeD(3) [OF ok t x] chain_ok_SomeD(3) [OF ok t y] eq by simp
qed

lemma migrated_below:
  assumes inv: "chain_inv s" and cs: "migration_candidates (ms_inner s) n = cs" "cs \<noteq> []"
    and x: "live (ms_inner s) x = Some h" "lh_is_active h" "lh_height h \<le> Max (set (map lh_height cs))"
  shows "h \<in> set cs"
proof -
  have wf: "store_wf (ms_inner s)" using inv by (simp add: chain_inv_def)
  let ?f = "filter (\<lambda>h. lh_is_active h \<and>
      Some (case lh_header_id h of Some hid \<Rightarrow> hid | None \<Rightarrow> 0) \<noteq> in_tip_id (ms_inner s)) (header_values (ms_inner s))"
  have cs_eq: "cs = take n (sort_key lh_height ?f)" using cs(1) by (simp add: migration_candidates_def)
  have "Max (set (map lh_height cs)) \<in> lh_height ` set cs" using cs(2) Max_in [of "set (map lh_height cs)"] by simp
  then obtain g where g: "g \<in> set cs" "Max (set (map lh_height cs)) = lh_height g" by auto
  obtain y where y: "live (ms_inner s) y = Some g" "lh_is_active g" "in_tip_id (ms_inner s) \<noteq> Some y"
    using candidates_active [OF wf] g(1) cs(1) by blast
  have le: "lh_height h \<le> lh_height g" using x(3) g(2) by simp
  have "in_tip_id (ms_inner s) \<noteq> Some x"
    using tip_above_active [OF inv _ x(1) y(1,2)] y(3) le by auto
  moreover have "lh_header_id h = Some x" using wf x(1) unfolding store_wf_def headers_wf_def by blast
  ultimately have "h \<in> set ?f" using x header_values_live [OF wf] by auto
  show ?thesis
  proof (rule ccontr)
    assume "h \<notin> set cs"
    then have "lh_height g \<le> lh_height h" using take_sort_below [OF \<open>h \<in> set ?f\<close>] g(1) cs_eq by blast
    then have "x = y" using active_unique [OF inv x(1,2) y(1,2)] le by simp
    then show False using \<open>h \<notin> set cs\<close> g(1) x(1) y(1) by simp
  qed
qed

lemma migrate_noop:
  "cnt = 0 \<or> migration_candidates (ms_inner s) (unat cnt) = [] \<Longrightarrow> migrate_live_to_bulk s cnt = (s, 0)"
  by (cases "cnt = 0") (simp_all add: migrate_live_to_bulk_def Let_def)

lemma migrate_effect:
  assumes wf: "store_wf (ms_inner s)" and cs: "migration_candidates (ms_inner s) (unat cnt) = cs" "cs \<noteq> []"
    and run: "cnt \<noteq> 0" "migrate_live_to_bulk s cnt = (s', n)"
  defines "m \<equiv> Max (set (map lh_height cs))"
  shows "in_height_to_id (ms_inner s') ht =
      (if ht \<le> m \<and> (\<exists>c h. live (ms_inner s) c = Some h \<and> lh_height h = ht) then None
       else in_height_to_id (ms_inner s) ht)"
    and "in_bulk (ms_inner s') = archive_all cs (in_bulk (ms_inner s))"
    and "live (ms_inner s) x = Some h \<Longrightarrow>
      live (ms_inner s') x = (if lh_height h \<le> m then None else Some h)"
proof -
  define i1 where "i1 = (ms_inner s)\<lparr>in_bulk := archive_all cs (in_bulk (ms_inner s))\<rparr>"
  define ids where "ids = ids_where (\<lambda>h. lh_height h \<le> m) i1"
  have wf1: "store_wf i1" unfolding i1_def by (rule archived_wf [OF wf])
  have s': "s' = s\<lparr>ms_inner := fold remove_header ids i1\<rparr>"
    using migrate_unfold [OF cs run(1)] run(2) by (simp add: i1_def ids_def m_def)
  have live1: "live i1 = live (ms_inner s)" by (simp add: i1_def live_def)
  have ids: "set ids = {x. \<exists>h. live (ms_inner s) x = Some h \<and> lh_height h \<le> m}"
    using ids_where_set [OF wf1] by (simp add: ids_def live1)
  have "distinct ids" unfolding ids_def by (rule ids_where_distinct [OF wf1])
  from remove_headers_height [OF this, of i1 ht]
  show "in_height_to_id (ms_inner s') ht =
      (if ht \<le> m \<and> (\<exists>c h. live (ms_inner s) c = Some h \<and> lh_height h = ht) then None
       else in_height_to_id (ms_inner s) ht)"
    by (auto simp: s' ids live1) (auto simp: i1_def)
  show "in_bulk (ms_inner s') = archive_all cs (in_bulk (ms_inner s))" by (simp add: s' i1_def)
  show "live (ms_inner s) x = Some h \<Longrightarrow>
      live (ms_inner s') x = (if lh_height h \<le> m then None else Some h)"
    using ids by (simp add: s' remove_headers_live live1)
qed

lemma active_indexed:
  assumes "chain_inv s" "live (ms_inner s) x = Some h" "lh_is_active h"
  shows "in_height_to_id (ms_inner s) (lh_height h) = Some x"
proof -
  have ok: "chain_ok (ms_inner s)" using assms(1) by (simp add: chain_inv_def)
  then obtain t where "in_tip_id (ms_inner s) = Some t"
    using assms(2) by (cases "in_tip_id (ms_inner s)") (auto simp: chain_ok_def)
  then show ?thesis using chain_ok_SomeD(3) [OF ok _ assms(2,3)] by blast
qed

text \<open>
  Migrating live headers to the archive changes no lookup by height: in a store whose
  active headers are the best chain, the header found for every height is the same before
  and after, whether it was migrated, stayed live or was archived earlier.\<close>

theorem migrate_keeps_heights:
  assumes "chain_inv s" and "migrate_live_to_bulk s cnt = (s', n)"
  shows "find_header_for_height s' ht = find_header_for_height s ht"
proof (cases "cnt = 0 \<or> migration_candidates (ms_inner s) (unat cnt) = []")
  case True
  then show ?thesis using assms(2) migrate_noop [of cnt s] by simp
next
  case False
  define cs where "cs = migration_candidates (ms_inner s) (unat cnt)"
  have ne: "cs \<noteq> []" "cnt \<noteq> 0" using False by (simp_all add: cs_def)
  have wf: "store_wf (ms_inner s)" using assms(1) by (simp add: chain_inv_def)
  note eff = migrate_effect [OF wf cs_def [symmetric] ne assms(2)]
  have iw: "index_ok lh_height (in_height_to_id (ms_inner s)) (live (ms_inner s))"
    using wf by (simp add: store_wf_def index_wf_def)
  show ?thesis
  proof (cases "in_height_to_id (ms_inner s) ht")
    case (Some x)
    obtain h where h: "live (ms_inner s) x = Some h" "lh_height h = ht" "lh_is_active h"
      using index_okD [OF iw Some] .
    show ?thesis
    proof (cases "ht \<le> Max (set (map lh_height cs))")
      case True
      then have hc: "h \<in> set cs"
        using migrated_below [OF assms(1) cs_def [symmetric] ne(1) h(1,3)] h(2) by simp
      have "g = h" if g: "g \<in> set cs" "lh_height g = lh_height h" for g
        using candidates_active [OF wf] g active_unique [OF assms(1) h(1,3)] h(1) unfolding cs_def
        by (metis option.inject)
      then have "map_of (in_bulk (ms_inner s')) ht = Some (block_header_from h)"
        using archive_all_found [OF hc] h(2) eff(2) by metis
      moreover have "in_height_to_id (ms_inner s') ht = None" using True h eff(1) by auto
      ultimately show ?thesis using h Some by (simp add: find_header_for_height_def live_def)
    next
      case above: False
      then have "live (ms_inner s') x = Some h" using eff(3) [OF h(1)] h(2) by simp
      then show ?thesis using above Some eff(1) h by (simp add: find_header_for_height_def live_def)
    qed
  next
    case None
    have "lh_height g \<noteq> ht" if g: "g \<in> set cs" for g
      using candidates_active [OF wf] g active_indexed [OF assms(1)] None unfolding cs_def
      by (metis option.distinct(1))
    then have "map_of (in_bulk (ms_inner s')) ht = map_of (in_bulk (ms_inner s)) ht"
      unfolding eff(2) by (intro archive_all_other) blast
    then show ?thesis using None eff(1) by (simp add: find_header_for_height_def)
  qed
qed

theorem migrate_keeps_heights_witness:
  "find_header_for_height (fst (migrate_live_to_bulk (with_thresholds Main 2000 400) 5)) 7 =
     find_header_for_height (with_thresholds Main 2000 400) 7"
  using migrate_keeps_heights [OF chain_inv_empty, of Main 2000 400 5] by (metis prod.collapse)

section \<open>Pruning and deletion\<close>

lemma prune_wf: "store_wf (ms_inner s) \<Longrightarrow> store_wf (ms_inner (fst (prune_live_block_headers s ht)))"
  by (simp add: prune_live_block_headers_def Let_def remove_headers_wf)

lemma delete_older_wf:
  "store_wf (ms_inner s) \<Longrightarrow> store_wf (ms_inner (fst (delete_older_live_block_headers s ht)))"
  by (simp add: delete_older_live_block_headers_def Let_def remove_headers_wf split: option.splits)

lemma drop_all_wf: "store_wf (ms_inner (drop_all_data s))"
  by (simp add: drop_all_data_def wf_defs hash_ok_def index_ok_def live_def)

text \<open>
  Pruning, migration, deletion of old headers and dropping all data keep the store well
  formed, whatever heights and counts they are called with.\<close>

theorem maintenance_keeps_wf:
  assumes "store_wf (ms_inner s)"
  shows "store_wf (ms_inner (fst (prune_live_block_headers s ht))) \<and>
    store_wf (ms_inner (fst (migrate_live_to_bulk s cnt))) \<and>
    store_wf (ms_inner (fst (delete_older_live_block_headers s ht))) \<and>
    store_wf (ms_inner (drop_all_data s))"
  using prune_wf [OF assms] migrate_wf [OF assms] delete_older_wf [OF assms] drop_all_wf by blast

theorem maintenance_keeps_wf_witness:
  "store_wf (ms_inner (fst (prune_live_block_headers (with_thresholds Main 2000 400) 9000)))"
  using maintenance_keeps_wf [of "with_thresholds Main 2000 400" 9000] chain_inv_empty [of Main 2000 400]
  by (simp add: chain_inv_def)

text \<open>
  C34: Pruning a fork header also removes the height entry of the active header at that height:
  the active header stays live, but is no longer found by height unless it was archived.\<close>

theorem prune_hides_active_header:
  assumes "store_wf (ms_inner s)"
    and "live (ms_inner s) f = Some hf" and "\<not> lh_is_active hf"
    and "lh_height hf < saturating_sub tip_height (ms_live_height_threshold s)"
    and "live (ms_inner s) a = Some ha" and "lh_is_active ha" and "lh_height ha = lh_height hf"
  shows "live (ms_inner (fst (prune_live_block_headers s tip_height))) a = Some ha \<and>
    find_header_for_height (fst (prune_live_block_headers s tip_height)) (lh_height ha) =
      map_of (in_bulk (ms_inner s)) (lh_height ha)"
proof -
  let ?P = "\<lambda>h. \<not> lh_is_active h \<and> lh_height h < saturating_sub tip_height (ms_live_height_threshold s)"
  let ?ids = "ids_where ?P (ms_inner s)"
  have ids: "f \<in> set ?ids" "a \<notin> set ?ids"
    using ids_where_set [OF assms(1), of ?P] assms(2-6) by auto
  have "in_height_to_id (fold remove_header ?ids (ms_inner s)) (lh_height ha) = None"
    using remove_headers_height [OF ids_where_distinct [OF assms(1)], of ?P "ms_inner s" "lh_height ha"]
      ids(1) assms(2,7) by auto
  then show ?thesis
    using ids(2) assms(5)
    by (simp add: prune_live_block_headers_def Let_def remove_headers_live find_header_for_height_def)
qed

definition fork_store :: memory_storage where
  "fork_store =
     (let a = sample_header\<lparr>lh_is_active := True, lh_header_id := Some 1\<rparr>;
          f = sample_header\<lparr>lh_hash := ''f'', lh_header_id := Some 2\<rparr>
      in (with_thresholds Main 100 400)\<lparr>ms_inner := empty_inner\<lparr>in_headers := [(1, a), (2, f)],
           in_hash_to_id := [''h'' \<mapsto> 1, ''f'' \<mapsto> 2], in_height_to_id := [7 \<mapsto> 1],
           in_merkle_to_id := [''m'' \<mapsto> 1], in_next_id := 3, in_tip_id := Some 1\<rparr>\<rparr>)"

lemma fork_store_live:
  "live (ms_inner fork_store) = [1 \<mapsto> sample_header\<lparr>lh_is_active := True, lh_header_id := Some 1\<rparr>,
     2 \<mapsto> sample_header\<lparr>lh_hash := ''f'', lh_header_id := Some 2\<rparr>]"
  by (auto simp: fork_store_def live_def Let_def)

lemma fork_store_wf: "store_wf (ms_inner fork_store)"
proof -
  note L = fork_store_live
  have "headers_wf (ms_inner fork_store)"
    unfolding headers_wf_def L by (simp add: fork_store_def Let_def sample_header_def)
  moreover have "hash_wf (ms_inner fork_store)"
    unfolding hash_wf_def hash_ok_def L by (auto simp: fork_store_def Let_def sample_header_def split: if_splits)
  moreover have "index_wf (ms_inner fork_store)"
    unfolding index_wf_def index_ok_def L by (auto simp: fork_store_def Let_def sample_header_def split: if_splits)
  moreover have "bulk_wf (ms_inner fork_store)" by (simp add: fork_store_def bulk_wf_def Let_def empty_inner_def)
  ultimately show ?thesis by (simp add: store_wf_def)
qed

theorem prune_hides_active_header_witness:
  "(\<exists>h. find_header_for_height fork_store 7 = Some h) \<and>
   find_header_for_height (fst (prune_live_block_headers fork_store 500)) 7 = None"
proof
  show "\<exists>h. find_header_for_height fork_store 7 = Some h"
    by (simp add: fork_store_def Let_def find_header_for_height_def)
  let ?f = "sample_header\<lparr>lh_hash := ''f'', lh_header_id := Some 2\<rparr>"
  let ?a = "sample_header\<lparr>lh_is_active := True, lh_header_id := Some 1\<rparr>"
  have "lh_height ?f < saturating_sub 500 (ms_live_height_threshold fork_store)"
    by (simp add: sample_header_def fork_store_def Let_def with_thresholds_def saturating_sub_def)
  moreover have "\<not> lh_is_active ?f" "lh_is_active ?a" "lh_height ?a = lh_height ?f" "lh_height ?a = 7"
    by (simp_all add: sample_header_def)
  moreover have "live (ms_inner fork_store) 2 = Some ?f" "live (ms_inner fork_store) 1 = Some ?a"
    by (simp_all add: fork_store_live)
  moreover have "in_bulk (ms_inner fork_store) = []" by (simp add: fork_store_def Let_def empty_inner_def)
  ultimately show "find_header_for_height (fst (prune_live_block_headers fork_store 500)) 7 = None"
    using prune_hides_active_header [OF fork_store_wf, of 2 ?f 500 1 ?a] by simp
qed

section \<open>Height ranges\<close>

text \<open>The ranges built so far cover the heights read so far and are separated by gaps.\<close>

definition ranges_ok :: "u32 list \<Rightarrow> height_range list \<Rightarrow> bool" where
  "ranges_ok hs rs \<longleftrightarrow> (\<Union>r \<in> set rs. range_set r) = set hs \<and> (\<forall>r \<in> set rs. range_wf r) \<and>
     sorted_wrt (\<lambda>r r'. unat (hr_high r) + 1 < unat (hr_low r')) rs \<and>
     (rs \<noteq> [] \<longrightarrow> hs \<noteq> [] \<and> hr_high (last rs) = last hs) \<and> (rs = [] \<longrightarrow> hs = [])"

lemma extend_ranges_ok:
  assumes ok: "ranges_ok hs rs" and asc: "\<And>g. g \<in> set hs \<Longrightarrow> g < h"
  shows "ranges_ok (hs @ [h]) (extend_ranges h rs)"
proof (cases "rs = []")
  case True
  then show ?thesis using ok
    by (simp add: ranges_ok_def extend_ranges_def range_set_def range_contains_def range_new_def range_wf_def)
      (auto simp: order.antisym)
next
  case False
  obtain qs l where rs: "rs = qs @ [l]" using False by (metis rev_exhaust)
  have l: "hr_high l = last hs" "hs \<noteq> []" "range_wf l" using ok rs by (auto simp: ranges_ok_def)
  then have lt: "hr_high l < h" using asc by auto
  show ?thesis
  proof (cases "h = hr_high l + 1")
    case True
    have "range_set (l\<lparr>hr_high := h\<rparr>) = insert h (range_set l)"
      using lt l(3) True
      by (auto simp: range_set_def range_contains_def range_wf_def le_less dest: less_inc_imp_less_eq)
    then show ?thesis using ok rs True lt l
      by (auto simp: ranges_ok_def extend_ranges_def sorted_wrt_append range_wf_def)
  next
    case gap: False
    have "unat (hr_high l) + 1 < unat h"
    proof -
      have "hr_high l \<noteq> - 1" using lt by auto
      then have "unat (hr_high l + 1) = unat (hr_high l) + 1"
        by (metis Suc_eq_plus1 unatSuc word_unat_eq_iff add.commute neg_eq_iff_add_eq_0 unat_0)
      moreover have "hr_high l + 1 \<le> h" using lt by (rule inc_le)
      ultimately show ?thesis using gap by (simp add: word_le_nat_alt le_less word_unat_eq_iff)
    qed
    moreover have "range_set (range_new h h) = {h}"
      by (auto simp: range_set_def range_contains_def range_new_def)
    moreover have "unat (hr_high r) + 1 < unat h" if "r \<in> set qs" for r
    proof -
      have "unat (hr_high r) + 1 < unat (hr_low l)" using that ok rs by (simp add: ranges_ok_def sorted_wrt_append)
      moreover have "unat (hr_low l) \<le> unat (hr_high l)" using l(3) by (simp add: range_wf_def word_le_nat_alt)
      ultimately show ?thesis using lt by (simp add: word_less_nat_alt)
    qed
    ultimately show ?thesis using ok rs gap l
      by (simp add: ranges_ok_def extend_ranges_def sorted_wrt_append range_wf_def)
        (simp add: range_new_def)
  qed
qed

lemma contiguous_ranges_ok: "sorted_wrt (<) hs \<Longrightarrow> ranges_ok hs (contiguous_ranges hs)"
proof (induction hs rule: rev_induct)
  case Nil
  then show ?case by (simp add: contiguous_ranges_def ranges_ok_def)
next
  case (snoc h hs)
  then show ?case using extend_ranges_ok [of hs "contiguous_ranges hs" h]
    by (simp add: contiguous_ranges_def sorted_wrt_append)
qed

text \<open>
  The available height ranges of a well-formed store are disjoint, ascending, separated by
  at least one missing height, and together list exactly the archived heights.\<close>

theorem available_ranges_exact:
  assumes "store_wf (ms_inner s)"
  shows "(\<Union>r \<in> set (get_available_height_ranges s). {h. range_contains r h}) =
      {h. map_of (in_bulk (ms_inner s)) h \<noteq> None} \<and>
    sorted_wrt (\<lambda>r r'. unat (hr_high r) + 1 < unat (hr_low r')) (get_available_height_ranges s)"
proof -
  have "sorted_wrt (<) (map fst (in_bulk (ms_inner s)))" using assms by (simp add: store_wf_def bulk_wf_def)
  then have "ranges_ok (map fst (in_bulk (ms_inner s))) (get_available_height_ranges s)"
    unfolding get_available_height_ranges_def by (rule contiguous_ranges_ok)
  moreover have "set (map fst (in_bulk (ms_inner s))) = {h. map_of (in_bulk (ms_inner s)) h \<noteq> None}"
    by (auto simp: map_of_eq_None_iff)
  ultimately show ?thesis by (simp add: ranges_ok_def range_set_def)
qed

theorem available_ranges_exact_witness:
  "(\<Union>r \<in> set (get_available_height_ranges fork_store). {h. range_contains r h}) =
     {h. map_of (in_bulk (ms_inner fork_store)) h \<noteq> None}"
  using available_ranges_exact [OF fork_store_wf] by blast

end
