(* ===== verification/WalletErrors.thy ===== *)
theory WalletErrors
  imports Prelude
begin

text \<open>
  The wire form of errors (\<open>src/error.rs\<close>): the code and the displayed text of every
  \<open>WalletError\<close> variant, the JSON object a storage server answers with and the variant a
  remote client rebuilds from it. The lemmas say what survives the trip (the code and every typed
  payload) and what does not (the text, which gains its prefix again on every hop).
\<close>

section \<open>Codes and text\<close>

fun error_code :: "wallet_error \<Rightarrow> string" where
  "error_code (Internal _) = ''WERR_INTERNAL''"
| "error_code (Sqlx _) = ''WERR_INTERNAL''"
| "error_code (Io _) = ''WERR_INTERNAL''"
| "error_code (SerdeJson _) = ''WERR_INTERNAL''"
| "error_code (InvalidParameter _ _) = ''WERR_INVALID_PARAMETER''"
| "error_code (NotImplemented _) = ''WERR_NOT_IMPLEMENTED''"
| "error_code (BadRequest _) = ''WERR_BAD_REQUEST''"
| "error_code (Unauthorized _) = ''WERR_UNAUTHORIZED''"
| "error_code (NotActive _) = ''WERR_NOT_ACTIVE''"
| "error_code (InvalidOperation _) = ''WERR_INVALID_OPERATION''"
| "error_code (MissingParameter _) = ''WERR_MISSING_PARAMETER''"
| "error_code (InsufficientFunds _ _ _) = ''WERR_INSUFFICIENT_FUNDS''"
| "error_code BroadcastUnavailable = ''WERR_BROADCAST_UNAVAILABLE''"
| "error_code (NetworkChain _) = ''WERR_NETWORK_CHAIN''"
| "error_code (InvalidPublicKey _ _) = ''WERR_INVALID_PUBLIC_KEY''"
| "error_code (ReviewActions _ _ _ _ _ _) = ''WERR_REVIEW_ACTIONS''"
| "error_code (InvalidMerkleRoot _ _ _ _ _) = ''WERR_INVALID_MERKLE_ROOT''"

text \<open>The \<open>Display\<close> text of the \<open>#[error(..)]\<close> attributes.\<close>

fun error_display :: "wallet_error \<Rightarrow> string" where
  "error_display (Internal m) = ''WERR_INTERNAL: '' @ m"
| "error_display (InvalidParameter p b) =
     ''WERR_INVALID_PARAMETER: The '' @ p @ '' parameter must be '' @ b"
| "error_display (NotImplemented m) = ''WERR_NOT_IMPLEMENTED: '' @ m"
| "error_display (BadRequest m) = ''WERR_BAD_REQUEST: '' @ m"
| "error_display (Unauthorized m) = ''WERR_UNAUTHORIZED: '' @ m"
| "error_display (NotActive m) = ''WERR_NOT_ACTIVE: '' @ m"
| "error_display (InvalidOperation m) = ''WERR_INVALID_OPERATION: '' @ m"
| "error_display (MissingParameter p) =
     ''WERR_MISSING_PARAMETER: The required '' @ p @ '' parameter is missing.''"
| "error_display (InsufficientFunds m _ _) = ''WERR_INSUFFICIENT_FUNDS: '' @ m"
| "error_display BroadcastUnavailable =
     ''WERR_BROADCAST_UNAVAILABLE: Unable to broadcast transaction at this time.''"
| "error_display (NetworkChain m) = ''WERR_NETWORK_CHAIN: '' @ m"
| "error_display (InvalidPublicKey m _) = ''WERR_INVALID_PUBLIC_KEY: '' @ m"
| "error_display (ReviewActions m _ _ _ _ _) = ''WERR_REVIEW_ACTIONS: '' @ m"
| "error_display (InvalidMerkleRoot m _ _ _ _) = ''WERR_INVALID_MERKLE_ROOT: '' @ m"
| "error_display (Sqlx m) = ''WERR_INTERNAL: '' @ m"
| "error_display (Io m) = ''WERR_INTERNAL: '' @ m"
| "error_display (SerdeJson m) = ''WERR_INTERNAL: '' @ m"

section \<open>The wire object\<close>

record wallet_error_object =
  eo_is_error :: bool
  eo_name :: string
  eo_message :: string
  eo_code :: "u8 option"
  eo_parameter :: "string option"
  eo_total_satoshis_needed :: "int option"
  eo_more_satoshis_needed :: "int option"
  eo_review_action_results :: "string list option"
  eo_send_with_results :: "string list option"
  eo_txid :: "string option"
  eo_tx :: "u8 list option"
  eo_no_send_change :: "string list option"
  eo_block_hash :: "string option"
  eo_block_height :: "u32 option"
  eo_merkle_root :: "string option"
  eo_key :: "string option"

definition to_wallet_error_object :: "wallet_error \<Rightarrow> wallet_error_object" where
  "to_wallet_error_object e =
     (let obj = \<lparr>eo_is_error = True, eo_name = error_code e, eo_message = error_display e,
                 eo_code = None, eo_parameter = None, eo_total_satoshis_needed = None,
                 eo_more_satoshis_needed = None, eo_review_action_results = None,
                 eo_send_with_results = None, eo_txid = None, eo_tx = None,
                 eo_no_send_change = None, eo_block_hash = None, eo_block_height = None,
                 eo_merkle_root = None, eo_key = None\<rparr>
      in case e of
           InvalidParameter parameter _ \<Rightarrow> obj\<lparr>eo_parameter := Some parameter\<rparr>
         | MissingParameter p \<Rightarrow> obj\<lparr>eo_parameter := Some p\<rparr>
         | InsufficientFunds _ needed needed_more \<Rightarrow>
             obj\<lparr>eo_total_satoshis_needed := Some needed,
                 eo_more_satoshis_needed := Some needed_more\<rparr>
         | InvalidPublicKey _ key \<Rightarrow> obj\<lparr>eo_key := Some key\<rparr>
         | ReviewActions _ reviews sends txid tx nsc \<Rightarrow>
             obj\<lparr>eo_code := Some 5, eo_review_action_results := Some reviews,
                 eo_send_with_results := Some sends, eo_txid := txid, eo_tx := tx,
                 eo_no_send_change := Some nsc\<rparr>
         | InvalidMerkleRoot _ block_hash block_height merkle_root txid \<Rightarrow>
             obj\<lparr>eo_code := Some 8, eo_block_hash := Some block_hash,
                 eo_block_height := Some block_height, eo_merkle_root := Some merkle_root,
                 eo_txid := txid\<rparr>
         | _ \<Rightarrow> obj)"

definition unwrap_or :: "'a option \<Rightarrow> 'a \<Rightarrow> 'a" where
  "unwrap_or x d = (case x of None \<Rightarrow> d | Some v \<Rightarrow> v)"

definition wallet_error_from_object :: "wallet_error_object \<Rightarrow> wallet_error" where
  "wallet_error_from_object obj =
     (let name = eo_name obj; message = eo_message obj in
      if name = ''WERR_INVALID_PARAMETER'' then
        InvalidParameter (unwrap_or (eo_parameter obj) []) message
      else if name = ''WERR_NOT_IMPLEMENTED'' then NotImplemented message
      else if name = ''WERR_BAD_REQUEST'' then BadRequest message
      else if name = ''WERR_UNAUTHORIZED'' then Unauthorized message
      else if name = ''WERR_NOT_ACTIVE'' then NotActive message
      else if name = ''WERR_INVALID_OPERATION'' then InvalidOperation message
      else if name = ''WERR_MISSING_PARAMETER'' then
        MissingParameter (unwrap_or (eo_parameter obj) message)
      else if name = ''WERR_INSUFFICIENT_FUNDS'' then
        InsufficientFunds message (unwrap_or (eo_total_satoshis_needed obj) 0)
          (unwrap_or (eo_more_satoshis_needed obj) 0)
      else if name = ''WERR_BROADCAST_UNAVAILABLE'' then BroadcastUnavailable
      else if name = ''WERR_NETWORK_CHAIN'' then NetworkChain message
      else if name = ''WERR_INVALID_PUBLIC_KEY'' then
        InvalidPublicKey message
          (unwrap_or (case eo_key obj of None \<Rightarrow> eo_parameter obj | Some k \<Rightarrow> Some k) [])
      else if name = ''WERR_REVIEW_ACTIONS'' then
        ReviewActions message (unwrap_or (eo_review_action_results obj) [])
          (unwrap_or (eo_send_with_results obj) []) (eo_txid obj) (eo_tx obj)
          (unwrap_or (eo_no_send_change obj) [])
      else if name = ''WERR_INVALID_MERKLE_ROOT'' then
        InvalidMerkleRoot message (unwrap_or (eo_block_hash obj) [])
          (unwrap_or (eo_block_height obj) 0) (unwrap_or (eo_merkle_root obj) []) (eo_txid obj)
      else Internal message)"

section \<open>What the trip keeps\<close>

text \<open>An error with its free text replaced, all other payload kept.\<close>

fun with_text :: "string \<Rightarrow> wallet_error \<Rightarrow> wallet_error" where
  "with_text t (Internal _) = Internal t"
| "with_text t (InvalidParameter p _) = InvalidParameter p t"
| "with_text t (NotImplemented _) = NotImplemented t"
| "with_text t (BadRequest _) = BadRequest t"
| "with_text t (Unauthorized _) = Unauthorized t"
| "with_text t (NotActive _) = NotActive t"
| "with_text t (InvalidOperation _) = InvalidOperation t"
| "with_text t (MissingParameter p) = MissingParameter p"
| "with_text t (InsufficientFunds _ a b) = InsufficientFunds t a b"
| "with_text t BroadcastUnavailable = BroadcastUnavailable"
| "with_text t (NetworkChain _) = NetworkChain t"
| "with_text t (InvalidPublicKey _ k) = InvalidPublicKey t k"
| "with_text t (ReviewActions _ a b c d e) = ReviewActions t a b c d e"
| "with_text t (InvalidMerkleRoot _ a b c d) = InvalidMerkleRoot t a b c d"
| "with_text t (Sqlx _) = Internal t"
| "with_text t (Io _) = Internal t"
| "with_text t (SerdeJson _) = Internal t"

lemma with_text_code: "error_code (with_text t e) = error_code e"
  by (cases e) simp_all

lemma from_object_to_object:
  "wallet_error_from_object (to_wallet_error_object e) = with_text (error_display e) e"
  by (cases e) (simp_all add: wallet_error_from_object_def to_wallet_error_object_def unwrap_or_def)

text \<open>
  An error sent over the wire and rebuilt by the client has the same WERR code and the same
  typed payload (parameter name, satoshi amounts, key, review results, block data, transaction);
  only its free text differs, and it is the text the sender displays. Errors of the database, of
  I/O and of JSON arrive as internal errors.
\<close>

theorem error_wire_roundtrip:
  "wallet_error_from_object (to_wallet_error_object e) = with_text (error_display e) e \<and>
   error_code (wallet_error_from_object (to_wallet_error_object e)) = error_code e"
  by (simp add: from_object_to_object with_text_code)

text \<open>
  C38: Which displayed texts are stable over the wire. The server sends the text with its code
  prefix and the client stores it as the message, so that the rebuilt error displays the prefix
  twice, and a rebuilt invalid-parameter error displays the whole sentence inside itself. Only a
  missing parameter and an unavailable broadcast, which carry no free text, keep their text.
\<close>

theorem error_wire_text_doubles:
  "error_display (wallet_error_from_object (to_wallet_error_object e)) =
     (case e of
        MissingParameter p \<Rightarrow> error_display e
      | BroadcastUnavailable \<Rightarrow> error_display e
      | InvalidParameter p _ \<Rightarrow> error_display (InvalidParameter p (error_display e))
      | _ \<Rightarrow> error_code e @ '': '' @ error_display e) \<and>
   (error_display (wallet_error_from_object (to_wallet_error_object e)) = error_display e \<longleftrightarrow>
      e = BroadcastUnavailable \<or> (\<exists>p. e = MissingParameter p))"
  by (cases e) (simp_all add: from_object_to_object)

end
