(* ===== verification/ServiceRotation.thy ===== *)
theory ServiceRotation
  imports WalletErrors
begin

text \<open>
  The provider collection behind every network service (\<open>src/services/service_collection.rs\<close>
  with its history types of \<open>src/services/types.rs\<close>): an ordered list of named providers with a
  round-robin cursor, and per provider a bounded list of recent calls with two levels of counters.
  The provider itself is a type parameter; the clock readings of an operation are its arguments.
  The lemmas show that the cursor always stands on a provider and visits all of them in turn, and
  that the recorded history refines the plain log of calls.
\<close>

section \<open>Call records and counters\<close>

type_synonym time = int

definition MAX_CALL_HISTORY :: nat where "MAX_CALL_HISTORY = 32"

definition MAX_RESET_COUNTS :: nat where "MAX_RESET_COUNTS = 32"

record service_call_error =
  sce_message :: string
  sce_code :: string

definition from_wallet_error :: "wallet_error \<Rightarrow> service_call_error" where
  "from_wallet_error err = \<lparr>sce_message = error_display err, sce_code = error_code err\<rparr>"

record service_call =
  sc_when :: time
  sc_msecs :: i64
  sc_success :: bool
  sc_result :: "string option"
  sc_error :: "service_call_error option"

record history_counts =
  hc_success :: u32
  hc_failure :: u32
  hc_error :: u32
  hc_since :: time
  hc_until :: time

definition counts_new_at :: "time \<Rightarrow> history_counts" where
  "counts_new_at since =
     \<lparr>hc_success = 0, hc_failure = 0, hc_error = 0, hc_since = since, hc_until = since\<rparr>"

record provider_history =
  ph_service_name :: string
  ph_provider_name :: string
  ph_calls :: "service_call list"
  ph_total_counts :: history_counts
  ph_reset_counts :: "history_counts list"

record service_call_history =
  sh_service_name :: string
  sh_history_by_provider :: "string \<rightharpoonup> provider_history"

section \<open>The collection\<close>

record 't named_service =
  ns_name :: string
  ns_service :: 't

record 't service_collection =
  co_service_name :: string
  co_services :: "'t named_service list"
  co_index :: nat
  co_since :: time
  co_history :: "string \<rightharpoonup> provider_history"

definition collection_new :: "string \<Rightarrow> time \<Rightarrow> 't service_collection" where
  "collection_new service_name now =
     \<lparr>co_service_name = service_name, co_services = [], co_index = 0, co_since = now,
      co_history = Map.empty\<rparr>"

definition add_service :: "string \<Rightarrow> 't \<Rightarrow> 't service_collection \<Rightarrow> 't service_collection" where
  "add_service name service c =
     c\<lparr>co_services := co_services c @ [\<lparr>ns_name = name, ns_service = service\<rparr>]\<rparr>"

definition collection_len :: "'t service_collection \<Rightarrow> nat" where
  "collection_len c = length (co_services c)"

definition collection_is_empty :: "'t service_collection \<Rightarrow> bool" where
  "collection_is_empty c \<longleftrightarrow> co_services c = []"

text \<open>The outer \<open>None\<close> is the panic of an index past the end.\<close>

definition service_to_call :: "'t service_collection \<Rightarrow> ('t \<times> string) option option" where
  "service_to_call c =
     (if co_services c = [] then Some None
      else if co_index c < length (co_services c)
      then (let entry = co_services c ! co_index c in Some (Some (ns_service entry, ns_name entry)))
      else None)"

definition next_service :: "'t service_collection \<Rightarrow> 't service_collection \<times> nat" where
  "next_service c =
     (let c' = (if co_services c \<noteq> []
                then c\<lparr>co_index := (co_index c + 1) mod length (co_services c)\<rparr> else c)
      in (c', co_index c'))"

definition all_services :: "'t service_collection \<Rightarrow> ('t \<times> string) list" where
  "all_services c = map (\<lambda>entry. (ns_service entry, ns_name entry)) (co_services c)"

definition move_service_to_last :: "string \<Rightarrow> 't service_collection \<Rightarrow> 't service_collection" where
  "move_service_to_last provider_name c =
     (case position (\<lambda>s. ns_name s = provider_name) (co_services c) of
        None \<Rightarrow> c
      | Some pos \<Rightarrow>
          (let entry = co_services c ! pos;
               services = take pos (co_services c) @ drop (Suc pos) (co_services c) @ [entry]
           in c\<lparr>co_services := services,
               co_index := if co_index c \<ge> length services then 0 else co_index c\<rparr>))"

section \<open>Recording calls\<close>

definition ensure_provider_history ::
  "'t service_collection \<Rightarrow> string \<Rightarrow> time \<Rightarrow> provider_history" where
  "ensure_provider_history c provider_name now =
     (case co_history c provider_name of
        Some h \<Rightarrow> h
      | None \<Rightarrow>
          (let zero = \<lparr>hc_success = 0, hc_failure = 0, hc_error = 0,
                       hc_since = co_since c, hc_until = now\<rparr>
           in \<lparr>ph_service_name = co_service_name c, ph_provider_name = provider_name,
               ph_calls = [], ph_total_counts = zero, ph_reset_counts = [zero]\<rparr>))"

text \<open>\<open>first_mut\<close>: change the first element when there is one.\<close>

fun on_first :: "('a \<Rightarrow> 'a) \<Rightarrow> 'a list \<Rightarrow> 'a list" where
  "on_first f [] = []"
| "on_first f (x # xs) = f x # xs"

definition push_call :: "service_call \<Rightarrow> service_call list \<Rightarrow> service_call list" where
  "push_call call calls = take MAX_CALL_HISTORY (call # calls)"

definition add_service_call_success ::
  "string \<Rightarrow> service_call \<Rightarrow> string option \<Rightarrow> time \<Rightarrow> time \<Rightarrow>
    't service_collection \<Rightarrow> 't service_collection" where
  "add_service_call_success provider call result t0 now c =
     (let h = ensure_provider_history c provider t0;
          bump = (\<lambda>k. k\<lparr>hc_until := now, hc_success := hc_success k + 1\<rparr>)
      in c\<lparr>co_history := (co_history c)(provider \<mapsto>
            h\<lparr>ph_calls := push_call call (ph_calls h),
              ph_total_counts := bump (ph_total_counts h),
              ph_reset_counts := on_first bump (ph_reset_counts h)\<rparr>)\<rparr>)"

definition add_service_call_error ::
  "string \<Rightarrow> service_call \<Rightarrow> wallet_error \<Rightarrow> time \<Rightarrow> time \<Rightarrow>
    't service_collection \<Rightarrow> 't service_collection" where
  "add_service_call_error provider call err t0 now c =
     (let call = call\<lparr>sc_success := False, sc_error := Some (from_wallet_error err)\<rparr>;
          h = ensure_provider_history c provider t0;
          bump = (\<lambda>k. k\<lparr>hc_until := now, hc_failure := hc_failure k + 1,
                       hc_error := hc_error k + 1\<rparr>)
      in c\<lparr>co_history := (co_history c)(provider \<mapsto>
            h\<lparr>ph_calls := push_call call (ph_calls h),
              ph_total_counts := bump (ph_total_counts h),
              ph_reset_counts := on_first bump (ph_reset_counts h)\<rparr>)\<rparr>)"

definition add_service_call_failure ::
  "string \<Rightarrow> service_call \<Rightarrow> time \<Rightarrow> time \<Rightarrow>
    't service_collection \<Rightarrow> 't service_collection" where
  "add_service_call_failure provider call t0 now c =
     (let h = ensure_provider_history c provider t0;
          bump = (\<lambda>k. k\<lparr>hc_until := now, hc_failure := hc_failure k + 1\<rparr>)
      in c\<lparr>co_history := (co_history c)(provider \<mapsto>
            h\<lparr>ph_calls := push_call call (ph_calls h),
              ph_total_counts := bump (ph_total_counts h),
              ph_reset_counts := on_first bump (ph_reset_counts h)\<rparr>)\<rparr>)"

definition reset_history :: "time \<Rightarrow> provider_history \<Rightarrow> provider_history" where
  "reset_history now h =
     h\<lparr>ph_reset_counts := take MAX_RESET_COUNTS
          (counts_new_at now # on_first (\<lambda>rc. rc\<lparr>hc_until := now\<rparr>) (ph_reset_counts h))\<rparr>"

definition get_service_call_history ::
  "bool \<Rightarrow> time \<Rightarrow> 't service_collection \<Rightarrow> service_call_history \<times> 't service_collection" where
  "get_service_call_history reset now c =
     (\<lparr>sh_service_name = co_service_name c, sh_history_by_provider = co_history c\<rparr>,
      if reset then c\<lparr>co_history := map_option (reset_history now) \<circ> co_history c\<rparr> else c)"

section \<open>Runs of operations\<close>

datatype 't service_op =
    Add string 't
  | Next
  | MoveToLast string
  | CallSuccess string service_call "string option" time time
  | CallError string service_call wallet_error time time
  | CallFailure string service_call time time
  | GetHistory bool time

fun service_step :: "'t service_op \<Rightarrow> 't service_collection \<Rightarrow> 't service_collection" where
  "service_step (Add n s) c = add_service n s c"
| "service_step Next c = fst (next_service c)"
| "service_step (MoveToLast p) c = move_service_to_last p c"
| "service_step (CallSuccess p call r t0 t) c = add_service_call_success p call r t0 t c"
| "service_step (CallError p call e t0 t) c = add_service_call_error p call e t0 t c"
| "service_step (CallFailure p call t0 t) c = add_service_call_failure p call t0 t c"
| "service_step (GetHistory reset t) c = snd (get_service_call_history reset t c)"

definition service_run :: "'t service_op list \<Rightarrow> 't service_collection \<Rightarrow> 't service_collection" where
  "service_run ops c = fold service_step ops c"

lemma service_run_simps [simp]:
  "service_run [] c = c"
  "service_run (ops @ [x]) c = service_step x (service_run ops c)"
  by (simp_all add: service_run_def)

section \<open>The cursor\<close>

definition cursor_ok :: "'t service_collection \<Rightarrow> bool" where
  "cursor_ok c \<longleftrightarrow> (if co_services c = [] then co_index c = 0 else co_index c < length (co_services c))"

named_theorems service_defs \<open>the operations of the collection\<close>

lemmas [service_defs] = add_service_def next_service_def move_service_to_last_def
  add_service_call_success_def add_service_call_error_def add_service_call_failure_def
  get_service_call_history_def

lemma service_step_cursor: "cursor_ok c \<Longrightarrow> cursor_ok (service_step x c)"
proof (cases x)
  case (MoveToLast p)
  then show "cursor_ok c \<Longrightarrow> ?thesis"
    by (auto simp: cursor_ok_def service_defs Let_def split: option.splits dest: position_SomeD)
qed (auto simp: cursor_ok_def service_defs Let_def split: if_splits)

lemma service_run_cursor: "cursor_ok (service_run ops (collection_new n t))"
proof (induction ops rule: rev_induct)
  case Nil
  then show ?case by (simp add: cursor_ok_def collection_new_def)
next
  case (snoc x ops)
  then show ?case by (simp add: service_step_cursor)
qed

lemma next_services [simp]: "co_services (((\<lambda>c. fst (next_service c)) ^^ k) c) = co_services c"
  by (induction k) (simp_all add: next_service_def Let_def)

lemma next_service_index:
  "co_services c \<noteq> [] \<Longrightarrow>
     co_index (fst (next_service c)) = Suc (co_index c) mod length (co_services c)"
  by (simp add: next_service_def Let_def)

lemma next_index:
  assumes "co_services c \<noteq> []" "cursor_ok c"
  shows "co_index (((\<lambda>c. fst (next_service c)) ^^ k) c) = (co_index c + k) mod length (co_services c)"
proof (induction k)
  case 0
  then show ?case using assms by (simp add: cursor_ok_def)
next
  case (Suc k)
  then show ?case using assms by (simp add: next_service_index mod_Suc_eq)
qed

lemma service_to_call_after_next:
  assumes "cursor_ok c" "k < length (co_services c)"
  shows "service_to_call (((\<lambda>c. fst (next_service c)) ^^ k) c) =
           Some (Some (rotate (co_index c) (all_services c) ! k))"
proof -
  have ne: "co_services c \<noteq> []" using assms(2) by auto
  have "(co_index c + k) mod length (co_services c) < length (co_services c)"
    using ne by simp
  then show ?thesis
    using assms ne by (simp add: service_to_call_def next_index all_services_def nth_rotate Let_def)
qed

text \<open>
  Whatever operations have run on a collection, taking the current provider and advancing, as
  often as there are providers, never indexes out of range and yields every provider exactly once:
  the providers in list order starting at the cursor.
\<close>

theorem service_round_robin:
  "let c = service_run ops (collection_new name t)
   in map (\<lambda>k. service_to_call (((\<lambda>c. fst (next_service c)) ^^ k) c)) [0..<collection_len c] =
        map (\<lambda>p. Some (Some p)) (rotate (co_index c) (all_services c))"
  unfolding Let_def
  by (rule nth_equalityI)
    (simp_all add: collection_len_def service_run_cursor service_to_call_after_next all_services_def)

section \<open>The history refines the log of calls\<close>

text \<open>
  The abstract view: an operation logs at most one call for one provider, with the kind of its
  outcome. The history of a provider is determined by its part of the log.
\<close>

datatype outcome = OkCall | FailedCall | ErrorCall

fun logged :: "string \<Rightarrow> 't service_op \<Rightarrow> (service_call \<times> outcome) list" where
  "logged p (CallSuccess q call r t0 t) = (if p = q then [(call, OkCall)] else [])"
| "logged p (CallError q call e t0 t) =
     (if p = q then [(call\<lparr>sc_success := False, sc_error := Some (from_wallet_error e)\<rparr>, ErrorCall)]
      else [])"
| "logged p (CallFailure q call t0 t) = (if p = q then [(call, FailedCall)] else [])"
| "logged p _ = []"

definition call_log :: "string \<Rightarrow> 't service_op list \<Rightarrow> (service_call \<times> outcome) list" where
  "call_log p ops = concat (map (logged p) ops)"

text \<open>The operations after the last counter reset.\<close>

fun is_reset :: "'t service_op \<Rightarrow> bool" where
  "is_reset (GetHistory reset t) = reset"
| "is_reset _ = False"

definition since_reset :: "'t service_op list \<Rightarrow> 't service_op list" where
  "since_reset ops = rev (takeWhile (\<lambda>x. \<not> is_reset x) (rev ops))"

lemma log_simps [simp]:
  "call_log p [] = []" "call_log p (ops @ [x]) = call_log p ops @ logged p x"
  "since_reset [] = []"
  "since_reset (ops @ [x]) = (if is_reset x then [] else since_reset ops @ [x])"
  by (simp_all add: call_log_def since_reset_def)

definition outcomes :: "(outcome \<Rightarrow> bool) \<Rightarrow> (service_call \<times> outcome) list \<Rightarrow> u32" where
  "outcomes P l = of_nat (length (filter (P \<circ> snd) l))"

lemma outcomes_simps [simp]:
  "outcomes P [] = 0"
  "outcomes P (l @ [x]) = outcomes P l + (if P (snd x) then 1 else 0)"
  by (simp_all add: outcomes_def)

definition counts_log :: "history_counts \<Rightarrow> (service_call \<times> outcome) list \<Rightarrow> bool" where
  "counts_log k l \<longleftrightarrow> hc_success k = outcomes (\<lambda>x. x = OkCall) l \<and>
     hc_failure k = outcomes (\<lambda>x. x \<noteq> OkCall) l \<and> hc_error k = outcomes (\<lambda>x. x = ErrorCall) l"

definition history_refines :: "provider_history \<Rightarrow> string \<Rightarrow> 't service_op list \<Rightarrow> bool" where
  "history_refines h p ops \<longleftrightarrow>
     ph_calls h = take MAX_CALL_HISTORY (rev (map fst (call_log p ops))) \<and>
     counts_log (ph_total_counts h) (call_log p ops) \<and>
     ph_reset_counts h \<noteq> [] \<and> length (ph_reset_counts h) \<le> MAX_RESET_COUNTS \<and>
     counts_log (hd (ph_reset_counts h)) (call_log p (since_reset ops))"

definition run_refines :: "'t service_collection \<Rightarrow> string \<Rightarrow> 't service_op list \<Rightarrow> bool" where
  "run_refines c p ops \<longleftrightarrow>
     (case co_history c p of
        None \<Rightarrow> call_log p ops = [] | Some h \<Rightarrow> history_refines h p ops)"

lemma ensure_refines:
  assumes "run_refines c p ops"
  shows "history_refines (ensure_provider_history c p t0) p ops"
proof (cases "co_history c p")
  case None
  from None assms have "call_log p ops = []" by (simp add: run_refines_def)
  moreover have "set (since_reset ops) \<subseteq> set ops"
    using set_takeWhileD by (fastforce simp: since_reset_def)
  ultimately have "call_log p (since_reset ops) = []" by (auto simp: call_log_def)
  then show ?thesis using None \<open>call_log p ops = []\<close>
    by (simp add: ensure_provider_history_def history_refines_def counts_log_def Let_def
        MAX_RESET_COUNTS_def)
next
  case (Some h)
  then show ?thesis using assms by (simp add: ensure_provider_history_def run_refines_def)
qed

lemma take_push: "push_call call (take MAX_CALL_HISTORY l) = take MAX_CALL_HISTORY (call # l)"
  by (simp add: push_call_def take_Cons MAX_CALL_HISTORY_def min_def split: nat.split)

lemma hd_on_first [simp]: "xs \<noteq> [] \<Longrightarrow> hd (on_first f xs) = f (hd xs)"
  "length (on_first f xs) = length xs" "(on_first f xs = []) = (xs = [])"
  by (cases xs; simp)+

lemma service_step_refines:
  assumes "run_refines c p ops"
  shows "run_refines (service_step x c) p (ops @ [x])"
proof -
  note ens = ensure_refines [OF assms]
  note unf = run_refines_def history_refines_def counts_log_def
  show ?thesis
  proof (cases x)
    case (CallSuccess q call r t0 t)
    then show ?thesis using assms ens [of t0]
      by (cases "p = q") (simp_all add: unf service_defs Let_def take_push split: option.splits)
  next
    case (CallError q call e t0 t)
    then show ?thesis using assms ens [of t0]
      by (cases "p = q") (simp_all add: unf service_defs Let_def take_push split: option.splits)
  next
    case (CallFailure q call t0 t)
    then show ?thesis using assms ens [of t0]
      by (cases "p = q") (simp_all add: unf service_defs Let_def take_push split: option.splits)
  next
    case (GetHistory reset t)
    then show ?thesis using assms
      by (cases reset) (auto simp: unf service_defs reset_history_def counts_new_at_def
          MAX_RESET_COUNTS_def split: option.splits)
  qed (use assms in \<open>simp_all add: unf service_defs Let_def split: option.splits\<close>)
qed

lemma service_run_refines: "run_refines (service_run ops (collection_new name t)) p ops"
proof (induction ops rule: rev_induct)
  case Nil
  then show ?case by (simp add: run_refines_def collection_new_def)
next
  case (snoc x ops)
  then show ?case by (simp add: service_step_refines)
qed

text \<open>
  C37: After any run, a provider's reported history is the newest 32 of its logged calls, its total
  counters count the successes, failures and errors of its whole log (modulo $2^{32}$), there is
  always a current interval among at most 32, and that interval counts exactly the calls since the
  last reset; a provider without history has no logged call.
\<close>

theorem service_history_refines_log:
  "case sh_history_by_provider (fst (get_service_call_history reset now
            (service_run ops (collection_new name t)))) p of
           None \<Rightarrow> call_log p ops = []
         | Some h \<Rightarrow>
             ph_calls h = take MAX_CALL_HISTORY (rev (map fst (call_log p ops))) \<and>
             counts_log (ph_total_counts h) (call_log p ops) \<and>
             ph_reset_counts h \<noteq> [] \<and> length (ph_reset_counts h) \<le> MAX_RESET_COUNTS \<and>
             counts_log (hd (ph_reset_counts h)) (call_log p (since_reset ops))"
  using service_run_refines [of ops name t p]
  by (simp add: get_service_call_history_def run_refines_def history_refines_def
      cong: option.case_cong)

text \<open>
  Moving a provider to the end keeps the cursor's number in every case, so the comment that the
  next call starts from the new front does not hold.
\<close>

lemma move_keeps_index: "cursor_ok c \<Longrightarrow> co_index (move_service_to_last p c) = co_index c"
  by (auto simp: cursor_ok_def move_service_to_last_def Let_def split: option.splits if_splits)

end
