(* ===== verification/SqlTable.thy ===== *)
theory SqlTable
  imports Prelude "HOL-Library.List_Lexorder" "HOL-Library.Char_ord"
begin

text \<open>
  The SQL statements that the storage layer issues, on tables held as lists of rows in the order of
  their row ids: filtered and paged \<open>SELECT\<close>, \<open>INSERT\<close> into a table with an
  \<open>AUTOINCREMENT\<close> key, \<open>INSERT\<close> into a table with a composite key, and \<open>UPDATE\<close> with
  dynamically chosen columns (\<open>src/storage/sqlx_impl/\<close>, SQLite dialect, and the schema
  \<open>migrations/sqlite/001_initial.sql\<close>). Columns of type \<open>i64\<close> and \<open>i32\<close> are integers,
  because no statement computes with them; \<open>NULL\<close> is \<open>None\<close>. A violated \<open>UNIQUE\<close> or
  \<open>REFERENCES\<close> constraint is the \<open>Sqlx\<close> error. Failures of the engine itself (I/O, locks)
  are not modelled.
\<close>

section \<open>Timestamps\<close>

text \<open>
  \<open>NaiveDateTime\<close> in nanoseconds. Inserts and \<open>datetime('now')\<close> write whole seconds, updates
  write milliseconds; a \<open>since\<close> filter compares with the whole second.
\<close>

type_synonym ts = int

definition secs :: "ts \<Rightarrow> ts" where
  "secs t = t div 1000000000 * 1000000000"

definition millis :: "ts \<Rightarrow> ts" where
  "millis t = t div 1000000 * 1000000"

lemma secs_le: "secs t \<le> t"
  by (simp add: secs_def minus_mod_eq_div_mult [symmetric])

lemma millis_le: "millis t \<le> t"
  by (simp add: millis_def minus_mod_eq_div_mult [symmetric])

lemma millis_mono: "s \<le> t \<Longrightarrow> millis s \<le> millis t"
  by (simp add: millis_def zdiv_mono1)

lemma millis_idem [simp]: "millis (millis t) = millis t"
  by (simp add: millis_def)

lemma millis_secs [simp]: "millis (secs t) = secs t"
proof -
  have "(t div 1000000000 * 1000000000 :: int) = t div 1000000000 * 1000 * 1000000" by simp
  then show ?thesis unfolding millis_def secs_def by simp
qed

section \<open>Conditions and assignments\<close>

record paged =
  pg_limit :: int
  pg_offset :: int

definition where_eq :: "'a option \<Rightarrow> 'a \<Rightarrow> bool" where
  "where_eq v col \<longleftrightarrow> (case v of None \<Rightarrow> True | Some x \<Rightarrow> col = x)"

definition where_eq_null :: "'a option \<Rightarrow> 'a option \<Rightarrow> bool" where
  "where_eq_null v col \<longleftrightarrow> (case v of None \<Rightarrow> True | Some x \<Rightarrow> col = Some x)"

definition where_in :: "'a list option \<Rightarrow> 'a \<Rightarrow> bool" where
  "where_in vs col \<longleftrightarrow> (case vs of None \<Rightarrow> True | Some xs \<Rightarrow> col \<in> set xs)"

definition where_in_null :: "'a list option \<Rightarrow> 'a option \<Rightarrow> bool" where
  "where_in_null vs col \<longleftrightarrow> (case vs of None \<Rightarrow> True | Some xs \<Rightarrow> col \<in> Some ` set xs)"

definition where_since :: "ts option \<Rightarrow> ts \<Rightarrow> bool" where
  "where_since v updated_at \<longleftrightarrow> (case v of None \<Rightarrow> True | Some t \<Rightarrow> updated_at \<ge> secs t)"

lemma where_simps [simp]:
  "where_eq None c" "where_eq (Some x) c \<longleftrightarrow> c = x"
  "where_eq_null None d" "where_eq_null (Some x) d \<longleftrightarrow> d = Some x"
  "where_in None c" "where_in_null None d" "where_since None t"
  "where_in (Some xs) c \<longleftrightarrow> c \<in> set xs" "where_in_null (Some xs) d \<longleftrightarrow> d \<in> Some ` set xs"
  "where_since (Some s) t \<longleftrightarrow> t \<ge> secs s"
  by (simp_all add: where_eq_def where_eq_null_def where_in_def where_in_null_def where_since_def)

text \<open>A \<open>SET\<close> clause is present when the partial has a value; a nullable column keeps \<open>NULL\<close>.\<close>

definition set_col :: "'a option \<Rightarrow> 'a \<Rightarrow> 'a" where
  "set_col v old = (case v of None \<Rightarrow> old | Some x \<Rightarrow> x)"

definition set_null :: "'a option \<Rightarrow> 'a option \<Rightarrow> 'a option" where
  "set_null v old = (case v of None \<Rightarrow> old | Some x \<Rightarrow> Some x)"

text \<open>The convention of the output columns \<open>basketId\<close> and \<open>spentBy\<close>: zero clears them.\<close>

definition set_or_clear :: "int option \<Rightarrow> int option \<Rightarrow> int option" where
  "set_or_clear v old =
     (case v of None \<Rightarrow> old | Some x \<Rightarrow> if x = 0 then None else Some x)"

definition touch :: "ts \<Rightarrow> ts option \<Rightarrow> ts" where
  "touch now v = (case v of Some t \<Rightarrow> millis t | None \<Rightarrow> secs now)"

lemma set_simps [simp]:
  "set_col None c = c" "set_col (Some x) c = x" "set_null None d = d" "set_null (Some x) d = Some x"
  "touch now None = secs now" "touch now (Some t) = millis t"
  by (simp_all add: set_col_def set_null_def touch_def)

lemma millis_touch [simp]: "millis (touch now v) = touch now v"
  by (cases v) simp_all

section \<open>Tables\<close>

record 'r table =
  tb_rows :: "'r list"
  tb_seq :: int

definition empty_table :: "'r table" where
  "empty_table = \<lparr>tb_rows = [], tb_seq = 0\<rparr>"

definition MAX_ROWID :: int where
  "MAX_ROWID = 2 ^ 63 - 1"

definition find_row :: "('r \<Rightarrow> int) \<Rightarrow> 'r table \<Rightarrow> int \<Rightarrow> 'r option" where
  "find_row get_id t i = find (\<lambda>r. get_id r = i) (tb_rows t)"

definition refers :: "('r \<Rightarrow> int) \<Rightarrow> 'r table \<Rightarrow> int \<Rightarrow> bool" where
  "refers get_id t i \<longleftrightarrow> i \<in> get_id ` set (tb_rows t)"

definition refers_null :: "('r \<Rightarrow> int) \<Rightarrow> 'r table \<Rightarrow> int option \<Rightarrow> bool" where
  "refers_null get_id t v \<longleftrightarrow> (case v of None \<Rightarrow> True | Some i \<Rightarrow> refers get_id t i)"

lemma refers_null_simps [simp]:
  "refers_null g t None" "refers_null g t (Some i) \<longleftrightarrow> refers g t i"
  by (simp_all add: refers_null_def)

text \<open>
  \<open>ORDER BY key LIMIT n OFFSET m\<close>, present only for paged queries. A negative limit is no limit
  and a negative offset is zero.
\<close>

definition page_of :: "paged \<Rightarrow> 'r list \<Rightarrow> 'r list" where
  "page_of p rows =
     (let rest = drop (nat (pg_offset p)) rows
      in if pg_limit p < 0 then rest else take (nat (pg_limit p)) rest)"

definition ordered_page :: "paged option \<Rightarrow> ('r \<Rightarrow> 'k::linorder) \<Rightarrow> 'r list \<Rightarrow> 'r list" where
  "ordered_page p k rows = (case p of None \<Rightarrow> rows | Some p \<Rightarrow> page_of p (sort_key k rows))"

lemma ordered_page_None [simp]: "ordered_page None k rows = rows"
  by (simp add: ordered_page_def)

definition unique_error :: wallet_error where
  "unique_error = Sqlx ''UNIQUE constraint failed''"

definition foreign_key_error :: wallet_error where
  "foreign_key_error = Sqlx ''FOREIGN KEY constraint failed''"

definition full_error :: wallet_error where
  "full_error = Sqlx ''database or disk is full''"

definition insert_row ::
  "((int \<Rightarrow> int) \<Rightarrow> 'r \<Rightarrow> 'r) \<Rightarrow> ('r \<Rightarrow> 'k) \<Rightarrow> ('r \<Rightarrow> bool) \<Rightarrow> 'r \<Rightarrow> 'r table \<Rightarrow>
    ('r table \<times> int) wallet_result" where
  "insert_row set_id key refs r t =
     (if tb_seq t \<ge> MAX_ROWID then Err full_error
      else (let i = tb_seq t + 1; r = set_id (\<lambda>_. i) r
            in if key r \<in> key ` set (tb_rows t) then Err unique_error
               else if \<not> refs r then Err foreign_key_error
               else Ok (\<lparr>tb_rows = tb_rows t @ [r], tb_seq = i\<rparr>, i)))"

definition insert_keyed ::
  "('r \<Rightarrow> 'k) \<Rightarrow> ('r \<Rightarrow> bool) \<Rightarrow> 'r \<Rightarrow> 'r table \<Rightarrow> 'r table wallet_result" where
  "insert_keyed key refs r t =
     (if tb_seq t \<ge> MAX_ROWID then Err full_error
      else if key r \<in> key ` set (tb_rows t) then Err unique_error
      else if \<not> refs r then Err foreign_key_error
      else Ok \<lparr>tb_rows = tb_rows t @ [r], tb_seq = tb_seq t + 1\<rparr>)"

definition update_rows ::
  "('r \<Rightarrow> bool) \<Rightarrow> ('r \<Rightarrow> 'r) \<Rightarrow> ('r \<Rightarrow> 'k) \<Rightarrow> ('r \<Rightarrow> bool) \<Rightarrow> 'r table \<Rightarrow>
    ('r table \<times> int) wallet_result" where
  "update_rows sel f key refs t =
     (let rows = map (\<lambda>r. if sel r then f r else r) (tb_rows t)
      in if \<not> distinct (map key rows) then Err unique_error
         else if \<exists>r \<in> set (tb_rows t). sel r \<and> \<not> refs (f r) then Err foreign_key_error
         else Ok (t\<lparr>tb_rows := rows\<rparr>, int (length (filter sel (tb_rows t)))))"

section \<open>Tables that keep their constraints\<close>

definition keyed_ok :: "('r \<Rightarrow> 'k) \<Rightarrow> 'r table \<Rightarrow> bool" where
  "keyed_ok key t \<longleftrightarrow> distinct (map key (tb_rows t))"

definition ids_ok :: "('r \<Rightarrow> int) \<Rightarrow> 'r table \<Rightarrow> bool" where
  "ids_ok get_id t \<longleftrightarrow> 0 \<le> tb_seq t \<and> distinct (map get_id (tb_rows t)) \<and>
     (\<forall>r \<in> set (tb_rows t). 1 \<le> get_id r \<and> get_id r \<le> tb_seq t)"

lemma empty_table_ok [simp]: "keyed_ok key empty_table" "ids_ok get_id empty_table"
  by (simp_all add: keyed_ok_def ids_ok_def empty_table_def)

lemma find_append_None: "find P xs = None \<Longrightarrow> find P (xs @ ys) = find P ys"
  by (induction xs) (auto split: if_splits)

text \<open>
  The rows of a table persist: every row is still there under the same identity, and its
  \<open>updated_at\<close> has not gone back.
\<close>

definition rows_persist :: "('r \<Rightarrow> 'i) \<Rightarrow> ('r \<Rightarrow> ts) \<Rightarrow> 'r table \<Rightarrow> 'r table \<Rightarrow> bool" where
  "rows_persist ident upd t t' \<longleftrightarrow>
     (\<forall>r \<in> set (tb_rows t). \<exists>r' \<in> set (tb_rows t'). ident r' = ident r \<and> upd r \<le> upd r')"

lemma rows_persist_refl [simp]: "rows_persist ident upd t t"
  by (auto simp: rows_persist_def)

lemma rows_persist_trans:
  "rows_persist ident upd t t' \<Longrightarrow> rows_persist ident upd t' t'' \<Longrightarrow> rows_persist ident upd t t''"
  unfolding rows_persist_def by (metis order_trans)

lemma refers_persist:
  assumes "rows_persist ident upd t t'" "\<And>r r'. ident r' = ident r \<Longrightarrow> get_id r' = get_id r"
    "refers get_id t i"
  shows "refers get_id t' i"
proof -
  obtain r where r: "r \<in> set (tb_rows t)" "get_id r = i" using assms(3) by (auto simp: refers_def)
  then obtain r' where r': "r' \<in> set (tb_rows t')" "ident r' = ident r"
    using assms(1) by (auto simp: rows_persist_def)
  then have "i = get_id r'" using assms(2) r(2) by metis
  with r'(1) show ?thesis unfolding refers_def by (rule image_eqI [rotated])
qed

lemma insert_keyed_OkD:
  assumes "insert_keyed key refs r t = Ok t'"
  shows "tb_rows t' = tb_rows t @ [r]" "refs r" "key r \<notin> key ` set (tb_rows t)"
  using assms by (auto simp: insert_keyed_def split: if_splits)

lemma insert_keyed_ok:
  "insert_keyed key refs r t = Ok t' \<Longrightarrow> keyed_ok key t \<Longrightarrow> keyed_ok key t'"
  by (auto simp: insert_keyed_def keyed_ok_def split: if_splits)

lemma insert_row_OkD:
  assumes "insert_row set_id key refs r t = Ok (t', i)"
  shows "tb_rows t' = tb_rows t @ [set_id (\<lambda>_. i) r]" "tb_seq t' = i" "i = tb_seq t + 1"
    "refs (set_id (\<lambda>_. i) r)" "key (set_id (\<lambda>_. i) r) \<notin> key ` set (tb_rows t)"
  using assms by (auto simp: insert_row_def Let_def split: if_splits)

lemma insert_row_keyed_ok:
  "insert_row set_id key refs r t = Ok (t', i) \<Longrightarrow> keyed_ok key t \<Longrightarrow> keyed_ok key t'"
  using insert_row_OkD(1,5) [of set_id key refs r t t' i] by (simp add: keyed_ok_def)

lemma insert_row_persist:
  "insert_row set_id key refs r t = Ok (t', i) \<Longrightarrow> rows_persist ident upd t t'"
  by (drule insert_row_OkD(1)) (auto simp: rows_persist_def)

lemma insert_keyed_persist:
  "insert_keyed key refs r t = Ok t' \<Longrightarrow> rows_persist ident upd t t'"
  by (drule insert_keyed_OkD(1)) (auto simp: rows_persist_def)

lemma update_rows_OkD:
  assumes "update_rows sel f key refs t = Ok (t', n)"
  shows "tb_rows t' = map (\<lambda>r. if sel r then f r else r) (tb_rows t)" "tb_seq t' = tb_seq t"
    "n = int (length (filter sel (tb_rows t)))" "distinct (map key (tb_rows t'))"
    "\<And>r. r \<in> set (tb_rows t) \<Longrightarrow> sel r \<Longrightarrow> refs (f r)"
  using assms by (auto simp: update_rows_def Let_def split: if_splits)

lemma update_rows_keyed_ok: "update_rows sel f key refs t = Ok (t', n) \<Longrightarrow> keyed_ok key t'"
  by (drule update_rows_OkD(4)) (simp add: keyed_ok_def)

lemma update_rows_ids_ok:
  assumes "update_rows sel f key refs t = Ok (t', n)" "\<And>r. get_id (f r) = get_id r" "ids_ok get_id t"
  shows "ids_ok get_id t'"
proof -
  have "map get_id (tb_rows t') = map get_id (tb_rows t)"
    using assms(2) by (simp add: update_rows_OkD(1) [OF assms(1)])
  then show ?thesis
    using assms(2,3) unfolding ids_ok_def
    by (auto simp: update_rows_OkD(1,2) [OF assms(1)] simp del: map_map)
qed

lemma update_rows_persist:
  assumes "update_rows sel f key refs t = Ok (t', n)"
    "\<And>r. r \<in> set (tb_rows t) \<Longrightarrow> sel r \<Longrightarrow> ident (f r) = ident r \<and> upd r \<le> upd (f r)"
  shows "rows_persist ident upd t t'"
  using assms(2) by (auto simp: rows_persist_def update_rows_OkD(1) [OF assms(1)])

text \<open>
  The interface of a table with an identifier column: reading and writing the column and the
  unique key, which does not contain it.
\<close>

locale id_table =
  fixes get_id :: "'r \<Rightarrow> int" and set_id :: "(int \<Rightarrow> int) \<Rightarrow> 'r \<Rightarrow> 'r" and key :: "'r \<Rightarrow> 'k"
  assumes get_set_id: "get_id (set_id f r) = f (get_id r)"
    and key_set_id: "key (set_id f r) = key r"
begin

lemma insert_ids_ok:
  assumes "insert_row set_id key refs r t = Ok (t', i)" "ids_ok get_id t"
  shows "ids_ok get_id t'"
proof -
  note D = insert_row_OkD [OF assms(1)]
  have "get_id x \<noteq> tb_seq t + 1" if "x \<in> set (tb_rows t)" for x
    using assms(2) that by (fastforce simp: ids_ok_def)
  then show ?thesis
    using assms(2) by (force simp: ids_ok_def D(1,2,3) get_set_id)
qed

lemma insert_refers:
  "insert_row set_id key refs r t = Ok (t', i) \<Longrightarrow> refers get_id t' i"
  by (drule insert_row_OkD(1)) (simp add: refers_def get_set_id)

lemma insert_fresh:
  "insert_row set_id key refs r t = Ok (t', i) \<Longrightarrow> ids_ok get_id t \<Longrightarrow> \<not> refers get_id t i"
  by (drule insert_row_OkD(3)) (fastforce simp: refers_def ids_ok_def)

lemma insert_found_by_id:
  assumes "insert_row set_id key refs r t = Ok (t', i)" "ids_ok get_id t"
  shows "find_row get_id t' i = Some (set_id (\<lambda>_. i) r)"
proof -
  have "find (\<lambda>r. get_id r = i) (tb_rows t) = None"
    using insert_fresh [OF assms] by (auto simp: find_None_iff refers_def)
  then show ?thesis
    by (simp add: find_row_def insert_row_OkD(1) [OF assms(1)] find_append_None get_set_id)
qed

end

end
