(* ===== verification/StorageTables.thy ===== *)
theory StorageTables
  imports SqlTable
begin

text \<open>
  The wallet database: the row structs of \<open>src/tables\<close>, the filters of
  \<open>src/storage/find_args.rs\<close> and the find, insert and update statements of
  \<open>src/storage/sqlx_impl\<close> (SQLite dialect) for users, proven transactions, baskets, labels, tags,
  transactions, outputs, both map tables, certificates and their fields, commissions and proof
  requests, with the unique keys and references of \<open>migrations/sqlite/001_initial.sql\<close>. Every
  statement is one definition on the \<open>database\<close> record. A statement without \<open>ORDER BY\<close> scans the
  rows in the order of their row ids. Status and provider columns hold the text of their enum and
  read back as the same value.
\<close>

section \<open>Enumerations\<close>

datatype transaction_status =
    TsCompleted | TsFailed | TsUnprocessed | TsSending | TsUnproven | TsUnsigned | TsNosend
  | TsNonfinal | TsUnfail

datatype proven_tx_req_status =
    RsSending | RsUnsent | RsNosend | RsUnknown | RsNonfinal | RsUnprocessed | RsUnmined
  | RsCallback | RsUnconfirmed | RsCompleted | RsInvalid | RsDoubleSpend | RsUnfail

datatype storage_provided_by = PbStorage | PbYou | PbYouAndStorage

section \<open>Rows\<close>

text \<open>One record per table, with the fields of the structs under \<open>src/tables\<close>.\<close>

record user =
  us_created_at :: ts
  us_updated_at :: ts
  us_user_id :: int
  us_identity_key :: string
  us_active_storage :: string

record proven_tx =
  pt_created_at :: ts
  pt_updated_at :: ts
  pt_proven_tx_id :: int
  pt_txid :: string
  pt_height :: int
  pt_index :: int
  pt_merkle_path :: "u8 list"
  pt_raw_tx :: "u8 list"
  pt_block_hash :: string
  pt_merkle_root :: string

record output_basket =
  ob_created_at :: ts
  ob_updated_at :: ts
  ob_basket_id :: int
  ob_user_id :: int
  ob_name :: string
  ob_number_of_desired_utxos :: int
  ob_minimum_desired_utxo_value :: int
  ob_is_deleted :: bool

record tx_label =
  tl_created_at :: ts
  tl_updated_at :: ts
  tl_tx_label_id :: int
  tl_user_id :: int
  tl_label :: string
  tl_is_deleted :: bool

record output_tag =
  ot_created_at :: ts
  ot_updated_at :: ts
  ot_output_tag_id :: int
  ot_user_id :: int
  ot_tag :: string
  ot_is_deleted :: bool

record transaction =
  tx_created_at :: ts
  tx_updated_at :: ts
  tx_transaction_id :: int
  tx_user_id :: int
  tx_proven_tx_id :: "int option"
  tx_status :: transaction_status
  tx_reference :: string
  tx_is_outgoing :: bool
  tx_satoshis :: int
  tx_description :: string
  tx_version :: "int option"
  tx_lock_time :: "int option"
  tx_txid :: "string option"
  tx_input_beef :: "u8 list option"
  tx_raw_tx :: "u8 list option"

record output_row =
  ou_created_at :: ts
  ou_updated_at :: ts
  ou_output_id :: int
  ou_user_id :: int
  ou_transaction_id :: int
  ou_basket_id :: "int option"
  ou_spendable :: bool
  ou_change :: bool
  ou_output_description :: "string option"
  ou_vout :: int
  ou_satoshis :: int
  ou_provided_by :: storage_provided_by
  ou_purpose :: string
  ou_output_type :: string
  ou_txid :: "string option"
  ou_sender_identity_key :: "string option"
  ou_derivation_prefix :: "string option"
  ou_derivation_suffix :: "string option"
  ou_custom_instructions :: "string option"
  ou_spent_by :: "int option"
  ou_sequence_number :: "int option"
  ou_spending_description :: "string option"
  ou_script_length :: "int option"
  ou_script_offset :: "int option"
  ou_locking_script :: "u8 list option"

record tx_label_map =
  tm_created_at :: ts
  tm_updated_at :: ts
  tm_tx_label_id :: int
  tm_transaction_id :: int
  tm_is_deleted :: bool

record output_tag_map =
  om_created_at :: ts
  om_updated_at :: ts
  om_output_tag_id :: int
  om_output_id :: int
  om_is_deleted :: bool

record certificate =
  ce_created_at :: ts
  ce_updated_at :: ts
  ce_certificate_id :: int
  ce_user_id :: int
  ce_cert_type :: string
  ce_serial_number :: string
  ce_certifier :: string
  ce_subject :: string
  ce_verifier :: "string option"
  ce_revocation_outpoint :: string
  ce_signature :: string
  ce_is_deleted :: bool

record certificate_field =
  cf_created_at :: ts
  cf_updated_at :: ts
  cf_user_id :: int
  cf_certificate_id :: int
  cf_field_name :: string
  cf_field_value :: string
  cf_master_key :: string

record commission =
  co_created_at :: ts
  co_updated_at :: ts
  co_commission_id :: int
  co_user_id :: int
  co_transaction_id :: int
  co_satoshis :: int
  co_key_offset :: string
  co_is_redeemed :: bool
  co_locking_script :: "u8 list"

record proven_tx_req =
  pr_created_at :: ts
  pr_updated_at :: ts
  pr_proven_tx_req_id :: int
  pr_proven_tx_id :: "int option"
  pr_status :: proven_tx_req_status
  pr_attempts :: int
  pr_notified :: bool
  pr_txid :: string
  pr_batch :: "string option"
  pr_history :: string
  pr_notify :: string
  pr_raw_tx :: "u8 list"
  pr_input_beef :: "u8 list option"

section \<open>The database\<close>

record database =
  db_users :: "user table"
  db_proven_txs :: "proven_tx table"
  db_output_baskets :: "output_basket table"
  db_tx_labels :: "tx_label table"
  db_output_tags :: "output_tag table"
  db_transactions :: "transaction table"
  db_outputs :: "output_row table"
  db_tx_label_maps :: "tx_label_map table"
  db_output_tag_maps :: "output_tag_map table"
  db_certificates :: "certificate table"
  db_certificate_fields :: "certificate_field table"
  db_commissions :: "commission table"
  db_proven_tx_reqs :: "proven_tx_req table"

definition empty_database :: database where
  "empty_database = \<lparr>db_users = empty_table,
     db_proven_txs = empty_table,
     db_output_baskets = empty_table,
     db_tx_labels = empty_table,
     db_output_tags = empty_table,
     db_transactions = empty_table,
     db_outputs = empty_table,
     db_tx_label_maps = empty_table,
     db_output_tag_maps = empty_table,
     db_certificates = empty_table,
     db_certificate_fields = empty_table,
     db_commissions = empty_table,
     db_proven_tx_reqs = empty_table\<rparr>"

text \<open>Identifier columns, \<open>UNIQUE\<close> keys and \<open>REFERENCES\<close> clauses of the schema.\<close>

definition user_key :: "user \<Rightarrow> string" where
  "user_key r = us_identity_key r"

definition proven_tx_key :: "proven_tx \<Rightarrow> string" where
  "proven_tx_key r = pt_txid r"

definition output_basket_key :: "output_basket \<Rightarrow> string \<times> int" where
  "output_basket_key r = (ob_name r, ob_user_id r)"

definition output_basket_refs :: "database \<Rightarrow> output_basket \<Rightarrow> bool" where
  "output_basket_refs db r \<longleftrightarrow>
     refers us_user_id (db_users db) (ob_user_id r)"

definition tx_label_key :: "tx_label \<Rightarrow> string \<times> int" where
  "tx_label_key r = (tl_label r, tl_user_id r)"

definition tx_label_refs :: "database \<Rightarrow> tx_label \<Rightarrow> bool" where
  "tx_label_refs db r \<longleftrightarrow>
     refers us_user_id (db_users db) (tl_user_id r)"

definition output_tag_key :: "output_tag \<Rightarrow> string \<times> int" where
  "output_tag_key r = (ot_tag r, ot_user_id r)"

definition output_tag_refs :: "database \<Rightarrow> output_tag \<Rightarrow> bool" where
  "output_tag_refs db r \<longleftrightarrow>
     refers us_user_id (db_users db) (ot_user_id r)"

definition transaction_key :: "transaction \<Rightarrow> string" where
  "transaction_key r = tx_reference r"

definition transaction_refs :: "database \<Rightarrow> transaction \<Rightarrow> bool" where
  "transaction_refs db r \<longleftrightarrow>
     refers us_user_id (db_users db) (tx_user_id r) \<and>
     refers_null pt_proven_tx_id (db_proven_txs db) (tx_proven_tx_id r)"

definition output_key :: "output_row \<Rightarrow> int \<times> int \<times> int" where
  "output_key r = (ou_transaction_id r, ou_vout r, ou_user_id r)"

definition output_refs :: "database \<Rightarrow> output_row \<Rightarrow> bool" where
  "output_refs db r \<longleftrightarrow>
     refers us_user_id (db_users db) (ou_user_id r) \<and>
     refers tx_transaction_id (db_transactions db) (ou_transaction_id r) \<and>
     refers_null ob_basket_id (db_output_baskets db) (ou_basket_id r) \<and>
     refers_null tx_transaction_id (db_transactions db) (ou_spent_by r)"

definition tx_label_map_key :: "tx_label_map \<Rightarrow> int \<times> int" where
  "tx_label_map_key r = (tm_tx_label_id r, tm_transaction_id r)"

definition tx_label_map_refs :: "database \<Rightarrow> tx_label_map \<Rightarrow> bool" where
  "tx_label_map_refs db r \<longleftrightarrow>
     refers tl_tx_label_id (db_tx_labels db) (tm_tx_label_id r) \<and>
     refers tx_transaction_id (db_transactions db) (tm_transaction_id r)"

definition output_tag_map_key :: "output_tag_map \<Rightarrow> int \<times> int" where
  "output_tag_map_key r = (om_output_tag_id r, om_output_id r)"

definition output_tag_map_refs :: "database \<Rightarrow> output_tag_map \<Rightarrow> bool" where
  "output_tag_map_refs db r \<longleftrightarrow>
     refers ot_output_tag_id (db_output_tags db) (om_output_tag_id r) \<and>
     refers ou_output_id (db_outputs db) (om_output_id r)"

definition certificate_key :: "certificate \<Rightarrow> int \<times> string \<times> string \<times> string" where
  "certificate_key r = (ce_user_id r, ce_cert_type r, ce_certifier r, ce_serial_number r)"

definition certificate_refs :: "database \<Rightarrow> certificate \<Rightarrow> bool" where
  "certificate_refs db r \<longleftrightarrow>
     refers us_user_id (db_users db) (ce_user_id r)"

definition certificate_field_key :: "certificate_field \<Rightarrow> string \<times> int" where
  "certificate_field_key r = (cf_field_name r, cf_certificate_id r)"

definition certificate_field_refs :: "database \<Rightarrow> certificate_field \<Rightarrow> bool" where
  "certificate_field_refs db r \<longleftrightarrow>
     refers us_user_id (db_users db) (cf_user_id r) \<and>
     refers ce_certificate_id (db_certificates db) (cf_certificate_id r)"

definition commission_key :: "commission \<Rightarrow> int" where
  "commission_key r = co_transaction_id r"

definition commission_refs :: "database \<Rightarrow> commission \<Rightarrow> bool" where
  "commission_refs db r \<longleftrightarrow>
     refers us_user_id (db_users db) (co_user_id r) \<and>
     refers tx_transaction_id (db_transactions db) (co_transaction_id r)"

definition proven_tx_req_key :: "proven_tx_req \<Rightarrow> string" where
  "proven_tx_req_key r = pr_txid r"

definition proven_tx_req_refs :: "database \<Rightarrow> proven_tx_req \<Rightarrow> bool" where
  "proven_tx_req_refs db r \<longleftrightarrow>
     refers_null pt_proven_tx_id (db_proven_txs db) (pr_proven_tx_id r)"

section \<open>Users\<close>

record user_partial =
  usp_user_id :: "int option"
  usp_identity_key :: "string option"
  usp_active_storage :: "string option"
  usp_updated_at :: "ts option"

definition user_partial_default :: user_partial where
  "user_partial_default = \<lparr>usp_user_id = None, usp_identity_key = None,
     usp_active_storage = None, usp_updated_at = None\<rparr>"

record find_users_args =
  usa_partial :: user_partial
  usa_since :: "ts option"
  usa_paged :: "paged option"

definition find_users_default :: find_users_args where
  "find_users_default = \<lparr>usa_partial = user_partial_default, usa_since = None,
     usa_paged = None\<rparr>"

definition users_where :: "find_users_args \<Rightarrow> user \<Rightarrow> bool" where
  "users_where a r \<longleftrightarrow>
     where_eq (usp_user_id (usa_partial a)) (us_user_id r) \<and>
     where_eq (usp_identity_key (usa_partial a)) (us_identity_key r) \<and>
     where_eq (usp_active_storage (usa_partial a)) (us_active_storage r) \<and>
     where_since (usa_since a) (us_updated_at r)"

definition find_users :: "find_users_args \<Rightarrow> database \<Rightarrow> user list" where
  "find_users a db =
     ordered_page (usa_paged a) us_user_id
       (filter (users_where a) (tb_rows (db_users db)))"

definition insert_user :: "user \<Rightarrow> database \<Rightarrow> (database \<times> int) wallet_result" where
  "insert_user r db =
     bind_result (insert_row us_user_id_update user_key (\<lambda>r. True)
         (r\<lparr>us_created_at := secs (us_created_at r),
           us_updated_at := secs (us_updated_at r)\<rparr>) (db_users db))
       (\<lambda>(t, i). Ok (db\<lparr>db_users := t\<rparr>, i))"

definition apply_user :: "ts \<Rightarrow> user_partial \<Rightarrow> user \<Rightarrow> user" where
  "apply_user now p r =
     r\<lparr>us_identity_key := set_col (usp_identity_key p) (us_identity_key r),
       us_active_storage := set_col (usp_active_storage p) (us_active_storage r),
       us_updated_at := touch now (usp_updated_at p)\<rparr>"

definition update_user ::
  "ts \<Rightarrow> int \<Rightarrow> user_partial \<Rightarrow> database \<Rightarrow> (database \<times> int) wallet_result" where
  "update_user now i p db =
     bind_result (update_rows (\<lambda>r. us_user_id r = i) (apply_user now p)
         user_key (\<lambda>r. True) (db_users db))
       (\<lambda>(t, n). Ok (db\<lparr>db_users := t\<rparr>, n))"

section \<open>Proven transactions\<close>

record proven_tx_partial =
  ptp_proven_tx_id :: "int option"
  ptp_txid :: "string option"
  ptp_height :: "int option"
  ptp_block_hash :: "string option"
  ptp_updated_at :: "ts option"

definition proven_tx_partial_default :: proven_tx_partial where
  "proven_tx_partial_default = \<lparr>ptp_proven_tx_id = None, ptp_txid = None, ptp_height = None,
     ptp_block_hash = None, ptp_updated_at = None\<rparr>"

record find_proven_txs_args =
  pta_partial :: proven_tx_partial
  pta_since :: "ts option"
  pta_paged :: "paged option"

definition find_proven_txs_default :: find_proven_txs_args where
  "find_proven_txs_default = \<lparr>pta_partial = proven_tx_partial_default, pta_since = None,
     pta_paged = None\<rparr>"

definition proven_txs_where :: "find_proven_txs_args \<Rightarrow> proven_tx \<Rightarrow> bool" where
  "proven_txs_where a r \<longleftrightarrow>
     where_eq (ptp_proven_tx_id (pta_partial a)) (pt_proven_tx_id r) \<and>
     where_eq (ptp_txid (pta_partial a)) (pt_txid r) \<and>
     where_eq (ptp_height (pta_partial a)) (pt_height r) \<and>
     where_eq (ptp_block_hash (pta_partial a)) (pt_block_hash r) \<and>
     where_since (pta_since a) (pt_updated_at r)"

definition find_proven_txs :: "find_proven_txs_args \<Rightarrow> database \<Rightarrow> proven_tx list" where
  "find_proven_txs a db =
     ordered_page (pta_paged a) pt_proven_tx_id
       (filter (proven_txs_where a) (tb_rows (db_proven_txs db)))"

definition insert_proven_tx :: "proven_tx \<Rightarrow> database \<Rightarrow> (database \<times> int) wallet_result" where
  "insert_proven_tx r db =
     bind_result (insert_row pt_proven_tx_id_update proven_tx_key (\<lambda>r. True)
         (r\<lparr>pt_created_at := secs (pt_created_at r),
           pt_updated_at := secs (pt_updated_at r)\<rparr>) (db_proven_txs db))
       (\<lambda>(t, i). Ok (db\<lparr>db_proven_txs := t\<rparr>, i))"

definition apply_proven_tx :: "ts \<Rightarrow> proven_tx_partial \<Rightarrow> proven_tx \<Rightarrow> proven_tx" where
  "apply_proven_tx now p r =
     r\<lparr>pt_txid := set_col (ptp_txid p) (pt_txid r),
       pt_height := set_col (ptp_height p) (pt_height r),
       pt_block_hash := set_col (ptp_block_hash p) (pt_block_hash r),
       pt_updated_at := touch now (ptp_updated_at p)\<rparr>"

definition update_proven_tx ::
  "ts \<Rightarrow> int \<Rightarrow> proven_tx_partial \<Rightarrow> database \<Rightarrow> (database \<times> int) wallet_result" where
  "update_proven_tx now i p db =
     bind_result (update_rows (\<lambda>r. pt_proven_tx_id r = i) (apply_proven_tx now p)
         proven_tx_key (\<lambda>r. True) (db_proven_txs db))
       (\<lambda>(t, n). Ok (db\<lparr>db_proven_txs := t\<rparr>, n))"

section \<open>Output baskets\<close>

record output_basket_partial =
  obp_basket_id :: "int option"
  obp_user_id :: "int option"
  obp_name :: "string option"
  obp_is_deleted :: "bool option"
  obp_number_of_desired_utxos :: "int option"
  obp_minimum_desired_utxo_value :: "int option"
  obp_updated_at :: "ts option"

definition output_basket_partial_default :: output_basket_partial where
  "output_basket_partial_default = \<lparr>obp_basket_id = None, obp_user_id = None,
     obp_name = None, obp_is_deleted = None, obp_number_of_desired_utxos = None,
     obp_minimum_desired_utxo_value = None, obp_updated_at = None\<rparr>"

record find_output_baskets_args =
  oba_partial :: output_basket_partial
  oba_since :: "ts option"
  oba_paged :: "paged option"

definition find_output_baskets_default :: find_output_baskets_args where
  "find_output_baskets_default = \<lparr>oba_partial = output_basket_partial_default,
     oba_since = None, oba_paged = None\<rparr>"

definition output_baskets_where :: "find_output_baskets_args \<Rightarrow> output_basket \<Rightarrow> bool" where
  "output_baskets_where a r \<longleftrightarrow>
     where_eq (obp_basket_id (oba_partial a)) (ob_basket_id r) \<and>
     where_eq (obp_user_id (oba_partial a)) (ob_user_id r) \<and>
     where_eq (obp_name (oba_partial a)) (ob_name r) \<and>
     where_eq (obp_is_deleted (oba_partial a)) (ob_is_deleted r) \<and>
     where_since (oba_since a) (ob_updated_at r)"

definition find_output_baskets :: "find_output_baskets_args \<Rightarrow> database \<Rightarrow> output_basket list" where
  "find_output_baskets a db =
     ordered_page (oba_paged a) ob_basket_id
       (filter (output_baskets_where a) (tb_rows (db_output_baskets db)))"

definition insert_output_basket :: "output_basket \<Rightarrow> database \<Rightarrow> (database \<times> int) wallet_result" where
  "insert_output_basket r db =
     bind_result (insert_row ob_basket_id_update output_basket_key (output_basket_refs db)
         (r\<lparr>ob_created_at := secs (ob_created_at r),
           ob_updated_at := secs (ob_updated_at r)\<rparr>) (db_output_baskets db))
       (\<lambda>(t, i). Ok (db\<lparr>db_output_baskets := t\<rparr>, i))"

definition apply_output_basket :: "ts \<Rightarrow> output_basket_partial \<Rightarrow> output_basket \<Rightarrow> output_basket" where
  "apply_output_basket now p r =
     r\<lparr>ob_user_id := set_col (obp_user_id p) (ob_user_id r),
       ob_name := set_col (obp_name p) (ob_name r),
       ob_is_deleted := set_col (obp_is_deleted p) (ob_is_deleted r),
       ob_number_of_desired_utxos := set_col (obp_number_of_desired_utxos p) (ob_number_of_desired_utxos r),
       ob_minimum_desired_utxo_value := set_col (obp_minimum_desired_utxo_value p) (ob_minimum_desired_utxo_value r),
       ob_updated_at := touch now (obp_updated_at p)\<rparr>"

definition update_output_basket ::
  "ts \<Rightarrow> int \<Rightarrow> output_basket_partial \<Rightarrow> database \<Rightarrow> (database \<times> int) wallet_result" where
  "update_output_basket now i p db =
     bind_result (update_rows (\<lambda>r. ob_basket_id r = i) (apply_output_basket now p)
         output_basket_key (output_basket_refs db) (db_output_baskets db))
       (\<lambda>(t, n). Ok (db\<lparr>db_output_baskets := t\<rparr>, n))"

section \<open>Transaction labels\<close>

record tx_label_partial =
  tlp_tx_label_id :: "int option"
  tlp_user_id :: "int option"
  tlp_label :: "string option"
  tlp_is_deleted :: "bool option"
  tlp_updated_at :: "ts option"

definition tx_label_partial_default :: tx_label_partial where
  "tx_label_partial_default = \<lparr>tlp_tx_label_id = None, tlp_user_id = None, tlp_label = None,
     tlp_is_deleted = None, tlp_updated_at = None\<rparr>"

record find_tx_labels_args =
  tla_partial :: tx_label_partial
  tla_tx_label_ids :: "int list option"
  tla_labels :: "string list option"
  tla_since :: "ts option"
  tla_paged :: "paged option"

definition find_tx_labels_default :: find_tx_labels_args where
  "find_tx_labels_default = \<lparr>tla_partial = tx_label_partial_default,
     tla_tx_label_ids = None, tla_labels = None, tla_since = None, tla_paged = None\<rparr>"

definition tx_labels_where :: "find_tx_labels_args \<Rightarrow> tx_label \<Rightarrow> bool" where
  "tx_labels_where a r \<longleftrightarrow>
     where_eq (tlp_tx_label_id (tla_partial a)) (tl_tx_label_id r) \<and>
     where_in (tla_tx_label_ids a) (tl_tx_label_id r) \<and>
     where_in (tla_labels a) (tl_label r) \<and>
     where_eq (tlp_user_id (tla_partial a)) (tl_user_id r) \<and>
     where_eq (tlp_label (tla_partial a)) (tl_label r) \<and>
     where_eq (tlp_is_deleted (tla_partial a)) (tl_is_deleted r) \<and>
     where_since (tla_since a) (tl_updated_at r)"

definition find_tx_labels :: "find_tx_labels_args \<Rightarrow> database \<Rightarrow> tx_label list" where
  "find_tx_labels a db =
     ordered_page (tla_paged a) tl_tx_label_id
       (filter (tx_labels_where a) (tb_rows (db_tx_labels db)))"

definition insert_tx_label :: "tx_label \<Rightarrow> database \<Rightarrow> (database \<times> int) wallet_result" where
  "insert_tx_label r db =
     bind_result (insert_row tl_tx_label_id_update tx_label_key (tx_label_refs db)
         (r\<lparr>tl_created_at := secs (tl_created_at r),
           tl_updated_at := secs (tl_updated_at r)\<rparr>) (db_tx_labels db))
       (\<lambda>(t, i). Ok (db\<lparr>db_tx_labels := t\<rparr>, i))"

definition apply_tx_label :: "ts \<Rightarrow> tx_label_partial \<Rightarrow> tx_label \<Rightarrow> tx_label" where
  "apply_tx_label now p r =
     r\<lparr>tl_user_id := set_col (tlp_user_id p) (tl_user_id r),
       tl_label := set_col (tlp_label p) (tl_label r),
       tl_is_deleted := set_col (tlp_is_deleted p) (tl_is_deleted r),
       tl_updated_at := touch now (tlp_updated_at p)\<rparr>"

definition update_tx_label ::
  "ts \<Rightarrow> int \<Rightarrow> tx_label_partial \<Rightarrow> database \<Rightarrow> (database \<times> int) wallet_result" where
  "update_tx_label now i p db =
     bind_result (update_rows (\<lambda>r. tl_tx_label_id r = i) (apply_tx_label now p)
         tx_label_key (tx_label_refs db) (db_tx_labels db))
       (\<lambda>(t, n). Ok (db\<lparr>db_tx_labels := t\<rparr>, n))"

section \<open>Output tags\<close>

record output_tag_partial =
  otp_output_tag_id :: "int option"
  otp_user_id :: "int option"
  otp_tag :: "string option"
  otp_is_deleted :: "bool option"
  otp_updated_at :: "ts option"

definition output_tag_partial_default :: output_tag_partial where
  "output_tag_partial_default = \<lparr>otp_output_tag_id = None, otp_user_id = None,
     otp_tag = None, otp_is_deleted = None, otp_updated_at = None\<rparr>"

record find_output_tags_args =
  ota_partial :: output_tag_partial
  ota_since :: "ts option"
  ota_paged :: "paged option"

definition find_output_tags_default :: find_output_tags_args where
  "find_output_tags_default = \<lparr>ota_partial = output_tag_partial_default, ota_since = None,
     ota_paged = None\<rparr>"

definition output_tags_where :: "find_output_tags_args \<Rightarrow> output_tag \<Rightarrow> bool" where
  "output_tags_where a r \<longleftrightarrow>
     where_eq (otp_output_tag_id (ota_partial a)) (ot_output_tag_id r) \<and>
     where_eq (otp_user_id (ota_partial a)) (ot_user_id r) \<and>
     where_eq (otp_tag (ota_partial a)) (ot_tag r) \<and>
     where_eq (otp_is_deleted (ota_partial a)) (ot_is_deleted r) \<and>
     where_since (ota_since a) (ot_updated_at r)"

definition find_output_tags :: "find_output_tags_args \<Rightarrow> database \<Rightarrow> output_tag list" where
  "find_output_tags a db =
     ordered_page (ota_paged a) ot_output_tag_id
       (filter (output_tags_where a) (tb_rows (db_output_tags db)))"

definition insert_output_tag :: "output_tag \<Rightarrow> database \<Rightarrow> (database \<times> int) wallet_result" where
  "insert_output_tag r db =
     bind_result (insert_row ot_output_tag_id_update output_tag_key (output_tag_refs db)
         (r\<lparr>ot_created_at := secs (ot_created_at r),
           ot_updated_at := secs (ot_updated_at r)\<rparr>) (db_output_tags db))
       (\<lambda>(t, i). Ok (db\<lparr>db_output_tags := t\<rparr>, i))"

definition apply_output_tag :: "ts \<Rightarrow> output_tag_partial \<Rightarrow> output_tag \<Rightarrow> output_tag" where
  "apply_output_tag now p r =
     r\<lparr>ot_user_id := set_col (otp_user_id p) (ot_user_id r),
       ot_tag := set_col (otp_tag p) (ot_tag r),
       ot_is_deleted := set_col (otp_is_deleted p) (ot_is_deleted r),
       ot_updated_at := touch now (otp_updated_at p)\<rparr>"

definition update_output_tag ::
  "ts \<Rightarrow> int \<Rightarrow> output_tag_partial \<Rightarrow> database \<Rightarrow> (database \<times> int) wallet_result" where
  "update_output_tag now i p db =
     bind_result (update_rows (\<lambda>r. ot_output_tag_id r = i) (apply_output_tag now p)
         output_tag_key (output_tag_refs db) (db_output_tags db))
       (\<lambda>(t, n). Ok (db\<lparr>db_output_tags := t\<rparr>, n))"

section \<open>Transactions\<close>

record transaction_partial =
  txp_transaction_id :: "int option"
  txp_user_id :: "int option"
  txp_proven_tx_id :: "int option"
  txp_status :: "transaction_status option"
  txp_reference :: "string option"
  txp_is_outgoing :: "bool option"
  txp_txid :: "string option"
  txp_raw_tx :: "u8 list option"
  txp_version :: "int option"
  txp_lock_time :: "int option"
  txp_satoshis :: "int option"
  txp_description :: "string option"
  txp_input_beef :: "u8 list option"
  txp_updated_at :: "ts option"

definition transaction_partial_default :: transaction_partial where
  "transaction_partial_default = \<lparr>txp_transaction_id = None, txp_user_id = None,
     txp_proven_tx_id = None, txp_status = None, txp_reference = None, txp_is_outgoing = None,
     txp_txid = None, txp_raw_tx = None, txp_version = None, txp_lock_time = None,
     txp_satoshis = None, txp_description = None, txp_input_beef = None,
     txp_updated_at = None\<rparr>"

record find_transactions_args =
  txa_partial :: transaction_partial
  txa_since :: "ts option"
  txa_paged :: "paged option"
  txa_status :: "transaction_status list option"
  txa_no_raw_tx :: bool

definition find_transactions_default :: find_transactions_args where
  "find_transactions_default = \<lparr>txa_partial = transaction_partial_default, txa_since = None,
     txa_paged = None, txa_status = None, txa_no_raw_tx = False\<rparr>"

definition transactions_where :: "find_transactions_args \<Rightarrow> transaction \<Rightarrow> bool" where
  "transactions_where a r \<longleftrightarrow>
     where_eq (txp_transaction_id (txa_partial a)) (tx_transaction_id r) \<and>
     where_eq (txp_user_id (txa_partial a)) (tx_user_id r) \<and>
     where_eq_null (txp_proven_tx_id (txa_partial a)) (tx_proven_tx_id r) \<and>
     (if txa_status a \<noteq> None then where_in (txa_status a) (tx_status r) else where_eq (txp_status (txa_partial a)) (tx_status r)) \<and>
     where_eq (txp_reference (txa_partial a)) (tx_reference r) \<and>
     where_eq (txp_is_outgoing (txa_partial a)) (tx_is_outgoing r) \<and>
     where_eq_null (txp_txid (txa_partial a)) (tx_txid r) \<and>
     where_since (txa_since a) (tx_updated_at r)"

definition find_transactions :: "find_transactions_args \<Rightarrow> database \<Rightarrow> transaction list" where
  "find_transactions a db =
     ordered_page (txa_paged a) tx_transaction_id
       (filter (transactions_where a) (tb_rows (db_transactions db)))"

definition insert_transaction :: "transaction \<Rightarrow> database \<Rightarrow> (database \<times> int) wallet_result" where
  "insert_transaction r db =
     bind_result (insert_row tx_transaction_id_update transaction_key (transaction_refs db)
         (r\<lparr>tx_created_at := secs (tx_created_at r),
           tx_updated_at := secs (tx_updated_at r)\<rparr>) (db_transactions db))
       (\<lambda>(t, i). Ok (db\<lparr>db_transactions := t\<rparr>, i))"

definition apply_transaction :: "ts \<Rightarrow> transaction_partial \<Rightarrow> transaction \<Rightarrow> transaction" where
  "apply_transaction now p r =
     r\<lparr>tx_user_id := set_col (txp_user_id p) (tx_user_id r),
       tx_proven_tx_id := set_null (txp_proven_tx_id p) (tx_proven_tx_id r),
       tx_status := set_col (txp_status p) (tx_status r),
       tx_reference := set_col (txp_reference p) (tx_reference r),
       tx_is_outgoing := set_col (txp_is_outgoing p) (tx_is_outgoing r),
       tx_txid := set_null (txp_txid p) (tx_txid r),
       tx_raw_tx := set_null (txp_raw_tx p) (tx_raw_tx r),
       tx_version := set_null (txp_version p) (tx_version r),
       tx_lock_time := set_null (txp_lock_time p) (tx_lock_time r),
       tx_satoshis := set_col (txp_satoshis p) (tx_satoshis r),
       tx_description := set_col (txp_description p) (tx_description r),
       tx_input_beef := set_null (txp_input_beef p) (tx_input_beef r),
       tx_updated_at := touch now (txp_updated_at p)\<rparr>"

definition update_transaction ::
  "ts \<Rightarrow> int \<Rightarrow> transaction_partial \<Rightarrow> database \<Rightarrow> (database \<times> int) wallet_result" where
  "update_transaction now i p db =
     bind_result (update_rows (\<lambda>r. tx_transaction_id r = i) (apply_transaction now p)
         transaction_key (transaction_refs db) (db_transactions db))
       (\<lambda>(t, n). Ok (db\<lparr>db_transactions := t\<rparr>, n))"

section \<open>Outputs\<close>

record output_partial =
  oup_output_id :: "int option"
  oup_user_id :: "int option"
  oup_transaction_id :: "int option"
  oup_basket_id :: "int option"
  oup_spendable :: "bool option"
  oup_change :: "bool option"
  oup_vout :: "int option"
  oup_satoshis :: "int option"
  oup_provided_by :: "storage_provided_by option"
  oup_purpose :: "string option"
  oup_output_type :: "string option"
  oup_txid :: "string option"
  oup_sender_identity_key :: "string option"
  oup_spent_by :: "int option"
  oup_output_description :: "string option"
  oup_spending_description :: "string option"
  oup_custom_instructions :: "string option"
  oup_script_length :: "int option"
  oup_script_offset :: "int option"
  oup_locking_script :: "u8 list option"
  oup_updated_at :: "ts option"

definition output_partial_default :: output_partial where
  "output_partial_default = \<lparr>oup_output_id = None, oup_user_id = None,
     oup_transaction_id = None, oup_basket_id = None, oup_spendable = None, oup_change = None,
     oup_vout = None, oup_satoshis = None, oup_provided_by = None, oup_purpose = None,
     oup_output_type = None, oup_txid = None, oup_sender_identity_key = None, oup_spent_by = None,
     oup_output_description = None, oup_spending_description = None,
     oup_custom_instructions = None, oup_script_length = None, oup_script_offset = None,
     oup_locking_script = None, oup_updated_at = None\<rparr>"

record find_outputs_args =
  oua_partial :: output_partial
  oua_transaction_ids :: "int list option"
  oua_spent_by_ids :: "int list option"
  oua_since :: "ts option"
  oua_paged :: "paged option"
  oua_for_update :: bool
  oua_tx_status :: "transaction_status list option"
  oua_no_script :: bool
  oua_include_basket :: bool
  oua_include_tags :: bool

definition find_outputs_default :: find_outputs_args where
  "find_outputs_default = \<lparr>oua_partial = output_partial_default, oua_transaction_ids = None,
     oua_spent_by_ids = None, oua_since = None, oua_paged = None, oua_for_update = False,
     oua_tx_status = None, oua_no_script = False, oua_include_basket = False,
     oua_include_tags = False\<rparr>"

definition outputs_where :: "database \<Rightarrow> find_outputs_args \<Rightarrow> output_row \<Rightarrow> bool" where
  "outputs_where db a r \<longleftrightarrow>
     where_eq (oup_output_id (oua_partial a)) (ou_output_id r) \<and>
     where_eq (oup_user_id (oua_partial a)) (ou_user_id r) \<and>
     where_eq (oup_transaction_id (oua_partial a)) (ou_transaction_id r) \<and>
     where_in (oua_transaction_ids a) (ou_transaction_id r) \<and>
     where_eq_null (oup_basket_id (oua_partial a)) (ou_basket_id r) \<and>
     where_eq (oup_spendable (oua_partial a)) (ou_spendable r) \<and>
     where_eq (oup_change (oua_partial a)) (ou_change r) \<and>
     where_eq (oup_vout (oua_partial a)) (ou_vout r) \<and>
     where_eq (oup_satoshis (oua_partial a)) (ou_satoshis r) \<and>
     where_eq (oup_provided_by (oua_partial a)) (ou_provided_by r) \<and>
     where_eq (oup_purpose (oua_partial a)) (ou_purpose r) \<and>
     where_eq (oup_output_type (oua_partial a)) (ou_output_type r) \<and>
     where_eq_null (oup_txid (oua_partial a)) (ou_txid r) \<and>
     where_eq_null (oup_sender_identity_key (oua_partial a)) (ou_sender_identity_key r) \<and>
     where_eq_null (oup_spent_by (oua_partial a)) (ou_spent_by r) \<and>
     where_in_null (oua_spent_by_ids a) (ou_spent_by r) \<and>
     where_eq_null (oup_output_description (oua_partial a)) (ou_output_description r) \<and>
     where_eq_null (oup_spending_description (oua_partial a)) (ou_spending_description r) \<and>
     where_eq_null (oup_custom_instructions (oua_partial a)) (ou_custom_instructions r) \<and>
     where_eq_null (oup_script_length (oua_partial a)) (ou_script_length r) \<and>
     where_eq_null (oup_script_offset (oua_partial a)) (ou_script_offset r) \<and>
     where_in_null (oua_tx_status a)
       (map_option tx_status (find_row tx_transaction_id (db_transactions db) (ou_transaction_id r))) \<and>
     where_since (oua_since a) (ou_updated_at r)"

definition find_outputs :: "bool \<Rightarrow> find_outputs_args \<Rightarrow> database \<Rightarrow> output_row list wallet_result" where
  "find_outputs trx a db =
     (if oua_for_update a \<and> \<not> trx then
        Err (InvalidParameter ''trx'' ''supplied when args.forUpdate is true'')
      else if oua_for_update a \<and> oua_paged a \<noteq> None then
        Err (InvalidParameter ''args.paged''
          (''undefined when args.forUpdate is true; SKIP LOCKED cannot be combined '' @
           ''with OFFSET pagination''))
      else if oup_locking_script (oua_partial a) \<noteq> None then
        Err (InvalidParameter ''args.partial.lockingScript''
          ''undefined. Outputs may not be found by lockingScript value.'')
      else
        (let rows = filter (outputs_where db a) (tb_rows (db_outputs db));
             rows = (if oua_no_script a then map (\<lambda>r. r\<lparr>ou_locking_script := None\<rparr>) rows else rows)
         in Ok (if oua_paged a = None \<and> oua_transaction_ids a \<noteq> None then sort_key ou_vout rows
                else ordered_page (oua_paged a) ou_output_id rows)))"

definition insert_output :: "output_row \<Rightarrow> database \<Rightarrow> (database \<times> int) wallet_result" where
  "insert_output r db =
     bind_result (insert_row ou_output_id_update output_key (output_refs db)
         (r\<lparr>ou_created_at := secs (ou_created_at r),
           ou_updated_at := secs (ou_updated_at r)\<rparr>) (db_outputs db))
       (\<lambda>(t, i). Ok (db\<lparr>db_outputs := t\<rparr>, i))"

definition apply_output :: "ts \<Rightarrow> output_partial \<Rightarrow> output_row \<Rightarrow> output_row" where
  "apply_output now p r =
     r\<lparr>ou_user_id := set_col (oup_user_id p) (ou_user_id r),
       ou_transaction_id := set_col (oup_transaction_id p) (ou_transaction_id r),
       ou_basket_id := set_or_clear (oup_basket_id p) (ou_basket_id r),
       ou_spendable := set_col (oup_spendable p) (ou_spendable r),
       ou_change := set_col (oup_change p) (ou_change r),
       ou_vout := set_col (oup_vout p) (ou_vout r),
       ou_satoshis := set_col (oup_satoshis p) (ou_satoshis r),
       ou_provided_by := set_col (oup_provided_by p) (ou_provided_by r),
       ou_purpose := set_col (oup_purpose p) (ou_purpose r),
       ou_output_type := set_col (oup_output_type p) (ou_output_type r),
       ou_txid := set_null (oup_txid p) (ou_txid r),
       ou_sender_identity_key := set_null (oup_sender_identity_key p) (ou_sender_identity_key r),
       ou_spent_by := if oup_spendable p = Some True then None
          else set_or_clear (oup_spent_by p) (ou_spent_by r),
       ou_output_description := set_null (oup_output_description p) (ou_output_description r),
       ou_spending_description := set_null (oup_spending_description p) (ou_spending_description r),
       ou_custom_instructions := set_null (oup_custom_instructions p) (ou_custom_instructions r),
       ou_script_length := set_null (oup_script_length p) (ou_script_length r),
       ou_script_offset := set_null (oup_script_offset p) (ou_script_offset r),
       ou_locking_script := set_null (oup_locking_script p) (ou_locking_script r),
       ou_updated_at := touch now (oup_updated_at p)\<rparr>"

definition update_output ::
  "ts \<Rightarrow> int \<Rightarrow> output_partial \<Rightarrow> database \<Rightarrow> (database \<times> int) wallet_result" where
  "update_output now i p db =
     bind_result (update_rows (\<lambda>r. ou_output_id r = i) (apply_output now p)
         output_key (output_refs db) (db_outputs db))
       (\<lambda>(t, n). Ok (db\<lparr>db_outputs := t\<rparr>, n))"

section \<open>Label maps\<close>

record tx_label_map_partial =
  tmp_tx_label_id :: "int option"
  tmp_transaction_id :: "int option"
  tmp_is_deleted :: "bool option"
  tmp_updated_at :: "ts option"

definition tx_label_map_partial_default :: tx_label_map_partial where
  "tx_label_map_partial_default = \<lparr>tmp_tx_label_id = None, tmp_transaction_id = None,
     tmp_is_deleted = None, tmp_updated_at = None\<rparr>"

record find_tx_label_maps_args =
  tma_partial :: tx_label_map_partial
  tma_transaction_ids :: "int list option"
  tma_since :: "ts option"
  tma_paged :: "paged option"

definition find_tx_label_maps_default :: find_tx_label_maps_args where
  "find_tx_label_maps_default = \<lparr>tma_partial = tx_label_map_partial_default,
     tma_transaction_ids = None, tma_since = None, tma_paged = None\<rparr>"

definition tx_label_maps_where :: "find_tx_label_maps_args \<Rightarrow> tx_label_map \<Rightarrow> bool" where
  "tx_label_maps_where a r \<longleftrightarrow>
     where_eq (tmp_tx_label_id (tma_partial a)) (tm_tx_label_id r) \<and>
     where_eq (tmp_transaction_id (tma_partial a)) (tm_transaction_id r) \<and>
     where_in (tma_transaction_ids a) (tm_transaction_id r) \<and>
     where_eq (tmp_is_deleted (tma_partial a)) (tm_is_deleted r) \<and>
     where_since (tma_since a) (tm_updated_at r)"

definition find_tx_label_maps :: "find_tx_label_maps_args \<Rightarrow> database \<Rightarrow> tx_label_map list" where
  "find_tx_label_maps a db =
     ordered_page (tma_paged a) (\<lambda>r. (tm_transaction_id r, tm_tx_label_id r))
       (filter (tx_label_maps_where a) (tb_rows (db_tx_label_maps db)))"

definition insert_tx_label_map :: "tx_label_map \<Rightarrow> database \<Rightarrow> database wallet_result" where
  "insert_tx_label_map r db =
     bind_result (insert_keyed tx_label_map_key (tx_label_map_refs db)
         (r\<lparr>tm_created_at := secs (tm_created_at r),
           tm_updated_at := secs (tm_updated_at r)\<rparr>) (db_tx_label_maps db))
       (\<lambda>t. Ok (db\<lparr>db_tx_label_maps := t\<rparr>))"

definition apply_tx_label_map :: "ts \<Rightarrow> tx_label_map_partial \<Rightarrow> tx_label_map \<Rightarrow> tx_label_map" where
  "apply_tx_label_map now p r =
     r\<lparr>tm_is_deleted := set_col (tmp_is_deleted p) (tm_is_deleted r),
       tm_updated_at := touch now (tmp_updated_at p)\<rparr>"

definition update_tx_label_map ::
  "ts \<Rightarrow> int \<Rightarrow> int \<Rightarrow> tx_label_map_partial \<Rightarrow> database \<Rightarrow> (database \<times> int) wallet_result" where
  "update_tx_label_map now i j p db =
     bind_result (update_rows (\<lambda>r. tm_transaction_id r = i \<and> tm_tx_label_id r = j) (apply_tx_label_map now p)
         tx_label_map_key (tx_label_map_refs db) (db_tx_label_maps db))
       (\<lambda>(t, n). Ok (db\<lparr>db_tx_label_maps := t\<rparr>, n))"

section \<open>Tag maps\<close>

record output_tag_map_partial =
  omp_output_tag_id :: "int option"
  omp_output_id :: "int option"
  omp_is_deleted :: "bool option"
  omp_updated_at :: "ts option"

definition output_tag_map_partial_default :: output_tag_map_partial where
  "output_tag_map_partial_default = \<lparr>omp_output_tag_id = None, omp_output_id = None,
     omp_is_deleted = None, omp_updated_at = None\<rparr>"

record find_output_tag_maps_args =
  oma_partial :: output_tag_map_partial
  oma_since :: "ts option"
  oma_paged :: "paged option"

definition find_output_tag_maps_default :: find_output_tag_maps_args where
  "find_output_tag_maps_default = \<lparr>oma_partial = output_tag_map_partial_default,
     oma_since = None, oma_paged = None\<rparr>"

definition output_tag_maps_where :: "find_output_tag_maps_args \<Rightarrow> output_tag_map \<Rightarrow> bool" where
  "output_tag_maps_where a r \<longleftrightarrow>
     where_eq (omp_output_tag_id (oma_partial a)) (om_output_tag_id r) \<and>
     where_eq (omp_output_id (oma_partial a)) (om_output_id r) \<and>
     where_eq (omp_is_deleted (oma_partial a)) (om_is_deleted r) \<and>
     where_since (oma_since a) (om_updated_at r)"

definition find_output_tag_maps :: "find_output_tag_maps_args \<Rightarrow> database \<Rightarrow> output_tag_map list" where
  "find_output_tag_maps a db =
     ordered_page (oma_paged a) (\<lambda>r. (om_output_id r, om_output_tag_id r))
       (filter (output_tag_maps_where a) (tb_rows (db_output_tag_maps db)))"

definition insert_output_tag_map :: "output_tag_map \<Rightarrow> database \<Rightarrow> database wallet_result" where
  "insert_output_tag_map r db =
     bind_result (insert_keyed output_tag_map_key (output_tag_map_refs db)
         (r\<lparr>om_created_at := secs (om_created_at r),
           om_updated_at := secs (om_updated_at r)\<rparr>) (db_output_tag_maps db))
       (\<lambda>t. Ok (db\<lparr>db_output_tag_maps := t\<rparr>))"

definition apply_output_tag_map :: "ts \<Rightarrow> output_tag_map_partial \<Rightarrow> output_tag_map \<Rightarrow> output_tag_map" where
  "apply_output_tag_map now p r =
     r\<lparr>om_is_deleted := set_col (omp_is_deleted p) (om_is_deleted r),
       om_updated_at := touch now (omp_updated_at p)\<rparr>"

definition update_output_tag_map ::
  "ts \<Rightarrow> int \<Rightarrow> int \<Rightarrow> output_tag_map_partial \<Rightarrow> database \<Rightarrow> (database \<times> int) wallet_result" where
  "update_output_tag_map now i j p db =
     bind_result (update_rows (\<lambda>r. om_output_id r = i \<and> om_output_tag_id r = j) (apply_output_tag_map now p)
         output_tag_map_key (output_tag_map_refs db) (db_output_tag_maps db))
       (\<lambda>(t, n). Ok (db\<lparr>db_output_tag_maps := t\<rparr>, n))"

section \<open>Certificates\<close>

record certificate_partial =
  cep_certificate_id :: "int option"
  cep_user_id :: "int option"
  cep_cert_type :: "string option"
  cep_serial_number :: "string option"
  cep_certifier :: "string option"
  cep_subject :: "string option"
  cep_verifier :: "string option"
  cep_revocation_outpoint :: "string option"
  cep_signature :: "string option"
  cep_is_deleted :: "bool option"
  cep_updated_at :: "ts option"

definition certificate_partial_default :: certificate_partial where
  "certificate_partial_default = \<lparr>cep_certificate_id = None, cep_user_id = None,
     cep_cert_type = None, cep_serial_number = None, cep_certifier = None, cep_subject = None,
     cep_verifier = None, cep_revocation_outpoint = None, cep_signature = None,
     cep_is_deleted = None, cep_updated_at = None\<rparr>"

record find_certificates_args =
  cea_partial :: certificate_partial
  cea_since :: "ts option"
  cea_paged :: "paged option"

definition find_certificates_default :: find_certificates_args where
  "find_certificates_default = \<lparr>cea_partial = certificate_partial_default, cea_since = None,
     cea_paged = None\<rparr>"

definition certificates_where :: "find_certificates_args \<Rightarrow> certificate \<Rightarrow> bool" where
  "certificates_where a r \<longleftrightarrow>
     where_eq (cep_certificate_id (cea_partial a)) (ce_certificate_id r) \<and>
     where_eq (cep_user_id (cea_partial a)) (ce_user_id r) \<and>
     where_eq (cep_cert_type (cea_partial a)) (ce_cert_type r) \<and>
     where_eq (cep_serial_number (cea_partial a)) (ce_serial_number r) \<and>
     where_eq (cep_certifier (cea_partial a)) (ce_certifier r) \<and>
     where_eq (cep_subject (cea_partial a)) (ce_subject r) \<and>
     where_eq_null (cep_verifier (cea_partial a)) (ce_verifier r) \<and>
     where_eq (cep_revocation_outpoint (cea_partial a)) (ce_revocation_outpoint r) \<and>
     where_eq (cep_signature (cea_partial a)) (ce_signature r) \<and>
     where_eq (cep_is_deleted (cea_partial a)) (ce_is_deleted r) \<and>
     where_since (cea_since a) (ce_updated_at r)"

definition find_certificates :: "find_certificates_args \<Rightarrow> database \<Rightarrow> certificate list" where
  "find_certificates a db =
     ordered_page (cea_paged a) ce_certificate_id
       (filter (certificates_where a) (tb_rows (db_certificates db)))"

definition insert_certificate :: "certificate \<Rightarrow> database \<Rightarrow> (database \<times> int) wallet_result" where
  "insert_certificate r db =
     bind_result (insert_row ce_certificate_id_update certificate_key (certificate_refs db)
         (r\<lparr>ce_created_at := secs (ce_created_at r),
           ce_updated_at := secs (ce_updated_at r)\<rparr>) (db_certificates db))
       (\<lambda>(t, i). Ok (db\<lparr>db_certificates := t\<rparr>, i))"

definition apply_certificate :: "ts \<Rightarrow> certificate_partial \<Rightarrow> certificate \<Rightarrow> certificate" where
  "apply_certificate now p r =
     r\<lparr>ce_user_id := set_col (cep_user_id p) (ce_user_id r),
       ce_cert_type := set_col (cep_cert_type p) (ce_cert_type r),
       ce_serial_number := set_col (cep_serial_number p) (ce_serial_number r),
       ce_certifier := set_col (cep_certifier p) (ce_certifier r),
       ce_subject := set_col (cep_subject p) (ce_subject r),
       ce_verifier := set_null (cep_verifier p) (ce_verifier r),
       ce_revocation_outpoint := set_col (cep_revocation_outpoint p) (ce_revocation_outpoint r),
       ce_signature := set_col (cep_signature p) (ce_signature r),
       ce_is_deleted := set_col (cep_is_deleted p) (ce_is_deleted r),
       ce_updated_at := touch now (cep_updated_at p)\<rparr>"

definition update_certificate ::
  "ts \<Rightarrow> int \<Rightarrow> certificate_partial \<Rightarrow> database \<Rightarrow> (database \<times> int) wallet_result" where
  "update_certificate now i p db =
     bind_result (update_rows (\<lambda>r. ce_certificate_id r = i) (apply_certificate now p)
         certificate_key (certificate_refs db) (db_certificates db))
       (\<lambda>(t, n). Ok (db\<lparr>db_certificates := t\<rparr>, n))"

section \<open>Certificate fields\<close>

record certificate_field_partial =
  cfp_certificate_id :: "int option"
  cfp_user_id :: "int option"
  cfp_field_name :: "string option"
  cfp_field_value :: "string option"
  cfp_master_key :: "string option"
  cfp_updated_at :: "ts option"

definition certificate_field_partial_default :: certificate_field_partial where
  "certificate_field_partial_default = \<lparr>cfp_certificate_id = None, cfp_user_id = None,
     cfp_field_name = None, cfp_field_value = None, cfp_master_key = None,
     cfp_updated_at = None\<rparr>"

record find_certificate_fields_args =
  cfa_partial :: certificate_field_partial
  cfa_since :: "ts option"
  cfa_paged :: "paged option"

definition find_certificate_fields_default :: find_certificate_fields_args where
  "find_certificate_fields_default = \<lparr>cfa_partial = certificate_field_partial_default,
     cfa_since = None, cfa_paged = None\<rparr>"

definition certificate_fields_where :: "find_certificate_fields_args \<Rightarrow> certificate_field \<Rightarrow> bool" where
  "certificate_fields_where a r \<longleftrightarrow>
     where_eq (cfp_certificate_id (cfa_partial a)) (cf_certificate_id r) \<and>
     where_eq (cfp_user_id (cfa_partial a)) (cf_user_id r) \<and>
     where_eq (cfp_field_name (cfa_partial a)) (cf_field_name r) \<and>
     where_eq (cfp_field_value (cfa_partial a)) (cf_field_value r) \<and>
     where_eq (cfp_master_key (cfa_partial a)) (cf_master_key r) \<and>
     where_since (cfa_since a) (cf_updated_at r)"

definition find_certificate_fields :: "find_certificate_fields_args \<Rightarrow> database \<Rightarrow> certificate_field list" where
  "find_certificate_fields a db =
     ordered_page (cfa_paged a) (\<lambda>r. (cf_certificate_id r, cf_field_name r))
       (filter (certificate_fields_where a) (tb_rows (db_certificate_fields db)))"

definition insert_certificate_field :: "certificate_field \<Rightarrow> database \<Rightarrow> database wallet_result" where
  "insert_certificate_field r db =
     bind_result (insert_keyed certificate_field_key (certificate_field_refs db)
         (r\<lparr>cf_created_at := secs (cf_created_at r),
           cf_updated_at := secs (cf_updated_at r)\<rparr>) (db_certificate_fields db))
       (\<lambda>t. Ok (db\<lparr>db_certificate_fields := t\<rparr>))"

definition apply_certificate_field :: "ts \<Rightarrow> certificate_field_partial \<Rightarrow> certificate_field \<Rightarrow> certificate_field" where
  "apply_certificate_field now p r =
     r\<lparr>cf_field_value := set_col (cfp_field_value p) (cf_field_value r),
       cf_master_key := set_col (cfp_master_key p) (cf_master_key r),
       cf_updated_at := touch now (cfp_updated_at p)\<rparr>"

definition update_certificate_field ::
  "ts \<Rightarrow> int \<Rightarrow> string \<Rightarrow> certificate_field_partial \<Rightarrow> database \<Rightarrow> (database \<times> int) wallet_result" where
  "update_certificate_field now i n p db =
     bind_result (update_rows (\<lambda>r. cf_certificate_id r = i \<and> cf_field_name r = n) (apply_certificate_field now p)
         certificate_field_key (certificate_field_refs db) (db_certificate_fields db))
       (\<lambda>(t, k). Ok (db\<lparr>db_certificate_fields := t\<rparr>, k))"

section \<open>Commissions\<close>

record commission_partial =
  cop_commission_id :: "int option"
  cop_user_id :: "int option"
  cop_transaction_id :: "int option"
  cop_satoshis :: "int option"
  cop_key_offset :: "string option"
  cop_is_redeemed :: "bool option"
  cop_updated_at :: "ts option"

definition commission_partial_default :: commission_partial where
  "commission_partial_default = \<lparr>cop_commission_id = None, cop_user_id = None,
     cop_transaction_id = None, cop_satoshis = None, cop_key_offset = None, cop_is_redeemed = None,
     cop_updated_at = None\<rparr>"

record find_commissions_args =
  coa_partial :: commission_partial
  coa_since :: "ts option"
  coa_paged :: "paged option"

definition find_commissions_default :: find_commissions_args where
  "find_commissions_default = \<lparr>coa_partial = commission_partial_default, coa_since = None,
     coa_paged = None\<rparr>"

definition commissions_where :: "find_commissions_args \<Rightarrow> commission \<Rightarrow> bool" where
  "commissions_where a r \<longleftrightarrow>
     where_eq (cop_commission_id (coa_partial a)) (co_commission_id r) \<and>
     where_eq (cop_user_id (coa_partial a)) (co_user_id r) \<and>
     where_eq (cop_transaction_id (coa_partial a)) (co_transaction_id r) \<and>
     where_eq (cop_satoshis (coa_partial a)) (co_satoshis r) \<and>
     where_eq (cop_key_offset (coa_partial a)) (co_key_offset r) \<and>
     where_eq (cop_is_redeemed (coa_partial a)) (co_is_redeemed r) \<and>
     where_since (coa_since a) (co_updated_at r)"

definition find_commissions :: "find_commissions_args \<Rightarrow> database \<Rightarrow> commission list" where
  "find_commissions a db =
     ordered_page (coa_paged a) co_commission_id
       (filter (commissions_where a) (tb_rows (db_commissions db)))"

definition insert_commission :: "commission \<Rightarrow> database \<Rightarrow> (database \<times> int) wallet_result" where
  "insert_commission r db =
     bind_result (insert_row co_commission_id_update commission_key (commission_refs db)
         (r\<lparr>co_created_at := secs (co_created_at r),
           co_updated_at := secs (co_updated_at r)\<rparr>) (db_commissions db))
       (\<lambda>(t, i). Ok (db\<lparr>db_commissions := t\<rparr>, i))"

definition apply_commission :: "ts \<Rightarrow> commission_partial \<Rightarrow> commission \<Rightarrow> commission" where
  "apply_commission now p r =
     r\<lparr>co_user_id := set_col (cop_user_id p) (co_user_id r),
       co_transaction_id := set_col (cop_transaction_id p) (co_transaction_id r),
       co_satoshis := set_col (cop_satoshis p) (co_satoshis r),
       co_key_offset := set_col (cop_key_offset p) (co_key_offset r),
       co_is_redeemed := set_col (cop_is_redeemed p) (co_is_redeemed r),
       co_updated_at := touch now (cop_updated_at p)\<rparr>"

definition update_commission ::
  "ts \<Rightarrow> int \<Rightarrow> commission_partial \<Rightarrow> database \<Rightarrow> (database \<times> int) wallet_result" where
  "update_commission now i p db =
     bind_result (update_rows (\<lambda>r. co_commission_id r = i) (apply_commission now p)
         commission_key (commission_refs db) (db_commissions db))
       (\<lambda>(t, n). Ok (db\<lparr>db_commissions := t\<rparr>, n))"

section \<open>Proof requests\<close>

record proven_tx_req_partial =
  prp_proven_tx_req_id :: "int option"
  prp_proven_tx_id :: "int option"
  prp_status :: "proven_tx_req_status option"
  prp_txid :: "string option"
  prp_batch :: "string option"
  prp_notified :: "bool option"
  prp_attempts :: "int option"
  prp_history :: "string option"
  prp_updated_at :: "ts option"

definition proven_tx_req_partial_default :: proven_tx_req_partial where
  "proven_tx_req_partial_default = \<lparr>prp_proven_tx_req_id = None, prp_proven_tx_id = None,
     prp_status = None, prp_txid = None, prp_batch = None, prp_notified = None,
     prp_attempts = None, prp_history = None, prp_updated_at = None\<rparr>"

record find_proven_tx_reqs_args =
  pra_partial :: proven_tx_req_partial
  pra_since :: "ts option"
  pra_paged :: "paged option"
  pra_statuses :: "proven_tx_req_status list option"

definition find_proven_tx_reqs_default :: find_proven_tx_reqs_args where
  "find_proven_tx_reqs_default = \<lparr>pra_partial = proven_tx_req_partial_default,
     pra_since = None, pra_paged = None, pra_statuses = None\<rparr>"

definition proven_tx_reqs_where :: "find_proven_tx_reqs_args \<Rightarrow> proven_tx_req \<Rightarrow> bool" where
  "proven_tx_reqs_where a r \<longleftrightarrow>
     where_eq (prp_proven_tx_req_id (pra_partial a)) (pr_proven_tx_req_id r) \<and>
     where_eq_null (prp_proven_tx_id (pra_partial a)) (pr_proven_tx_id r) \<and>
     (if pra_statuses a \<noteq> None then where_in (pra_statuses a) (pr_status r) else where_eq (prp_status (pra_partial a)) (pr_status r)) \<and>
     where_eq (prp_txid (pra_partial a)) (pr_txid r) \<and>
     where_eq_null (prp_batch (pra_partial a)) (pr_batch r) \<and>
     where_eq (prp_notified (pra_partial a)) (pr_notified r) \<and>
     where_since (pra_since a) (pr_updated_at r)"

definition find_proven_tx_reqs :: "find_proven_tx_reqs_args \<Rightarrow> database \<Rightarrow> proven_tx_req list" where
  "find_proven_tx_reqs a db =
     ordered_page (pra_paged a) pr_proven_tx_req_id
       (filter (proven_tx_reqs_where a) (tb_rows (db_proven_tx_reqs db)))"

definition insert_proven_tx_req :: "proven_tx_req \<Rightarrow> database \<Rightarrow> (database \<times> int) wallet_result" where
  "insert_proven_tx_req r db =
     bind_result (insert_row pr_proven_tx_req_id_update proven_tx_req_key (proven_tx_req_refs db)
         (r\<lparr>pr_created_at := secs (pr_created_at r),
           pr_updated_at := secs (pr_updated_at r)\<rparr>) (db_proven_tx_reqs db))
       (\<lambda>(t, i). Ok (db\<lparr>db_proven_tx_reqs := t\<rparr>, i))"

definition apply_proven_tx_req :: "ts \<Rightarrow> proven_tx_req_partial \<Rightarrow> proven_tx_req \<Rightarrow> proven_tx_req" where
  "apply_proven_tx_req now p r =
     r\<lparr>pr_proven_tx_id := set_null (prp_proven_tx_id p) (pr_proven_tx_id r),
       pr_status := set_col (prp_status p) (pr_status r),
       pr_txid := set_col (prp_txid p) (pr_txid r),
       pr_batch := set_null (prp_batch p) (pr_batch r),
       pr_notified := set_col (prp_notified p) (pr_notified r),
       pr_attempts := set_col (prp_attempts p) (pr_attempts r),
       pr_history := set_col (prp_history p) (pr_history r),
       pr_updated_at := touch now (prp_updated_at p)\<rparr>"

definition update_proven_tx_req ::
  "ts \<Rightarrow> int \<Rightarrow> proven_tx_req_partial \<Rightarrow> database \<Rightarrow> (database \<times> int) wallet_result" where
  "update_proven_tx_req now i p db =
     bind_result (update_rows (\<lambda>r. pr_proven_tx_req_id r = i) (apply_proven_tx_req now p)
         proven_tx_req_key (proven_tx_req_refs db) (db_proven_tx_reqs db))
       (\<lambda>(t, n). Ok (db\<lparr>db_proven_tx_reqs := t\<rparr>, n))"

end
