(* ===== verification/StorageDb.thy ===== *)
theory StorageDb
  imports StorageTables
begin

text \<open>
  The invariant of the wallet database and the statements that keep it. A database is well formed
  when identifiers are unique and drawn from the table's sequence, unique keys hold, every reference
  has its target and every timestamp has the stored precision. A locale states what one table of the
  database is to the rest; it is interpreted on all thirteen tables, and gives once and for all that
  inserts and updates keep the database well formed and lose no row.
\<close>

section \<open>Identity of rows\<close>

text \<open>What a merge looks rows up by, with their identifier: no merge changes it.\<close>

definition user_ident :: "user \<Rightarrow> int \<times> string" where
  "user_ident r = (us_user_id r, us_identity_key r)"

definition proven_tx_ident :: "proven_tx \<Rightarrow> int \<times> string" where
  "proven_tx_ident r = (pt_proven_tx_id r, pt_txid r)"

definition output_basket_ident :: "output_basket \<Rightarrow> int \<times> string \<times> int" where
  "output_basket_ident r = (ob_basket_id r, ob_name r, ob_user_id r)"

definition tx_label_ident :: "tx_label \<Rightarrow> int \<times> string \<times> int" where
  "tx_label_ident r = (tl_tx_label_id r, tl_label r, tl_user_id r)"

definition output_tag_ident :: "output_tag \<Rightarrow> int \<times> string \<times> int" where
  "output_tag_ident r = (ot_output_tag_id r, ot_tag r, ot_user_id r)"

definition transaction_ident :: "transaction \<Rightarrow> int \<times> int \<times> string" where
  "transaction_ident r = (tx_transaction_id r, tx_user_id r, tx_reference r)"

definition output_ident :: "output_row \<Rightarrow> int \<times> int \<times> int" where
  "output_ident r = (ou_output_id r, ou_transaction_id r, ou_vout r)"

definition tx_label_map_ident :: "tx_label_map \<Rightarrow> int \<times> int" where
  "tx_label_map_ident r = (tm_tx_label_id r, tm_transaction_id r)"

definition output_tag_map_ident :: "output_tag_map \<Rightarrow> int \<times> int" where
  "output_tag_map_ident r = (om_output_tag_id r, om_output_id r)"

definition certificate_ident :: "certificate \<Rightarrow> int \<times> int \<times> string \<times> string" where
  "certificate_ident r = (ce_certificate_id r, ce_user_id r, ce_serial_number r, ce_certifier r)"

definition certificate_field_ident :: "certificate_field \<Rightarrow> string \<times> int" where
  "certificate_field_ident r = (cf_field_name r, cf_certificate_id r)"

definition commission_ident :: "commission \<Rightarrow> int \<times> int \<times> int \<times> string" where
  "commission_ident r = (co_commission_id r, co_user_id r, co_transaction_id r, co_key_offset r)"

definition proven_tx_req_ident :: "proven_tx_req \<Rightarrow> int \<times> string" where
  "proven_tx_req_ident r = (pr_proven_tx_req_id r, pr_txid r)"

lemmas ident_defs = user_ident_def proven_tx_ident_def output_basket_ident_def tx_label_ident_def output_tag_ident_def transaction_ident_def output_ident_def tx_label_map_ident_def output_tag_map_ident_def certificate_ident_def certificate_field_ident_def commission_ident_def proven_tx_req_ident_def

lemmas key_defs = user_key_def proven_tx_key_def output_basket_key_def tx_label_key_def output_tag_key_def transaction_key_def output_key_def tx_label_map_key_def output_tag_map_key_def certificate_key_def certificate_field_key_def commission_key_def proven_tx_req_key_def

lemmas refs_defs = output_basket_refs_def tx_label_refs_def output_tag_refs_def transaction_refs_def output_refs_def tx_label_map_refs_def output_tag_map_refs_def certificate_refs_def certificate_field_refs_def commission_refs_def proven_tx_req_refs_def

section \<open>Well-formed databases\<close>

definition rows_ok :: "('r \<Rightarrow> 'k) \<Rightarrow> ('r \<Rightarrow> ts) \<Rightarrow> ('r \<Rightarrow> bool) \<Rightarrow> 'r table \<Rightarrow> bool" where
  "rows_ok key upd refs t \<longleftrightarrow> keyed_ok key t \<and>
     (\<forall>r \<in> set (tb_rows t). refs r \<and> millis (upd r) = upd r)"

text \<open>Unique keys of the tables of \<open>db\<close>, with references into \<open>d\<close>.\<close>

definition keys_ok :: "database \<Rightarrow> database \<Rightarrow> bool" where
  "keys_ok d db \<longleftrightarrow>
     rows_ok user_key us_updated_at (\<lambda>r. True) (db_users db) \<and>
     rows_ok proven_tx_key pt_updated_at (\<lambda>r. True) (db_proven_txs db) \<and>
     rows_ok output_basket_key ob_updated_at (output_basket_refs d) (db_output_baskets db) \<and>
     rows_ok tx_label_key tl_updated_at (tx_label_refs d) (db_tx_labels db) \<and>
     rows_ok output_tag_key ot_updated_at (output_tag_refs d) (db_output_tags db) \<and>
     rows_ok transaction_key tx_updated_at (transaction_refs d) (db_transactions db) \<and>
     rows_ok output_key ou_updated_at (output_refs d) (db_outputs db) \<and>
     rows_ok tx_label_map_key tm_updated_at (tx_label_map_refs d) (db_tx_label_maps db) \<and>
     rows_ok output_tag_map_key om_updated_at (output_tag_map_refs d) (db_output_tag_maps db) \<and>
     rows_ok certificate_key ce_updated_at (certificate_refs d) (db_certificates db) \<and>
     rows_ok certificate_field_key cf_updated_at (certificate_field_refs d) (db_certificate_fields db) \<and>
     rows_ok commission_key co_updated_at (commission_refs d) (db_commissions db) \<and>
     rows_ok proven_tx_req_key pr_updated_at (proven_tx_req_refs d) (db_proven_tx_reqs db)"

definition id_columns_ok :: "database \<Rightarrow> bool" where
  "id_columns_ok db \<longleftrightarrow>
     ids_ok us_user_id (db_users db) \<and>
     ids_ok pt_proven_tx_id (db_proven_txs db) \<and>
     ids_ok ob_basket_id (db_output_baskets db) \<and>
     ids_ok tl_tx_label_id (db_tx_labels db) \<and>
     ids_ok ot_output_tag_id (db_output_tags db) \<and>
     ids_ok tx_transaction_id (db_transactions db) \<and>
     ids_ok ou_output_id (db_outputs db) \<and>
     ids_ok ce_certificate_id (db_certificates db) \<and>
     ids_ok co_commission_id (db_commissions db) \<and>
     ids_ok pr_proven_tx_req_id (db_proven_tx_reqs db)"

definition db_ok :: "database \<Rightarrow> bool" where
  "db_ok db \<longleftrightarrow> keys_ok db db \<and> id_columns_ok db"

definition db_grows :: "database \<Rightarrow> database \<Rightarrow> bool" where
  "db_grows db db' \<longleftrightarrow>
     rows_persist user_ident us_updated_at (db_users db) (db_users db') \<and>
     rows_persist proven_tx_ident pt_updated_at (db_proven_txs db) (db_proven_txs db') \<and>
     rows_persist output_basket_ident ob_updated_at (db_output_baskets db) (db_output_baskets db') \<and>
     rows_persist tx_label_ident tl_updated_at (db_tx_labels db) (db_tx_labels db') \<and>
     rows_persist output_tag_ident ot_updated_at (db_output_tags db) (db_output_tags db') \<and>
     rows_persist transaction_ident tx_updated_at (db_transactions db) (db_transactions db') \<and>
     rows_persist output_ident ou_updated_at (db_outputs db) (db_outputs db') \<and>
     rows_persist tx_label_map_ident tm_updated_at (db_tx_label_maps db) (db_tx_label_maps db') \<and>
     rows_persist output_tag_map_ident om_updated_at (db_output_tag_maps db) (db_output_tag_maps db') \<and>
     rows_persist certificate_ident ce_updated_at (db_certificates db) (db_certificates db') \<and>
     rows_persist certificate_field_ident cf_updated_at (db_certificate_fields db) (db_certificate_fields db') \<and>
     rows_persist commission_ident co_updated_at (db_commissions db) (db_commissions db') \<and>
     rows_persist proven_tx_req_ident pr_updated_at (db_proven_tx_reqs db) (db_proven_tx_reqs db')"

text \<open>The same without the time stamps: \<open>datetime('now')\<close> may be older than a stored time.\<close>

definition db_keeps :: "database \<Rightarrow> database \<Rightarrow> bool" where
  "db_keeps db db' \<longleftrightarrow>
     rows_persist user_ident (\<lambda>_. 0) (db_users db) (db_users db') \<and>
     rows_persist proven_tx_ident (\<lambda>_. 0) (db_proven_txs db) (db_proven_txs db') \<and>
     rows_persist output_basket_ident (\<lambda>_. 0) (db_output_baskets db) (db_output_baskets db') \<and>
     rows_persist tx_label_ident (\<lambda>_. 0) (db_tx_labels db) (db_tx_labels db') \<and>
     rows_persist output_tag_ident (\<lambda>_. 0) (db_output_tags db) (db_output_tags db') \<and>
     rows_persist transaction_ident (\<lambda>_. 0) (db_transactions db) (db_transactions db') \<and>
     rows_persist output_ident (\<lambda>_. 0) (db_outputs db) (db_outputs db') \<and>
     rows_persist tx_label_map_ident (\<lambda>_. 0) (db_tx_label_maps db) (db_tx_label_maps db') \<and>
     rows_persist output_tag_map_ident (\<lambda>_. 0) (db_output_tag_maps db) (db_output_tag_maps db') \<and>
     rows_persist certificate_ident (\<lambda>_. 0) (db_certificates db) (db_certificates db') \<and>
     rows_persist certificate_field_ident (\<lambda>_. 0) (db_certificate_fields db) (db_certificate_fields db') \<and>
     rows_persist commission_ident (\<lambda>_. 0) (db_commissions db) (db_commissions db') \<and>
     rows_persist proven_tx_req_ident (\<lambda>_. 0) (db_proven_tx_reqs db) (db_proven_tx_reqs db')"

lemma empty_database_ok: "db_ok empty_database"
  by (simp add: db_ok_def keys_ok_def id_columns_ok_def rows_ok_def empty_database_def)
    (simp add: empty_table_def)

lemma db_grows_refl [simp]: "db_grows db db"
  by (simp add: db_grows_def)

lemma db_grows_trans: "db_grows db db' \<Longrightarrow> db_grows db' db'' \<Longrightarrow> db_grows db db''"
  unfolding db_grows_def by (blast intro: rows_persist_trans)

lemma db_growsD:
  assumes "db_grows db db'"
  shows "rows_persist user_ident us_updated_at (db_users db) (db_users db')"
    "rows_persist proven_tx_ident pt_updated_at (db_proven_txs db) (db_proven_txs db')"
    "rows_persist output_basket_ident ob_updated_at (db_output_baskets db) (db_output_baskets db')"
    "rows_persist tx_label_ident tl_updated_at (db_tx_labels db) (db_tx_labels db')"
    "rows_persist output_tag_ident ot_updated_at (db_output_tags db) (db_output_tags db')"
    "rows_persist transaction_ident tx_updated_at (db_transactions db) (db_transactions db')"
    "rows_persist output_ident ou_updated_at (db_outputs db) (db_outputs db')"
    "rows_persist tx_label_map_ident tm_updated_at (db_tx_label_maps db) (db_tx_label_maps db')"
    "rows_persist output_tag_map_ident om_updated_at (db_output_tag_maps db) (db_output_tag_maps db')"
    "rows_persist certificate_ident ce_updated_at (db_certificates db) (db_certificates db')"
    "rows_persist certificate_field_ident cf_updated_at (db_certificate_fields db) (db_certificate_fields db')"
    "rows_persist commission_ident co_updated_at (db_commissions db) (db_commissions db')"
    "rows_persist proven_tx_req_ident pr_updated_at (db_proven_tx_reqs db) (db_proven_tx_reqs db')"
  using assms by (simp_all add: db_grows_def)

lemma rows_persist_any: "rows_persist ident upd t t' \<Longrightarrow> rows_persist ident (\<lambda>_. 0) t t'"
  by (auto simp: rows_persist_def)

lemma db_grows_keeps: "db_grows db db' \<Longrightarrow> db_keeps db db'"
  unfolding db_grows_def db_keeps_def by (elim conjE, intro conjI) (erule rows_persist_any)+

lemma db_keeps_refl [simp]: "db_keeps db db"
  by (simp add: db_keeps_def)

lemma db_keeps_trans: "db_keeps db db' \<Longrightarrow> db_keeps db' db'' \<Longrightarrow> db_keeps db db''"
  unfolding db_keeps_def by (blast intro: rows_persist_trans)

lemma db_keepsD:
  assumes "db_keeps db db'"
  shows "rows_persist user_ident (\<lambda>_. 0) (db_users db) (db_users db')"
    "rows_persist proven_tx_ident (\<lambda>_. 0) (db_proven_txs db) (db_proven_txs db')"
    "rows_persist output_basket_ident (\<lambda>_. 0) (db_output_baskets db) (db_output_baskets db')"
    "rows_persist tx_label_ident (\<lambda>_. 0) (db_tx_labels db) (db_tx_labels db')"
    "rows_persist output_tag_ident (\<lambda>_. 0) (db_output_tags db) (db_output_tags db')"
    "rows_persist transaction_ident (\<lambda>_. 0) (db_transactions db) (db_transactions db')"
    "rows_persist output_ident (\<lambda>_. 0) (db_outputs db) (db_outputs db')"
    "rows_persist tx_label_map_ident (\<lambda>_. 0) (db_tx_label_maps db) (db_tx_label_maps db')"
    "rows_persist output_tag_map_ident (\<lambda>_. 0) (db_output_tag_maps db) (db_output_tag_maps db')"
    "rows_persist certificate_ident (\<lambda>_. 0) (db_certificates db) (db_certificates db')"
    "rows_persist certificate_field_ident (\<lambda>_. 0) (db_certificate_fields db) (db_certificate_fields db')"
    "rows_persist commission_ident (\<lambda>_. 0) (db_commissions db) (db_commissions db')"
    "rows_persist proven_tx_req_ident (\<lambda>_. 0) (db_proven_tx_reqs db) (db_proven_tx_reqs db')"
  using assms by (simp_all add: db_keeps_def)

text \<open>References stay valid while rows persist.\<close>

lemma refers_keeps:
  assumes "db_keeps db db'"
  shows "refers us_user_id (db_users db) i \<Longrightarrow> refers us_user_id (db_users db') i"
    "refers pt_proven_tx_id (db_proven_txs db) i \<Longrightarrow> refers pt_proven_tx_id (db_proven_txs db') i"
    "refers ob_basket_id (db_output_baskets db) i \<Longrightarrow> refers ob_basket_id (db_output_baskets db') i"
    "refers tl_tx_label_id (db_tx_labels db) i \<Longrightarrow> refers tl_tx_label_id (db_tx_labels db') i"
    "refers ot_output_tag_id (db_output_tags db) i \<Longrightarrow> refers ot_output_tag_id (db_output_tags db') i"
    "refers tx_transaction_id (db_transactions db) i \<Longrightarrow> refers tx_transaction_id (db_transactions db') i"
    "refers ou_output_id (db_outputs db) i \<Longrightarrow> refers ou_output_id (db_outputs db') i"
    "refers ce_certificate_id (db_certificates db) i \<Longrightarrow> refers ce_certificate_id (db_certificates db') i"
    "refers co_commission_id (db_commissions db) i \<Longrightarrow> refers co_commission_id (db_commissions db') i"
    "refers pr_proven_tx_req_id (db_proven_tx_reqs db) i \<Longrightarrow> refers pr_proven_tx_req_id (db_proven_tx_reqs db') i"
  by (rule refers_persist, rule db_keepsD [OF assms], simp add: ident_defs, assumption)+

lemma refers_null_keeps:
  assumes "db_keeps db db'"
  shows "refers_null pt_proven_tx_id (db_proven_txs db) v \<Longrightarrow>
      refers_null pt_proven_tx_id (db_proven_txs db') v"
    "refers_null tx_transaction_id (db_transactions db) v \<Longrightarrow>
      refers_null tx_transaction_id (db_transactions db') v"
    "refers_null ob_basket_id (db_output_baskets db) v \<Longrightarrow>
      refers_null ob_basket_id (db_output_baskets db') v"
  by (cases v; simp add: refers_keeps [OF assms])+

lemma refs_keep:
  assumes "db_keeps db db'"
  shows "output_basket_refs db r1 \<Longrightarrow> output_basket_refs db' r1"
    "tx_label_refs db r2 \<Longrightarrow> tx_label_refs db' r2"
    "output_tag_refs db r3 \<Longrightarrow> output_tag_refs db' r3"
    "transaction_refs db r4 \<Longrightarrow> transaction_refs db' r4"
    "output_refs db r5 \<Longrightarrow> output_refs db' r5"
    "tx_label_map_refs db r6 \<Longrightarrow> tx_label_map_refs db' r6"
    "output_tag_map_refs db r7 \<Longrightarrow> output_tag_map_refs db' r7"
    "certificate_refs db r8 \<Longrightarrow> certificate_refs db' r8"
    "certificate_field_refs db r9 \<Longrightarrow> certificate_field_refs db' r9"
    "commission_refs db r10 \<Longrightarrow> commission_refs db' r10"
    "proven_tx_req_refs db r11 \<Longrightarrow> proven_tx_req_refs db' r11"
  by (auto simp: refs_defs intro: refers_keeps [OF assms] refers_null_keeps [OF assms])

lemma rows_ok_mono:
  "rows_ok key upd refs t \<Longrightarrow> (\<And>r. refs r \<Longrightarrow> refs' r) \<Longrightarrow> rows_ok key upd refs' t"
  by (auto simp: rows_ok_def)

lemma keys_ok_keeps: "keys_ok d db \<Longrightarrow> db_keeps d d' \<Longrightarrow> keys_ok d' db"
  unfolding keys_ok_def
  by (elim conjE, intro conjI) (assumption | (erule rows_ok_mono, erule (1) refs_keep))+

lemmas refers_grows = refers_keeps [OF db_grows_keeps]
lemmas refs_grow = refs_keep [OF db_grows_keeps]
lemmas keys_ok_grows = keys_ok_keeps [OF _ db_grows_keeps]

section \<open>One table of the database\<close>

text \<open>
  The contract of a table with the rest of the database: it can be read and replaced, a
  well-formed database has well-formed rows there, and replacing it by well-formed rows that keep
  the old ones keeps the database well formed.
\<close>

locale stored_table =
  fixes tab :: "database \<Rightarrow> 'r table"
    and put :: "('r table \<Rightarrow> 'r table) \<Rightarrow> database \<Rightarrow> database"
    and key :: "'r \<Rightarrow> 'k" and ident :: "'r \<Rightarrow> 'i" and upd :: "'r \<Rightarrow> ts"
    and refs :: "database \<Rightarrow> 'r \<Rightarrow> bool" and idc :: "'r table \<Rightarrow> bool"
  assumes tab_put: "tab (put f db) = f (tab db)"
    and tab_ok: "db_ok db \<Longrightarrow> rows_ok key upd (refs db) (tab db)" "db_ok db \<Longrightarrow> idc (tab db)"
    and put_grows: "rows_persist ident upd (tab db) t \<Longrightarrow> db_grows db (put (\<lambda>_. t) db)"
    and put_keeps: "rows_persist ident (\<lambda>_. 0) (tab db) t \<Longrightarrow> db_keeps db (put (\<lambda>_. t) db)"
    and put_keys: "db_ok db \<Longrightarrow> rows_ok key upd (refs db) t \<Longrightarrow> idc t \<Longrightarrow>
        keys_ok db (put (\<lambda>_. t) db) \<and> id_columns_ok (put (\<lambda>_. t) db)"
begin

lemma put_ok:
  assumes "db_ok db" "rows_persist ident upd (tab db) t" "rows_ok key upd (refs db) t" "idc t"
  shows "db_ok (put (\<lambda>_. t) db)" "db_grows db (put (\<lambda>_. t) db)"
  using put_keys [OF assms(1,3,4)] put_grows [OF assms(2)] keys_ok_grows
  by (auto simp: db_ok_def)

lemma put_keeps_ok:
  assumes "db_ok db" "rows_persist ident (\<lambda>_. 0) (tab db) t" "rows_ok key upd (refs db) t" "idc t"
  shows "db_ok (put (\<lambda>_. t) db)" "db_keeps db (put (\<lambda>_. t) db)"
  using put_keys [OF assms(1,3,4)] put_keeps [OF assms(2)] keys_ok_keeps
  by (auto simp: db_ok_def)

lemma update_put_keeps:
  assumes "db_ok db" "update_rows sel f key (refs db) (tab db) = Ok (t, n)"
    "\<And>r. ident (f r) = ident r" "\<And>r. millis (upd (f r)) = upd (f r)" "idc t"
  shows "db_ok (put (\<lambda>_. t) db)" "db_keeps db (put (\<lambda>_. t) db)"
proof -
  have "rows_persist ident (\<lambda>_. 0) (tab db) t"
    using assms(3) by (blast intro: update_rows_persist [OF assms(2)])
  moreover have "rows_ok key upd (refs db) t"
    using tab_ok(1) [OF assms(1)] update_rows_keyed_ok [OF assms(2)] assms(4)
      update_rows_OkD(5) [OF assms(2)]
    by (auto simp: rows_ok_def update_rows_OkD(1) [OF assms(2)])
  ultimately show "db_ok (put (\<lambda>_. t) db)" "db_keeps db (put (\<lambda>_. t) db)"
    using put_keeps_ok assms(1,5) by blast+
qed

lemma update_put_ok:
  assumes "db_ok db" "update_rows sel f key (refs db) (tab db) = Ok (t, n)"
    "\<And>r. r \<in> set (tb_rows (tab db)) \<Longrightarrow> sel r \<Longrightarrow>
       ident (f r) = ident r \<and> upd r \<le> upd (f r) \<and> millis (upd (f r)) = upd (f r)"
    "idc t"
  shows "db_ok (put (\<lambda>_. t) db)" "db_grows db (put (\<lambda>_. t) db)"
proof -
  have "rows_persist ident upd (tab db) t"
    using assms(3) by (blast intro: update_rows_persist [OF assms(2)])
  moreover have "rows_ok key upd (refs db) t"
    using tab_ok(1) [OF assms(1)] update_rows_keyed_ok [OF assms(2)] assms(3)
      update_rows_OkD(5) [OF assms(2)]
    by (auto simp: rows_ok_def update_rows_OkD(1) [OF assms(2)])
  ultimately show "db_ok (put (\<lambda>_. t) db)" "db_grows db (put (\<lambda>_. t) db)"
    using put_ok assms(1,4) by blast+
qed

end

text \<open>A table with a composite key and no identifier column.\<close>

locale keyed_stored = stored_table tab put key ident upd refs "\<lambda>_. True"
  for tab :: "database \<Rightarrow> 'r table" and put key ident upd refs
begin

lemma insert_put_ok:
  assumes "db_ok db" "insert_keyed key (refs db) r (tab db) = Ok t" "millis (upd r) = upd r"
  shows "db_ok (put (\<lambda>_. t) db)" "db_grows db (put (\<lambda>_. t) db)"
proof -
  have "rows_ok key upd (refs db) t"
    using tab_ok(1) [OF assms(1)] insert_keyed_ok [OF assms(2)] insert_keyed_OkD(1,2) [OF assms(2)]
      assms(3)
    by (simp add: rows_ok_def)
  then show "db_ok (put (\<lambda>_. t) db)" "db_grows db (put (\<lambda>_. t) db)"
    using put_ok [OF assms(1) insert_keyed_persist [OF assms(2)]] by blast+
qed

end

text \<open>A table with an identifier column.\<close>

locale id_stored = id_table get_id set_id key +
  stored_table tab put key ident upd refs "ids_ok get_id"
  for tab :: "database \<Rightarrow> 'r table" and put key ident upd refs and get_id :: "'r \<Rightarrow> int" and set_id +
  assumes upd_set_id: "upd (set_id f r) = upd r"
begin

lemma insert_put_ok:
  assumes "db_ok db" "insert_row set_id key (refs db) r (tab db) = Ok (t, i)" "millis (upd r) = upd r"
  shows "db_ok (put (\<lambda>_. t) db)" "db_grows db (put (\<lambda>_. t) db)"
proof -
  have "rows_ok key upd (refs db) t"
    using tab_ok(1) [OF assms(1)] insert_row_keyed_ok [OF assms(2)] insert_row_OkD(1,4) [OF assms(2)]
      assms(3)
    by (simp add: rows_ok_def upd_set_id)
  moreover have "ids_ok get_id t"
    using insert_ids_ok [OF assms(2) tab_ok(2) [OF assms(1)]] .
  ultimately show "db_ok (put (\<lambda>_. t) db)" "db_grows db (put (\<lambda>_. t) db)"
    using put_ok [OF assms(1) insert_row_persist [OF assms(2)]] by blast+
qed

lemma update_id_keeps:
  assumes "db_ok db" "update_rows sel f key (refs db) (tab db) = Ok (t, n)"
    "\<And>r. ident (f r) = ident r" "\<And>r. get_id (f r) = get_id r" "\<And>r. millis (upd (f r)) = upd (f r)"
  shows "db_ok (put (\<lambda>_. t) db)" "db_keeps db (put (\<lambda>_. t) db)"
  using update_put_keeps [OF assms(1,2,3,5)] update_rows_ids_ok [OF assms(2,4) tab_ok(2) [OF assms(1)]]
  by blast+

end

lemmas db_ok_defs = db_ok_def keys_ok_def id_columns_ok_def

interpretation users: id_stored db_users db_users_update user_key user_ident us_updated_at
  "\<lambda>_ _. True" us_user_id us_user_id_update
  by unfold_locales (simp_all add: db_ok_defs db_grows_def db_keeps_def user_key_def)

interpretation proven_txs: id_stored db_proven_txs db_proven_txs_update proven_tx_key proven_tx_ident pt_updated_at
  "\<lambda>_ _. True" pt_proven_tx_id pt_proven_tx_id_update
  by unfold_locales (simp_all add: db_ok_defs db_grows_def db_keeps_def proven_tx_key_def)

interpretation output_baskets: id_stored db_output_baskets db_output_baskets_update output_basket_key output_basket_ident ob_updated_at
  output_basket_refs ob_basket_id ob_basket_id_update
  by unfold_locales (simp_all add: db_ok_defs db_grows_def db_keeps_def output_basket_key_def)

interpretation tx_labels: id_stored db_tx_labels db_tx_labels_update tx_label_key tx_label_ident tl_updated_at
  tx_label_refs tl_tx_label_id tl_tx_label_id_update
  by unfold_locales (simp_all add: db_ok_defs db_grows_def db_keeps_def tx_label_key_def)

interpretation output_tags: id_stored db_output_tags db_output_tags_update output_tag_key output_tag_ident ot_updated_at
  output_tag_refs ot_output_tag_id ot_output_tag_id_update
  by unfold_locales (simp_all add: db_ok_defs db_grows_def db_keeps_def output_tag_key_def)

interpretation transactions: id_stored db_transactions db_transactions_update transaction_key transaction_ident tx_updated_at
  transaction_refs tx_transaction_id tx_transaction_id_update
  by unfold_locales (simp_all add: db_ok_defs db_grows_def db_keeps_def transaction_key_def)

interpretation outputs: id_stored db_outputs db_outputs_update output_key output_ident ou_updated_at
  output_refs ou_output_id ou_output_id_update
  by unfold_locales (simp_all add: db_ok_defs db_grows_def db_keeps_def output_key_def)

interpretation tx_label_maps: keyed_stored db_tx_label_maps db_tx_label_maps_update tx_label_map_key tx_label_map_ident tm_updated_at
  tx_label_map_refs
  by unfold_locales (simp_all add: db_ok_defs db_grows_def db_keeps_def)

interpretation output_tag_maps: keyed_stored db_output_tag_maps db_output_tag_maps_update output_tag_map_key output_tag_map_ident om_updated_at
  output_tag_map_refs
  by unfold_locales (simp_all add: db_ok_defs db_grows_def db_keeps_def)

interpretation certificates: id_stored db_certificates db_certificates_update certificate_key certificate_ident ce_updated_at
  certificate_refs ce_certificate_id ce_certificate_id_update
  by unfold_locales (simp_all add: db_ok_defs db_grows_def db_keeps_def certificate_key_def)

interpretation certificate_fields: keyed_stored db_certificate_fields db_certificate_fields_update certificate_field_key certificate_field_ident cf_updated_at
  certificate_field_refs
  by unfold_locales (simp_all add: db_ok_defs db_grows_def db_keeps_def)

interpretation commissions: id_stored db_commissions db_commissions_update commission_key commission_ident co_updated_at
  commission_refs co_commission_id co_commission_id_update
  by unfold_locales (simp_all add: db_ok_defs db_grows_def db_keeps_def commission_key_def)

interpretation proven_tx_reqs: id_stored db_proven_tx_reqs db_proven_tx_reqs_update proven_tx_req_key proven_tx_req_ident pr_updated_at
  proven_tx_req_refs pr_proven_tx_req_id pr_proven_tx_req_id_update
  by unfold_locales (simp_all add: db_ok_defs db_grows_def db_keeps_def proven_tx_req_key_def)

end
