(* ===== verification/SyncMap.thy ===== *)
theory SyncMap
  imports StorageDb
begin

text \<open>
  The data of the synchronisation protocol (\<open>src/storage/sync/sync_map.rs\<close>, \<open>merge.rs\<close>): the
  chunk of entities one storage sends to another, the per-entity maps from foreign to local
  identifiers with their watermark and counter, and the rule that decides a merge.
\<close>

section \<open>Entity maps\<close>

record entity_sync_map =
  em_entity_name :: string
  em_id_map :: "int \<rightharpoonup> int"
  em_max_updated_at :: "ts option"
  em_count :: int

definition entity_sync_map_new :: "string \<Rightarrow> entity_sync_map" where
  "entity_sync_map_new entity_name =
     \<lparr>em_entity_name = entity_name, em_id_map = Map.empty, em_max_updated_at = None, em_count = 0\<rparr>"

definition update_max :: "ts \<Rightarrow> entity_sync_map \<Rightarrow> entity_sync_map" where
  "update_max updated_at m =
     (case em_max_updated_at m of
        Some current \<Rightarrow> if current \<ge> updated_at then m else m\<lparr>em_max_updated_at := Some updated_at\<rparr>
      | None \<Rightarrow> m\<lparr>em_max_updated_at := Some updated_at\<rparr>)"

definition map_id :: "int \<Rightarrow> int \<Rightarrow> entity_sync_map \<Rightarrow> string + entity_sync_map" where
  "map_id foreign_id local_id m =
     (case em_id_map m foreign_id of
        Some existing \<Rightarrow>
          if existing \<noteq> local_id then
            Inl (''EntitySyncMap['' @ em_entity_name m @ '']: cannot override mapping '' @
              show_int foreign_id @ ''=>'' @ show_int existing @ '' with '' @ show_int local_id)
          else Inr (m\<lparr>em_id_map := (em_id_map m)(foreign_id \<mapsto> local_id)\<rparr>)
      | None \<Rightarrow> Inr (m\<lparr>em_id_map := (em_id_map m)(foreign_id \<mapsto> local_id)\<rparr>))"

definition get_local_id :: "int \<Rightarrow> entity_sync_map \<Rightarrow> int option" where
  "get_local_id foreign_id m = em_id_map m foreign_id"

record sync_map =
  sm_proven_tx :: entity_sync_map
  sm_output_basket :: entity_sync_map
  sm_transaction :: entity_sync_map
  sm_output :: entity_sync_map
  sm_tx_label :: entity_sync_map
  sm_tx_label_map :: entity_sync_map
  sm_output_tag :: entity_sync_map
  sm_output_tag_map :: entity_sync_map
  sm_certificate :: entity_sync_map
  sm_certificate_field :: entity_sync_map
  sm_commission :: entity_sync_map
  sm_proven_tx_req :: entity_sync_map

definition sync_map_new :: sync_map where
  "sync_map_new =
     \<lparr>sm_proven_tx = entity_sync_map_new ''provenTx'',
      sm_output_basket = entity_sync_map_new ''outputBasket'',
      sm_transaction = entity_sync_map_new ''transaction'',
      sm_output = entity_sync_map_new ''output'',
      sm_tx_label = entity_sync_map_new ''txLabel'',
      sm_tx_label_map = entity_sync_map_new ''txLabelMap'',
      sm_output_tag = entity_sync_map_new ''outputTag'',
      sm_output_tag_map = entity_sync_map_new ''outputTagMap'',
      sm_certificate = entity_sync_map_new ''certificate'',
      sm_certificate_field = entity_sync_map_new ''certificateField'',
      sm_commission = entity_sync_map_new ''commission'',
      sm_proven_tx_req = entity_sync_map_new ''provenTxReq''\<rparr>"

definition entity_maps :: "sync_map \<Rightarrow> entity_sync_map list" where
  "entity_maps m =
     [sm_proven_tx m, sm_output_basket m, sm_transaction m, sm_output m, sm_tx_label m,
      sm_tx_label_map m, sm_output_tag m, sm_output_tag_map m, sm_certificate m,
      sm_certificate_field m, sm_commission m, sm_proven_tx_req m]"

lemma update_max_frame [simp]:
  "em_id_map (update_max t m) = em_id_map m" "em_count (update_max t m) = em_count m"
  "em_entity_name (update_max t m) = em_entity_name m"
  by (simp_all add: update_max_def split: option.split)

lemma update_max_max:
  "em_max_updated_at (update_max t m) =
     Some (case em_max_updated_at m of None \<Rightarrow> t | Some c \<Rightarrow> max c t)"
  by (auto simp: update_max_def split: option.split)

lemma map_id_OkD:
  assumes "map_id f l m = Inr m'"
  shows "em_id_map m \<subseteq>\<^sub>m em_id_map m'" "em_id_map m' = (em_id_map m)(f \<mapsto> l)"
    "em_count m' = em_count m" "em_max_updated_at m' = em_max_updated_at m"
    "em_entity_name m' = em_entity_name m"
  using assms by (auto simp: map_id_def map_le_def split: option.splits if_splits)

section \<open>Chunks\<close>

record sync_chunk =
  ch_from_storage_identity_key :: string
  ch_to_storage_identity_key :: string
  ch_user_identity_key :: string
  ch_user :: "user option"
  ch_proven_txs :: "proven_tx list option"
  ch_output_baskets :: "output_basket list option"
  ch_transactions :: "transaction list option"
  ch_outputs :: "output_row list option"
  ch_tx_labels :: "tx_label list option"
  ch_tx_label_maps :: "tx_label_map list option"
  ch_output_tags :: "output_tag list option"
  ch_output_tag_maps :: "output_tag_map list option"
  ch_certificates :: "certificate list option"
  ch_certificate_fields :: "certificate_field list option"
  ch_commissions :: "commission list option"
  ch_proven_tx_reqs :: "proven_tx_req list option"

text \<open>\<open>MergeEntity::should_update\<close>: the incoming copy wins when it is strictly newer.\<close>

definition should_update :: "('r \<Rightarrow> ts) \<Rightarrow> 'r \<Rightarrow> 'r \<Rightarrow> bool" where
  "should_update updated_at local incoming \<longleftrightarrow> updated_at incoming > updated_at local"

end
