(* ===== verification/SyncProcess.thy ===== *)
theory SyncProcess
  imports SyncMap
begin

text \<open>
  Applying a chunk to the local database (\<open>src/storage/sync/process_sync_chunk.rs\<close>): users first,
  then the twelve entity types in dependency order, each looked up by its natural key, updated when
  the incoming copy is newer, or inserted with its references translated through the identifier
  maps. A computation reads and changes the database, the maps and the two result counters, and
  either returns or stops with an error; what was changed before an error stays changed.
\<close>

section \<open>Computations\<close>

record sync_st =
  ss_db :: database
  ss_map :: sync_map
  ss_inserts :: int
  ss_updates :: int

type_synonym 'a sync = "sync_st \<Rightarrow> 'a wallet_result \<times> sync_st"

definition returnS :: "'a \<Rightarrow> 'a sync" where
  "returnS x s = (Ok x, s)"

definition failS :: "wallet_error \<Rightarrow> 'a sync" where
  "failS e s = (Err e, s)"

definition bindS :: "'a sync \<Rightarrow> ('a \<Rightarrow> 'b sync) \<Rightarrow> 'b sync" where
  "bindS m f s = (case m s of (Inl e, s') \<Rightarrow> (Err e, s') | (Inr x, s') \<Rightarrow> f x s')"

definition query :: "(database \<Rightarrow> 'a wallet_result) \<Rightarrow> 'a sync" where
  "query q s = (q (ss_db s), s)"

definition writeS :: "(database \<Rightarrow> (database \<times> 'a) wallet_result) \<Rightarrow> 'a sync" where
  "writeS w s = (case w (ss_db s) of Inl e \<Rightarrow> (Err e, s) | Inr (db, x) \<Rightarrow> (Ok x, s\<lparr>ss_db := db\<rparr>))"

fun forS :: "('r \<Rightarrow> unit sync) \<Rightarrow> 'r list \<Rightarrow> unit sync" where
  "forS f [] = returnS ()"
| "forS f (x # xs) = bindS (f x) (\<lambda>_. forS f xs)"

definition for_some :: "('r \<Rightarrow> unit sync) \<Rightarrow> 'r list option \<Rightarrow> unit sync" where
  "for_some f v = (case v of None \<Rightarrow> returnS () | Some xs \<Rightarrow> forS f xs)"

section \<open>Shared steps\<close>

type_synonym map_put = "(entity_sync_map \<Rightarrow> entity_sync_map) \<Rightarrow> sync_map \<Rightarrow> sync_map"

text \<open>The watermark and the counter of an entity move for every incoming row.\<close>

definition seen :: "map_put \<Rightarrow> ts \<Rightarrow> unit sync" where
  "seen put_map updated_at s =
     (Ok (), s\<lparr>ss_map := put_map (\<lambda>m. (update_max updated_at m)\<lparr>em_count := em_count m + 1\<rparr>)
        (ss_map s)\<rparr>)"

definition record_id ::
  "(sync_map \<Rightarrow> entity_sync_map) \<Rightarrow> map_put \<Rightarrow> int \<Rightarrow> int \<Rightarrow> unit sync" where
  "record_id get_map put_map foreign_id local_id s =
     (case map_id foreign_id local_id (get_map (ss_map s)) of
        Inl msg \<Rightarrow> (Err (Internal msg), s)
      | Inr m \<Rightarrow> (Ok (), s\<lparr>ss_map := put_map (\<lambda>_. m) (ss_map s)\<rparr>))"

definition remap_required_fk :: "entity_sync_map \<Rightarrow> int \<Rightarrow> string \<Rightarrow> string \<Rightarrow> int wallet_result" where
  "remap_required_fk esm foreign_id dependent_entity fk_field =
     (case get_local_id foreign_id esm of
        Some local_id \<Rightarrow> Ok local_id
      | None \<Rightarrow> Err (Internal (''processSyncChunk: '' @ dependent_entity @ ''.'' @ fk_field @
          '' references unmapped foreign id '' @ show_int foreign_id @
          '' (no local id in syncMap.'' @ em_entity_name esm @
          ''); refusing to fall back to the raw foreign id'')))"

definition required_fk ::
  "(sync_map \<Rightarrow> entity_sync_map) \<Rightarrow> int \<Rightarrow> string \<Rightarrow> string \<Rightarrow> int sync" where
  "required_fk get_map foreign_id dependent_entity fk_field s =
     (remap_required_fk (get_map (ss_map s)) foreign_id dependent_entity fk_field, s)"

definition optional_fk :: "(sync_map \<Rightarrow> entity_sync_map) \<Rightarrow> int option \<Rightarrow> int option sync" where
  "optional_fk get_map fk s =
     (Ok (Option.bind fk (\<lambda>f. get_local_id f (get_map (ss_map s)))), s)"

definition count_update :: "unit sync" where
  "count_update s = (Ok (), s\<lparr>ss_updates := ss_updates s + 1\<rparr>)"

definition count_insert :: "unit sync" where
  "count_insert s = (Ok (), s\<lparr>ss_inserts := ss_inserts s + 1\<rparr>)"

text \<open>The body of \<open>if local.should_update(incoming)\<close>.\<close>

definition refresh :: "bool \<Rightarrow> (database \<Rightarrow> (database \<times> int) wallet_result) \<Rightarrow> unit sync" where
  "refresh newer upd =
     (if newer then bindS (writeS upd) (\<lambda>_. count_update) else returnS ())"

text \<open>The branch for a row that is not there yet: insert, map the identifier, count.\<close>

definition insert_new ::
  "(database \<Rightarrow> (database \<times> int) wallet_result) \<Rightarrow> (sync_map \<Rightarrow> entity_sync_map) \<Rightarrow> map_put \<Rightarrow>
    int \<Rightarrow> unit sync" where
  "insert_new ins get_map put_map foreign_id =
     bindS (writeS ins) (\<lambda>local_id.
     bindS (record_id get_map put_map foreign_id local_id) (\<lambda>_. count_insert))"

text \<open>Insertion into a table with a composite key, which is not mapped.\<close>

definition insert_unmapped :: "(database \<Rightarrow> database wallet_result) \<Rightarrow> unit sync" where
  "insert_unmapped ins =
     bindS (writeS (\<lambda>db. bind_result (ins db) (\<lambda>db'. Ok (db', ())))) (\<lambda>_. count_insert)"

section \<open>Users\<close>

definition verify_one_or_none :: "'a list \<Rightarrow> 'a option wallet_result" where
  "verify_one_or_none results =
     (if length results > 1 then
        Err (Internal (''Expected at most one result, got '' @ show_nat (length results)))
      else Ok (if results = [] then None else Some (last results)))"

definition by_identity_key :: "string \<Rightarrow> find_users_args" where
  "by_identity_key key =
     find_users_default\<lparr>usa_partial := user_partial_default\<lparr>usp_identity_key := Some key\<rparr>\<rparr>"

definition find_user_by_identity_key :: "string \<Rightarrow> database \<Rightarrow> user option wallet_result" where
  "find_user_by_identity_key key db = verify_one_or_none (find_users (by_identity_key key) db)"

text \<open>1971-01-01, the time stamp of a user this storage has only heard of.\<close>

definition TS_1971 :: ts where
  "TS_1971 = 31536000000000000"

definition find_or_insert_user :: "ts \<Rightarrow> string \<Rightarrow> database \<Rightarrow> (database \<times> user \<times> bool) wallet_result" where
  "find_or_insert_user now identity_key db =
     bind_result (verify_one_or_none (find_users (by_identity_key identity_key) db)) (\<lambda>existing.
       case existing of
         Some user \<Rightarrow> Ok (db, user, False)
       | None \<Rightarrow>
           (let new_user = \<lparr>us_created_at = now, us_updated_at = TS_1971, us_user_id = 0,
                            us_identity_key = identity_key, us_active_storage = []\<rparr>
            in bind_result (insert_user new_user db) (\<lambda>(db', user_id).
                 Ok (db', new_user\<lparr>us_user_id := user_id\<rparr>, True))))"

definition merge_user :: "ts \<Rightarrow> user \<Rightarrow> unit sync" where
  "merge_user now user =
     bindS (writeS (find_or_insert_user now (us_identity_key user))) (\<lambda>(local_user, created).
       refresh (us_updated_at user > us_updated_at local_user)
         (update_user now (us_user_id local_user)
           (user_partial_default\<lparr>usp_active_storage := Some (us_active_storage user),
              usp_updated_at := Some (max (us_updated_at user) (us_updated_at local_user))\<rparr>)))"

section \<open>Entities\<close>

definition merge_proven_tx :: "proven_tx \<Rightarrow> unit sync" where
  "merge_proven_tx incoming =
     bindS (seen sm_proven_tx_update (pt_updated_at incoming)) (\<lambda>_.
     bindS (query (\<lambda>db. Ok (find_proven_txs (find_proven_txs_default\<lparr>pta_partial :=
         proven_tx_partial_default\<lparr>ptp_txid := Some (pt_txid incoming)\<rparr>\<rparr>) db))) (\<lambda>existing.
     case existing of
       local # _ \<Rightarrow>
         record_id sm_proven_tx sm_proven_tx_update (pt_proven_tx_id incoming) (pt_proven_tx_id local)
     | [] \<Rightarrow>
         insert_new (insert_proven_tx incoming) sm_proven_tx sm_proven_tx_update
           (pt_proven_tx_id incoming)))"

definition merge_output_basket :: "ts \<Rightarrow> int \<Rightarrow> output_basket \<Rightarrow> unit sync" where
  "merge_output_basket now local_user_id incoming =
     bindS (seen sm_output_basket_update (ob_updated_at incoming)) (\<lambda>_.
     bindS (query (\<lambda>db. Ok (find_output_baskets (find_output_baskets_default\<lparr>oba_partial :=
         output_basket_partial_default\<lparr>obp_user_id := Some local_user_id,
           obp_name := Some (ob_name incoming)\<rparr>\<rparr>) db))) (\<lambda>existing.
     case existing of
       local # _ \<Rightarrow>
         bindS (refresh (should_update ob_updated_at local incoming)
           (update_output_basket now (ob_basket_id local)
             (output_basket_partial_default\<lparr>
               obp_number_of_desired_utxos := Some (ob_number_of_desired_utxos incoming),
               obp_minimum_desired_utxo_value := Some (ob_minimum_desired_utxo_value incoming),
               obp_is_deleted := Some (ob_is_deleted incoming),
               obp_updated_at := Some (max (ob_updated_at incoming) (ob_updated_at local))\<rparr>))) (\<lambda>_.
         record_id sm_output_basket sm_output_basket_update (ob_basket_id incoming) (ob_basket_id local))
     | [] \<Rightarrow>
         insert_new (insert_output_basket
             (incoming\<lparr>ob_user_id := local_user_id, ob_basket_id := 0\<rparr>))
           sm_output_basket sm_output_basket_update (ob_basket_id incoming)))"

definition merge_tx_label :: "ts \<Rightarrow> int \<Rightarrow> tx_label \<Rightarrow> unit sync" where
  "merge_tx_label now local_user_id incoming =
     bindS (seen sm_tx_label_update (tl_updated_at incoming)) (\<lambda>_.
     bindS (query (\<lambda>db. Ok (find_tx_labels (find_tx_labels_default\<lparr>tla_partial :=
         tx_label_partial_default\<lparr>tlp_user_id := Some local_user_id,
           tlp_label := Some (tl_label incoming)\<rparr>\<rparr>) db))) (\<lambda>existing.
     case existing of
       local # _ \<Rightarrow>
         bindS (refresh (should_update tl_updated_at local incoming)
           (update_tx_label now (tl_tx_label_id local)
             (tx_label_partial_default\<lparr>tlp_is_deleted := Some (tl_is_deleted incoming),
               tlp_updated_at := Some (max (tl_updated_at incoming) (tl_updated_at local))\<rparr>))) (\<lambda>_.
         record_id sm_tx_label sm_tx_label_update (tl_tx_label_id incoming) (tl_tx_label_id local))
     | [] \<Rightarrow>
         insert_new (insert_tx_label
             (incoming\<lparr>tl_user_id := local_user_id, tl_tx_label_id := 0\<rparr>))
           sm_tx_label sm_tx_label_update (tl_tx_label_id incoming)))"

definition merge_output_tag :: "ts \<Rightarrow> int \<Rightarrow> output_tag \<Rightarrow> unit sync" where
  "merge_output_tag now local_user_id incoming =
     bindS (seen sm_output_tag_update (ot_updated_at incoming)) (\<lambda>_.
     bindS (query (\<lambda>db. Ok (find_output_tags (find_output_tags_default\<lparr>ota_partial :=
         output_tag_partial_default\<lparr>otp_user_id := Some local_user_id,
           otp_tag := Some (ot_tag incoming)\<rparr>\<rparr>) db))) (\<lambda>existing.
     case existing of
       local # _ \<Rightarrow>
         bindS (refresh (should_update ot_updated_at local incoming)
           (update_output_tag now (ot_output_tag_id local)
             (output_tag_partial_default\<lparr>otp_is_deleted := Some (ot_is_deleted incoming),
               otp_updated_at := Some (max (ot_updated_at incoming) (ot_updated_at local))\<rparr>))) (\<lambda>_.
         record_id sm_output_tag sm_output_tag_update (ot_output_tag_id incoming)
           (ot_output_tag_id local))
     | [] \<Rightarrow>
         insert_new (insert_output_tag
             (incoming\<lparr>ot_user_id := local_user_id, ot_output_tag_id := 0\<rparr>))
           sm_output_tag sm_output_tag_update (ot_output_tag_id incoming)))"

definition merge_transaction :: "ts \<Rightarrow> int \<Rightarrow> transaction \<Rightarrow> unit sync" where
  "merge_transaction now local_user_id incoming =
     bindS (seen sm_transaction_update (tx_updated_at incoming)) (\<lambda>_.
     bindS (optional_fk sm_proven_tx (tx_proven_tx_id incoming)) (\<lambda>local_proven_tx_id.
     bindS (query (\<lambda>db. Ok (find_transactions (find_transactions_default\<lparr>txa_partial :=
         transaction_partial_default\<lparr>txp_user_id := Some local_user_id,
           txp_reference := Some (tx_reference incoming)\<rparr>\<rparr>) db))) (\<lambda>existing.
     case existing of
       local # _ \<Rightarrow>
         bindS (refresh (should_update tx_updated_at local incoming)
           (update_transaction now (tx_transaction_id local)
             (transaction_partial_default\<lparr>
               txp_proven_tx_id := local_proven_tx_id,
               txp_status := Some (tx_status incoming),
               txp_txid := tx_txid incoming,
               txp_version := tx_version incoming,
               txp_lock_time := tx_lock_time incoming,
               txp_is_outgoing := Some (tx_is_outgoing incoming),
               txp_satoshis := Some (tx_satoshis incoming),
               txp_description := Some (tx_description incoming),
               txp_raw_tx := tx_raw_tx incoming,
               txp_input_beef := tx_input_beef incoming,
               txp_updated_at := Some (max (tx_updated_at incoming) (tx_updated_at local))\<rparr>))) (\<lambda>_.
         record_id sm_transaction sm_transaction_update (tx_transaction_id incoming)
           (tx_transaction_id local))
     | [] \<Rightarrow>
         insert_new (insert_transaction
             (incoming\<lparr>tx_user_id := local_user_id, tx_proven_tx_id := local_proven_tx_id,
                tx_transaction_id := 0\<rparr>))
           sm_transaction sm_transaction_update (tx_transaction_id incoming))))"

definition merge_output :: "ts \<Rightarrow> bool \<Rightarrow> int \<Rightarrow> output_row \<Rightarrow> unit sync" where
  "merge_output now trx local_user_id incoming =
     bindS (seen sm_output_update (ou_updated_at incoming)) (\<lambda>_.
     bindS (required_fk sm_transaction (ou_transaction_id incoming) ''output'' ''transaction_id'')
       (\<lambda>local_tx_id.
     bindS (optional_fk sm_output_basket (ou_basket_id incoming)) (\<lambda>local_basket_id.
     bindS (optional_fk sm_transaction (ou_spent_by incoming)) (\<lambda>local_spent_by.
     bindS (query (find_outputs trx (find_outputs_default\<lparr>oua_partial :=
         output_partial_default\<lparr>oup_transaction_id := Some local_tx_id,
           oup_vout := Some (ou_vout incoming)\<rparr>\<rparr>))) (\<lambda>existing.
     case existing of
       local # _ \<Rightarrow>
         bindS (refresh (should_update ou_updated_at local incoming)
           (update_output now (ou_output_id local)
             (output_partial_default\<lparr>
               oup_spendable := Some (ou_spendable incoming),
               oup_change := Some (ou_change incoming),
               oup_output_type := Some (ou_output_type incoming),
               oup_provided_by := Some (ou_provided_by incoming),
               oup_purpose := Some (ou_purpose incoming),
               oup_output_description := ou_output_description incoming,
               oup_spending_description := ou_spending_description incoming,
               oup_sender_identity_key := ou_sender_identity_key incoming,
               oup_custom_instructions := ou_custom_instructions incoming,
               oup_script_length := ou_script_length incoming,
               oup_script_offset := ou_script_offset incoming,
               oup_locking_script := ou_locking_script incoming,
               oup_spent_by := local_spent_by,
               oup_updated_at := Some (max (ou_updated_at incoming) (ou_updated_at local))\<rparr>))) (\<lambda>_.
         record_id sm_output sm_output_update (ou_output_id incoming) (ou_output_id local))
     | [] \<Rightarrow>
         insert_new (insert_output
             (incoming\<lparr>ou_user_id := local_user_id, ou_transaction_id := local_tx_id,
                ou_basket_id := local_basket_id, ou_spent_by := local_spent_by, ou_output_id := 0\<rparr>))
           sm_output sm_output_update (ou_output_id incoming))))))"

definition merge_tx_label_map :: "ts \<Rightarrow> tx_label_map \<Rightarrow> unit sync" where
  "merge_tx_label_map now incoming =
     bindS (seen sm_tx_label_map_update (tm_updated_at incoming)) (\<lambda>_.
     bindS (required_fk sm_tx_label (tm_tx_label_id incoming) ''txLabelMap'' ''tx_label_id'')
       (\<lambda>local_tx_label_id.
     bindS (required_fk sm_transaction (tm_transaction_id incoming) ''txLabelMap'' ''transaction_id'')
       (\<lambda>local_tx_id.
     bindS (query (\<lambda>db. Ok (find_tx_label_maps (find_tx_label_maps_default\<lparr>tma_partial :=
         tx_label_map_partial_default\<lparr>tmp_tx_label_id := Some local_tx_label_id,
           tmp_transaction_id := Some local_tx_id\<rparr>\<rparr>) db))) (\<lambda>existing.
     case existing of
       local # _ \<Rightarrow>
         refresh (should_update tm_updated_at local incoming)
           (update_tx_label_map now (tm_transaction_id local) (tm_tx_label_id local)
             (tx_label_map_partial_default\<lparr>tmp_is_deleted := Some (tm_is_deleted incoming),
               tmp_updated_at := Some (max (tm_updated_at incoming) (tm_updated_at local))\<rparr>))
     | [] \<Rightarrow>
         insert_unmapped (insert_tx_label_map
           (incoming\<lparr>tm_tx_label_id := local_tx_label_id, tm_transaction_id := local_tx_id\<rparr>))))))"

definition merge_output_tag_map :: "ts \<Rightarrow> output_tag_map \<Rightarrow> unit sync" where
  "merge_output_tag_map now incoming =
     bindS (seen sm_output_tag_map_update (om_updated_at incoming)) (\<lambda>_.
     bindS (required_fk sm_output_tag (om_output_tag_id incoming) ''outputTagMap'' ''output_tag_id'')
       (\<lambda>local_tag_id.
     bindS (required_fk sm_output (om_output_id incoming) ''outputTagMap'' ''output_id'')
       (\<lambda>local_output_id.
     bindS (query (\<lambda>db. Ok (find_output_tag_maps (find_output_tag_maps_default\<lparr>oma_partial :=
         output_tag_map_partial_default\<lparr>omp_output_tag_id := Some local_tag_id,
           omp_output_id := Some local_output_id\<rparr>\<rparr>) db))) (\<lambda>existing.
     case existing of
       local # _ \<Rightarrow>
         refresh (should_update om_updated_at local incoming)
           (update_output_tag_map now (om_output_id local) (om_output_tag_id local)
             (output_tag_map_partial_default\<lparr>omp_is_deleted := Some (om_is_deleted incoming),
               omp_updated_at := Some (max (om_updated_at incoming) (om_updated_at local))\<rparr>))
     | [] \<Rightarrow>
         insert_unmapped (insert_output_tag_map
           (incoming\<lparr>om_output_tag_id := local_tag_id, om_output_id := local_output_id\<rparr>))))))"

definition merge_certificate :: "ts \<Rightarrow> int \<Rightarrow> certificate \<Rightarrow> unit sync" where
  "merge_certificate now local_user_id incoming =
     bindS (seen sm_certificate_update (ce_updated_at incoming)) (\<lambda>_.
     bindS (query (\<lambda>db. Ok (find_certificates (find_certificates_default\<lparr>cea_partial :=
         certificate_partial_default\<lparr>cep_user_id := Some local_user_id,
           cep_serial_number := Some (ce_serial_number incoming),
           cep_certifier := Some (ce_certifier incoming)\<rparr>\<rparr>) db))) (\<lambda>existing.
     case existing of
       local # _ \<Rightarrow>
         bindS (refresh (should_update ce_updated_at local incoming)
           (update_certificate now (ce_certificate_id local)
             (certificate_partial_default\<lparr>
               cep_cert_type := Some (ce_cert_type incoming),
               cep_subject := Some (ce_subject incoming),
               cep_serial_number := Some (ce_serial_number incoming),
               cep_verifier := ce_verifier incoming,
               cep_revocation_outpoint := Some (ce_revocation_outpoint incoming),
               cep_signature := Some (ce_signature incoming),
               cep_is_deleted := Some (ce_is_deleted incoming),
               cep_updated_at := Some (max (ce_updated_at incoming) (ce_updated_at local))\<rparr>))) (\<lambda>_.
         record_id sm_certificate sm_certificate_update (ce_certificate_id incoming)
           (ce_certificate_id local))
     | [] \<Rightarrow>
         insert_new (insert_certificate
             (incoming\<lparr>ce_user_id := local_user_id, ce_certificate_id := 0\<rparr>))
           sm_certificate sm_certificate_update (ce_certificate_id incoming)))"

definition merge_certificate_field :: "ts \<Rightarrow> int \<Rightarrow> certificate_field \<Rightarrow> unit sync" where
  "merge_certificate_field now local_user_id incoming =
     bindS (seen sm_certificate_field_update (cf_updated_at incoming)) (\<lambda>_.
     bindS (required_fk sm_certificate (cf_certificate_id incoming) ''certificateField''
         ''certificate_id'') (\<lambda>local_cert_id.
     bindS (query (\<lambda>db. Ok (find_certificate_fields (find_certificate_fields_default\<lparr>cfa_partial :=
         certificate_field_partial_default\<lparr>cfp_certificate_id := Some local_cert_id,
           cfp_field_name := Some (cf_field_name incoming)\<rparr>\<rparr>) db))) (\<lambda>existing.
     case existing of
       local # _ \<Rightarrow>
         refresh (should_update cf_updated_at local incoming)
           (update_certificate_field now (cf_certificate_id local) (cf_field_name local)
             (certificate_field_partial_default\<lparr>cfp_field_value := Some (cf_field_value incoming),
               cfp_master_key := Some (cf_master_key incoming),
               cfp_updated_at := Some (max (cf_updated_at incoming) (cf_updated_at local))\<rparr>))
     | [] \<Rightarrow>
         insert_unmapped (insert_certificate_field
           (incoming\<lparr>cf_user_id := local_user_id, cf_certificate_id := local_cert_id\<rparr>)))))"

definition merge_commission :: "ts \<Rightarrow> int \<Rightarrow> commission \<Rightarrow> unit sync" where
  "merge_commission now local_user_id incoming =
     bindS (seen sm_commission_update (co_updated_at incoming)) (\<lambda>_.
     bindS (required_fk sm_transaction (co_transaction_id incoming) ''commission'' ''transaction_id'')
       (\<lambda>local_tx_id.
     bindS (query (\<lambda>db. Ok (find_commissions (find_commissions_default\<lparr>coa_partial :=
         commission_partial_default\<lparr>cop_user_id := Some local_user_id,
           cop_transaction_id := Some local_tx_id,
           cop_key_offset := Some (co_key_offset incoming)\<rparr>\<rparr>) db))) (\<lambda>existing.
     case existing of
       local # _ \<Rightarrow>
         bindS (refresh (should_update co_updated_at local incoming)
           (update_commission now (co_commission_id local)
             (commission_partial_default\<lparr>cop_is_redeemed := Some (co_is_redeemed incoming),
               cop_updated_at := Some (max (co_updated_at incoming) (co_updated_at local))\<rparr>))) (\<lambda>_.
         record_id sm_commission sm_commission_update (co_commission_id incoming)
           (co_commission_id local))
     | [] \<Rightarrow>
         insert_new (insert_commission
             (incoming\<lparr>co_user_id := local_user_id, co_transaction_id := local_tx_id,
                co_commission_id := 0\<rparr>))
           sm_commission sm_commission_update (co_commission_id incoming))))"

definition merge_proven_tx_req :: "ts \<Rightarrow> proven_tx_req \<Rightarrow> unit sync" where
  "merge_proven_tx_req now incoming =
     bindS (seen sm_proven_tx_req_update (pr_updated_at incoming)) (\<lambda>_.
     bindS (optional_fk sm_proven_tx (pr_proven_tx_id incoming)) (\<lambda>local_proven_tx_id.
     bindS (query (\<lambda>db. Ok (find_proven_tx_reqs (find_proven_tx_reqs_default\<lparr>pra_partial :=
         proven_tx_req_partial_default\<lparr>prp_txid := Some (pr_txid incoming)\<rparr>\<rparr>) db))) (\<lambda>existing.
     case existing of
       local # _ \<Rightarrow>
         bindS (refresh (should_update pr_updated_at local incoming)
           (update_proven_tx_req now (pr_proven_tx_req_id local)
             (proven_tx_req_partial_default\<lparr>prp_proven_tx_id := local_proven_tx_id,
               prp_status := Some (pr_status incoming),
               prp_notified := Some (pr_notified incoming),
               prp_updated_at := Some (max (pr_updated_at incoming) (pr_updated_at local))\<rparr>))) (\<lambda>_.
         record_id sm_proven_tx_req sm_proven_tx_req_update (pr_proven_tx_req_id incoming)
           (pr_proven_tx_req_id local))
     | [] \<Rightarrow>
         insert_new (insert_proven_tx_req
             (incoming\<lparr>pr_proven_tx_id := local_proven_tx_id, pr_proven_tx_req_id := 0\<rparr>))
           sm_proven_tx_req sm_proven_tx_req_update (pr_proven_tx_req_id incoming))))"

section \<open>A chunk\<close>

definition chunk_user_id :: "string \<Rightarrow> int sync" where
  "chunk_user_id identity_key =
     bindS (query (find_user_by_identity_key identity_key)) (\<lambda>local_user.
       case local_user of
         Some u \<Rightarrow> returnS (us_user_id u)
       | None \<Rightarrow>
           failS (Internal (''processSyncChunk: user not found for identity key '' @ identity_key)))"

definition merge_entities :: "ts \<Rightarrow> bool \<Rightarrow> int \<Rightarrow> sync_chunk \<Rightarrow> unit sync" where
  "merge_entities now trx local_user_id chunk =
     bindS (for_some merge_proven_tx (ch_proven_txs chunk)) (\<lambda>_.
     bindS (for_some (merge_output_basket now local_user_id) (ch_output_baskets chunk)) (\<lambda>_.
     bindS (for_some (merge_tx_label now local_user_id) (ch_tx_labels chunk)) (\<lambda>_.
     bindS (for_some (merge_output_tag now local_user_id) (ch_output_tags chunk)) (\<lambda>_.
     bindS (for_some (merge_transaction now local_user_id) (ch_transactions chunk)) (\<lambda>_.
     bindS (for_some (merge_output now trx local_user_id) (ch_outputs chunk)) (\<lambda>_.
     bindS (for_some (merge_tx_label_map now) (ch_tx_label_maps chunk)) (\<lambda>_.
     bindS (for_some (merge_output_tag_map now) (ch_output_tag_maps chunk)) (\<lambda>_.
     bindS (for_some (merge_certificate now local_user_id) (ch_certificates chunk)) (\<lambda>_.
     bindS (for_some (merge_certificate_field now local_user_id) (ch_certificate_fields chunk)) (\<lambda>_.
     bindS (for_some (merge_commission now local_user_id) (ch_commissions chunk)) (\<lambda>_.
       for_some (merge_proven_tx_req now) (ch_proven_tx_reqs chunk))))))))))))"

definition merge_chunk :: "ts \<Rightarrow> bool \<Rightarrow> sync_chunk \<Rightarrow> unit sync" where
  "merge_chunk now trx chunk =
     bindS (case ch_user chunk of None \<Rightarrow> returnS () | Some user \<Rightarrow> merge_user now user) (\<lambda>_.
     bindS (chunk_user_id (ch_user_identity_key chunk)) (\<lambda>local_user_id.
       merge_entities now trx local_user_id chunk))"

record process_sync_chunk_result =
  pr_done :: bool
  pr_max_updated_at :: "ts option"
  pr_inserts :: int
  pr_updates :: int

text \<open>
  The result has only the counters set; the database and the maps are left as the merge left them,
  also when it failed. \<open>trx\<close> says whether a transaction token was passed.
\<close>

definition process_sync_chunk ::
  "ts \<Rightarrow> bool \<Rightarrow> database \<Rightarrow> sync_chunk \<Rightarrow> sync_map \<Rightarrow>
    process_sync_chunk_result wallet_result \<times> database \<times> sync_map" where
  "process_sync_chunk now trx db chunk m =
     (case merge_chunk now trx chunk \<lparr>ss_db = db, ss_map = m, ss_inserts = 0, ss_updates = 0\<rparr> of
        (r, s) \<Rightarrow>
          (bind_result r (\<lambda>_. Ok \<lparr>pr_done = False, pr_max_updated_at = None,
             pr_inserts = ss_inserts s, pr_updates = ss_updates s\<rparr>), ss_db s, ss_map s))"

end
