(* ===== verification/SyncCorrect.thy ===== *)
theory SyncCorrect
  imports SyncProcess
begin

text \<open>
  Correctness of chunk processing. A triple says that a computation started in a consistent state
  ends, with or without an error, in a consistent state in which no row, no mapping and no newer
  time stamp is lost, and that its postcondition holds when it returns. The steps shared by the
  entities are proved once in a locale for a mapped table, which is interpreted on the nine tables
  with identifiers.
\<close>

section \<open>Consistent states\<close>

definition ids_known :: "('r \<Rightarrow> int) \<Rightarrow> 'r table \<Rightarrow> entity_sync_map \<Rightarrow> bool" where
  "ids_known get_id t m \<longleftrightarrow> (\<forall>l \<in> ran (em_id_map m). refers get_id t l)"

text \<open>Every local identifier in the maps is the identifier of a row.\<close>

definition maps_ok :: "database \<Rightarrow> sync_map \<Rightarrow> bool" where
  "maps_ok db m \<longleftrightarrow>
     ids_known pt_proven_tx_id (db_proven_txs db) (sm_proven_tx m) \<and>
     ids_known ob_basket_id (db_output_baskets db) (sm_output_basket m) \<and>
     ids_known tx_transaction_id (db_transactions db) (sm_transaction m) \<and>
     ids_known ou_output_id (db_outputs db) (sm_output m) \<and>
     ids_known tl_tx_label_id (db_tx_labels db) (sm_tx_label m) \<and>
     ids_known ot_output_tag_id (db_output_tags db) (sm_output_tag m) \<and>
     ids_known ce_certificate_id (db_certificates db) (sm_certificate m) \<and>
     ids_known co_commission_id (db_commissions db) (sm_commission m) \<and>
     ids_known pr_proven_tx_req_id (db_proven_tx_reqs db) (sm_proven_tx_req m)"

definition maps_grow :: "sync_map \<Rightarrow> sync_map \<Rightarrow> bool" where
  "maps_grow m m' \<longleftrightarrow>
     em_id_map (sm_proven_tx m) \<subseteq>\<^sub>m em_id_map (sm_proven_tx m') \<and>
     em_id_map (sm_output_basket m) \<subseteq>\<^sub>m em_id_map (sm_output_basket m') \<and>
     em_id_map (sm_transaction m) \<subseteq>\<^sub>m em_id_map (sm_transaction m') \<and>
     em_id_map (sm_output m) \<subseteq>\<^sub>m em_id_map (sm_output m') \<and>
     em_id_map (sm_tx_label m) \<subseteq>\<^sub>m em_id_map (sm_tx_label m') \<and>
     em_id_map (sm_output_tag m) \<subseteq>\<^sub>m em_id_map (sm_output_tag m') \<and>
     em_id_map (sm_certificate m) \<subseteq>\<^sub>m em_id_map (sm_certificate m') \<and>
     em_id_map (sm_commission m) \<subseteq>\<^sub>m em_id_map (sm_commission m') \<and>
     em_id_map (sm_proven_tx_req m) \<subseteq>\<^sub>m em_id_map (sm_proven_tx_req m')"

definition sync_ok :: "sync_st \<Rightarrow> bool" where
  "sync_ok s \<longleftrightarrow> db_ok (ss_db s) \<and> maps_ok (ss_db s) (ss_map s)"

definition sync_grows :: "sync_st \<Rightarrow> sync_st \<Rightarrow> bool" where
  "sync_grows s s' \<longleftrightarrow> db_grows (ss_db s) (ss_db s') \<and> maps_grow (ss_map s) (ss_map s')"

lemma maps_grow_refl [simp]: "maps_grow m m"
  by (simp add: maps_grow_def)

lemma maps_grow_trans: "maps_grow m m' \<Longrightarrow> maps_grow m' m'' \<Longrightarrow> maps_grow m m''"
  unfolding maps_grow_def by (blast intro: map_le_trans)

lemma sync_grows_refl [simp]: "sync_grows s s"
  by (simp add: sync_grows_def)

lemma sync_grows_trans: "sync_grows s s' \<Longrightarrow> sync_grows s' s'' \<Longrightarrow> sync_grows s s''"
  unfolding sync_grows_def by (blast intro: db_grows_trans maps_grow_trans)

lemma maps_ok_grows:
  assumes "maps_ok db m" "db_grows db db'"
  shows "maps_ok db' m"
  using assms(1) by (simp add: maps_ok_def ids_known_def refers_grows [OF assms(2)])

lemma map_le_Some: "m \<subseteq>\<^sub>m m' \<Longrightarrow> m k = Some v \<Longrightarrow> m' k = Some v"
  by (auto simp: map_le_def dom_def)

section \<open>Triples\<close>

definition run_ok :: "(sync_st \<Rightarrow> bool) \<Rightarrow> 'a sync \<Rightarrow> ('a \<Rightarrow> sync_st \<Rightarrow> bool) \<Rightarrow> bool" where
  "run_ok P m Q \<longleftrightarrow>
     (\<forall>s. sync_ok s \<longrightarrow> P s \<longrightarrow>
        sync_ok (snd (m s)) \<and> sync_grows s (snd (m s)) \<and>
        (\<forall>x. fst (m s) = Ok x \<longrightarrow> Q x (snd (m s))))"

text \<open>Assertions that survive whatever the merge does afterwards.\<close>

definition stable :: "(sync_st \<Rightarrow> bool) \<Rightarrow> bool" where
  "stable P \<longleftrightarrow> (\<forall>s s'. P s \<longrightarrow> sync_grows s s' \<longrightarrow> P s')"

lemma run_okI:
  "(\<And>s. sync_ok s \<Longrightarrow> P s \<Longrightarrow> sync_ok (snd (m s))) \<Longrightarrow>
   (\<And>s. sync_ok s \<Longrightarrow> P s \<Longrightarrow> sync_grows s (snd (m s))) \<Longrightarrow>
   (\<And>s x. sync_ok s \<Longrightarrow> P s \<Longrightarrow> fst (m s) = Ok x \<Longrightarrow> Q x (snd (m s))) \<Longrightarrow> run_ok P m Q"
  by (simp add: run_ok_def)

lemma run_ok_conseq:
  "run_ok P m Q \<Longrightarrow> (\<And>s. P' s \<Longrightarrow> P s) \<Longrightarrow> (\<And>x s. Q x s \<Longrightarrow> Q' x s) \<Longrightarrow> run_ok P' m Q'"
  by (simp add: run_ok_def)

lemma run_ok_frame:
  "run_ok P m Q \<Longrightarrow> stable R \<Longrightarrow> run_ok (\<lambda>s. P s \<and> R s) m (\<lambda>x s. Q x s \<and> R s)"
  unfolding run_ok_def stable_def by blast

lemma run_ok_bind:
  assumes "run_ok P m Q" "\<And>x. run_ok (Q x) (f x) R"
  shows "run_ok P (bindS m f) R"
proof -
  have "sync_ok (snd (bindS m f s)) \<and> sync_grows s (snd (bindS m f s)) \<and>
      (\<forall>y. fst (bindS m f s) = Ok y \<longrightarrow> R y (snd (bindS m f s)))" if "sync_ok s" "P s" for s
  proof (cases "fst (m s)")
    case (Inl e)
    then have "bindS m f s = (Inl e, snd (m s))" by (cases "m s") (simp add: bindS_def)
    then show ?thesis using assms(1) that by (simp add: run_ok_def)
  next
    case (Inr x)
    then have b: "bindS m f s = f x (snd (m s))" by (cases "m s") (simp add: bindS_def)
    have "sync_ok (snd (m s))" "sync_grows s (snd (m s))" "Q x (snd (m s))"
      using assms(1) that Inr by (simp_all add: run_ok_def)
    then show ?thesis using assms(2) [of x] unfolding b run_ok_def by (blast intro: sync_grows_trans)
  qed
  then show ?thesis by (simp add: run_ok_def)
qed

lemma run_ok_return: "(\<And>s. P s \<Longrightarrow> Q x s) \<Longrightarrow> run_ok P (returnS x) Q"
  by (simp add: run_ok_def returnS_def)

lemma run_ok_fail: "run_ok P (failS e) Q"
  by (simp add: run_ok_def failS_def)

lemma run_ok_query:
  "run_ok P (query q) (\<lambda>x s. P s \<and> q (ss_db s) = Ok x)"
  by (simp add: run_ok_def query_def)

lemma run_ok_counts:
  "run_ok P count_update (\<lambda>_ s. True)" "run_ok P count_insert (\<lambda>_ s. True)"
  by (simp_all add: run_ok_def count_update_def count_insert_def sync_ok_def sync_grows_def)

lemma stable_True [simp]: "stable (\<lambda>_. True)"
  by (simp add: stable_def)

lemma stable_conj: "stable P \<Longrightarrow> stable Q \<Longrightarrow> stable (\<lambda>s. P s \<and> Q s)"
  unfolding stable_def by blast

lemma stable_all: "(\<And>x. x \<in> A \<Longrightarrow> stable (P x)) \<Longrightarrow> stable (\<lambda>s. \<forall>x \<in> A. P x s)"
  unfolding stable_def by blast

lemma stable_ex: "(\<And>x. stable (P x)) \<Longrightarrow> stable (\<lambda>s. \<exists>x. P x s)"
  unfolding stable_def by blast

lemma run_ok_keep:
  assumes "run_ok (\<lambda>_. True) m (\<lambda>_ _. True)" "stable R"
  shows "run_ok R m (\<lambda>_. R)"
  by (rule run_ok_conseq [OF run_ok_frame [OF assms]]) simp_all

text \<open>Like \<open>run_ok_bind\<close>, keeping what was known before when it is stable.\<close>

lemma run_ok_then:
  assumes "run_ok (\<lambda>_. True) m Q" "stable P" "\<And>x. run_ok (\<lambda>s. Q x s \<and> P s) (f x) R"
  shows "run_ok P (bindS m f) R"
proof -
  have "run_ok P m (\<lambda>x s. Q x s \<and> P s)"
    by (rule run_ok_conseq [OF run_ok_frame [OF assms(1,2)]]) simp_all
  then show ?thesis by (rule run_ok_bind) (rule assms(3))
qed

lemma run_ok_for:
  assumes "\<And>x. run_ok (\<lambda>_. True) (f x) (\<lambda>_. Q x)" "\<And>x. stable (Q x)"
  shows "run_ok (\<lambda>_. True) (forS f xs) (\<lambda>_ s. \<forall>x \<in> set xs. Q x s)"
proof (induction xs)
  case Nil
  show ?case by (simp add: run_ok_return)
next
  case (Cons x xs)
  have "run_ok (Q x) (forS f xs) (\<lambda>_ s. (\<forall>y \<in> set xs. Q y s) \<and> Q x s)"
    by (rule run_ok_conseq [OF run_ok_frame [OF Cons assms(2) [of x]]]) simp_all
  then have "run_ok (Q x) (forS f xs) (\<lambda>_ s. \<forall>y \<in> set (x # xs). Q y s)"
    by (rule run_ok_conseq) auto
  then show ?case unfolding forS.simps by (rule run_ok_bind [OF assms(1)])
qed

lemma run_ok_for_some:
  assumes "\<And>x. run_ok (\<lambda>_. True) (f x) (\<lambda>_. Q x)" "\<And>x. stable (Q x)"
  shows "run_ok (\<lambda>_. True) (for_some f v) (\<lambda>_ s. \<forall>xs. v = Some xs \<longrightarrow> (\<forall>x \<in> set xs. Q x s))"
  by (cases v) (auto simp: for_some_def intro: run_ok_return run_ok_conseq [OF run_ok_for [OF assms]])

text \<open>Find a row by its natural key, then go on with it or without.\<close>

lemma run_ok_lookup:
  assumes found: "\<And>db row rest. q db = Ok (row # rest) \<Longrightarrow> I db row \<and> G row"
    and old: "\<And>row. G row \<Longrightarrow> run_ok (\<lambda>s. I (ss_db s) row) (old row) Q"
    and new: "run_ok (\<lambda>_. True) new Q"
  shows "run_ok (\<lambda>_. True)
     (bindS (query q) (\<lambda>existing. case existing of [] \<Rightarrow> new | row # rest \<Rightarrow> old row)) Q"
proof (rule run_ok_bind [OF run_ok_query])
  fix existing
  show "run_ok (\<lambda>s. True \<and> q (ss_db s) = Ok existing)
      (case existing of [] \<Rightarrow> new | row # rest \<Rightarrow> old row) Q"
  proof (cases existing)
    case Nil
    then show ?thesis using run_ok_conseq [OF new] by simp
  next
    case (Cons row rest)
    show ?thesis
    proof (cases "G row")
      case True
      then show ?thesis using run_ok_conseq [OF old [OF True]] found Cons by simp
    next
      case False
      then have "q (ss_db s) \<noteq> Ok existing" for s :: sync_st using found Cons by blast
      then show ?thesis by (simp add: run_ok_def)
    qed
  qed
qed

context stored_table
begin

lemma refresh_put:
  assumes up: "\<And>db. u db = bind_result (update_rows sel f key (refs db) (tab db))
      (\<lambda>(t, n). Ok (put (\<lambda>_. t) db, n))"
    and only: "\<And>db r. db_ok db \<Longrightarrow> row \<in> set (tb_rows (tab db)) \<Longrightarrow> r \<in> set (tb_rows (tab db)) \<Longrightarrow>
      sel r \<Longrightarrow> r = row"
    and idc: "\<And>db t n. db_ok db \<Longrightarrow> update_rows sel f key (refs db) (tab db) = Ok (t, n) \<Longrightarrow> idc t"
    and frow: "newer \<Longrightarrow> millis (upd row) = upd row \<Longrightarrow>
      ident (f row) = ident row \<and> upd row \<le> upd (f row) \<and> millis (upd (f row)) = upd (f row)"
  shows "run_ok (\<lambda>s. row \<in> set (tb_rows (tab (ss_db s)))) (refresh newer u) (\<lambda>_ _. True)"
proof (cases newer)
  case True
  have "sync_ok (snd (writeS u s)) \<and> sync_grows s (snd (writeS u s))"
    if s: "sync_ok s" and row: "row \<in> set (tb_rows (tab (ss_db s)))" for s
  proof (cases "update_rows sel f key (refs (ss_db s)) (tab (ss_db s))")
    case (Inl e)
    then show ?thesis using s by (simp add: writeS_def up)
  next
    case (Inr tn)
    obtain t n where tn: "tn = (t, n)" by (cases tn)
    have db: "db_ok (ss_db s)" using s by (simp add: sync_ok_def)
    then have "millis (upd row) = upd row" using tab_ok(1) row by (auto simp: rows_ok_def)
    note fr = frow [OF True this]
    have "ident (f r) = ident r \<and> upd r \<le> upd (f r) \<and> millis (upd (f r)) = upd (f r)"
      if "r \<in> set (tb_rows (tab (ss_db s)))" "sel r" for r
      using only [OF db row that] fr by simp
    note ok = update_put_ok [OF db Inr [unfolded tn] this idc [OF db Inr [unfolded tn]]]
    from ok show ?thesis
      using s Inr maps_ok_grows [OF _ ok(2)] by (simp add: writeS_def up tn sync_ok_def sync_grows_def)
  qed
  then have "run_ok (\<lambda>s. row \<in> set (tb_rows (tab (ss_db s)))) (writeS u) (\<lambda>_ _. True)"
    by (simp add: run_ok_def)
  then show ?thesis using True unfolding refresh_def by (simp add: run_ok_bind run_ok_counts)
next
  case False
  then show ?thesis by (simp add: refresh_def run_ok_return)
qed

end

context id_stored
begin

lemma insert_write:
  assumes ins: "\<And>db. ins db = bind_result (insert_row set_id key (refs db) row (tab db))
      (\<lambda>(t, i). Ok (put (\<lambda>_. t) db, i))"
    and row: "millis (upd row) = upd row"
  shows "run_ok (\<lambda>_. True) (writeS ins) (\<lambda>i s. set_id (\<lambda>_. i) row \<in> set (tb_rows (tab (ss_db s))))"
    (is "run_ok _ _ ?Q")
proof -
  have "sync_ok (snd (writeS ins s)) \<and> sync_grows s (snd (writeS ins s)) \<and>
      (\<forall>i. fst (writeS ins s) = Ok i \<longrightarrow> ?Q i (snd (writeS ins s)))" if s: "sync_ok s" for s
  proof (cases "insert_row set_id key (refs (ss_db s)) row (tab (ss_db s))")
    case (Inl e)
    then show ?thesis using s by (simp add: writeS_def ins)
  next
    case (Inr ti)
    obtain t i where ti: "ti = (t, i)" by (cases ti)
    have db: "db_ok (ss_db s)" using s by (simp add: sync_ok_def)
    note ok = insert_put_ok [OF db Inr [unfolded ti] row]
    have "set_id (\<lambda>_. i) row \<in> set (tb_rows t)"
      by (simp add: insert_row_OkD(1) [OF Inr [unfolded ti]])
    then show ?thesis
      using s Inr ok maps_ok_grows [OF _ ok(2)]
      by (simp add: writeS_def ins ti sync_ok_def sync_grows_def tab_put)
  qed
  then show ?thesis by (simp add: run_ok_def)
qed

lemma same_id:
  "db_ok db \<Longrightarrow> r \<in> set (tb_rows (tab db)) \<Longrightarrow> x \<in> set (tb_rows (tab db)) \<Longrightarrow> get_id r = get_id x \<Longrightarrow> r = x"
  using tab_ok(2) by (auto simp: ids_ok_def dest: distinct_map [THEN iffD1] inj_onD)

lemma refresh_ok:
  assumes up: "\<And>db. u db = bind_result
      (update_rows (\<lambda>r. get_id r = get_id row) f key (refs db) (tab db))
      (\<lambda>(t, n). Ok (put (\<lambda>_. t) db, n))"
    and f: "\<And>r. get_id (f r) = get_id r"
    and frow: "newer \<Longrightarrow> millis (upd row) = upd row \<Longrightarrow>
      ident (f row) = ident row \<and> upd row \<le> upd (f row) \<and> millis (upd (f row)) = upd (f row)"
  shows "run_ok (\<lambda>s. row \<in> set (tb_rows (tab (ss_db s)))) (refresh newer u) (\<lambda>_ _. True)"
  by (rule refresh_put [OF up _ _ frow])
    (blast intro: same_id, blast intro: update_rows_ids_ok f tab_ok(2))

end

section \<open>A mapped table\<close>

text \<open>The incoming row with a foreign identifier is linked to a local row with its natural key.\<close>

definition id_linked ::
  "(sync_map \<Rightarrow> entity_sync_map) \<Rightarrow> (database \<Rightarrow> 'r table) \<Rightarrow> ('r \<Rightarrow> int) \<Rightarrow> ('r \<Rightarrow> 'n) \<Rightarrow>
    int \<Rightarrow> 'n \<Rightarrow> sync_st \<Rightarrow> bool" where
  "id_linked get_map tab get_id nat_key fid n s \<longleftrightarrow>
     (\<exists>r \<in> set (tb_rows (tab (ss_db s))).
        nat_key r = n \<and> em_id_map (get_map (ss_map s)) fid = Some (get_id r))"

locale mapped_table = id_stored tab put key ident upd refs get_id set_id
  for tab :: "database \<Rightarrow> 'r table" and put and key :: "'r \<Rightarrow> 'k" and ident :: "'r \<Rightarrow> 'i"
    and upd and refs and get_id and set_id +
  fixes get_map :: "sync_map \<Rightarrow> entity_sync_map" and put_map :: map_put and nat_key :: "'r \<Rightarrow> 'n"
  assumes put_map_const: "put_map f m = put_map (\<lambda>_. f (get_map m)) m"
    and get_put_map: "get_map (put_map f m) = f (get_map m)"
    and maps_known: "maps_ok db m \<Longrightarrow> ids_known get_id (tab db) (get_map m)"
    and put_map_ok: "maps_ok db m \<Longrightarrow> ids_known get_id (tab db) e \<Longrightarrow> maps_ok db (put_map (\<lambda>_. e) m)"
    and put_map_grows:
      "em_id_map (get_map m) \<subseteq>\<^sub>m em_id_map e \<Longrightarrow> maps_grow m (put_map (\<lambda>_. e) m)"
    and maps_mono: "maps_grow m m' \<Longrightarrow> em_id_map (get_map m) \<subseteq>\<^sub>m em_id_map (get_map m')"
    and grows_tab: "db_grows db db' \<Longrightarrow> rows_persist ident upd (tab db) (tab db')"
    and ident_nat: "ident r = ident r' \<Longrightarrow> nat_key r = nat_key r' \<and> get_id r = get_id r'"
    and nat_set_id: "nat_key (set_id g r) = nat_key r"
begin

lemma linked_stable: "stable (id_linked get_map tab get_id nat_key fid n)"
proof -
  have "id_linked get_map tab get_id nat_key fid n s'"
    if r: "r \<in> set (tb_rows (tab (ss_db s)))" "nat_key r = n"
      and m: "em_id_map (get_map (ss_map s)) fid = Some (get_id r)" and g: "sync_grows s s'" for r s s'
  proof -
    obtain r' where r': "r' \<in> set (tb_rows (tab (ss_db s')))" "ident r' = ident r"
      using grows_tab [of "ss_db s" "ss_db s'"] g r(1) by (auto simp: sync_grows_def rows_persist_def)
    have "em_id_map (get_map (ss_map s)) \<subseteq>\<^sub>m em_id_map (get_map (ss_map s'))"
      using g by (simp add: sync_grows_def maps_mono)
    then have "em_id_map (get_map (ss_map s')) fid = Some (get_id r)" using m by (rule map_le_Some)
    then show ?thesis using r' ident_nat [OF r'(2)] r(2) by (auto simp: id_linked_def)
  qed
  then show ?thesis by (auto simp: stable_def id_linked_def)
qed

lemma seen_ok: "run_ok P (seen put_map t) (\<lambda>_ _. True)"
proof (rule run_okI)
  fix s assume "sync_ok s"
  then have "maps_ok (ss_db s) (ss_map s)" by (simp add: sync_ok_def)
  note k = maps_known [OF this] and ok = put_map_ok [OF this]
  let ?e = "(update_max t (get_map (ss_map s)))\<lparr>em_count := em_count (get_map (ss_map s)) + 1\<rparr>"
  have e: "snd (seen put_map t s) = s\<lparr>ss_map := put_map (\<lambda>_. ?e) (ss_map s)\<rparr>"
    by (simp add: seen_def) (subst put_map_const, rule refl)
  show "sync_ok (snd (seen put_map t s))"
    using \<open>sync_ok s\<close> ok [of ?e] k unfolding e by (simp add: sync_ok_def ids_known_def)
  show "sync_grows s (snd (seen put_map t s))"
    unfolding e by (simp add: sync_grows_def put_map_grows)
qed simp

lemma record_id_ok:
  "run_ok (\<lambda>s. \<exists>r \<in> set (tb_rows (tab (ss_db s))). nat_key r = n \<and> get_id r = l)
     (record_id get_map put_map fid l) (\<lambda>_. id_linked get_map tab get_id nat_key fid n)"
proof -
  have "sync_ok (snd (record_id get_map put_map fid l s)) \<and>
      sync_grows s (snd (record_id get_map put_map fid l s)) \<and>
      (\<forall>x. fst (record_id get_map put_map fid l s) = Ok x \<longrightarrow>
        id_linked get_map tab get_id nat_key fid n (snd (record_id get_map put_map fid l s)))"
    if s: "sync_ok s" and r: "r \<in> set (tb_rows (tab (ss_db s)))" "nat_key r = n" "get_id r = l"
    for s r
  proof (cases "map_id fid l (get_map (ss_map s))")
    case (Inl e)
    then show ?thesis using s by (simp add: record_id_def)
  next
    case (Inr e)
    note D = map_id_OkD [OF Inr]
    have mk: "maps_ok (ss_db s) (ss_map s)" using s by (simp add: sync_ok_def)
    have "refers get_id (tab (ss_db s)) l" using r by (auto simp: refers_def)
    then have "ids_known get_id (tab (ss_db s)) e"
      using maps_known [OF mk] by (auto simp: ids_known_def D(2) ran_def split: if_splits)
    from put_map_ok [OF mk this] put_map_grows [OF D(1)] show ?thesis
      using s Inr r by (auto simp: record_id_def sync_ok_def sync_grows_def id_linked_def get_put_map D(2))
  qed
  then show ?thesis unfolding run_ok_def by blast
qed

lemma insert_new_ok:
  assumes ins: "\<And>db. ins db = bind_result (insert_row set_id key (refs db) row (tab db))
      (\<lambda>(t, i). Ok (put (\<lambda>_. t) db, i))"
    and row: "millis (upd row) = upd row"
  shows "run_ok (\<lambda>_. True) (insert_new ins get_map put_map fid)
     (\<lambda>_. id_linked get_map tab get_id nat_key fid (nat_key row))"
proof -
  have "run_ok (\<lambda>_. True) (writeS ins)
      (\<lambda>i s. \<exists>r \<in> set (tb_rows (tab (ss_db s))). nat_key r = nat_key row \<and> get_id r = i)"
    by (rule run_ok_conseq [OF insert_write [OF ins row]])
      (auto simp: get_set_id nat_set_id elim!: bexI [rotated])
  then show ?thesis
    unfolding insert_new_def
    by (rule run_ok_bind)
      (rule run_ok_bind [OF record_id_ok run_ok_keep [OF run_ok_counts(2) linked_stable]])
qed

lemma present_stable:
  "stable (\<lambda>s. \<exists>r \<in> set (tb_rows (tab (ss_db s))). nat_key r = n \<and> get_id r = l)"
proof -
  have "\<exists>r' \<in> set (tb_rows (tab (ss_db s'))). nat_key r' = nat_key r \<and> get_id r' = get_id r"
    if r: "r \<in> set (tb_rows (tab (ss_db s)))" and g: "sync_grows s s'" for r s s'
  proof -
    obtain r' where "r' \<in> set (tb_rows (tab (ss_db s')))" "ident r' = ident r"
      using grows_tab [of "ss_db s" "ss_db s'"] g r by (auto simp: sync_grows_def rows_persist_def)
    then show ?thesis using ident_nat by blast
  qed
  then show ?thesis unfolding stable_def by metis
qed

text \<open>A row that is already there: refreshed when older, then mapped.\<close>

lemma merge_found:
  assumes "run_ok (\<lambda>s. row \<in> set (tb_rows (tab (ss_db s)))) m (\<lambda>_ _. True)" "nat_key row = n"
  shows "run_ok (\<lambda>s. row \<in> set (tb_rows (tab (ss_db s))))
     (bindS m (\<lambda>_. record_id get_map put_map fid (get_id row)))
     (\<lambda>_. id_linked get_map tab get_id nat_key fid n)"
proof (rule run_ok_bind [OF _ record_id_ok])
  show "run_ok (\<lambda>s. row \<in> set (tb_rows (tab (ss_db s)))) m
     (\<lambda>_ s. \<exists>r \<in> set (tb_rows (tab (ss_db s))). nat_key r = n \<and> get_id r = get_id row)"
    by (rule run_ok_conseq [OF run_ok_frame [OF assms(1) present_stable]]) (use assms(2) in auto)
qed

text \<open>The whole step of an entity type: look up, then refresh and map, or insert.\<close>

lemma merge_ok:
  assumes found: "\<And>db row rest. q db = Ok (row # rest) \<Longrightarrow>
      row \<in> set (tb_rows (tab db)) \<and> nat_key row = n"
    and up: "\<And>row db. u row db = bind_result
      (update_rows (\<lambda>r. get_id r = get_id row) (f row) key (refs db) (tab db))
      (\<lambda>(t, n). Ok (put (\<lambda>_. t) db, n))"
    and ins: "\<And>db. ins db = bind_result (insert_row set_id key (refs db) new_row (tab db))
      (\<lambda>(t, i). Ok (put (\<lambda>_. t) db, i))"
    and f: "\<And>row r. get_id (f row r) = get_id r"
    and frow: "\<And>row. nat_key row = n \<Longrightarrow> newer row \<Longrightarrow> millis (upd row) = upd row \<Longrightarrow>
      ident (f row row) = ident row \<and> upd row \<le> upd (f row row) \<and>
      millis (upd (f row row)) = upd (f row row)"
    and new_row: "millis (upd new_row) = upd new_row" "nat_key new_row = n"
  shows "run_ok (\<lambda>_. True)
     (bindS (query q) (\<lambda>existing. case existing of
        [] \<Rightarrow> insert_new ins get_map put_map fid
      | row # rest \<Rightarrow> bindS (refresh (newer row) (u row))
          (\<lambda>_. record_id get_map put_map fid (get_id row))))
     (\<lambda>_. id_linked get_map tab get_id nat_key fid n)"
proof (rule run_ok_lookup [where I = "\<lambda>db r. r \<in> set (tb_rows (tab db))"
      and G = "\<lambda>r. nat_key r = n", OF found])
  fix row
  assume "nat_key row = n"
  then show "run_ok (\<lambda>s. row \<in> set (tb_rows (tab (ss_db s))))
      (bindS (refresh (newer row) (u row)) (\<lambda>_. record_id get_map put_map fid (get_id row)))
      (\<lambda>_. id_linked get_map tab get_id nat_key fid n)"
    by (intro merge_found refresh_ok [OF up f frow])
next
  show "run_ok (\<lambda>_. True) (insert_new ins get_map put_map fid)
      (\<lambda>_. id_linked get_map tab get_id nat_key fid n)"
    using insert_new_ok [OF ins new_row(1)] new_row(2) by simp
qed

end

end
