(* ===== verification/SyncEntities.thy ===== *)
theory SyncEntities
  imports SyncCorrect
begin

text \<open>
  The merge of every entity type and of a whole chunk, from the contracts of the mapped tables, the
  composite-key tables and the identifier translation.
\<close>

section \<open>Translation of references\<close>

definition mapped :: "(sync_map \<Rightarrow> entity_sync_map) \<Rightarrow> int \<Rightarrow> int \<Rightarrow> sync_st \<Rightarrow> bool" where
  "mapped get_map f l s \<longleftrightarrow> em_id_map (get_map (ss_map s)) f = Some l"

lemma required_fk_ok: "run_ok P (required_fk get_map f a b) (\<lambda>l s. P s \<and> mapped get_map f l s)"
  by (auto simp: run_ok_def required_fk_def remap_required_fk_def get_local_id_def mapped_def
      split: option.splits)

lemma optional_fk_ok: "run_ok P (optional_fk get_map v) (\<lambda>_. P)"
  by (simp add: run_ok_def optional_fk_def)

lemma mapped_stable:
  "stable (mapped sm_transaction f l)" "stable (mapped sm_tx_label f l)"
  "stable (mapped sm_output_tag f l)" "stable (mapped sm_output f l)"
  "stable (mapped sm_certificate f l)"
  by (auto simp: stable_def mapped_def sync_grows_def maps_grow_def intro: map_le_Some)

section \<open>Composite-key tables\<close>

definition held :: "(database \<Rightarrow> 'r table) \<Rightarrow> ('r \<Rightarrow> 'k) \<Rightarrow> 'k \<Rightarrow> sync_st \<Rightarrow> bool" where
  "held tab key k s \<longleftrightarrow> (\<exists>r \<in> set (tb_rows (tab (ss_db s))). key r = k)"

locale keyed_merge = keyed_stored tab put key key upd refs
  for tab :: "database \<Rightarrow> 'r table" and put and key :: "'r \<Rightarrow> 'k" and upd and refs +
  assumes grows_tab: "db_grows db db' \<Longrightarrow> rows_persist key upd (tab db) (tab db')"
begin

lemma held_stable: "stable (held tab key k)"
proof -
  have "held tab key k s'" if "held tab key k s" and "sync_grows s s'" for s s'
    using grows_tab [of "ss_db s" "ss_db s'"] that
    by (auto simp: held_def sync_grows_def rows_persist_def)
  then show ?thesis by (simp add: stable_def)
qed

lemma same_key:
  "db_ok db \<Longrightarrow> r \<in> set (tb_rows (tab db)) \<Longrightarrow> x \<in> set (tb_rows (tab db)) \<Longrightarrow> key r = key x \<Longrightarrow> r = x"
  using tab_ok(1) by (auto simp: rows_ok_def keyed_ok_def dest: distinct_map [THEN iffD1] inj_onD)

lemma refresh_ok:
  assumes up: "\<And>db. u db = bind_result (update_rows sel f key (refs db) (tab db))
      (\<lambda>(t, n). Ok (put (\<lambda>_. t) db, n))"
    and sel: "\<And>r. sel r \<longleftrightarrow> key r = key row"
    and frow: "newer \<Longrightarrow> millis (upd row) = upd row \<Longrightarrow>
      key (f row) = key row \<and> upd row \<le> upd (f row) \<and> millis (upd (f row)) = upd (f row)"
    and k: "key row = k"
  shows "run_ok (\<lambda>s. row \<in> set (tb_rows (tab (ss_db s)))) (refresh newer u) (\<lambda>_. held tab key k)"
proof -
  have "run_ok (\<lambda>s. row \<in> set (tb_rows (tab (ss_db s)))) (refresh newer u) (\<lambda>_ _. True)"
    by (rule refresh_put [OF up _ _ frow]) (auto simp: sel intro: same_key)
  from run_ok_frame [OF this held_stable [of k]] show ?thesis
    by (rule run_ok_conseq) (use k in \<open>auto simp: held_def\<close>)
qed

lemma insert_ok:
  assumes ins: "\<And>db. ins db = bind_result (insert_keyed key (refs db) row (tab db))
      (\<lambda>t. Ok (put (\<lambda>_. t) db))"
    and row: "millis (upd row) = upd row"
  shows "run_ok (\<lambda>_. True) (insert_unmapped ins) (\<lambda>_. held tab key (key row))"
proof -
  let ?w = "writeS (\<lambda>db. bind_result (ins db) (\<lambda>db'. Ok (db', ())))"
  have "sync_ok (snd (?w s)) \<and> sync_grows s (snd (?w s)) \<and>
      (\<forall>i. fst (?w s) = Ok i \<longrightarrow> held tab key (key row) (snd (?w s)))" if s: "sync_ok s" for s
  proof (cases "insert_keyed key (refs (ss_db s)) row (tab (ss_db s))")
    case (Inl e)
    then show ?thesis using s by (simp add: writeS_def ins)
  next
    case (Inr t)
    have db: "db_ok (ss_db s)" using s by (simp add: sync_ok_def)
    note ok = insert_put_ok [OF db Inr row]
    have "row \<in> set (tb_rows t)" by (simp add: insert_keyed_OkD(1) [OF Inr])
    then show ?thesis
      using s Inr ok maps_ok_grows [OF _ ok(2)]
      by (auto simp: writeS_def ins sync_ok_def sync_grows_def tab_put held_def)
  qed
  then have "run_ok (\<lambda>_. True) ?w (\<lambda>_. held tab key (key row))" by (simp add: run_ok_def)
  then show ?thesis
    unfolding insert_unmapped_def
    by (rule run_ok_bind) (rule run_ok_keep [OF run_ok_counts(2) held_stable])
qed

lemma merge_ok:
  assumes found: "\<And>db row rest. q db = Ok (row # rest) \<Longrightarrow> row \<in> set (tb_rows (tab db)) \<and> key row = k"
    and up: "\<And>row db. u row db = bind_result (update_rows (sel row) (f row) key (refs db) (tab db))
      (\<lambda>(t, n). Ok (put (\<lambda>_. t) db, n))"
    and ins: "\<And>db. ins db = bind_result (insert_keyed key (refs db) new_row (tab db))
      (\<lambda>t. Ok (put (\<lambda>_. t) db))"
    and sel: "\<And>row r. sel row r \<longleftrightarrow> key r = key row"
    and frow: "\<And>row. newer row \<Longrightarrow> millis (upd row) = upd row \<Longrightarrow>
      key (f row row) = key row \<and> upd row \<le> upd (f row row) \<and>
      millis (upd (f row row)) = upd (f row row)"
    and new_row: "millis (upd new_row) = upd new_row" "key new_row = k"
  shows "run_ok (\<lambda>_. True)
     (bindS (query q) (\<lambda>existing. case existing of
        [] \<Rightarrow> insert_unmapped ins | row # rest \<Rightarrow> refresh (newer row) (u row)))
     (\<lambda>_. held tab key k)"
proof (rule run_ok_lookup [where I = "\<lambda>db r. r \<in> set (tb_rows (tab db))"
      and G = "\<lambda>r. key r = k", OF found])
  fix row
  assume "key row = k"
  then show "run_ok (\<lambda>s. row \<in> set (tb_rows (tab (ss_db s)))) (refresh (newer row) (u row))
      (\<lambda>_. held tab key k)"
    by (intro refresh_ok [OF up sel frow])
next
  show "run_ok (\<lambda>_. True) (insert_unmapped ins) (\<lambda>_. held tab key k)"
    using insert_ok [OF ins new_row(1)] new_row(2) by simp
qed

end

text \<open>Which entity rows a chunk step looks at: the first that passes the filter.\<close>

lemma filter_first: "filter P xs = row # rest \<Longrightarrow> row \<in> set xs \<and> P row"
  by (metis filter_eq_Cons_iff in_set_conv_decomp)

lemma millis_max: "millis b = b \<Longrightarrow> b \<le> millis (max a b)"
  by (metis max.cobounded2 millis_mono)

lemma millis_less: "millis b = b \<Longrightarrow> b < a \<Longrightarrow> b \<le> millis a"
  by (metis less_imp_le millis_mono)

section \<open>The tables as mapped tables\<close>

text \<open>Natural keys that are not the unique key of the table.\<close>

definition transaction_nat :: "transaction \<Rightarrow> int \<times> string" where
  "transaction_nat r = (tx_user_id r, tx_reference r)"

definition output_nat :: "output_row \<Rightarrow> int \<times> int" where
  "output_nat r = (ou_transaction_id r, ou_vout r)"

definition certificate_nat :: "certificate \<Rightarrow> int \<times> string \<times> string" where
  "certificate_nat r = (ce_user_id r, ce_serial_number r, ce_certifier r)"

definition commission_nat :: "commission \<Rightarrow> int \<times> int \<times> string" where
  "commission_nat r = (co_user_id r, co_transaction_id r, co_key_offset r)"

lemmas nat_defs = key_defs transaction_nat_def output_nat_def certificate_nat_def commission_nat_def

lemmas mapped_defs = maps_ok_def maps_grow_def ident_defs nat_defs

interpretation proven_tx_sync: mapped_table db_proven_txs db_proven_txs_update proven_tx_key proven_tx_ident
  pt_updated_at "\<lambda>_ _. True" pt_proven_tx_id pt_proven_tx_id_update sm_proven_tx sm_proven_tx_update proven_tx_key
  by unfold_locales (simp_all add: mapped_defs db_growsD)

interpretation output_basket_sync: mapped_table db_output_baskets db_output_baskets_update output_basket_key output_basket_ident
  ob_updated_at output_basket_refs ob_basket_id ob_basket_id_update sm_output_basket sm_output_basket_update output_basket_key
  by unfold_locales (simp_all add: mapped_defs db_growsD)

interpretation tx_label_sync: mapped_table db_tx_labels db_tx_labels_update tx_label_key tx_label_ident
  tl_updated_at tx_label_refs tl_tx_label_id tl_tx_label_id_update sm_tx_label sm_tx_label_update tx_label_key
  by unfold_locales (simp_all add: mapped_defs db_growsD)

interpretation output_tag_sync: mapped_table db_output_tags db_output_tags_update output_tag_key output_tag_ident
  ot_updated_at output_tag_refs ot_output_tag_id ot_output_tag_id_update sm_output_tag sm_output_tag_update output_tag_key
  by unfold_locales (simp_all add: mapped_defs db_growsD)

interpretation transaction_sync: mapped_table db_transactions db_transactions_update transaction_key transaction_ident
  tx_updated_at transaction_refs tx_transaction_id tx_transaction_id_update sm_transaction sm_transaction_update transaction_nat
  by unfold_locales (simp_all add: mapped_defs db_growsD)

interpretation output_sync: mapped_table db_outputs db_outputs_update output_key output_ident
  ou_updated_at output_refs ou_output_id ou_output_id_update sm_output sm_output_update output_nat
  by unfold_locales (simp_all add: mapped_defs db_growsD)

interpretation certificate_sync: mapped_table db_certificates db_certificates_update certificate_key certificate_ident
  ce_updated_at certificate_refs ce_certificate_id ce_certificate_id_update sm_certificate sm_certificate_update certificate_nat
  by unfold_locales (simp_all add: mapped_defs db_growsD)

interpretation commission_sync: mapped_table db_commissions db_commissions_update commission_key commission_ident
  co_updated_at commission_refs co_commission_id co_commission_id_update sm_commission sm_commission_update commission_nat
  by unfold_locales (simp_all add: mapped_defs db_growsD)

interpretation proven_tx_req_sync: mapped_table db_proven_tx_reqs db_proven_tx_reqs_update proven_tx_req_key proven_tx_req_ident
  pr_updated_at proven_tx_req_refs pr_proven_tx_req_id pr_proven_tx_req_id_update sm_proven_tx_req sm_proven_tx_req_update proven_tx_req_key
  by unfold_locales (simp_all add: mapped_defs db_growsD)

lemma ident_is_key:
  "tx_label_map_ident = tx_label_map_key" "output_tag_map_ident = output_tag_map_key"
  "certificate_field_ident = certificate_field_key"
  by (simp_all add: fun_eq_iff ident_defs key_defs)

interpretation tx_label_map_sync: keyed_merge db_tx_label_maps db_tx_label_maps_update tx_label_map_key
  tm_updated_at tx_label_map_refs
  using tx_label_maps.keyed_stored_axioms db_growsD
  by (simp add: keyed_merge_def keyed_merge_axioms_def ident_is_key)

interpretation output_tag_map_sync: keyed_merge db_output_tag_maps db_output_tag_maps_update output_tag_map_key
  om_updated_at output_tag_map_refs
  using output_tag_maps.keyed_stored_axioms db_growsD
  by (simp add: keyed_merge_def keyed_merge_axioms_def ident_is_key)

interpretation certificate_field_sync: keyed_merge db_certificate_fields db_certificate_fields_update certificate_field_key
  cf_updated_at certificate_field_refs
  using certificate_fields.keyed_stored_axioms db_growsD
  by (simp add: keyed_merge_def keyed_merge_axioms_def ident_is_key)

section \<open>The merge of each entity type\<close>

lemma seen_unmapped_ok:
  "run_ok P (seen sm_tx_label_map_update t) (\<lambda>_ _. True)"
  "run_ok P (seen sm_output_tag_map_update t) (\<lambda>_ _. True)"
  "run_ok P (seen sm_certificate_field_update t) (\<lambda>_ _. True)"
  by (simp_all add: run_ok_def seen_def sync_ok_def sync_grows_def maps_ok_def maps_grow_def)

lemmas default_defs =
  find_proven_txs_default_def proven_tx_partial_default_def
  find_output_baskets_default_def output_basket_partial_default_def
  find_tx_labels_default_def tx_label_partial_default_def
  find_output_tags_default_def output_tag_partial_default_def
  find_transactions_default_def transaction_partial_default_def
  find_outputs_default_def output_partial_default_def
  find_tx_label_maps_default_def tx_label_map_partial_default_def
  find_output_tag_maps_default_def output_tag_map_partial_default_def
  find_certificates_default_def certificate_partial_default_def
  find_certificate_fields_default_def certificate_field_partial_default_def
  find_commissions_default_def commission_partial_default_def
  find_proven_tx_reqs_default_def proven_tx_req_partial_default_def
  find_users_default_def user_partial_default_def

lemma merge_output_basket_ok:
  "run_ok (\<lambda>_. True) (merge_output_basket now uid x)
     (\<lambda>_. id_linked sm_output_basket db_output_baskets ob_basket_id output_basket_key (ob_basket_id x) (ob_name x, uid))"
  unfolding merge_output_basket_def
  by (rule run_ok_bind [OF output_basket_sync.seen_ok],
      rule output_basket_sync.merge_ok [OF _ update_output_basket_def insert_output_basket_def])
    (auto simp: find_output_baskets_def output_baskets_where_def apply_output_basket_def default_defs ident_defs nat_defs millis_max
      dest!: filter_first)

lemma merge_tx_label_ok:
  "run_ok (\<lambda>_. True) (merge_tx_label now uid x)
     (\<lambda>_. id_linked sm_tx_label db_tx_labels tl_tx_label_id tx_label_key (tl_tx_label_id x) (tl_label x, uid))"
  unfolding merge_tx_label_def
  by (rule run_ok_bind [OF tx_label_sync.seen_ok],
      rule tx_label_sync.merge_ok [OF _ update_tx_label_def insert_tx_label_def])
    (auto simp: find_tx_labels_def tx_labels_where_def apply_tx_label_def default_defs ident_defs nat_defs millis_max
      dest!: filter_first)

lemma merge_output_tag_ok:
  "run_ok (\<lambda>_. True) (merge_output_tag now uid x)
     (\<lambda>_. id_linked sm_output_tag db_output_tags ot_output_tag_id output_tag_key (ot_output_tag_id x) (ot_tag x, uid))"
  unfolding merge_output_tag_def
  by (rule run_ok_bind [OF output_tag_sync.seen_ok],
      rule output_tag_sync.merge_ok [OF _ update_output_tag_def insert_output_tag_def])
    (auto simp: find_output_tags_def output_tags_where_def apply_output_tag_def default_defs ident_defs nat_defs millis_max
      dest!: filter_first)

lemma merge_certificate_ok:
  "run_ok (\<lambda>_. True) (merge_certificate now uid x)
     (\<lambda>_. id_linked sm_certificate db_certificates ce_certificate_id certificate_nat (ce_certificate_id x) 
        (uid, ce_serial_number x, ce_certifier x))"
  unfolding merge_certificate_def
  by (rule run_ok_bind [OF certificate_sync.seen_ok],
      rule certificate_sync.merge_ok [OF _ update_certificate_def insert_certificate_def])
    (auto simp: find_certificates_def certificates_where_def apply_certificate_def default_defs ident_defs nat_defs millis_max
      dest!: filter_first)

lemma merge_transaction_ok:
  "run_ok (\<lambda>_. True) (merge_transaction now uid x)
     (\<lambda>_. id_linked sm_transaction db_transactions tx_transaction_id transaction_nat (tx_transaction_id x) (uid, tx_reference x))"
  unfolding merge_transaction_def
  by (rule run_ok_bind [OF transaction_sync.seen_ok], rule run_ok_bind [OF optional_fk_ok],
      rule transaction_sync.merge_ok [OF _ update_transaction_def insert_transaction_def])
    (auto simp: find_transactions_def transactions_where_def apply_transaction_def default_defs ident_defs nat_defs millis_max
      dest!: filter_first)

lemma merge_proven_tx_req_ok:
  "run_ok (\<lambda>_. True) (merge_proven_tx_req now x)
     (\<lambda>_. id_linked sm_proven_tx_req db_proven_tx_reqs pr_proven_tx_req_id proven_tx_req_key (pr_proven_tx_req_id x) (pr_txid x))"
  unfolding merge_proven_tx_req_def
  by (rule run_ok_bind [OF proven_tx_req_sync.seen_ok], rule run_ok_bind [OF optional_fk_ok],
      rule proven_tx_req_sync.merge_ok [OF _ update_proven_tx_req_def insert_proven_tx_req_def])
    (auto simp: find_proven_tx_reqs_def proven_tx_reqs_where_def apply_proven_tx_req_def default_defs ident_defs nat_defs millis_max
      dest!: filter_first)

text \<open>Proven transactions are facts: a known one is only mapped.\<close>

lemma merge_proven_tx_ok:
  "run_ok (\<lambda>_. True) (merge_proven_tx x)
     (\<lambda>_. id_linked sm_proven_tx db_proven_txs pt_proven_tx_id proven_tx_key (pt_proven_tx_id x)
        (pt_txid x))"
  unfolding merge_proven_tx_def
proof (rule run_ok_bind [OF proven_tx_sync.seen_ok],
    rule run_ok_lookup [where I = "\<lambda>db r. r \<in> set (tb_rows (db_proven_txs db))"
      and G = "\<lambda>r. pt_txid r = pt_txid x"], goal_cases found old new)
  case (found db row rest)
  then show ?case
    by (auto simp: find_proven_txs_def proven_txs_where_def default_defs dest!: filter_first)
next
  case (old row)
  then show ?case
    by (intro run_ok_conseq [OF proven_tx_sync.record_id_ok]) (auto simp: key_defs)
next
  case new
  show ?case
    by (rule run_ok_conseq [OF proven_tx_sync.insert_new_ok [OF insert_proven_tx_def]])
      (simp_all add: key_defs)
qed

text \<open>A dependent row: its references are translated first and stay translated.\<close>

lemma run_ok_required:
  assumes "\<And>l. run_ok (\<lambda>_. True) (f l) (\<lambda>_. Q l)" "\<And>l. stable (mapped get_map fk l)"
  shows "run_ok (\<lambda>_. True) (bindS (required_fk get_map fk a b) f)
     (\<lambda>_ s. \<exists>l. mapped get_map fk l s \<and> Q l s)"
proof (rule run_ok_bind [OF required_fk_ok])
  fix l
  show "run_ok (\<lambda>s. True \<and> mapped get_map fk l s) (f l) (\<lambda>_ s. \<exists>l. mapped get_map fk l s \<and> Q l s)"
    by (rule run_ok_conseq [OF run_ok_frame [OF assms(1) [of l] assms(2) [of l]]]) auto
qed

lemma merge_output_ok:
  "run_ok (\<lambda>_. True) (merge_output now trx uid x)
     (\<lambda>_ s. \<exists>t. mapped sm_transaction (ou_transaction_id x) t s \<and>
        id_linked sm_output db_outputs ou_output_id output_nat (ou_output_id x) (t, ou_vout x) s)"
  unfolding merge_output_def
  by (rule run_ok_bind [OF output_sync.seen_ok], rule run_ok_required [OF _ mapped_stable(1)],
      rule run_ok_bind [OF optional_fk_ok], rule run_ok_bind [OF optional_fk_ok],
      rule output_sync.merge_ok [OF _ update_output_def insert_output_def])
    (auto simp: find_outputs_def outputs_where_def apply_output_def default_defs ident_defs nat_defs
      millis_max Let_def dest!: filter_first)

lemma merge_commission_ok:
  "run_ok (\<lambda>_. True) (merge_commission now uid x)
     (\<lambda>_ s. \<exists>t. mapped sm_transaction (co_transaction_id x) t s \<and>
        id_linked sm_commission db_commissions co_commission_id commission_nat (co_commission_id x)
          (uid, t, co_key_offset x) s)"
  unfolding merge_commission_def
  by (rule run_ok_bind [OF commission_sync.seen_ok], rule run_ok_required [OF _ mapped_stable(1)],
      rule commission_sync.merge_ok [OF _ update_commission_def insert_commission_def])
    (auto simp: find_commissions_def commissions_where_def apply_commission_def default_defs
      ident_defs nat_defs millis_max dest!: filter_first)

lemma merge_tx_label_map_ok:
  "run_ok (\<lambda>_. True) (merge_tx_label_map now x)
     (\<lambda>_ s. \<exists>l. mapped sm_tx_label (tm_tx_label_id x) l s \<and>
        (\<exists>t. mapped sm_transaction (tm_transaction_id x) t s \<and>
          held db_tx_label_maps tx_label_map_key (l, t) s))"
  unfolding merge_tx_label_map_def
  by (rule run_ok_bind [OF seen_unmapped_ok(1)], rule run_ok_required [OF _ mapped_stable(2)],
      rule run_ok_required [OF _ mapped_stable(1)],
      rule tx_label_map_sync.merge_ok [OF _ update_tx_label_map_def insert_tx_label_map_def])
    (auto simp: find_tx_label_maps_def tx_label_maps_where_def apply_tx_label_map_def default_defs
      nat_defs millis_max dest!: filter_first)

lemma merge_output_tag_map_ok:
  "run_ok (\<lambda>_. True) (merge_output_tag_map now x)
     (\<lambda>_ s. \<exists>l. mapped sm_output_tag (om_output_tag_id x) l s \<and>
        (\<exists>t. mapped sm_output (om_output_id x) t s \<and>
          held db_output_tag_maps output_tag_map_key (l, t) s))"
  unfolding merge_output_tag_map_def
  by (rule run_ok_bind [OF seen_unmapped_ok(2)], rule run_ok_required [OF _ mapped_stable(3)],
      rule run_ok_required [OF _ mapped_stable(4)],
      rule output_tag_map_sync.merge_ok [OF _ update_output_tag_map_def insert_output_tag_map_def])
    (auto simp: find_output_tag_maps_def output_tag_maps_where_def apply_output_tag_map_def
      default_defs nat_defs millis_max dest!: filter_first)

lemma merge_certificate_field_ok:
  "run_ok (\<lambda>_. True) (merge_certificate_field now uid x)
     (\<lambda>_ s. \<exists>c. mapped sm_certificate (cf_certificate_id x) c s \<and>
        held db_certificate_fields certificate_field_key (cf_field_name x, c) s)"
  unfolding merge_certificate_field_def
  by (rule run_ok_bind [OF seen_unmapped_ok(3)], rule run_ok_required [OF _ mapped_stable(5)],
      rule certificate_field_sync.merge_ok
        [OF _ update_certificate_field_def insert_certificate_field_def])
    (auto simp: find_certificate_fields_def certificate_fields_where_def apply_certificate_field_def
      default_defs nat_defs millis_max dest!: filter_first)

end
