(* ===== verification/SyncChunk.thy ===== *)
theory SyncChunk
  imports SyncEntities
begin

text \<open>
  Whole chunks: what processing a chunk guarantees of the database and of the identifier maps, and
  what the two counters of the result count.
\<close>

section \<open>The user of a chunk\<close>

lemma run_ok_ex: "(\<And>x. run_ok (P x) m Q) \<Longrightarrow> run_ok (\<lambda>s. \<exists>x. P x s) m Q"
  by (simp add: run_ok_def) blast

lemma secs_TS_1971: "secs TS_1971 = TS_1971" "millis TS_1971 = TS_1971"
  by (simp_all add: secs_def millis_def TS_1971_def)

text \<open>The user a chunk names is stored, with the time stamp that the comparison uses.\<close>

definition user_known :: "user \<Rightarrow> user \<Rightarrow> sync_st \<Rightarrow> bool" where
  "user_known u row s \<longleftrightarrow> row \<in> set (tb_rows (db_users (ss_db s))) \<and>
     us_user_id row = us_user_id u \<and> us_updated_at row = us_updated_at u"

lemma find_users_by_key:
  "find_users (by_identity_key k) db = filter (\<lambda>u. us_identity_key u = k) (tb_rows (db_users db))"
  by (auto simp: find_users_def by_identity_key_def users_where_def default_defs intro!: filter_cong)

lemma verify_one_or_none_SomeD: "verify_one_or_none xs = Ok (Some x) \<Longrightarrow> x \<in> set xs"
  by (auto simp: verify_one_or_none_def split: if_splits)

lemma find_or_insert_user_ok:
  "run_ok (\<lambda>_. True) (writeS (find_or_insert_user now k)) (\<lambda>(u, c) s. \<exists>row. user_known u row s)"
proof -
  let ?new = "\<lparr>us_created_at = now, us_updated_at = TS_1971, us_user_id = 0,
    us_identity_key = k, us_active_storage = []\<rparr>"
  have ins: "run_ok (\<lambda>_. True) (writeS (insert_user ?new))
      (\<lambda>i s. \<exists>row. user_known (?new\<lparr>us_user_id := i\<rparr>) row s)"
    by (rule run_ok_conseq [OF users.insert_write [OF insert_user_def]])
      (auto simp: secs_TS_1971 user_known_def intro!: exI)
  have "sync_ok (snd (writeS (find_or_insert_user now k) s)) \<and>
      sync_grows s (snd (writeS (find_or_insert_user now k) s)) \<and>
      (\<forall>u c. fst (writeS (find_or_insert_user now k) s) = Ok (u, c) \<longrightarrow>
        (\<exists>row. user_known u row (snd (writeS (find_or_insert_user now k) s))))"
    if s: "sync_ok s" for s
  proof (cases "verify_one_or_none (find_users (by_identity_key k) (ss_db s))")
    case (Inl e)
    then show ?thesis using s by (simp add: writeS_def find_or_insert_user_def)
  next
    case (Inr v)
    show ?thesis
    proof (cases v)
      case (Some u)
      then have "u \<in> set (tb_rows (db_users (ss_db s)))"
        using verify_one_or_none_SomeD Inr by (fastforce simp: find_users_by_key)
      then show ?thesis
        using s Inr Some by (auto simp: writeS_def find_or_insert_user_def user_known_def)
    next
      case None
      from ins s have "sync_ok (snd (writeS (insert_user ?new) s)) \<and>
          sync_grows s (snd (writeS (insert_user ?new) s)) \<and>
          (\<forall>i. fst (writeS (insert_user ?new) s) = Ok i \<longrightarrow>
            (\<exists>row. user_known (?new\<lparr>us_user_id := i\<rparr>) row (snd (writeS (insert_user ?new) s))))"
        by (simp add: run_ok_def)
      then show ?thesis
        using s Inr None
        by (cases "insert_user ?new (ss_db s)") (auto simp: writeS_def find_or_insert_user_def Let_def)
    qed
  qed
  then show ?thesis by (simp add: run_ok_def split_beta)
qed

lemma merge_user_ok: "run_ok (\<lambda>_. True) (merge_user now x) (\<lambda>_ _. True)"
  unfolding merge_user_def
proof (rule run_ok_bind [OF find_or_insert_user_ok], clarify)
  fix u :: user and c :: bool
  let ?p = "user_partial_default\<lparr>usp_active_storage := Some (us_active_storage x),
      usp_updated_at := Some (max (us_updated_at x) (us_updated_at u))\<rparr>"
  have "run_ok (user_known u row) (refresh (us_updated_at u < us_updated_at x)
      (update_user now (us_user_id u) ?p)) (\<lambda>_ _. True)" for row :: user
  proof (cases "us_user_id row = us_user_id u \<and> us_updated_at row = us_updated_at u")
    case True
    have "run_ok (\<lambda>s. row \<in> set (tb_rows (db_users (ss_db s))))
        (refresh (us_updated_at u < us_updated_at x) (update_user now (us_user_id u) ?p)) (\<lambda>_ _. True)"
      unfolding True [THEN conjunct1, symmetric] True [THEN conjunct2, symmetric]
      by (rule users.refresh_ok [OF update_user_def])
        (simp_all add: apply_user_def default_defs ident_defs millis_less)
    then show ?thesis by (rule run_ok_conseq) (simp_all add: user_known_def)
  next
    case False
    then show ?thesis by (auto simp: run_ok_def user_known_def)
  qed
  then show "run_ok (\<lambda>s. \<exists>row. user_known u row s)
      (refresh (us_updated_at u < us_updated_at x) (update_user now (us_user_id u) ?p)) (\<lambda>_ _. True)"
    by (rule run_ok_ex)
qed

definition user_row :: "string \<Rightarrow> int \<Rightarrow> sync_st \<Rightarrow> bool" where
  "user_row k uid s \<longleftrightarrow>
     (\<exists>u \<in> set (tb_rows (db_users (ss_db s))). us_identity_key u = k \<and> us_user_id u = uid)"

lemma user_row_stable: "stable (user_row k uid)"
proof -
  have "user_row k uid s'" if "user_row k uid s" "sync_grows s s'" for s s'
    using that db_growsD(1) [of "ss_db s" "ss_db s'"]
    by (fastforce simp: user_row_def sync_grows_def rows_persist_def ident_defs)
  then show ?thesis by (simp add: stable_def)
qed

lemma chunk_user_id_ok: "run_ok (\<lambda>_. True) (chunk_user_id k) (\<lambda>uid. user_row k uid)"
  unfolding chunk_user_id_def
proof (rule run_ok_bind [OF run_ok_query])
  fix v
  show "run_ok (\<lambda>s. True \<and> find_user_by_identity_key k (ss_db s) = Ok v)
      (case v of None \<Rightarrow> failS (Internal (''processSyncChunk: user not found for identity key '' @ k))
        | Some u \<Rightarrow> returnS (us_user_id u)) (\<lambda>uid. user_row k uid)"
    by (cases v) (auto simp: user_row_def find_user_by_identity_key_def find_users_by_key
        intro!: run_ok_fail run_ok_return dest!: verify_one_or_none_SomeD)
qed

section \<open>Whole chunks\<close>

definition each :: "'r list option \<Rightarrow> ('r \<Rightarrow> sync_st \<Rightarrow> bool) \<Rightarrow> sync_st \<Rightarrow> bool" where
  "each v Q s \<longleftrightarrow> (\<forall>x \<in> set (case v of None \<Rightarrow> [] | Some xs \<Rightarrow> xs). Q x s)"

lemma run_ok_each:
  "(\<And>x. run_ok (\<lambda>_. True) (f x) (\<lambda>_. Q x)) \<Longrightarrow> (\<And>x. stable (Q x)) \<Longrightarrow>
     run_ok (\<lambda>_. True) (for_some f v) (\<lambda>_. each v Q)"
  by (rule run_ok_conseq [OF run_ok_for_some]) (auto simp: each_def split: option.splits)

lemma stable_each: "(\<And>x. stable (Q x)) \<Longrightarrow> stable (each v Q)"
  unfolding each_def by (rule stable_all)

lemma run_ok_seq:
  assumes "run_ok (\<lambda>_. True) m (\<lambda>_. P)" "stable P" "run_ok (\<lambda>_. True) m' (\<lambda>_. Q)"
  shows "run_ok (\<lambda>_. True) (bindS m (\<lambda>_. m')) (\<lambda>_ s. P s \<and> Q s)"
  by (rule run_ok_bind [OF assms(1)], rule run_ok_conseq [OF run_ok_frame [OF assms(3,2)]]) auto

text \<open>
  What a merged chunk leaves behind, per entity type: every incoming row has a local row with its
  natural key, its references translated, and, where rows have identifiers, the incoming identifier
  mapped to the local one.
\<close>

definition output_merged :: "output_row \<Rightarrow> sync_st \<Rightarrow> bool" where
  "output_merged x s \<longleftrightarrow> (\<exists>t. mapped sm_transaction (ou_transaction_id x) t s \<and>
     id_linked sm_output db_outputs ou_output_id output_nat (ou_output_id x) (t, ou_vout x) s)"

definition tx_label_map_merged :: "tx_label_map \<Rightarrow> sync_st \<Rightarrow> bool" where
  "tx_label_map_merged x s \<longleftrightarrow> (\<exists>l. mapped sm_tx_label (tm_tx_label_id x) l s \<and>
     (\<exists>t. mapped sm_transaction (tm_transaction_id x) t s \<and>
        held db_tx_label_maps tx_label_map_key (l, t) s))"

definition output_tag_map_merged :: "output_tag_map \<Rightarrow> sync_st \<Rightarrow> bool" where
  "output_tag_map_merged x s \<longleftrightarrow> (\<exists>l. mapped sm_output_tag (om_output_tag_id x) l s \<and>
     (\<exists>t. mapped sm_output (om_output_id x) t s \<and>
        held db_output_tag_maps output_tag_map_key (l, t) s))"

definition certificate_field_merged :: "certificate_field \<Rightarrow> sync_st \<Rightarrow> bool" where
  "certificate_field_merged x s \<longleftrightarrow> (\<exists>c. mapped sm_certificate (cf_certificate_id x) c s \<and>
     held db_certificate_fields certificate_field_key (cf_field_name x, c) s)"

definition commission_merged :: "int \<Rightarrow> commission \<Rightarrow> sync_st \<Rightarrow> bool" where
  "commission_merged uid x s \<longleftrightarrow> (\<exists>t. mapped sm_transaction (co_transaction_id x) t s \<and>
     id_linked sm_commission db_commissions co_commission_id commission_nat (co_commission_id x)
       (uid, t, co_key_offset x) s)"

definition chunk_merged :: "int \<Rightarrow> sync_chunk \<Rightarrow> sync_st \<Rightarrow> bool" where
  "chunk_merged uid chunk s \<longleftrightarrow>
     each (ch_proven_txs chunk) (\<lambda>x. id_linked sm_proven_tx db_proven_txs pt_proven_tx_id
       proven_tx_key (pt_proven_tx_id x) (pt_txid x)) s \<and>
     each (ch_output_baskets chunk) (\<lambda>x. id_linked sm_output_basket db_output_baskets ob_basket_id
       output_basket_key (ob_basket_id x) (ob_name x, uid)) s \<and>
     each (ch_tx_labels chunk) (\<lambda>x. id_linked sm_tx_label db_tx_labels tl_tx_label_id
       tx_label_key (tl_tx_label_id x) (tl_label x, uid)) s \<and>
     each (ch_output_tags chunk) (\<lambda>x. id_linked sm_output_tag db_output_tags ot_output_tag_id
       output_tag_key (ot_output_tag_id x) (ot_tag x, uid)) s \<and>
     each (ch_transactions chunk) (\<lambda>x. id_linked sm_transaction db_transactions tx_transaction_id
       transaction_nat (tx_transaction_id x) (uid, tx_reference x)) s \<and>
     each (ch_outputs chunk) output_merged s \<and>
     each (ch_tx_label_maps chunk) tx_label_map_merged s \<and>
     each (ch_output_tag_maps chunk) output_tag_map_merged s \<and>
     each (ch_certificates chunk) (\<lambda>x. id_linked sm_certificate db_certificates ce_certificate_id
       certificate_nat (ce_certificate_id x) (uid, ce_serial_number x, ce_certifier x)) s \<and>
     each (ch_certificate_fields chunk) certificate_field_merged s \<and>
     each (ch_commissions chunk) (commission_merged uid) s \<and>
     each (ch_proven_tx_reqs chunk) (\<lambda>x. id_linked sm_proven_tx_req db_proven_tx_reqs
       pr_proven_tx_req_id proven_tx_req_key (pr_proven_tx_req_id x) (pr_txid x)) s"

lemmas merged_defs = output_merged_def tx_label_map_merged_def output_tag_map_merged_def
  certificate_field_merged_def commission_merged_def

lemmas entity_stable = proven_tx_sync.linked_stable output_basket_sync.linked_stable
  tx_label_sync.linked_stable output_tag_sync.linked_stable transaction_sync.linked_stable
  output_sync.linked_stable certificate_sync.linked_stable commission_sync.linked_stable
  proven_tx_req_sync.linked_stable tx_label_map_sync.held_stable output_tag_map_sync.held_stable
  certificate_field_sync.held_stable mapped_stable

lemma merged_stable:
  "stable (output_merged y)" "stable (tx_label_map_merged t)" "stable (output_tag_map_merged g)"
  "stable (certificate_field_merged f)" "stable (commission_merged uid c)"
  unfolding merged_defs [abs_def] by (intro stable_ex stable_conj entity_stable)+

lemma merge_entities_ok:
  "run_ok (\<lambda>_. True) (merge_entities now trx uid chunk) (\<lambda>_. chunk_merged uid chunk)"
  unfolding merge_entities_def chunk_merged_def [abs_def]
  by (intro run_ok_seq run_ok_each stable_each entity_stable merged_stable
      merge_proven_tx_ok merge_output_basket_ok merge_tx_label_ok merge_output_tag_ok
      merge_transaction_ok merge_certificate_ok merge_proven_tx_req_ok
      merge_output_ok [folded output_merged_def] merge_tx_label_map_ok [folded tx_label_map_merged_def]
      merge_output_tag_map_ok [folded output_tag_map_merged_def]
      merge_certificate_field_ok [folded certificate_field_merged_def]
      merge_commission_ok [folded commission_merged_def])

lemma merge_chunk_ok:
  "run_ok (\<lambda>_. True) (merge_chunk now trx chunk)
     (\<lambda>_ s. \<exists>uid. user_row (ch_user_identity_key chunk) uid s \<and> chunk_merged uid chunk s)"
  unfolding merge_chunk_def
proof (rule run_ok_bind)
  show "run_ok (\<lambda>_. True) (case ch_user chunk of None \<Rightarrow> returnS () | Some u \<Rightarrow> merge_user now u)
      (\<lambda>_ _. True)"
    by (cases "ch_user chunk") (simp_all add: run_ok_return merge_user_ok)
next
  show "run_ok (\<lambda>_. True) (bindS (chunk_user_id (ch_user_identity_key chunk))
        (\<lambda>uid. merge_entities now trx uid chunk))
      (\<lambda>_ s. \<exists>uid. user_row (ch_user_identity_key chunk) uid s \<and> chunk_merged uid chunk s)"
    by (rule run_ok_bind [OF chunk_user_id_ok],
        rule run_ok_conseq [OF run_ok_frame [OF merge_entities_ok user_row_stable]]) auto
qed

end
