(* ===== verification/SyncCounts.thy ===== *)
theory SyncCounts
  imports SyncChunk
begin

text \<open>
  What the counters count, and the theorems about processing a chunk: consistency of database and
  identifier maps in every outcome, completeness of a successful merge, the counters, and the
  refusal of references that were never mapped.
\<close>

section \<open>Counting\<close>

text \<open>
  The entity counters, one sum for any weights, so that the weights single out one entity type or
  count them all; and the entity names, which never change.
\<close>

definition weighted_count :: "(nat \<Rightarrow> int) \<Rightarrow> sync_map \<Rightarrow> int" where
  "weighted_count w m = 
     sum_list (map2 (\<lambda>i e. w i * em_count e) [0, 1, 2, 3, 4, 5, 6, 7, 8, 9, 10, 11] (entity_maps m))"

definition entity_names :: "sync_map \<Rightarrow> string list" where
  "entity_names m = map em_entity_name (entity_maps m)"

text \<open>
  When the computation returns, the weighted counters have moved by \<open>a\<close> and at most \<open>k\<close> rows
  were written.
\<close>

definition tally :: "(nat \<Rightarrow> int) \<Rightarrow> 'a sync \<Rightarrow> int \<Rightarrow> int \<Rightarrow> bool" where
  "tally w m a k \<longleftrightarrow>
     (\<forall>s x. fst (m s) = Ok x \<longrightarrow>
        weighted_count w (ss_map (snd (m s))) = weighted_count w (ss_map s) + a \<and>
        entity_names (ss_map (snd (m s))) = entity_names (ss_map s) \<and>
        ss_inserts s \<le> ss_inserts (snd (m s)) \<and> ss_updates s \<le> ss_updates (snd (m s)) \<and>
        ss_inserts (snd (m s)) + ss_updates (snd (m s)) \<le> ss_inserts s + ss_updates s + k)"

lemma tally_bind:
  assumes "tally w m a k" "\<And>x. tally w (f x) b l"
  shows "tally w (bindS m f) (a + b) (k + l)"
proof -
  have "fst (bindS m f s) = Ok y \<Longrightarrow> \<exists>x. fst (m s) = Ok x \<and> bindS m f s = f x (snd (m s))" for s y
    by (cases "fst (m s)"; cases "m s") (auto simp: bindS_def)
  with assms show ?thesis unfolding tally_def by fastforce
qed

lemma tally_weaken: "tally w m a k \<Longrightarrow> k \<le> l \<Longrightarrow> tally w m a l"
  unfolding tally_def by fastforce

lemma tally_steps:
  "tally w (returnS x) 0 0" "tally w (query q) 0 0" "tally w (writeS q') 0 0"
  "tally w (required_fk g f a b) 0 0" "tally w (optional_fk g v) 0 0"
  "tally w count_update 0 1" "tally w count_insert 0 1"
  by (auto simp: tally_def returnS_def query_def writeS_def required_fk_def optional_fk_def
      count_update_def count_insert_def split: sum.splits)

lemma tally_fail: "tally w (failS e) a k"
  by (simp add: tally_def failS_def)

lemma tally_seq: "tally w m 0 0 \<Longrightarrow> (\<And>x. tally w (f x) a k) \<Longrightarrow> tally w (bindS m f) a k"
  using tally_bind [of w m 0 0 f a k] by simp

lemma tally_refresh: "tally w (refresh newer u) 0 1"
  by (cases newer)
    (simp_all add: refresh_def tally_seq [OF tally_steps(3) tally_steps(6)] tally_weaken [OF tally_steps(1)])

lemma tally_insert_unmapped: "tally w (insert_unmapped ins) 0 1"
  unfolding insert_unmapped_def using tally_bind [OF tally_steps(3) tally_steps(7)] by simp

lemma tally_cases:
  "tally w new a k \<Longrightarrow> (\<And>x xs. tally w (old x xs) a k) \<Longrightarrow> tally w (case v of [] \<Rightarrow> new | x # xs \<Rightarrow> old x xs) a k"
  by (cases v) simp_all

locale counted_map =
  fixes idx :: nat and get_map :: "sync_map \<Rightarrow> entity_sync_map" and put_map :: map_put
  assumes count_put: "weighted_count w (put_map f m) =
      weighted_count w m + w idx * (em_count (f (get_map m)) - em_count (get_map m))"
    and names_put: "em_entity_name (f (get_map m)) = em_entity_name (get_map m) \<Longrightarrow>
      entity_names (put_map f m) = entity_names m"
begin

lemma tally_seen:
  assumes "\<And>x. tally w (f x) 0 1"
  shows "tally w (bindS (seen put_map t) f) (w idx) 1"
proof -
  have "tally w (seen put_map t) (w idx) 0" by (simp add: tally_def seen_def count_put names_put)
  from tally_bind [OF this assms] show ?thesis by simp
qed

lemma tally_record_id: "tally w (record_id get_map put_map fid l) 0 0"
  by (auto simp: tally_def record_id_def count_put names_put split: sum.splits dest: map_id_OkD(3,5))

lemma tally_found: "tally w (bindS (refresh newer u) (\<lambda>_. record_id get_map put_map fid l)) 0 1"
  using tally_bind [OF tally_refresh tally_record_id] by simp

lemma tally_insert_new: "tally w (insert_new ins get_map put_map fid) 0 1"
  unfolding insert_new_def
  using tally_bind [OF tally_steps(3) tally_bind [OF tally_record_id tally_steps(7)]] by simp

end

interpretation proven_tx_count: counted_map 0 sm_proven_tx sm_proven_tx_update
  by unfold_locales (simp_all add: weighted_count_def entity_names_def entity_maps_def algebra_simps)

interpretation output_basket_count: counted_map 1 sm_output_basket sm_output_basket_update
  by unfold_locales (simp_all add: weighted_count_def entity_names_def entity_maps_def algebra_simps)

interpretation tx_label_count: counted_map 4 sm_tx_label sm_tx_label_update
  by unfold_locales (simp_all add: weighted_count_def entity_names_def entity_maps_def algebra_simps)

interpretation output_tag_count: counted_map 6 sm_output_tag sm_output_tag_update
  by unfold_locales (simp_all add: weighted_count_def entity_names_def entity_maps_def algebra_simps)

interpretation transaction_count: counted_map 2 sm_transaction sm_transaction_update
  by unfold_locales (simp_all add: weighted_count_def entity_names_def entity_maps_def algebra_simps)

interpretation output_count: counted_map 3 sm_output sm_output_update
  by unfold_locales (simp_all add: weighted_count_def entity_names_def entity_maps_def algebra_simps)

interpretation tx_label_map_count: counted_map 5 sm_tx_label_map sm_tx_label_map_update
  by unfold_locales (simp_all add: weighted_count_def entity_names_def entity_maps_def algebra_simps)

interpretation output_tag_map_count: counted_map 7 sm_output_tag_map sm_output_tag_map_update
  by unfold_locales (simp_all add: weighted_count_def entity_names_def entity_maps_def algebra_simps)

interpretation certificate_count: counted_map 8 sm_certificate sm_certificate_update
  by unfold_locales (simp_all add: weighted_count_def entity_names_def entity_maps_def algebra_simps)

interpretation certificate_field_count: counted_map 9 sm_certificate_field sm_certificate_field_update
  by unfold_locales (simp_all add: weighted_count_def entity_names_def entity_maps_def algebra_simps)

interpretation commission_count: counted_map 10 sm_commission sm_commission_update
  by unfold_locales (simp_all add: weighted_count_def entity_names_def entity_maps_def algebra_simps)

interpretation proven_tx_req_count: counted_map 11 sm_proven_tx_req sm_proven_tx_req_update
  by unfold_locales (simp_all add: weighted_count_def entity_names_def entity_maps_def algebra_simps)

lemmas tally_intros = tally_seq [OF tally_steps(2)] tally_seq [OF tally_steps(4)] tally_seq [OF tally_steps(5)]
  tally_cases tally_refresh tally_insert_unmapped
  proven_tx_count.tally_seen proven_tx_count.tally_found proven_tx_count.tally_insert_new
  output_basket_count.tally_seen output_basket_count.tally_found output_basket_count.tally_insert_new
  tx_label_count.tally_seen tx_label_count.tally_found tx_label_count.tally_insert_new
  output_tag_count.tally_seen output_tag_count.tally_found output_tag_count.tally_insert_new
  transaction_count.tally_seen transaction_count.tally_found transaction_count.tally_insert_new
  output_count.tally_seen output_count.tally_found output_count.tally_insert_new
  tx_label_map_count.tally_seen tx_label_map_count.tally_found tx_label_map_count.tally_insert_new
  output_tag_map_count.tally_seen output_tag_map_count.tally_found output_tag_map_count.tally_insert_new
  certificate_count.tally_seen certificate_count.tally_found certificate_count.tally_insert_new
  certificate_field_count.tally_seen certificate_field_count.tally_found certificate_field_count.tally_insert_new
  commission_count.tally_seen commission_count.tally_found commission_count.tally_insert_new
  proven_tx_req_count.tally_seen proven_tx_req_count.tally_found proven_tx_req_count.tally_insert_new

lemma tally_merges:
  "tally w (merge_proven_tx x1) (w 0) 1"
  "tally w (merge_output_basket now uid x2) (w 1) 1"
  "tally w (merge_tx_label now uid x3) (w 4) 1"
  "tally w (merge_output_tag now uid x4) (w 6) 1"
  "tally w (merge_transaction now uid x5) (w 2) 1"
  "tally w (merge_output now trx uid x6) (w 3) 1"
  "tally w (merge_tx_label_map now x7) (w 5) 1"
  "tally w (merge_output_tag_map now x8) (w 7) 1"
  "tally w (merge_certificate now uid x9) (w 8) 1"
  "tally w (merge_certificate_field now uid x10) (w 9) 1"
  "tally w (merge_commission now uid x11) (w 10) 1"
  "tally w (merge_proven_tx_req now x12) (w 11) 1"
  unfolding merge_proven_tx_def merge_output_basket_def merge_tx_label_def merge_output_tag_def merge_transaction_def merge_output_def merge_tx_label_map_def merge_output_tag_map_def merge_certificate_def merge_certificate_field_def merge_commission_def merge_proven_tx_req_def
  by (intro tally_intros tally_weaken [OF proven_tx_count.tally_record_id] zero_le_one)+

section \<open>Whole chunks\<close>

definition entries :: "'r list option \<Rightarrow> int" where
  "entries v = (case v of None \<Rightarrow> 0 | Some xs \<Rightarrow> int (length xs))"

definition chunk_items :: "sync_chunk \<Rightarrow> int" where
  "chunk_items chunk =
     entries (ch_proven_txs chunk) + (entries (ch_output_baskets chunk) +
     (entries (ch_tx_labels chunk) + (entries (ch_output_tags chunk) +
     (entries (ch_transactions chunk) + (entries (ch_outputs chunk) +
     (entries (ch_tx_label_maps chunk) + (entries (ch_output_tag_maps chunk) +
     (entries (ch_certificates chunk) + (entries (ch_certificate_fields chunk) +
     (entries (ch_commissions chunk) + entries (ch_proven_tx_reqs chunk)))))))))))"

text \<open>The rows of a chunk per entity type, in the order of the maps.\<close>

definition chunk_counts :: "sync_chunk \<Rightarrow> int list" where
  "chunk_counts chunk =
     [entries (ch_proven_txs chunk), entries (ch_output_baskets chunk), entries (ch_transactions chunk),
      entries (ch_outputs chunk), entries (ch_tx_labels chunk), entries (ch_tx_label_maps chunk),
      entries (ch_output_tags chunk), entries (ch_output_tag_maps chunk), entries (ch_certificates chunk),
      entries (ch_certificate_fields chunk), entries (ch_commissions chunk), entries (ch_proven_tx_reqs chunk)]"

definition chunk_weight :: "(nat \<Rightarrow> int) \<Rightarrow> sync_chunk \<Rightarrow> int" where
  "chunk_weight w chunk = 
     sum_list (map2 (\<lambda>i n. w i * n) [0, 1, 2, 3, 4, 5, 6, 7, 8, 9, 10, 11] (chunk_counts chunk))"

lemma tally_for:
  assumes "\<And>x. tally w (f x) a 1"
  shows "tally w (forS f xs) (a * int (length xs)) (int (length xs))"
proof (induction xs)
  case Nil
  show ?case by (simp add: tally_steps)
next
  case (Cons x xs)
  have "tally w (forS f (x # xs)) (a + a * int (length xs)) (1 + int (length xs))"
    unfolding forS.simps by (rule tally_bind [OF assms Cons])
  then show ?case by (simp add: algebra_simps)
qed

lemma tally_for_some: "(\<And>x. tally w (f x) a 1) \<Longrightarrow> tally w (for_some f v) (a * entries v) (entries v)"
  by (cases v) (simp_all add: for_some_def entries_def tally_for tally_steps)

lemma tally_entities:
  "tally w (merge_entities now trx uid chunk) (chunk_weight w chunk) (chunk_items chunk)"
proof -
  have "chunk_weight w chunk = w 0 * entries (ch_proven_txs chunk) + (w 1 * entries (ch_output_baskets chunk) + (w 4 * entries (ch_tx_labels chunk) + (w 6 * entries (ch_output_tags chunk) + (w 2 * entries (ch_transactions chunk) + (w 3 * entries (ch_outputs chunk) + (w 5 * entries (ch_tx_label_maps chunk) + (w 7 * entries (ch_output_tag_maps chunk) + (w 8 * entries (ch_certificates chunk) + (w 9 * entries (ch_certificate_fields chunk) + (w 10 * entries (ch_commissions chunk) + (w 11 * entries (ch_proven_tx_reqs chunk))))))))))))"
    by (simp add: chunk_weight_def chunk_counts_def)
  then show ?thesis
    unfolding merge_entities_def chunk_items_def
    by (simp only:) (intro tally_bind tally_for_some tally_merges)
qed

lemma tally_user: "tally w (merge_user now u) 0 1"
  unfolding merge_user_def case_prod_beta by (rule tally_seq [OF tally_steps(3) tally_refresh])

lemma tally_chunk_user_id: "tally w (chunk_user_id k) 0 0"
  unfolding chunk_user_id_def
  by (rule tally_seq [OF tally_steps(2)]) (simp add: tally_fail tally_steps split: option.split)

lemma tally_chunk:
  "tally w (merge_chunk now trx chunk) (chunk_weight w chunk)
     (chunk_items chunk + (if ch_user chunk = None then 0 else 1))"
proof -
  let ?k = "if ch_user chunk = None then 0 else 1"
  have "tally w (case ch_user chunk of None \<Rightarrow> returnS () | Some u \<Rightarrow> merge_user now u) 0 ?k"
    by (simp add: tally_user tally_steps split: option.split)
  then have "tally w (merge_chunk now trx chunk) (0 + chunk_weight w chunk) (?k + chunk_items chunk)"
    unfolding merge_chunk_def by (intro tally_bind tally_seq tally_chunk_user_id tally_entities)
  then show ?thesis by (simp only: add.left_neutral add.commute)
qed


section \<open>Processing a chunk\<close>

text \<open>The merge behind one call, and the state it starts from.\<close>

definition start_st :: "database \<Rightarrow> sync_map \<Rightarrow> sync_st" where
  "start_st db m = \<lparr>ss_db = db, ss_map = m, ss_inserts = 0, ss_updates = 0\<rparr>"

lemma process_sync_chunkD:
  assumes "process_sync_chunk now trx db chunk m = (r, db', m')"
  obtains rm ni nu where
    "merge_chunk now trx chunk (start_st db m) =
       (rm, \<lparr>ss_db = db', ss_map = m', ss_inserts = ni, ss_updates = nu\<rparr>)"
    "r = bind_result rm (\<lambda>_. Ok \<lparr>pr_done = False, pr_max_updated_at = None, pr_inserts = ni,
       pr_updates = nu\<rparr>)"
proof -
  obtain rm s where *: "merge_chunk now trx chunk (start_st db m) = (rm, s)" by fastforce
  then have "s = \<lparr>ss_db = db', ss_map = m', ss_inserts = ss_inserts s, ss_updates = ss_updates s\<rparr>"
    using assms by (simp add: process_sync_chunk_def start_st_def)
  with * have "merge_chunk now trx chunk (start_st db m) =
      (rm, \<lparr>ss_db = db', ss_map = m', ss_inserts = ss_inserts s, ss_updates = ss_updates s\<rparr>)"
    by simp
  then show thesis
    by (rule that) (use assms * in \<open>simp add: process_sync_chunk_def start_st_def\<close>)
qed

lemma merge_chunk_run:
  assumes "db_ok db" "maps_ok db m" "merge_chunk now trx chunk (start_st db m) = (r, s)"
  shows "sync_ok s" "sync_grows (start_st db m) s"
    "r = Ok x \<Longrightarrow> \<exists>uid. user_row (ch_user_identity_key chunk) uid s \<and> chunk_merged uid chunk s"
  using merge_chunk_ok [of now trx chunk] assms
  by (auto simp: run_ok_def sync_ok_def start_st_def dest!: spec [of _ "start_st db m"])

section \<open>A small chunk\<close>

definition sample_chunk :: sync_chunk where
  "sample_chunk =
     \<lparr>ch_from_storage_identity_key = ''a'', ch_to_storage_identity_key = ''b'',
      ch_user_identity_key = ''u'',
      ch_user = Some \<lparr>us_created_at = 0, us_updated_at = 0, us_user_id = 7,
        us_identity_key = ''u'', us_active_storage = ''a''\<rparr>,
      ch_proven_txs = None, ch_output_baskets = Some [], ch_transactions =
        Some [\<lparr>tx_created_at = 0, tx_updated_at = 3000000, tx_transaction_id = 40, tx_user_id = 7,
          tx_proven_tx_id = None, tx_status = TsCompleted, tx_reference = ''r'',
          tx_is_outgoing = True, tx_satoshis = 5, tx_description = [], tx_version = None,
          tx_lock_time = None, tx_txid = None, tx_input_beef = None, tx_raw_tx = None\<rparr>],
      ch_outputs = None,
      ch_tx_labels = Some [\<lparr>tl_created_at = 0, tl_updated_at = 2000000, tl_tx_label_id = 30,
        tl_user_id = 7, tl_label = ''l'', tl_is_deleted = False\<rparr>],
      ch_tx_label_maps = Some [\<lparr>tm_created_at = 0, tm_updated_at = 0, tm_tx_label_id = 30,
        tm_transaction_id = 40, tm_is_deleted = False\<rparr>],
      ch_output_tags = None, ch_output_tag_maps = None, ch_certificates = None,
      ch_certificate_fields = None, ch_commissions = None, ch_proven_tx_reqs = None\<rparr>"

lemma sample_processed:
  "fst (process_sync_chunk 9000000000 False empty_database sample_chunk sync_map_new) =
     Ok \<lparr>pr_done = False, pr_max_updated_at = None, pr_inserts = 3, pr_updates = 0\<rparr>"
  by code_simp

lemma sample_outcome:
  obtains r db m where
    "process_sync_chunk 9000000000 False empty_database sample_chunk sync_map_new = (Ok r, db, m)"
  using sample_processed
  by (cases "process_sync_chunk 9000000000 False empty_database sample_chunk sync_map_new") auto

lemma sample_user: "ch_user_identity_key sample_chunk = ''u''"
  by (simp add: sample_chunk_def)

lemma sample_maps_ok: "maps_ok empty_database sync_map_new"
  by (simp add: maps_ok_def ids_known_def sync_map_new_def entity_sync_map_new_def)

section \<open>Guarantees of a call\<close>

lemma process_keeps:
  assumes "db_ok db" "maps_ok db m"
    "process_sync_chunk now trx db chunk m = (r, db', m')"
  shows "db_ok db' \<and> maps_ok db' m' \<and> db_grows db db' \<and> maps_grow m m'"
proof -
  obtain rm ni nu where *: "merge_chunk now trx chunk (start_st db m) =
      (rm, \<lparr>ss_db = db', ss_map = m', ss_inserts = ni, ss_updates = nu\<rparr>)"
    using assms(3) by (rule process_sync_chunkD)
  show ?thesis using merge_chunk_run(1,2) [OF assms(1,2) *]
    by (simp add: sync_ok_def sync_grows_def start_st_def)
qed

text \<open>
  C11: In every outcome of processing a chunk, errors included, the database keeps its keys,
  references and identifiers consistent, every mapped identifier is that of a local row, no row is
  lost or moved back in time, and no recorded mapping changes.\<close>

theorem sync_chunk_consistent:
  assumes "db_ok db" "maps_ok db m"
    "process_sync_chunk now trx db chunk m = (r, db', m')"
  shows "db_ok db' \<and> maps_ok db' m' \<and> db_grows db db' \<and> maps_grow m m'"
  using assms by (rule process_keeps)

theorem sync_chunk_consistent_witness:
  "case process_sync_chunk 9000000000 False empty_database sample_chunk sync_map_new of (r, db, m) \<Rightarrow>
     db_ok db \<and> maps_ok db m \<and> db_grows empty_database db \<and> maps_grow sync_map_new m"
  using sync_chunk_consistent [OF empty_database_ok sample_maps_ok] by (auto split: prod.split)

lemma process_merges:
  assumes "db_ok db" "maps_ok db m"
    "process_sync_chunk now trx db chunk m = (Ok r, db', m')"
  shows "\<exists>uid. user_row (ch_user_identity_key chunk) uid (start_st db' m') \<and>
    chunk_merged uid chunk (start_st db' m')"
proof -
  obtain rm ni nu where *: "merge_chunk now trx chunk (start_st db m) =
      (rm, \<lparr>ss_db = db', ss_map = m', ss_inserts = ni, ss_updates = nu\<rparr>)"
    and r: "Ok r = bind_result rm (\<lambda>_. Ok \<lparr>pr_done = False, pr_max_updated_at = None,
      pr_inserts = ni, pr_updates = nu\<rparr>)"
    using assms(3) by (rule process_sync_chunkD)
  have "rm = Ok ()" using r by (cases rm) simp_all
  from merge_chunk_run(3) [OF assms(1,2) * this] show ?thesis
    by (simp add: start_st_def user_row_def chunk_merged_def each_def id_linked_def mapped_def held_def
        merged_defs)
qed

text \<open>
  C12: When processing a chunk succeeds, the chunk's user is stored and every row of the chunk is
  there: a local row with the same natural key, with its references translated to local
  identifiers, and, where rows have identifiers, the incoming identifier mapped to the local one.\<close>

theorem sync_chunk_merged:
  assumes "db_ok db" "maps_ok db m"
    "process_sync_chunk now trx db chunk m = (Ok r, db', m')"
  shows "\<exists>uid. user_row (ch_user_identity_key chunk) uid (start_st db' m') \<and>
    chunk_merged uid chunk (start_st db' m')"
  using assms by (rule process_merges)

theorem sync_chunk_merged_witness:
  "\<exists>r db m uid. process_sync_chunk 9000000000 False empty_database sample_chunk sync_map_new = (Ok r, db, m) \<and>
     user_row ''u'' uid (start_st db m) \<and> chunk_merged uid sample_chunk (start_st db m)"
proof -
  obtain r db m where
    *: "process_sync_chunk 9000000000 False empty_database sample_chunk sync_map_new = (Ok r, db, m)"
    by (rule sample_outcome)
  then show ?thesis
    using sync_chunk_merged [OF empty_database_ok sample_maps_ok *] by (fastforce simp: sample_user)
qed

lemma weights_determine:
  assumes "\<And>w. weighted_count w m' = weighted_count w m + chunk_weight w chunk"
  shows "map em_count (entity_maps m') = map2 (+) (map em_count (entity_maps m)) (chunk_counts chunk)"
proof -
  have *: "weighted_count (\<lambda>i. if i = k then 1 else 0) m' =
      weighted_count (\<lambda>i. if i = k then 1 else 0) m + chunk_weight (\<lambda>i. if i = k then 1 else 0) chunk" for k
    by (rule assms)
  show ?thesis
    using * [of 0] * [of 1] * [of 2] * [of 3] * [of 4] * [of 5] * [of 6] * [of 7] * [of 8] * [of 9] * [of 10] * [of 11]
    by (simp add: weighted_count_def chunk_weight_def chunk_counts_def entity_maps_def)
qed

lemma merge_chunk_counts:
  assumes "process_sync_chunk now trx db chunk m = (Ok r, db', m')"
  shows "map em_count (entity_maps m') = map2 (+) (map em_count (entity_maps m)) (chunk_counts chunk)"
    "entity_names m' = entity_names m" "0 \<le> pr_inserts r" "0 \<le> pr_updates r"
    "pr_inserts r + pr_updates r \<le> chunk_items chunk + (if ch_user chunk = None then 0 else 1)"
proof -
  obtain rm ni nu where *: "merge_chunk now trx chunk (start_st db m) =
      (rm, \<lparr>ss_db = db', ss_map = m', ss_inserts = ni, ss_updates = nu\<rparr>)"
    and r: "Ok r = bind_result rm (\<lambda>_. Ok \<lparr>pr_done = False, pr_max_updated_at = None,
      pr_inserts = ni, pr_updates = nu\<rparr>)"
    using assms by (rule process_sync_chunkD)
  have rm: "rm = Ok ()" using r by (cases rm) simp_all
  have "weighted_count w m' = weighted_count w m + chunk_weight w chunk \<and>
      entity_names m' = entity_names m \<and> 0 \<le> ni \<and> 0 \<le> nu \<and>
      ni + nu \<le> chunk_items chunk + (if ch_user chunk = None then 0 else 1)" for w
    using tally_chunk [of w now trx chunk] rm * unfolding tally_def
    by (auto simp: start_st_def dest!: spec [of _ "start_st db m"])
  then show "map em_count (entity_maps m') = map2 (+) (map em_count (entity_maps m)) (chunk_counts chunk)"
    "entity_names m' = entity_names m" "0 \<le> pr_inserts r" "0 \<le> pr_updates r"
    "pr_inserts r + pr_updates r \<le> chunk_items chunk + (if ch_user chunk = None then 0 else 1)"
    using r rm weights_determine [of m' m chunk] by auto
qed

text \<open>
  A successful call moves the counter of every entity type by exactly the number of rows the
  chunk has of that type, and reports no more inserts and updates than the chunk has rows, its user
  record included.\<close>

theorem sync_chunk_counts:
  assumes "process_sync_chunk now trx db chunk m = (Ok r, db', m')"
  shows "map em_count (entity_maps m') = map2 (+) (map em_count (entity_maps m)) (chunk_counts chunk) \<and>
    0 \<le> pr_inserts r \<and> 0 \<le> pr_updates r \<and>
    pr_inserts r + pr_updates r \<le> chunk_items chunk + (if ch_user chunk = None then 0 else 1)"
  by (intro conjI merge_chunk_counts [OF assms])

theorem sync_chunk_counts_witness:
  "\<exists>r db m. process_sync_chunk 9000000000 False empty_database sample_chunk sync_map_new = (Ok r, db, m) \<and>
     map em_count (entity_maps m) = [0, 0, 1, 0, 1, 1, 0, 0, 0, 0, 0, 0] \<and> pr_inserts r + pr_updates r \<le> 4"
proof -
  obtain r db m where
    *: "process_sync_chunk 9000000000 False empty_database sample_chunk sync_map_new = (Ok r, db, m)"
    by (rule sample_outcome)
  have "map2 (+) (map em_count (entity_maps sync_map_new)) (chunk_counts sample_chunk) =
      [0, 0, 1, 0, 1, 1, 0, 0, 0, 0, 0, 0]"
    "chunk_items sample_chunk = 3" "ch_user sample_chunk \<noteq> None"
    by code_simp+
  then show ?thesis using sync_chunk_counts [OF *] * by auto
qed

text \<open>A step that stops with an internal error before it has written anything.\<close>

definition refuses :: "'a sync \<Rightarrow> sync_st \<Rightarrow> bool" where
  "refuses m s \<longleftrightarrow> (\<exists>msg. fst (m s) = Err (Internal msg)) \<and> ss_db (snd (m s)) = ss_db s"

lemma refuses_seen:
  "refuses (f ()) (snd (seen put_map t s)) \<Longrightarrow> refuses (bindS (seen put_map t) f) s"
  by (simp add: refuses_def bindS_def seen_def)

lemma refuses_required:
  "em_id_map (get_map (ss_map s)) fk = None \<Longrightarrow> refuses (bindS (required_fk get_map fk a b) f) s"
  by (simp add: refuses_def bindS_def required_fk_def remap_required_fk_def get_local_id_def)

lemma refuses_second:
  "(\<And>x. refuses (f x) s) \<Longrightarrow> refuses (bindS (required_fk get_map fk a b) f) s"
  by (cases "em_id_map (get_map (ss_map s)) fk")
    (simp_all add: refuses_required, simp add: refuses_def bindS_def required_fk_def
      remap_required_fk_def get_local_id_def)

text \<open>
  A dependent row whose parent was never mapped (the transaction of an output, a label map or a
  commission, the label of a label map, the tag or output of a tag map, the certificate of a field)
  is refused with an internal error and the database is left as it was: the foreign identifier is
  never used as a local one.\<close>

theorem unmapped_reference_refused:
  "(em_id_map (sm_transaction (ss_map s)) (ou_transaction_id x1) = None \<longrightarrow>
      refuses (merge_output now trx uid x1) s) \<and>
   (em_id_map (sm_tx_label (ss_map s)) (tm_tx_label_id x2) = None \<or>
    em_id_map (sm_transaction (ss_map s)) (tm_transaction_id x2) = None \<longrightarrow>
      refuses (merge_tx_label_map now x2) s) \<and>
   (em_id_map (sm_output_tag (ss_map s)) (om_output_tag_id x3) = None \<or>
    em_id_map (sm_output (ss_map s)) (om_output_id x3) = None \<longrightarrow>
      refuses (merge_output_tag_map now x3) s) \<and>
   (em_id_map (sm_certificate (ss_map s)) (cf_certificate_id x4) = None \<longrightarrow>
      refuses (merge_certificate_field now uid x4) s) \<and>
   (em_id_map (sm_transaction (ss_map s)) (co_transaction_id x5) = None \<longrightarrow>
      refuses (merge_commission now uid x5) s)"
  unfolding merge_output_def merge_tx_label_map_def merge_output_tag_map_def
    merge_certificate_field_def merge_commission_def
  by (auto simp: seen_def intro!: refuses_seen intro: refuses_required refuses_second [OF refuses_required])

theorem unmapped_reference_refused_witness:
  "refuses (merge_tx_label_map 0 \<lparr>tm_created_at = 0, tm_updated_at = 0, tm_tx_label_id = 30,
      tm_transaction_id = 40, tm_is_deleted = False\<rparr>) (start_st empty_database sync_map_new)"
proof -
  have "em_id_map (sm_tx_label (ss_map (start_st empty_database sync_map_new))) 30 = None"
    by (simp add: start_st_def sync_map_new_def entity_sync_map_new_def)
  then show ?thesis using unmapped_reference_refused by simp
qed



end
