(* ===== verification/SyncReplay.thy ===== *)
theory SyncReplay
  imports SyncCounts
begin

text \<open>
  Processing a chunk again. Once a chunk has been merged, every one of its rows is found by its
  natural key, so that no later call on the same chunk inserts anything.
\<close>

section \<open>Computations that insert nothing\<close>

definition keeps_inserts :: "(sync_st \<Rightarrow> bool) \<Rightarrow> 'a sync \<Rightarrow> bool" where
  "keeps_inserts P m \<longleftrightarrow> (\<forall>s. sync_ok s \<longrightarrow> P s \<longrightarrow> ss_inserts (snd (m s)) = ss_inserts s)"

lemma keeps_inserts_bind:
  assumes "run_ok P m Q" "keeps_inserts P m" "\<And>x. keeps_inserts (Q x) (f x)"
  shows "keeps_inserts P (bindS m f)"
proof -
  have "ss_inserts (snd (bindS m f s)) = ss_inserts s" if s: "sync_ok s" "P s" for s
  proof (cases "fst (m s)")
    case (Inl e)
    then have "bindS m f s = (Inl e, snd (m s))" by (cases "m s") (simp add: bindS_def)
    then show ?thesis using assms(2) s by (simp add: keeps_inserts_def)
  next
    case (Inr x)
    then have b: "bindS m f s = f x (snd (m s))" by (cases "m s") (simp add: bindS_def)
    have "sync_ok (snd (m s))" "Q x (snd (m s))" using assms(1) s Inr by (simp_all add: run_ok_def)
    then show ?thesis using assms(2,3) s by (simp add: b keeps_inserts_def)
  qed
  then show ?thesis by (simp add: keeps_inserts_def)
qed

lemma keeps_inserts_weaken:
  "keeps_inserts P m \<Longrightarrow> (\<And>s. P' s \<Longrightarrow> P s) \<Longrightarrow> keeps_inserts P' m"
  by (simp add: keeps_inserts_def)

lemma keeps_inserts_steps:
  "keeps_inserts P (returnS x)" "keeps_inserts P (failS e)" "keeps_inserts P (query q)"
  "keeps_inserts P (writeS w)" "keeps_inserts P (seen put_map t)"
  "keeps_inserts P (record_id get_map put_map fid l)" "keeps_inserts P (required_fk get_map fid a b)"
  "keeps_inserts P (optional_fk get_map v)" "keeps_inserts P count_update"
  by (auto simp: keeps_inserts_def returnS_def failS_def query_def writeS_def seen_def record_id_def
      required_fk_def optional_fk_def count_update_def split: sum.splits)

text \<open>Steps that never count an insertion, in whatever state they run.\<close>

definition quiet :: "'a sync \<Rightarrow> bool" where
  "quiet m \<longleftrightarrow> (\<forall>s. ss_inserts (snd (m s)) = ss_inserts s)"

lemma quiet_keeps: "quiet m \<Longrightarrow> keeps_inserts P m"
  by (simp add: quiet_def keeps_inserts_def)

lemma quiet_bind: "quiet m \<Longrightarrow> (\<And>x. quiet (f x)) \<Longrightarrow> quiet (bindS m f)"
  by (simp add: quiet_def bindS_def split: prod.split sum.split) (metis snd_conv)

lemma quiet_refresh: "quiet (refresh newer u)"
  by (auto simp: quiet_def refresh_def bindS_def writeS_def count_update_def returnS_def
      split: sum.splits prod.splits)

lemma quiet_record_id: "quiet (record_id get_map put_map fid l)"
  by (auto simp: quiet_def record_id_def split: sum.splits)

lemma keeps_inserts_lookup:
  assumes "\<And>s. sync_ok s \<Longrightarrow> P s \<Longrightarrow> q (ss_db s) \<noteq> Ok []" "\<And>r. quiet (old r)"
  shows "keeps_inserts P
     (bindS (query q) (\<lambda>existing. case existing of [] \<Rightarrow> new | row # rest \<Rightarrow> old row))"
proof (rule keeps_inserts_bind [OF run_ok_query keeps_inserts_steps(3)])
  fix existing
  show "keeps_inserts (\<lambda>s. P s \<and> q (ss_db s) = Ok existing)
      (case existing of [] \<Rightarrow> new | row # rest \<Rightarrow> old row)"
    using assms by (cases existing) (auto simp: keeps_inserts_def quiet_def)
qed

lemma keeps_inserts_for_some:
  assumes "\<And>x. keeps_inserts (Q x) (f x)" "\<And>x. run_ok (\<lambda>_. True) (f x) (\<lambda>_. Q x)"
    "\<And>x. stable (Q x)"
  shows "keeps_inserts (each v Q) (for_some f v)"
proof -
  have "keeps_inserts (\<lambda>s. \<forall>x \<in> set xs. Q x s) (forS f xs)" for xs
  proof (induction xs)
    case Nil
    show ?case by (simp add: keeps_inserts_steps)
  next
    case (Cons x xs)
    have "run_ok (\<lambda>s. \<forall>x \<in> set (x # xs). Q x s) (f x) (\<lambda>_ s. \<forall>x \<in> set xs. Q x s)"
      by (rule run_ok_conseq [OF run_ok_frame [OF assms(2) [of x] stable_all [where A = "set xs" and P = Q]]])
        (auto intro: assms(3))
    then show ?case unfolding forS.simps
      by (rule keeps_inserts_bind [OF _ keeps_inserts_weaken [OF assms(1)] Cons]) simp
  qed
  then show ?thesis
    by (cases v) (simp_all add: for_some_def each_def [abs_def] keeps_inserts_steps Ball_def)
qed

section \<open>Entities that are there\<close>

lemmas keeps_seen = keeps_inserts_bind [OF run_ok_keep keeps_inserts_steps(5)]

lemmas quiet_found = quiet_refresh quiet_record_id quiet_bind [OF quiet_refresh quiet_record_id]

lemma keeps_unmapped_seen:
  assumes "keeps_inserts P m" "stable P"
    "put_map = sm_tx_label_map_update \<or> put_map = sm_output_tag_map_update \<or>
     put_map = sm_certificate_field_update"
  shows "keeps_inserts P (bindS (seen put_map t) (\<lambda>_. m))"
proof (rule keeps_seen [OF _ assms(2)])
  show "run_ok (\<lambda>_. True) (seen put_map t) (\<lambda>_ _. True)"
    using assms(3) seen_unmapped_ok by blast
qed (rule assms(1))

lemma keeps_required:
  "(\<And>l. keeps_inserts (\<lambda>s. P s \<and> mapped get_map fk l s) (f l)) \<Longrightarrow>
     keeps_inserts P (bindS (required_fk get_map fk a b) f)"
  by (rule keeps_inserts_bind [OF required_fk_ok keeps_inserts_steps(7)])

lemma keeps_optional:
  "(\<And>v. keeps_inserts P (f v)) \<Longrightarrow> keeps_inserts P (bindS (optional_fk get_map fk) f)"
  by (rule keeps_inserts_bind [OF optional_fk_ok keeps_inserts_steps(8)])

lemma replay_proven_tx:
  "keeps_inserts (id_linked sm_proven_tx db_proven_txs pt_proven_tx_id proven_tx_key
     (pt_proven_tx_id x) (pt_txid x)) (merge_proven_tx x)"
  unfolding merge_proven_tx_def
  by (rule keeps_seen [OF proven_tx_sync.seen_ok proven_tx_sync.linked_stable],
      rule keeps_inserts_lookup [OF _ quiet_found(2)])
    (auto simp: find_proven_txs_def proven_txs_where_def default_defs nat_defs id_linked_def
      filter_empty_conv)

lemma replay_output_basket:
  "keeps_inserts (id_linked sm_output_basket db_output_baskets ob_basket_id output_basket_key
     (ob_basket_id x) (ob_name x, uid)) (merge_output_basket now uid x)"
  unfolding merge_output_basket_def
  by (rule keeps_seen [OF output_basket_sync.seen_ok output_basket_sync.linked_stable],
      rule keeps_inserts_lookup [OF _ quiet_found(3)])
    (auto simp: find_output_baskets_def output_baskets_where_def default_defs nat_defs id_linked_def
      filter_empty_conv)

lemma replay_tx_label:
  "keeps_inserts (id_linked sm_tx_label db_tx_labels tl_tx_label_id tx_label_key
     (tl_tx_label_id x) (tl_label x, uid)) (merge_tx_label now uid x)"
  unfolding merge_tx_label_def
  by (rule keeps_seen [OF tx_label_sync.seen_ok tx_label_sync.linked_stable],
      rule keeps_inserts_lookup [OF _ quiet_found(3)])
    (auto simp: find_tx_labels_def tx_labels_where_def default_defs nat_defs id_linked_def
      filter_empty_conv)

lemma replay_output_tag:
  "keeps_inserts (id_linked sm_output_tag db_output_tags ot_output_tag_id output_tag_key
     (ot_output_tag_id x) (ot_tag x, uid)) (merge_output_tag now uid x)"
  unfolding merge_output_tag_def
  by (rule keeps_seen [OF output_tag_sync.seen_ok output_tag_sync.linked_stable],
      rule keeps_inserts_lookup [OF _ quiet_found(3)])
    (auto simp: find_output_tags_def output_tags_where_def default_defs nat_defs id_linked_def
      filter_empty_conv)

lemma replay_transaction:
  "keeps_inserts (id_linked sm_transaction db_transactions tx_transaction_id transaction_nat
     (tx_transaction_id x) (uid, tx_reference x)) (merge_transaction now uid x)"
  unfolding merge_transaction_def
  by (rule keeps_seen [OF transaction_sync.seen_ok transaction_sync.linked_stable],
      rule keeps_optional, rule keeps_inserts_lookup [OF _ quiet_found(3)])
    (auto simp: find_transactions_def transactions_where_def default_defs nat_defs id_linked_def
      filter_empty_conv)

lemma replay_certificate:
  "keeps_inserts (id_linked sm_certificate db_certificates ce_certificate_id certificate_nat
     (ce_certificate_id x) (uid, ce_serial_number x, ce_certifier x)) (merge_certificate now uid x)"
  unfolding merge_certificate_def
  by (rule keeps_seen [OF certificate_sync.seen_ok certificate_sync.linked_stable],
      rule keeps_inserts_lookup [OF _ quiet_found(3)])
    (auto simp: find_certificates_def certificates_where_def default_defs nat_defs id_linked_def
      filter_empty_conv)

lemma replay_proven_tx_req:
  "keeps_inserts (id_linked sm_proven_tx_req db_proven_tx_reqs pr_proven_tx_req_id proven_tx_req_key
     (pr_proven_tx_req_id x) (pr_txid x)) (merge_proven_tx_req now x)"
  unfolding merge_proven_tx_req_def
  by (rule keeps_seen [OF proven_tx_req_sync.seen_ok proven_tx_req_sync.linked_stable],
      rule keeps_optional, rule keeps_inserts_lookup [OF _ quiet_found(3)])
    (auto simp: find_proven_tx_reqs_def proven_tx_reqs_where_def default_defs nat_defs id_linked_def
      filter_empty_conv)

lemma replay_output: "keeps_inserts (output_merged x) (merge_output now trx uid x)"
  unfolding merge_output_def
  by (rule keeps_seen [OF output_sync.seen_ok merged_stable(1)], rule keeps_required,
      rule keeps_optional, rule keeps_optional, rule keeps_inserts_lookup [OF _ quiet_found(3)])
    (auto simp: find_outputs_def outputs_where_def default_defs nat_defs id_linked_def mapped_def
      merged_defs filter_empty_conv Let_def)

lemma replay_commission: "keeps_inserts (commission_merged uid x) (merge_commission now uid x)"
  unfolding merge_commission_def
  by (rule keeps_seen [OF commission_sync.seen_ok merged_stable(5)], rule keeps_required,
      rule keeps_inserts_lookup [OF _ quiet_found(3)])
    (auto simp: find_commissions_def commissions_where_def default_defs nat_defs id_linked_def
      mapped_def merged_defs filter_empty_conv)

lemma replay_tx_label_map: "keeps_inserts (tx_label_map_merged x) (merge_tx_label_map now x)"
  unfolding merge_tx_label_map_def
  by (rule keeps_unmapped_seen [OF _ merged_stable(2)], rule keeps_required, rule keeps_required,
      rule keeps_inserts_lookup [OF _ quiet_found(1)])
    (auto simp: find_tx_label_maps_def tx_label_maps_where_def default_defs nat_defs held_def
      mapped_def merged_defs filter_empty_conv)

lemma replay_output_tag_map: "keeps_inserts (output_tag_map_merged x) (merge_output_tag_map now x)"
  unfolding merge_output_tag_map_def
  by (rule keeps_unmapped_seen [OF _ merged_stable(3)], rule keeps_required, rule keeps_required,
      rule keeps_inserts_lookup [OF _ quiet_found(1)])
    (auto simp: find_output_tag_maps_def output_tag_maps_where_def default_defs nat_defs held_def
      mapped_def merged_defs filter_empty_conv)

lemma replay_certificate_field:
  "keeps_inserts (certificate_field_merged x) (merge_certificate_field now uid x)"
  unfolding merge_certificate_field_def
  by (rule keeps_unmapped_seen [OF _ merged_stable(4)], rule keeps_required,
      rule keeps_inserts_lookup [OF _ quiet_found(1)])
    (auto simp: find_certificate_fields_def certificate_fields_where_def default_defs nat_defs
      held_def mapped_def merged_defs filter_empty_conv)


section \<open>Whole chunks\<close>

lemma keeps_seq:
  assumes "keeps_inserts P m" "run_ok (\<lambda>_. True) m (\<lambda>_ _. True)" "stable P" "keeps_inserts P m'"
  shows "keeps_inserts P (bindS m (\<lambda>_. m'))"
  by (rule keeps_inserts_bind [OF run_ok_keep [OF assms(2,3)] assms(1,4)])

lemma merge_each_ok:
  "(\<And>x. run_ok (\<lambda>_. True) (f x) (\<lambda>_. Q x)) \<Longrightarrow> (\<And>x. stable (Q x)) \<Longrightarrow>
     run_ok (\<lambda>_. True) (for_some f v) (\<lambda>_ _. True)"
  by (rule run_ok_conseq [OF run_ok_each]) simp_all

lemma chunk_merged_stable: "stable (chunk_merged uid chunk)"
  unfolding chunk_merged_def [abs_def] by (intro stable_conj stable_each entity_stable merged_stable)

lemmas output_merged_ok = merge_output_ok [folded output_merged_def]
  and tx_label_map_merged_ok = merge_tx_label_map_ok [folded tx_label_map_merged_def]
  and output_tag_map_merged_ok = merge_output_tag_map_ok [folded output_tag_map_merged_def]
  and certificate_field_merged_ok = merge_certificate_field_ok [folded certificate_field_merged_def]
  and commission_merged_ok = merge_commission_ok [folded commission_merged_def]

lemma keeps_each:
  assumes "\<And>x. keeps_inserts (Q x) (f x)" "\<And>x. run_ok (\<lambda>_. True) (f x) (\<lambda>_. Q x)"
    "\<And>x. stable (Q x)" "\<And>s. P s \<Longrightarrow> each v Q s" "stable P" "keeps_inserts P m"
  shows "keeps_inserts P (bindS (for_some f v) (\<lambda>_. m))"
  by (rule keeps_seq [OF keeps_inserts_weaken [OF keeps_inserts_for_some [OF assms(1-3)] assms(4)]
        merge_each_ok [OF assms(2,3)] assms(5,6)])

lemma replay_entities:
  "keeps_inserts (chunk_merged uid chunk) (merge_entities now trx uid chunk)"
proof -
  note s = entity_stable and m = merged_stable and c = chunk_merged_stable
  show ?thesis
    unfolding merge_entities_def
    apply (rule keeps_each [OF replay_proven_tx merge_proven_tx_ok s(1) _ c], simp add: chunk_merged_def)
    apply (rule keeps_each [OF replay_output_basket merge_output_basket_ok s(2) _ c], simp add: chunk_merged_def)
    apply (rule keeps_each [OF replay_tx_label merge_tx_label_ok s(3) _ c], simp add: chunk_merged_def)
    apply (rule keeps_each [OF replay_output_tag merge_output_tag_ok s(4) _ c], simp add: chunk_merged_def)
    apply (rule keeps_each [OF replay_transaction merge_transaction_ok s(5) _ c], simp add: chunk_merged_def)
    apply (rule keeps_each [OF replay_output output_merged_ok m(1) _ c], simp add: chunk_merged_def)
    apply (rule keeps_each [OF replay_tx_label_map tx_label_map_merged_ok m(2) _ c], simp add: chunk_merged_def)
    apply (rule keeps_each [OF replay_output_tag_map output_tag_map_merged_ok m(3) _ c], simp add: chunk_merged_def)
    apply (rule keeps_each [OF replay_certificate merge_certificate_ok s(7) _ c], simp add: chunk_merged_def)
    apply (rule keeps_each [OF replay_certificate_field certificate_field_merged_ok m(4) _ c], simp add: chunk_merged_def)
    apply (rule keeps_each [OF replay_commission commission_merged_ok m(5) _ c], simp add: chunk_merged_def)
    apply (rule keeps_inserts_weaken [OF keeps_inserts_for_some [OF replay_proven_tx_req merge_proven_tx_req_ok s(9)]])
    apply (simp add: chunk_merged_def)
    done
qed

lemma user_row_unique:
  assumes "sync_ok s" "user_row k uid s" "user_row k uid' s"
  shows "uid' = uid"
proof -
  have "inj_on user_key (set (tb_rows (db_users (ss_db s))))"
    using assms(1) users.tab_ok(1) by (auto simp: sync_ok_def rows_ok_def keyed_ok_def distinct_map)
  then show ?thesis using assms(2,3) unfolding user_row_def inj_on_def user_key_def by metis
qed

lemma replay_user: "quiet (merge_user now u)"
  unfolding merge_user_def case_prod_beta
  by (rule quiet_bind [OF _ quiet_refresh]) (auto simp: quiet_def writeS_def split: sum.splits prod.splits)

text \<open>The result counters do not matter for what is stored.\<close>

lemma state_only:
  "user_row k uid \<lparr>ss_db = db, ss_map = m, ss_inserts = ni, ss_updates = nu\<rparr> =
     user_row k uid \<lparr>ss_db = db, ss_map = m, ss_inserts = 0, ss_updates = 0\<rparr>"
  "chunk_merged uid chunk \<lparr>ss_db = db, ss_map = m, ss_inserts = ni, ss_updates = nu\<rparr> =
     chunk_merged uid chunk \<lparr>ss_db = db, ss_map = m, ss_inserts = 0, ss_updates = 0\<rparr>"
  by (simp_all add: user_row_def chunk_merged_def each_def id_linked_def mapped_def held_def merged_defs)

lemma replay_chunk:
  "keeps_inserts (\<lambda>s. user_row (ch_user_identity_key chunk) uid s \<and> chunk_merged uid chunk s)
     (merge_chunk now trx chunk)" (is "keeps_inserts ?P _")
proof -
  let ?k = "ch_user_identity_key chunk"
  have st: "stable ?P" by (intro stable_conj user_row_stable chunk_merged_stable)
  have "quiet (returnS ())" by (simp add: quiet_def returnS_def)
  then have user: "keeps_inserts ?P (case ch_user chunk of None \<Rightarrow> returnS () | Some u \<Rightarrow> merge_user now u)"
    by (intro quiet_keeps) (simp add: replay_user split: option.split)
  have user_ok: "run_ok (\<lambda>_. True)
      (case ch_user chunk of None \<Rightarrow> returnS () | Some u \<Rightarrow> merge_user now u) (\<lambda>_ _. True)"
    by (cases "ch_user chunk") (simp_all add: run_ok_return merge_user_ok)
  have id_ok: "run_ok ?P (chunk_user_id ?k) (\<lambda>uid'. \<lambda>s. user_row ?k uid' s \<and> ?P s)"
    using run_ok_frame [OF chunk_user_id_ok st] by (rule run_ok_conseq) simp_all
  have "quiet (chunk_user_id ?k)"
    by (auto simp: quiet_def chunk_user_id_def bindS_def query_def returnS_def failS_def
        split: sum.split option.split)
  then have "keeps_inserts ?P (chunk_user_id ?k)" by (rule quiet_keeps)
  then have "keeps_inserts ?P (bindS (chunk_user_id ?k) (\<lambda>u. merge_entities now trx u chunk))"
  proof (rule keeps_inserts_bind [OF id_ok])
    fix u
    show "keeps_inserts (\<lambda>s. user_row ?k u s \<and> ?P s) (merge_entities now trx u chunk)"
      using replay_entities [of u chunk now trx] user_row_unique unfolding keeps_inserts_def by blast
  qed
  then show ?thesis
    unfolding merge_chunk_def by (rule keeps_seq [OF user user_ok st])
qed

text \<open>
  C24: Processing a chunk a second time, at any later moment and whatever happened to time stamps in
  between, inserts nothing: rows are recognised by their natural keys.\<close>

theorem replayed_chunk_inserts_nothing:
  assumes "db_ok db" "maps_ok db m"
    "process_sync_chunk now trx db chunk m = (Ok r, db', m')"
    "process_sync_chunk now' trx' db' chunk m' = (Ok r', db'', m'')"
  shows "pr_inserts r' = 0"
proof -
  obtain rm ni nu where 1: "merge_chunk now trx chunk (start_st db m) =
      (rm, \<lparr>ss_db = db', ss_map = m', ss_inserts = ni, ss_updates = nu\<rparr>)"
    and r: "Ok r = bind_result rm (\<lambda>_. Ok \<lparr>pr_done = False, pr_max_updated_at = None,
      pr_inserts = ni, pr_updates = nu\<rparr>)"
    using assms(3) by (rule process_sync_chunkD)
  obtain rm' ni' nu' where 2: "merge_chunk now' trx' chunk (start_st db' m') =
      (rm', \<lparr>ss_db = db'', ss_map = m'', ss_inserts = ni', ss_updates = nu'\<rparr>)"
    and r': "Ok r' = bind_result rm' (\<lambda>_. Ok \<lparr>pr_done = False, pr_max_updated_at = None,
      pr_inserts = ni', pr_updates = nu'\<rparr>)"
    using assms(4) by (rule process_sync_chunkD)
  have "rm = Ok ()" using r by (cases rm) simp_all
  then obtain uid where u: "user_row (ch_user_identity_key chunk) uid (start_st db' m')"
    "chunk_merged uid chunk (start_st db' m')"
    using merge_chunk_run(3) [OF assms(1,2) 1] by (auto simp: start_st_def state_only [of _ _ _ _ ni nu] state_only(2) [of _ _ _ _ ni nu])
  have ok: "sync_ok (start_st db' m')"
    using merge_chunk_run(1) [OF assms(1,2) 1] by (simp add: sync_ok_def start_st_def)
  have "ni' = 0"
    using replay_chunk [of chunk uid now' trx'] ok u 2 by (auto simp: keeps_inserts_def start_st_def)
  then show ?thesis using r' by (cases rm') simp_all
qed

lemma sample_replayed:
  "case process_sync_chunk 9000000000 False empty_database sample_chunk sync_map_new of (_, db, m) \<Rightarrow>
     (case process_sync_chunk 9000000000 False db sample_chunk m of (r, _) \<Rightarrow> \<not> isl r)"
  by code_simp

theorem replayed_chunk_inserts_nothing_witness:
  "\<exists>r db m r' db' m'.
     process_sync_chunk 9000000000 False empty_database sample_chunk sync_map_new = (Ok r, db, m) \<and>
     process_sync_chunk 9000000000 False db sample_chunk m = (Ok r', db', m') \<and> pr_inserts r' = 0"
proof -
  obtain r db m where
    1: "process_sync_chunk 9000000000 False empty_database sample_chunk sync_map_new = (Ok r, db, m)"
    by (rule sample_outcome)
  then obtain r' db' m' where 2: "process_sync_chunk 9000000000 False db sample_chunk m = (Ok r', db', m')"
    using sample_replayed by (auto split: prod.splits simp: isl_def) (metis sum.exhaust)
  from replayed_chunk_inserts_nothing [OF empty_database_ok sample_maps_ok 1 2] 1 2
  show ?thesis by blast
qed

end
