(* ===== verification/SyncExtract.thy ===== *)
theory SyncExtract
  imports SyncReplay
begin

text \<open>
  Extracting a chunk (\<open>src/storage/sync/get_sync_chunk.rs\<close>, \<open>request_args.rs\<close> and the
  per-user queries of \<open>sqlx_impl/find.rs\<close>): one budget of items and one of bytes are spent over
  the twelve entity types in dependency order, each paged through until it is exhausted or a budget
  runs out. The length of a row's JSON text is a parameter.
\<close>

section \<open>Rows of a user\<close>

record for_user_args =
  fu_user_id :: int
  fu_since :: "ts option"
  fu_paged :: "paged option"

definition get_proven_txs_for_user :: "for_user_args \<Rightarrow> database \<Rightarrow> proven_tx list" where
  "get_proven_txs_for_user a db =
     ordered_page (fu_paged a) pt_proven_tx_id
       (filter (\<lambda>r. list_ex (\<lambda>t. tx_proven_tx_id t = Some (pt_proven_tx_id r) \<and>
            tx_user_id t = fu_user_id a) (tb_rows (db_transactions db)) \<and>
          where_since (fu_since a) (pt_updated_at r)) (tb_rows (db_proven_txs db)))"

definition get_proven_tx_reqs_for_user :: "for_user_args \<Rightarrow> database \<Rightarrow> proven_tx_req list" where
  "get_proven_tx_reqs_for_user a db =
     ordered_page (fu_paged a) pr_proven_tx_req_id
       (filter (\<lambda>r. list_ex (\<lambda>t. tx_txid t = Some (pr_txid r) \<and> tx_user_id t = fu_user_id a)
            (tb_rows (db_transactions db)) \<and>
          where_since (fu_since a) (pr_updated_at r)) (tb_rows (db_proven_tx_reqs db)))"

definition get_tx_label_maps_for_user :: "for_user_args \<Rightarrow> database \<Rightarrow> tx_label_map list" where
  "get_tx_label_maps_for_user a db =
     ordered_page (fu_paged a) (\<lambda>r. (tm_transaction_id r, tm_tx_label_id r))
       (filter (\<lambda>r. list_ex (\<lambda>l. tl_tx_label_id l = tm_tx_label_id r \<and> tl_user_id l = fu_user_id a)
            (tb_rows (db_tx_labels db)) \<and>
          where_since (fu_since a) (tm_updated_at r)) (tb_rows (db_tx_label_maps db)))"

definition get_output_tag_maps_for_user :: "for_user_args \<Rightarrow> database \<Rightarrow> output_tag_map list" where
  "get_output_tag_maps_for_user a db =
     ordered_page (fu_paged a) (\<lambda>r. (om_output_id r, om_output_tag_id r))
       (filter (\<lambda>r. list_ex (\<lambda>l. ot_output_tag_id l = om_output_tag_id r \<and> ot_user_id l = fu_user_id a)
            (tb_rows (db_output_tags db)) \<and>
          where_since (fu_since a) (om_updated_at r)) (tb_rows (db_output_tag_maps db)))"

section \<open>Budgets\<close>

record budget =
  bg_items :: int
  bg_size :: int
  bg_done :: bool

text \<open>The inner \<open>for\<close> loop: take rows until a budget is spent.\<close>

fun take_items :: "('r \<Rightarrow> int) \<Rightarrow> 'r list \<Rightarrow> budget \<Rightarrow> 'r list \<times> budget" where
  "take_items weight [] b = ([], b)"
| "take_items weight (item # items) b =
     (let b = b\<lparr>bg_size := bg_size b - weight item, bg_items := bg_items b - 1\<rparr>
      in if bg_items b \<le> 0 \<or> bg_size b < 0 then ([item], b\<lparr>bg_done := True\<rparr>)
         else case take_items weight items b of (taken, b') \<Rightarrow> (item # taken, b'))"

lemma take_items_items:
  "take_items weight items b = (taken, b') \<Longrightarrow> bg_items b' = bg_items b - int (length taken)"
  by (induction items arbitrary: b taken b') (auto simp: Let_def split: if_splits prod.splits)

lemma take_items_nonempty: "take_items weight items b = (taken, b') \<Longrightarrow> items \<noteq> [] \<Longrightarrow> taken \<noteq> []"
  by (cases items) (auto simp: Let_def split: if_splits prod.splits)

lemma take_items_less:
  "take_items weight items b = (taken, b') \<Longrightarrow> items \<noteq> [] \<Longrightarrow> bg_items b' < bg_items b"
  using take_items_items take_items_nonempty by fastforce

text \<open>
  The outer loop: fetch a page at the current offset. \<open>page\<close> is the largest page; the array is
  \<open>None\<close> when no page was asked for.
\<close>

function page_loop ::
  "('r \<Rightarrow> int) \<Rightarrow> int \<Rightarrow> (int \<Rightarrow> int \<Rightarrow> 'r list wallet_result) \<Rightarrow> int \<Rightarrow> budget \<Rightarrow>
    ('r list option \<times> budget) wallet_result" where
  "page_loop weight page fetch offset b =
     (let limit = min (bg_items b) page
      in if limit \<le> 0 then Ok (None, b)
         else (case fetch limit offset of
             Inl e \<Rightarrow> Err e
           | Inr items \<Rightarrow>
               if items = [] then Ok (Some [], b)
               else (case take_items weight items b of (taken, b') \<Rightarrow>
                 if bg_done b' then Ok (Some taken, b')
                 else (case page_loop weight page fetch (offset + int (length taken)) b' of
                     Inl e \<Rightarrow> Err e
                   | Inr (rest, b'') \<Rightarrow>
                       Ok (Some (taken @ (case rest of None \<Rightarrow> [] | Some xs \<Rightarrow> xs)), b'')))))"
  by pat_completeness auto
termination
  by (relation "measure (\<lambda>(weight, page, fetch, offset, b). nat (bg_items b))")
    (auto dest: take_items_less [OF sym])

declare page_loop.simps [simp del]

definition chunk_entity ::
  "int \<Rightarrow> int \<Rightarrow> ('r \<Rightarrow> int) \<Rightarrow> int \<Rightarrow> (int \<Rightarrow> int \<Rightarrow> 'r list wallet_result) \<Rightarrow> budget \<Rightarrow>
    ('r list option \<times> budget) wallet_result" where
  "chunk_entity max_items divider weight offset fetch b =
     (if \<not> bg_done b \<and> offset \<ge> 0
      then page_loop weight (max (max_items div divider) 10) fetch offset b
      else Ok (None, b))"

section \<open>Requests\<close>

record sync_chunk_offsets =
  so_proven_tx :: int
  so_output_basket :: int
  so_output_tag :: int
  so_tx_label :: int
  so_transaction :: int
  so_output :: int
  so_tx_label_map :: int
  so_output_tag_map :: int
  so_certificate :: int
  so_certificate_field :: int
  so_commission :: int
  so_proven_tx_req :: int

definition stopped_offsets :: sync_chunk_offsets where
  "stopped_offsets =
     \<lparr>so_proven_tx = -1,
      so_output_basket = -1,
      so_output_tag = -1,
      so_tx_label = -1,
      so_transaction = -1,
      so_output = -1,
      so_tx_label_map = -1,
      so_output_tag_map = -1,
      so_certificate = -1,
      so_certificate_field = -1,
      so_commission = -1,
      so_proven_tx_req = -1\<rparr>"

text \<open>Length of the JSON text of a row, per entity type.\<close>

record row_sizes =
  rz_proven_tx :: "proven_tx \<Rightarrow> int"
  rz_output_basket :: "output_basket \<Rightarrow> int"
  rz_output_tag :: "output_tag \<Rightarrow> int"
  rz_tx_label :: "tx_label \<Rightarrow> int"
  rz_transaction :: "transaction \<Rightarrow> int"
  rz_output :: "output_row \<Rightarrow> int"
  rz_tx_label_map :: "tx_label_map \<Rightarrow> int"
  rz_output_tag_map :: "output_tag_map \<Rightarrow> int"
  rz_certificate :: "certificate \<Rightarrow> int"
  rz_certificate_field :: "certificate_field \<Rightarrow> int"
  rz_commission :: "commission \<Rightarrow> int"
  rz_proven_tx_req :: "proven_tx_req \<Rightarrow> int"

record get_sync_chunk_args =
  ga_from_storage_identity_key :: string
  ga_to_storage_identity_key :: string
  ga_user_identity_key :: string
  ga_sync_map :: sync_map
  ga_max_items :: int
  ga_max_rough_size :: int
  ga_offsets :: sync_chunk_offsets

section \<open>Extraction\<close>

text \<open>The queries, one per entity type, with the window and the page filled in.\<close>

definition user_args :: "int \<Rightarrow> ts option \<Rightarrow> int \<Rightarrow> int \<Rightarrow> for_user_args" where
  "user_args user_id since limit offset =
     \<lparr>fu_user_id = user_id, fu_since = since,
      fu_paged = Some \<lparr>pg_limit = limit, pg_offset = offset\<rparr>\<rparr>"

definition fetch_proven_txs ::
  "bool \<Rightarrow> database \<Rightarrow> int \<Rightarrow> ts option \<Rightarrow> int \<Rightarrow> int \<Rightarrow> proven_tx list wallet_result" where
  "fetch_proven_txs trx db user_id since limit offset =
     Ok (get_proven_txs_for_user (user_args user_id since limit offset) db)"

definition fetch_output_baskets ::
  "bool \<Rightarrow> database \<Rightarrow> int \<Rightarrow> ts option \<Rightarrow> int \<Rightarrow> int \<Rightarrow> output_basket list wallet_result" where
  "fetch_output_baskets trx db user_id since limit offset =
     Ok (find_output_baskets (find_output_baskets_default\<lparr>
       oba_partial := output_basket_partial_default\<lparr>obp_user_id := Some user_id\<rparr>, oba_since := since,
       oba_paged := Some \<lparr>pg_limit = limit, pg_offset = offset\<rparr>\<rparr>) db)"

definition fetch_output_tags ::
  "bool \<Rightarrow> database \<Rightarrow> int \<Rightarrow> ts option \<Rightarrow> int \<Rightarrow> int \<Rightarrow> output_tag list wallet_result" where
  "fetch_output_tags trx db user_id since limit offset =
     Ok (find_output_tags (find_output_tags_default\<lparr>
       ota_partial := output_tag_partial_default\<lparr>otp_user_id := Some user_id\<rparr>, ota_since := since,
       ota_paged := Some \<lparr>pg_limit = limit, pg_offset = offset\<rparr>\<rparr>) db)"

definition fetch_tx_labels ::
  "bool \<Rightarrow> database \<Rightarrow> int \<Rightarrow> ts option \<Rightarrow> int \<Rightarrow> int \<Rightarrow> tx_label list wallet_result" where
  "fetch_tx_labels trx db user_id since limit offset =
     Ok (find_tx_labels (find_tx_labels_default\<lparr>
       tla_partial := tx_label_partial_default\<lparr>tlp_user_id := Some user_id\<rparr>, tla_since := since,
       tla_paged := Some \<lparr>pg_limit = limit, pg_offset = offset\<rparr>\<rparr>) db)"

definition fetch_transactions ::
  "bool \<Rightarrow> database \<Rightarrow> int \<Rightarrow> ts option \<Rightarrow> int \<Rightarrow> int \<Rightarrow> transaction list wallet_result" where
  "fetch_transactions trx db user_id since limit offset =
     Ok (find_transactions (find_transactions_default\<lparr>
       txa_partial := transaction_partial_default\<lparr>txp_user_id := Some user_id\<rparr>, txa_since := since,
       txa_paged := Some \<lparr>pg_limit = limit, pg_offset = offset\<rparr>\<rparr>) db)"

definition fetch_outputs ::
  "bool \<Rightarrow> database \<Rightarrow> int \<Rightarrow> ts option \<Rightarrow> int \<Rightarrow> int \<Rightarrow> output_row list wallet_result" where
  "fetch_outputs trx db user_id since limit offset =
     find_outputs trx (find_outputs_default\<lparr>
       oua_partial := output_partial_default\<lparr>oup_user_id := Some user_id\<rparr>, oua_since := since,
       oua_paged := Some \<lparr>pg_limit = limit, pg_offset = offset\<rparr>\<rparr>) db"

definition fetch_tx_label_maps ::
  "bool \<Rightarrow> database \<Rightarrow> int \<Rightarrow> ts option \<Rightarrow> int \<Rightarrow> int \<Rightarrow> tx_label_map list wallet_result" where
  "fetch_tx_label_maps trx db user_id since limit offset =
     Ok (get_tx_label_maps_for_user (user_args user_id since limit offset) db)"

definition fetch_output_tag_maps ::
  "bool \<Rightarrow> database \<Rightarrow> int \<Rightarrow> ts option \<Rightarrow> int \<Rightarrow> int \<Rightarrow> output_tag_map list wallet_result" where
  "fetch_output_tag_maps trx db user_id since limit offset =
     Ok (get_output_tag_maps_for_user (user_args user_id since limit offset) db)"

definition fetch_certificates ::
  "bool \<Rightarrow> database \<Rightarrow> int \<Rightarrow> ts option \<Rightarrow> int \<Rightarrow> int \<Rightarrow> certificate list wallet_result" where
  "fetch_certificates trx db user_id since limit offset =
     Ok (find_certificates (find_certificates_default\<lparr>
       cea_partial := certificate_partial_default\<lparr>cep_user_id := Some user_id\<rparr>, cea_since := since,
       cea_paged := Some \<lparr>pg_limit = limit, pg_offset = offset\<rparr>\<rparr>) db)"

definition fetch_certificate_fields ::
  "bool \<Rightarrow> database \<Rightarrow> int \<Rightarrow> ts option \<Rightarrow> int \<Rightarrow> int \<Rightarrow> certificate_field list wallet_result" where
  "fetch_certificate_fields trx db user_id since limit offset =
     Ok (find_certificate_fields (find_certificate_fields_default\<lparr>
       cfa_partial := certificate_field_partial_default\<lparr>cfp_user_id := Some user_id\<rparr>, cfa_since := since,
       cfa_paged := Some \<lparr>pg_limit = limit, pg_offset = offset\<rparr>\<rparr>) db)"

definition fetch_commissions ::
  "bool \<Rightarrow> database \<Rightarrow> int \<Rightarrow> ts option \<Rightarrow> int \<Rightarrow> int \<Rightarrow> commission list wallet_result" where
  "fetch_commissions trx db user_id since limit offset =
     Ok (find_commissions (find_commissions_default\<lparr>
       coa_partial := commission_partial_default\<lparr>cop_user_id := Some user_id\<rparr>, coa_since := since,
       coa_paged := Some \<lparr>pg_limit = limit, pg_offset = offset\<rparr>\<rparr>) db)"

definition fetch_proven_tx_reqs ::
  "bool \<Rightarrow> database \<Rightarrow> int \<Rightarrow> ts option \<Rightarrow> int \<Rightarrow> int \<Rightarrow> proven_tx_req list wallet_result" where
  "fetch_proven_tx_reqs trx db user_id since limit offset =
     Ok (get_proven_tx_reqs_for_user (user_args user_id since limit offset) db)"

definition get_sync_chunk ::
  "row_sizes \<Rightarrow> bool \<Rightarrow> get_sync_chunk_args \<Rightarrow> database \<Rightarrow> sync_chunk wallet_result" where
  "get_sync_chunk sizes trx args db =
     bind_result (find_user_by_identity_key (ga_user_identity_key args) db) (\<lambda>user.
     case user of
       None \<Rightarrow> Err (InvalidParameter ''identityKey''
         (''an identity present in storage; '' @ [CHR 0x27] @ ga_user_identity_key args @
          [CHR 0x27] @ '' was not found''))
     | Some u \<Rightarrow>
       (let user_id = us_user_id u;
            dominated = (case em_max_updated_at (sm_proven_tx (ga_sync_map args)) of
                None \<Rightarrow> False | Some since \<Rightarrow> us_updated_at u \<le> since);
            since = (\<lambda>get_map. em_max_updated_at (get_map (ga_sync_map args)));
            offs = ga_offsets args; n = ga_max_items args;
            b = \<lparr>bg_items = n, bg_size = ga_max_rough_size args, bg_done = False\<rparr>
        in
     bind_result (chunk_entity n 100 (rz_proven_tx sizes) (so_proven_tx offs)
         (fetch_proven_txs trx db user_id (since sm_proven_tx)) b) (\<lambda>(proven_txs, b).
     bind_result (chunk_entity n 1 (rz_output_basket sizes) (so_output_basket offs)
         (fetch_output_baskets trx db user_id (since sm_output_basket)) b) (\<lambda>(output_baskets, b).
     bind_result (chunk_entity n 1 (rz_output_tag sizes) (so_output_tag offs)
         (fetch_output_tags trx db user_id (since sm_output_tag)) b) (\<lambda>(output_tags, b).
     bind_result (chunk_entity n 1 (rz_tx_label sizes) (so_tx_label offs)
         (fetch_tx_labels trx db user_id (since sm_tx_label)) b) (\<lambda>(tx_labels, b).
     bind_result (chunk_entity n 25 (rz_transaction sizes) (so_transaction offs)
         (fetch_transactions trx db user_id (since sm_transaction)) b) (\<lambda>(transactions, b).
     bind_result (chunk_entity n 25 (rz_output sizes) (so_output offs)
         (fetch_outputs trx db user_id (since sm_output)) b) (\<lambda>(outputs, b).
     bind_result (chunk_entity n 1 (rz_tx_label_map sizes) (so_tx_label_map offs)
         (fetch_tx_label_maps trx db user_id (since sm_tx_label_map)) b) (\<lambda>(tx_label_maps, b).
     bind_result (chunk_entity n 1 (rz_output_tag_map sizes) (so_output_tag_map offs)
         (fetch_output_tag_maps trx db user_id (since sm_output_tag_map)) b) (\<lambda>(output_tag_maps, b).
     bind_result (chunk_entity n 25 (rz_certificate sizes) (so_certificate offs)
         (fetch_certificates trx db user_id (since sm_certificate)) b) (\<lambda>(certificates, b).
     bind_result (chunk_entity n 25 (rz_certificate_field sizes) (so_certificate_field offs)
         (fetch_certificate_fields trx db user_id (since sm_certificate_field)) b) (\<lambda>(certificate_fields, b).
     bind_result (chunk_entity n 25 (rz_commission sizes) (so_commission offs)
         (fetch_commissions trx db user_id (since sm_commission)) b) (\<lambda>(commissions, b).
     bind_result (chunk_entity n 100 (rz_proven_tx_req sizes) (so_proven_tx_req offs)
         (fetch_proven_tx_reqs trx db user_id (since sm_proven_tx_req)) b) (\<lambda>(proven_tx_reqs, b).
     Ok \<lparr>ch_from_storage_identity_key = ga_from_storage_identity_key args,
         ch_to_storage_identity_key = ga_to_storage_identity_key args,
         ch_user_identity_key = ga_user_identity_key args,
         ch_user = (if dominated then None else Some u),
         ch_proven_txs = proven_txs, ch_output_baskets = output_baskets, ch_transactions = transactions,
         ch_outputs = outputs, ch_tx_labels = tx_labels, ch_tx_label_maps = tx_label_maps,
         ch_output_tags = output_tags, ch_output_tag_maps = output_tag_maps, ch_certificates = certificates,
         ch_certificate_fields = certificate_fields, ch_commissions = commissions, ch_proven_tx_reqs = proven_tx_reqs\<rparr>))))))))))))))"


section \<open>What the loops take\<close>

definition open_budget :: "budget \<Rightarrow> bool" where
  "open_budget b \<longleftrightarrow> \<not> bg_done b \<and> 0 < bg_items b \<and> 0 \<le> bg_size b"

text \<open>
  The rows \<open>xs\<close> taken from the front of \<open>source\<close>: all of them while the budget is open, and
  otherwise up to the row that spent it.
\<close>

definition cut :: "('r \<Rightarrow> int) \<Rightarrow> 'r list \<Rightarrow> budget \<Rightarrow> 'r list \<Rightarrow> budget \<Rightarrow> bool" where
  "cut w source b xs b' \<longleftrightarrow>
     (\<exists>rest. source = xs @ rest \<and> (bg_done b' \<or> rest = [])) \<and>
     bg_items b' = bg_items b - int (length xs) \<and> bg_size b' = bg_size b - sum_list (map w xs) \<and>
     (if bg_done b' then xs \<noteq> [] \<and> 0 \<le> bg_items b' \<and> 0 \<le> bg_size b' + w (last xs) else open_budget b')"

lemma take_items_cut:
  "take_items w items b = (taken, b') \<Longrightarrow> open_budget b \<Longrightarrow> cut w items b taken b'"
proof (induction items arbitrary: b taken)
  case Nil
  then show ?case by (simp add: cut_def open_budget_def)
next
  case (Cons x items)
  let ?b = "b\<lparr>bg_size := bg_size b - w x, bg_items := bg_items b - 1\<rparr>"
  show ?case
  proof (cases "bg_items ?b \<le> 0 \<or> bg_size ?b < 0")
    case True
    then show ?thesis using Cons.prems by (auto simp: cut_def open_budget_def Let_def)
  next
    case False
    then obtain taken' where t: "take_items w items ?b = (taken', b')" "taken = x # taken'"
      using Cons.prems(1) by (auto simp: Let_def split: prod.splits)
    have "open_budget ?b" using False Cons.prems(2) by (simp add: open_budget_def)
    from Cons.IH [OF t(1) this] show ?thesis
      by (auto simp: cut_def t(2) split: if_splits)
  qed
qed

lemma cut_append:
  "cut w xs b taken b' \<Longrightarrow> bg_done b' \<Longrightarrow> cut w (xs @ ys) b taken b'"
  by (auto simp: cut_def)

lemma cut_chain:
  "cut w xs b taken b' \<Longrightarrow> \<not> bg_done b' \<Longrightarrow> cut w ys b' more' b'' \<Longrightarrow>
     cut w (xs @ ys) b (taken @ more') b''"
  by (auto simp: cut_def split: if_splits)

lemma drop_take_length: "drop (length (take n xs)) xs = drop n xs"
  by (cases "n \<le> length xs") simp_all

text \<open>A query that returns pages of a fixed list.\<close>

locale paged_source =
  fixes fetch :: "int \<Rightarrow> int \<Rightarrow> 'r list wallet_result" and rows :: "'r list"
  assumes fetch_page: "0 < limit \<Longrightarrow> 0 \<le> offset \<Longrightarrow>
    fetch limit offset = Ok (take (nat limit) (drop (nat offset) rows))"
begin

lemma page_loop_cut:
  "open_budget b \<Longrightarrow> 0 < page \<Longrightarrow> 0 \<le> offset \<Longrightarrow>
     \<exists>xs b'. page_loop w page fetch offset b = Ok (Some xs, b') \<and> cut w (drop (nat offset) rows) b xs b'"
proof (induction "nat (bg_items b)" arbitrary: offset b rule: less_induct)
  case less
  let ?limit = "min (bg_items b) page"
  let ?src = "drop (nat offset) rows" and ?items = "take (nat ?limit) (drop (nat offset) rows)"
  have l: "0 < ?limit" using less.prems by (simp add: open_budget_def)
  have f: "fetch ?limit offset = Ok ?items" using fetch_page [OF l less.prems(3)] .
  obtain taken b' where t: "take_items w ?items b = (taken, b')" by fastforce
  note s = take_items_cut [OF t less.prems(1)]
  have src: "?items @ drop (nat ?limit) ?src = ?src" by (rule append_take_drop_id)
  have step: "page_loop w page fetch offset b =
      (if ?items = [] then Ok (Some [], b)
       else if bg_done b' then Ok (Some taken, b')
       else (case page_loop w page fetch (offset + int (length taken)) b' of
           Inl e \<Rightarrow> Err e
         | Inr (rest, b'') \<Rightarrow>
             Ok (Some (taken @ (case rest of None \<Rightarrow> [] | Some xs \<Rightarrow> xs)), b'')))"
    by (simp only: page_loop.simps [of w page fetch offset b] Let_def l [unfolded not_le [symmetric]] f t if_False
        sum.case prod.case)
  show ?case
  proof (cases "?items = []")
    case True
    then have "?src = []" using l by auto
    then have "cut w ?src b [] b" using less.prems(1) by (simp add: cut_def open_budget_def)
    then show ?thesis using True step by auto
  next
    case False
    show ?thesis
    proof (cases "bg_done b'")
      case True
      then show ?thesis
        using False step cut_append [OF s True, of "drop (nat ?limit) ?src", unfolded src] by auto
    next
      case open': False
      then have all: "taken = ?items" and "open_budget b'" using s by (auto simp: cut_def)
      have len: "nat (offset + int (length taken)) = nat offset + length ?items"
        using less.prems(3) all by (simp add: nat_add_distrib)
      have rest: "drop (nat (offset + int (length taken))) rows = drop (nat ?limit) ?src"
        unfolding len drop_take_length [of "nat ?limit" ?src, symmetric]
        by (simp only: drop_drop add.commute)
      have "nat (bg_items b') < nat (bg_items b)"
        using take_items_less [OF t False] less.prems(1) by (simp add: open_budget_def)
      from less.hyps [OF this \<open>open_budget b'\<close> less.prems(2), of "offset + int (length taken)"]
        less.prems(3)
      obtain xs b'' where r: "page_loop w page fetch (offset + int (length taken)) b' = Ok (Some xs, b'')"
        "cut w (drop (nat ?limit) ?src) b' xs b''" unfolding rest [symmetric] by fastforce
      have "cut w ?src b (taken @ xs) b''" using cut_chain [OF s open' r(2)] by (simp only: src)
      then show ?thesis using False step open' r(1) by auto
    qed
  qed
qed

end


definition outcome ::
  "('r \<Rightarrow> int) \<Rightarrow> int \<Rightarrow> 'r list \<Rightarrow> budget \<Rightarrow> 'r list option \<Rightarrow> budget \<Rightarrow> bool" where
  "outcome w offset rows b arr b' \<longleftrightarrow>
     (if \<not> bg_done b \<and> 0 \<le> offset then \<exists>xs. arr = Some xs \<and> cut w (drop (nat offset) rows) b xs b'
      else arr = None \<and> b' = b)"

context paged_source
begin

lemma chunk_entity_outcome:
  "bg_done b \<or> open_budget b \<Longrightarrow>
     \<exists>arr b'. chunk_entity n d w offset fetch b = Ok (arr, b') \<and> outcome w offset rows b arr b'"
  using page_loop_cut [where page = "max (n div d) 10", OF _ less_max_iff_disj [THEN iffD2]]
  by (fastforce simp: chunk_entity_def outcome_def)

lemma chunk_entityD:
  "chunk_entity n d w offset fetch b = Ok (arr, b') \<Longrightarrow> bg_done b \<or> open_budget b \<Longrightarrow>
     outcome w offset rows b arr b'"
  using chunk_entity_outcome [of b n d w offset] by auto

end

lemma outcome_open: "outcome w offset rows b arr b' \<Longrightarrow> bg_done b \<or> open_budget b \<Longrightarrow> bg_done b' \<or> open_budget b'"
  by (auto simp: outcome_def cut_def split: if_splits)

definition weigh :: "('r \<Rightarrow> int) \<Rightarrow> 'r list option \<Rightarrow> int" where
  "weigh w arr = (case arr of None \<Rightarrow> 0 | Some xs \<Rightarrow> sum_list (map w xs))"

lemma outcome_spent:
  assumes "outcome w offset rows b arr b'"
  shows "bg_items b' = bg_items b - entries arr" "bg_size b' = bg_size b - weigh w arr"
  using assms by (auto simp: outcome_def cut_def entries_def weigh_def split: if_splits)

text \<open>A budget is overdrawn by at most one row.\<close>

definition within :: "int \<Rightarrow> budget \<Rightarrow> bool" where
  "within limit b \<longleftrightarrow> 0 \<le> bg_items b \<and> 0 \<le> bg_size b + limit"

lemma outcome_within:
  "outcome w offset rows b arr b' \<Longrightarrow> (\<And>r. w r \<le> limit) \<Longrightarrow> 0 \<le> limit \<Longrightarrow> within limit b \<Longrightarrow> within limit b'"
  unfolding within_def
  by (auto simp: outcome_def cut_def open_budget_def split: if_splits) (metis add_left_mono order_trans)

section \<open>The rows of a window\<close>

text \<open>
  Per entity type, the rows of a user that changed since a time stamp, in the order in which they
  are sent.
\<close>

definition proven_txs_window :: "database \<Rightarrow> int \<Rightarrow> ts option \<Rightarrow> proven_tx list" where
  "proven_txs_window db uid since =
     sort_key pt_proven_tx_id
       (filter (\<lambda>r. (\<exists>t \<in> set (tb_rows (db_transactions db)). tx_proven_tx_id t = Some (pt_proven_tx_id r) \<and> tx_user_id t = uid) \<and>
          where_since since (pt_updated_at r)) (tb_rows (db_proven_txs db)))"

definition output_baskets_window :: "database \<Rightarrow> int \<Rightarrow> ts option \<Rightarrow> output_basket list" where
  "output_baskets_window db uid since =
     sort_key ob_basket_id
       (filter (\<lambda>r. ob_user_id r = uid \<and>
          where_since since (ob_updated_at r)) (tb_rows (db_output_baskets db)))"

definition output_tags_window :: "database \<Rightarrow> int \<Rightarrow> ts option \<Rightarrow> output_tag list" where
  "output_tags_window db uid since =
     sort_key ot_output_tag_id
       (filter (\<lambda>r. ot_user_id r = uid \<and>
          where_since since (ot_updated_at r)) (tb_rows (db_output_tags db)))"

definition tx_labels_window :: "database \<Rightarrow> int \<Rightarrow> ts option \<Rightarrow> tx_label list" where
  "tx_labels_window db uid since =
     sort_key tl_tx_label_id
       (filter (\<lambda>r. tl_user_id r = uid \<and>
          where_since since (tl_updated_at r)) (tb_rows (db_tx_labels db)))"

definition transactions_window :: "database \<Rightarrow> int \<Rightarrow> ts option \<Rightarrow> transaction list" where
  "transactions_window db uid since =
     sort_key tx_transaction_id
       (filter (\<lambda>r. tx_user_id r = uid \<and>
          where_since since (tx_updated_at r)) (tb_rows (db_transactions db)))"

definition outputs_window :: "database \<Rightarrow> int \<Rightarrow> ts option \<Rightarrow> output_row list" where
  "outputs_window db uid since =
     sort_key ou_output_id
       (filter (\<lambda>r. ou_user_id r = uid \<and>
          where_since since (ou_updated_at r)) (tb_rows (db_outputs db)))"

definition tx_label_maps_window :: "database \<Rightarrow> int \<Rightarrow> ts option \<Rightarrow> tx_label_map list" where
  "tx_label_maps_window db uid since =
     sort_key (\<lambda>r. (tm_transaction_id r, tm_tx_label_id r))
       (filter (\<lambda>r. (\<exists>l \<in> set (tb_rows (db_tx_labels db)). tl_tx_label_id l = tm_tx_label_id r \<and> tl_user_id l = uid) \<and>
          where_since since (tm_updated_at r)) (tb_rows (db_tx_label_maps db)))"

definition output_tag_maps_window :: "database \<Rightarrow> int \<Rightarrow> ts option \<Rightarrow> output_tag_map list" where
  "output_tag_maps_window db uid since =
     sort_key (\<lambda>r. (om_output_id r, om_output_tag_id r))
       (filter (\<lambda>r. (\<exists>l \<in> set (tb_rows (db_output_tags db)). ot_output_tag_id l = om_output_tag_id r \<and> ot_user_id l = uid) \<and>
          where_since since (om_updated_at r)) (tb_rows (db_output_tag_maps db)))"

definition certificates_window :: "database \<Rightarrow> int \<Rightarrow> ts option \<Rightarrow> certificate list" where
  "certificates_window db uid since =
     sort_key ce_certificate_id
       (filter (\<lambda>r. ce_user_id r = uid \<and>
          where_since since (ce_updated_at r)) (tb_rows (db_certificates db)))"

definition certificate_fields_window :: "database \<Rightarrow> int \<Rightarrow> ts option \<Rightarrow> certificate_field list" where
  "certificate_fields_window db uid since =
     sort_key (\<lambda>r. (cf_certificate_id r, cf_field_name r))
       (filter (\<lambda>r. cf_user_id r = uid \<and>
          where_since since (cf_updated_at r)) (tb_rows (db_certificate_fields db)))"

definition commissions_window :: "database \<Rightarrow> int \<Rightarrow> ts option \<Rightarrow> commission list" where
  "commissions_window db uid since =
     sort_key co_commission_id
       (filter (\<lambda>r. co_user_id r = uid \<and>
          where_since since (co_updated_at r)) (tb_rows (db_commissions db)))"

definition proven_tx_reqs_window :: "database \<Rightarrow> int \<Rightarrow> ts option \<Rightarrow> proven_tx_req list" where
  "proven_tx_reqs_window db uid since =
     sort_key pr_proven_tx_req_id
       (filter (\<lambda>r. (\<exists>t \<in> set (tb_rows (db_transactions db)). tx_txid t = Some (pr_txid r) \<and> tx_user_id t = uid) \<and>
          where_since since (pr_updated_at r)) (tb_rows (db_proven_tx_reqs db)))"

lemmas window_defs = proven_txs_window_def
  output_baskets_window_def
  output_tags_window_def
  tx_labels_window_def
  transactions_window_def
  outputs_window_def
  tx_label_maps_window_def
  output_tag_maps_window_def
  certificates_window_def
  certificate_fields_window_def
  commissions_window_def
  proven_tx_reqs_window_def

lemma page_take_drop:
  "0 < limit \<Longrightarrow> 0 \<le> offset \<Longrightarrow>
     ordered_page (Some \<lparr>pg_limit = limit, pg_offset = offset\<rparr>) k rows =
       take (nat limit) (drop (nat offset) (sort_key k rows))"
  by (simp add: ordered_page_def page_of_def)

interpretation proven_tx_pages: paged_source "fetch_proven_txs trx db uid since" "proven_txs_window db uid since"
  for trx db uid since
  by unfold_locales (simp add: fetch_proven_txs_def get_proven_txs_for_user_def user_args_def proven_txs_window_def
        page_take_drop list_ex_iff)

interpretation output_basket_pages: paged_source "fetch_output_baskets trx db uid since" "output_baskets_window db uid since"
  for trx db uid since
  by unfold_locales (simp add: fetch_output_baskets_def find_output_baskets_def output_baskets_where_def [abs_def] output_baskets_window_def
        page_take_drop default_defs)

interpretation output_tag_pages: paged_source "fetch_output_tags trx db uid since" "output_tags_window db uid since"
  for trx db uid since
  by unfold_locales (simp add: fetch_output_tags_def find_output_tags_def output_tags_where_def [abs_def] output_tags_window_def
        page_take_drop default_defs)

interpretation tx_label_pages: paged_source "fetch_tx_labels trx db uid since" "tx_labels_window db uid since"
  for trx db uid since
  by unfold_locales (simp add: fetch_tx_labels_def find_tx_labels_def tx_labels_where_def [abs_def] tx_labels_window_def
        page_take_drop default_defs)

interpretation transaction_pages: paged_source "fetch_transactions trx db uid since" "transactions_window db uid since"
  for trx db uid since
  by unfold_locales (simp add: fetch_transactions_def find_transactions_def transactions_where_def [abs_def] transactions_window_def
        page_take_drop default_defs)

interpretation output_pages: paged_source "fetch_outputs trx db uid since" "outputs_window db uid since"
  for trx db uid since
  by unfold_locales (simp add: fetch_outputs_def find_outputs_def outputs_where_def [abs_def] outputs_window_def
        page_take_drop default_defs)

interpretation tx_label_map_pages: paged_source "fetch_tx_label_maps trx db uid since" "tx_label_maps_window db uid since"
  for trx db uid since
  by unfold_locales (simp add: fetch_tx_label_maps_def get_tx_label_maps_for_user_def user_args_def tx_label_maps_window_def
        page_take_drop list_ex_iff)

interpretation output_tag_map_pages: paged_source "fetch_output_tag_maps trx db uid since" "output_tag_maps_window db uid since"
  for trx db uid since
  by unfold_locales (simp add: fetch_output_tag_maps_def get_output_tag_maps_for_user_def user_args_def output_tag_maps_window_def
        page_take_drop list_ex_iff)

interpretation certificate_pages: paged_source "fetch_certificates trx db uid since" "certificates_window db uid since"
  for trx db uid since
  by unfold_locales (simp add: fetch_certificates_def find_certificates_def certificates_where_def [abs_def] certificates_window_def
        page_take_drop default_defs)

interpretation certificate_field_pages: paged_source "fetch_certificate_fields trx db uid since" "certificate_fields_window db uid since"
  for trx db uid since
  by unfold_locales (simp add: fetch_certificate_fields_def find_certificate_fields_def certificate_fields_where_def [abs_def] certificate_fields_window_def
        page_take_drop default_defs)

interpretation commission_pages: paged_source "fetch_commissions trx db uid since" "commissions_window db uid since"
  for trx db uid since
  by unfold_locales (simp add: fetch_commissions_def find_commissions_def commissions_where_def [abs_def] commissions_window_def
        page_take_drop default_defs)

interpretation proven_tx_req_pages: paged_source "fetch_proven_tx_reqs trx db uid since" "proven_tx_reqs_window db uid since"
  for trx db uid since
  by unfold_locales (simp add: fetch_proven_tx_reqs_def get_proven_tx_reqs_for_user_def user_args_def proven_tx_reqs_window_def
        page_take_drop list_ex_iff)

section \<open>A chunk and its window\<close>

definition chunk_outcomes ::
  "row_sizes \<Rightarrow> database \<Rightarrow> int \<Rightarrow> sync_map \<Rightarrow> sync_chunk_offsets \<Rightarrow> sync_chunk \<Rightarrow> (nat \<Rightarrow> budget) \<Rightarrow> bool" where
  "chunk_outcomes sizes db uid m offs c b \<longleftrightarrow>
     outcome (rz_proven_tx sizes) (so_proven_tx offs) (proven_txs_window db uid (em_max_updated_at (sm_proven_tx m)))
       (b 0) (ch_proven_txs c) (b 1) \<and>
     outcome (rz_output_basket sizes) (so_output_basket offs) (output_baskets_window db uid (em_max_updated_at (sm_output_basket m)))
       (b 1) (ch_output_baskets c) (b 2) \<and>
     outcome (rz_output_tag sizes) (so_output_tag offs) (output_tags_window db uid (em_max_updated_at (sm_output_tag m)))
       (b 2) (ch_output_tags c) (b 3) \<and>
     outcome (rz_tx_label sizes) (so_tx_label offs) (tx_labels_window db uid (em_max_updated_at (sm_tx_label m)))
       (b 3) (ch_tx_labels c) (b 4) \<and>
     outcome (rz_transaction sizes) (so_transaction offs) (transactions_window db uid (em_max_updated_at (sm_transaction m)))
       (b 4) (ch_transactions c) (b 5) \<and>
     outcome (rz_output sizes) (so_output offs) (outputs_window db uid (em_max_updated_at (sm_output m)))
       (b 5) (ch_outputs c) (b 6) \<and>
     outcome (rz_tx_label_map sizes) (so_tx_label_map offs) (tx_label_maps_window db uid (em_max_updated_at (sm_tx_label_map m)))
       (b 6) (ch_tx_label_maps c) (b 7) \<and>
     outcome (rz_output_tag_map sizes) (so_output_tag_map offs) (output_tag_maps_window db uid (em_max_updated_at (sm_output_tag_map m)))
       (b 7) (ch_output_tag_maps c) (b 8) \<and>
     outcome (rz_certificate sizes) (so_certificate offs) (certificates_window db uid (em_max_updated_at (sm_certificate m)))
       (b 8) (ch_certificates c) (b 9) \<and>
     outcome (rz_certificate_field sizes) (so_certificate_field offs) (certificate_fields_window db uid (em_max_updated_at (sm_certificate_field m)))
       (b 9) (ch_certificate_fields c) (b 10) \<and>
     outcome (rz_commission sizes) (so_commission offs) (commissions_window db uid (em_max_updated_at (sm_commission m)))
       (b 10) (ch_commissions c) (b 11) \<and>
     outcome (rz_proven_tx_req sizes) (so_proven_tx_req offs) (proven_tx_reqs_window db uid (em_max_updated_at (sm_proven_tx_req m)))
       (b 11) (ch_proven_tx_reqs c) (b 12)"

lemma get_sync_chunk_steps:
  assumes "get_sync_chunk sizes trx args db = Ok c"
    "find_user_by_identity_key (ga_user_identity_key args) db = Ok (Some u)"
    "b0 = \<lparr>bg_items = ga_max_items args, bg_size = ga_max_rough_size args, bg_done = False\<rparr>"
  obtains b1 b2 b3 b4 b5 b6 b7 b8 b9 b10 b11 b12 where
    "chunk_entity (ga_max_items args) 100 (rz_proven_tx sizes) (so_proven_tx (ga_offsets args))
       (fetch_proven_txs trx db (us_user_id u) (em_max_updated_at (sm_proven_tx (ga_sync_map args)))) b0 = Ok (ch_proven_txs c, b1)"
    "chunk_entity (ga_max_items args) 1 (rz_output_basket sizes) (so_output_basket (ga_offsets args))
       (fetch_output_baskets trx db (us_user_id u) (em_max_updated_at (sm_output_basket (ga_sync_map args)))) b1 = Ok (ch_output_baskets c, b2)"
    "chunk_entity (ga_max_items args) 1 (rz_output_tag sizes) (so_output_tag (ga_offsets args))
       (fetch_output_tags trx db (us_user_id u) (em_max_updated_at (sm_output_tag (ga_sync_map args)))) b2 = Ok (ch_output_tags c, b3)"
    "chunk_entity (ga_max_items args) 1 (rz_tx_label sizes) (so_tx_label (ga_offsets args))
       (fetch_tx_labels trx db (us_user_id u) (em_max_updated_at (sm_tx_label (ga_sync_map args)))) b3 = Ok (ch_tx_labels c, b4)"
    "chunk_entity (ga_max_items args) 25 (rz_transaction sizes) (so_transaction (ga_offsets args))
       (fetch_transactions trx db (us_user_id u) (em_max_updated_at (sm_transaction (ga_sync_map args)))) b4 = Ok (ch_transactions c, b5)"
    "chunk_entity (ga_max_items args) 25 (rz_output sizes) (so_output (ga_offsets args))
       (fetch_outputs trx db (us_user_id u) (em_max_updated_at (sm_output (ga_sync_map args)))) b5 = Ok (ch_outputs c, b6)"
    "chunk_entity (ga_max_items args) 1 (rz_tx_label_map sizes) (so_tx_label_map (ga_offsets args))
       (fetch_tx_label_maps trx db (us_user_id u) (em_max_updated_at (sm_tx_label_map (ga_sync_map args)))) b6 = Ok (ch_tx_label_maps c, b7)"
    "chunk_entity (ga_max_items args) 1 (rz_output_tag_map sizes) (so_output_tag_map (ga_offsets args))
       (fetch_output_tag_maps trx db (us_user_id u) (em_max_updated_at (sm_output_tag_map (ga_sync_map args)))) b7 = Ok (ch_output_tag_maps c, b8)"
    "chunk_entity (ga_max_items args) 25 (rz_certificate sizes) (so_certificate (ga_offsets args))
       (fetch_certificates trx db (us_user_id u) (em_max_updated_at (sm_certificate (ga_sync_map args)))) b8 = Ok (ch_certificates c, b9)"
    "chunk_entity (ga_max_items args) 25 (rz_certificate_field sizes) (so_certificate_field (ga_offsets args))
       (fetch_certificate_fields trx db (us_user_id u) (em_max_updated_at (sm_certificate_field (ga_sync_map args)))) b9 = Ok (ch_certificate_fields c, b10)"
    "chunk_entity (ga_max_items args) 25 (rz_commission sizes) (so_commission (ga_offsets args))
       (fetch_commissions trx db (us_user_id u) (em_max_updated_at (sm_commission (ga_sync_map args)))) b10 = Ok (ch_commissions c, b11)"
    "chunk_entity (ga_max_items args) 100 (rz_proven_tx_req sizes) (so_proven_tx_req (ga_offsets args))
       (fetch_proven_tx_reqs trx db (us_user_id u) (em_max_updated_at (sm_proven_tx_req (ga_sync_map args)))) b11 = Ok (ch_proven_tx_reqs c, b12)"
    "ch_user_identity_key c = ga_user_identity_key args" "ch_user c = None \<or> ch_user c = Some u"
  using assms(1) by (auto simp: get_sync_chunk_def assms(2,3) Let_def split: prod.splits)

lemma get_sync_chunkD:
  assumes "get_sync_chunk sizes trx args db = Ok c" "1 \<le> ga_max_items args" "0 \<le> ga_max_rough_size args"
  obtains u b where
    "find_user_by_identity_key (ga_user_identity_key args) db = Ok (Some u)"
    "b 0 = \<lparr>bg_items = ga_max_items args, bg_size = ga_max_rough_size args, bg_done = False\<rparr>"
    "chunk_outcomes sizes db (us_user_id u) (ga_sync_map args) (ga_offsets args) c b"
    "ch_user_identity_key c = ga_user_identity_key args"
    "ch_user c = None \<or> ch_user c = Some u"
proof -
  let ?b0 = "\<lparr>bg_items = ga_max_items args, bg_size = ga_max_rough_size args, bg_done = False\<rparr>"
  have "open_budget ?b0" using assms(2,3) by (simp add: open_budget_def)
  then have b0: "bg_done ?b0 \<or> open_budget ?b0" ..
  obtain u where u: "find_user_by_identity_key (ga_user_identity_key args) db = Ok (Some u)"
    using assms(1) by (auto simp: get_sync_chunk_def split: option.splits)
  show thesis
  proof (rule get_sync_chunk_steps [OF assms(1) u refl], goal_cases)
    case (1 b1 b2 b3 b4 b5 b6 b7 b8 b9 b10 b11 b12)
    note o1 = proven_tx_pages.chunk_entityD [OF 1(1) b0]
    note b1_ok = outcome_open [OF o1 b0]
    note o2 = output_basket_pages.chunk_entityD [OF 1(2) b1_ok]
    note b2_ok = outcome_open [OF o2 b1_ok]
    note o3 = output_tag_pages.chunk_entityD [OF 1(3) b2_ok]
    note b3_ok = outcome_open [OF o3 b2_ok]
    note o4 = tx_label_pages.chunk_entityD [OF 1(4) b3_ok]
    note b4_ok = outcome_open [OF o4 b3_ok]
    note o5 = transaction_pages.chunk_entityD [OF 1(5) b4_ok]
    note b5_ok = outcome_open [OF o5 b4_ok]
    note o6 = output_pages.chunk_entityD [OF 1(6) b5_ok]
    note b6_ok = outcome_open [OF o6 b5_ok]
    note o7 = tx_label_map_pages.chunk_entityD [OF 1(7) b6_ok]
    note b7_ok = outcome_open [OF o7 b6_ok]
    note o8 = output_tag_map_pages.chunk_entityD [OF 1(8) b7_ok]
    note b8_ok = outcome_open [OF o8 b7_ok]
    note o9 = certificate_pages.chunk_entityD [OF 1(9) b8_ok]
    note b9_ok = outcome_open [OF o9 b8_ok]
    note o10 = certificate_field_pages.chunk_entityD [OF 1(10) b9_ok]
    note b10_ok = outcome_open [OF o10 b9_ok]
    note o11 = commission_pages.chunk_entityD [OF 1(11) b10_ok]
    note b11_ok = outcome_open [OF o11 b10_ok]
    note o12 = proven_tx_req_pages.chunk_entityD [OF 1(12) b11_ok]
    note b12_ok = outcome_open [OF o12 b11_ok]
    let ?b = "(!) [?b0, b1, b2, b3, b4, b5, b6, b7, b8, b9, b10, b11, b12]"
    have "chunk_outcomes sizes db (us_user_id u) (ga_sync_map args) (ga_offsets args) c ?b"
      unfolding chunk_outcomes_def
      using o1 o2 o3 o4 o5 o6 o7 o8 o9 o10 o11 o12 by (simp add: eval_nat_numeral)
    from that [OF u _ this 1(13,14)] show thesis by simp
  qed
qed


definition chunk_size :: "row_sizes \<Rightarrow> sync_chunk \<Rightarrow> int" where
  "chunk_size sizes c =
     weigh (rz_proven_tx sizes) (ch_proven_txs c) + weigh (rz_output_basket sizes) (ch_output_baskets c)
     + weigh (rz_output_tag sizes) (ch_output_tags c) + weigh (rz_tx_label sizes) (ch_tx_labels c)
     + weigh (rz_transaction sizes) (ch_transactions c) + weigh (rz_output sizes) (ch_outputs c)
     + weigh (rz_tx_label_map sizes) (ch_tx_label_maps c) + weigh (rz_output_tag_map sizes) (ch_output_tag_maps c)
     + weigh (rz_certificate sizes) (ch_certificates c) + weigh (rz_certificate_field sizes) (ch_certificate_fields c)
     + weigh (rz_commission sizes) (ch_commissions c) + weigh (rz_proven_tx_req sizes) (ch_proven_tx_reqs c)"

definition rows_below :: "int \<Rightarrow> row_sizes \<Rightarrow> bool" where
  "rows_below limit sizes \<longleftrightarrow>
     (\<forall>r. rz_proven_tx sizes r \<le> limit) \<and> (\<forall>r. rz_output_basket sizes r \<le> limit)
     \<and> (\<forall>r. rz_output_tag sizes r \<le> limit) \<and> (\<forall>r. rz_tx_label sizes r \<le> limit)
     \<and> (\<forall>r. rz_transaction sizes r \<le> limit) \<and> (\<forall>r. rz_output sizes r \<le> limit)
     \<and> (\<forall>r. rz_tx_label_map sizes r \<le> limit) \<and> (\<forall>r. rz_output_tag_map sizes r \<le> limit)
     \<and> (\<forall>r. rz_certificate sizes r \<le> limit) \<and> (\<forall>r. rz_certificate_field sizes r \<le> limit)
     \<and> (\<forall>r. rz_commission sizes r \<le> limit) \<and> (\<forall>r. rz_proven_tx_req sizes r \<le> limit)"

lemma chunk_outcomesD:
  assumes "chunk_outcomes sizes db uid m offs c b"
  shows "outcome (rz_proven_tx sizes) (so_proven_tx offs) (proven_txs_window db uid (em_max_updated_at (sm_proven_tx m)))
       (b 0) (ch_proven_txs c) (b 1)"
    "outcome (rz_output_basket sizes) (so_output_basket offs) (output_baskets_window db uid (em_max_updated_at (sm_output_basket m)))
       (b 1) (ch_output_baskets c) (b 2)"
    "outcome (rz_output_tag sizes) (so_output_tag offs) (output_tags_window db uid (em_max_updated_at (sm_output_tag m)))
       (b 2) (ch_output_tags c) (b 3)"
    "outcome (rz_tx_label sizes) (so_tx_label offs) (tx_labels_window db uid (em_max_updated_at (sm_tx_label m)))
       (b 3) (ch_tx_labels c) (b 4)"
    "outcome (rz_transaction sizes) (so_transaction offs) (transactions_window db uid (em_max_updated_at (sm_transaction m)))
       (b 4) (ch_transactions c) (b 5)"
    "outcome (rz_output sizes) (so_output offs) (outputs_window db uid (em_max_updated_at (sm_output m)))
       (b 5) (ch_outputs c) (b 6)"
    "outcome (rz_tx_label_map sizes) (so_tx_label_map offs) (tx_label_maps_window db uid (em_max_updated_at (sm_tx_label_map m)))
       (b 6) (ch_tx_label_maps c) (b 7)"
    "outcome (rz_output_tag_map sizes) (so_output_tag_map offs) (output_tag_maps_window db uid (em_max_updated_at (sm_output_tag_map m)))
       (b 7) (ch_output_tag_maps c) (b 8)"
    "outcome (rz_certificate sizes) (so_certificate offs) (certificates_window db uid (em_max_updated_at (sm_certificate m)))
       (b 8) (ch_certificates c) (b 9)"
    "outcome (rz_certificate_field sizes) (so_certificate_field offs) (certificate_fields_window db uid (em_max_updated_at (sm_certificate_field m)))
       (b 9) (ch_certificate_fields c) (b 10)"
    "outcome (rz_commission sizes) (so_commission offs) (commissions_window db uid (em_max_updated_at (sm_commission m)))
       (b 10) (ch_commissions c) (b 11)"
    "outcome (rz_proven_tx_req sizes) (so_proven_tx_req offs) (proven_tx_reqs_window db uid (em_max_updated_at (sm_proven_tx_req m)))
       (b 11) (ch_proven_tx_reqs c) (b 12)"
  using assms unfolding chunk_outcomes_def by blast+

lemma chunk_outcomes_spent:
  assumes "chunk_outcomes sizes db uid m offs c b"
  shows "bg_items (b 12) = bg_items (b 0) - chunk_items c" "bg_size (b 12) = bg_size (b 0) - chunk_size sizes c"
proof -
  show "bg_items (b 12) = bg_items (b 0) - chunk_items c"
    using assms unfolding chunk_outcomes_def by (auto simp: chunk_items_def dest!: outcome_spent(1))
  show "bg_size (b 12) = bg_size (b 0) - chunk_size sizes c"
    using assms unfolding chunk_outcomes_def by (auto simp: chunk_size_def dest!: outcome_spent(2))
qed

lemma chunk_outcomes_within:
  assumes "chunk_outcomes sizes db uid m offs c b" "rows_below limit sizes" "0 \<le> limit" "within limit (b 0)"
  shows "within limit (b 12)"
proof -
  note r = assms(2) [unfolded rows_below_def] and oc = assms(1) [unfolded chunk_outcomes_def]
  have w1: "within limit (b 1)" by (rule outcome_within [OF _ _ assms(3) assms(4)]) (use oc r in auto)
  have w2: "within limit (b 2)" by (rule outcome_within [OF _ _ assms(3) w1]) (use oc r in auto)
  have w3: "within limit (b 3)" by (rule outcome_within [OF _ _ assms(3) w2]) (use oc r in auto)
  have w4: "within limit (b 4)" by (rule outcome_within [OF _ _ assms(3) w3]) (use oc r in auto)
  have w5: "within limit (b 5)" by (rule outcome_within [OF _ _ assms(3) w4]) (use oc r in auto)
  have w6: "within limit (b 6)" by (rule outcome_within [OF _ _ assms(3) w5]) (use oc r in auto)
  have w7: "within limit (b 7)" by (rule outcome_within [OF _ _ assms(3) w6]) (use oc r in auto)
  have w8: "within limit (b 8)" by (rule outcome_within [OF _ _ assms(3) w7]) (use oc r in auto)
  have w9: "within limit (b 9)" by (rule outcome_within [OF _ _ assms(3) w8]) (use oc r in auto)
  have w10: "within limit (b 10)" by (rule outcome_within [OF _ _ assms(3) w9]) (use oc r in auto)
  have w11: "within limit (b 11)" by (rule outcome_within [OF _ _ assms(3) w10]) (use oc r in auto)
  show ?thesis by (rule outcome_within [OF _ _ assms(3) w11]) (use oc r in auto)
qed

text \<open>
  For every entity type in the order of extraction: whether its array is present, and whether it
  holds everything that was left of the window.
\<close>

definition progress ::
  "database \<Rightarrow> int \<Rightarrow> sync_map \<Rightarrow> sync_chunk_offsets \<Rightarrow> sync_chunk \<Rightarrow> (bool \<times> bool) list" where
  "progress db uid m offs c =
     (let pair = (\<lambda>offset present complete. (present, 0 \<le> offset \<longrightarrow> complete))
      in [pair (so_proven_tx offs) (ch_proven_txs c \<noteq> None)
            (ch_proven_txs c = Some (drop (nat (so_proven_tx offs)) (proven_txs_window db uid (em_max_updated_at (sm_proven_tx m))))),
          pair (so_output_basket offs) (ch_output_baskets c \<noteq> None)
            (ch_output_baskets c = Some (drop (nat (so_output_basket offs)) (output_baskets_window db uid (em_max_updated_at (sm_output_basket m))))),
          pair (so_output_tag offs) (ch_output_tags c \<noteq> None)
            (ch_output_tags c = Some (drop (nat (so_output_tag offs)) (output_tags_window db uid (em_max_updated_at (sm_output_tag m))))),
          pair (so_tx_label offs) (ch_tx_labels c \<noteq> None)
            (ch_tx_labels c = Some (drop (nat (so_tx_label offs)) (tx_labels_window db uid (em_max_updated_at (sm_tx_label m))))),
          pair (so_transaction offs) (ch_transactions c \<noteq> None)
            (ch_transactions c = Some (drop (nat (so_transaction offs)) (transactions_window db uid (em_max_updated_at (sm_transaction m))))),
          pair (so_output offs) (ch_outputs c \<noteq> None)
            (ch_outputs c = Some (drop (nat (so_output offs)) (outputs_window db uid (em_max_updated_at (sm_output m))))),
          pair (so_tx_label_map offs) (ch_tx_label_maps c \<noteq> None)
            (ch_tx_label_maps c = Some (drop (nat (so_tx_label_map offs)) (tx_label_maps_window db uid (em_max_updated_at (sm_tx_label_map m))))),
          pair (so_output_tag_map offs) (ch_output_tag_maps c \<noteq> None)
            (ch_output_tag_maps c = Some (drop (nat (so_output_tag_map offs)) (output_tag_maps_window db uid (em_max_updated_at (sm_output_tag_map m))))),
          pair (so_certificate offs) (ch_certificates c \<noteq> None)
            (ch_certificates c = Some (drop (nat (so_certificate offs)) (certificates_window db uid (em_max_updated_at (sm_certificate m))))),
          pair (so_certificate_field offs) (ch_certificate_fields c \<noteq> None)
            (ch_certificate_fields c = Some (drop (nat (so_certificate_field offs)) (certificate_fields_window db uid (em_max_updated_at (sm_certificate_field m))))),
          pair (so_commission offs) (ch_commissions c \<noteq> None)
            (ch_commissions c = Some (drop (nat (so_commission offs)) (commissions_window db uid (em_max_updated_at (sm_commission m))))),
          pair (so_proven_tx_req offs) (ch_proven_tx_reqs c \<noteq> None)
            (ch_proven_tx_reqs c = Some (drop (nat (so_proven_tx_req offs)) (proven_tx_reqs_window db uid (em_max_updated_at (sm_proven_tx_req m)))))])"

definition parent_first :: "bool \<times> bool \<Rightarrow> bool \<times> bool \<Rightarrow> bool" where
  "parent_first earlier later \<longleftrightarrow> fst later \<longrightarrow> snd earlier"

fun chained :: "bool \<Rightarrow> (bool \<times> bool) list \<Rightarrow> bool" where
  "chained d [] = True"
| "chained d (p # ps) = ((fst p \<longrightarrow> \<not> d) \<and> (\<exists>d'. (d \<longrightarrow> d') \<and> (d' \<or> snd p) \<and> chained d' ps))"

lemma chained_done: "chained d ps \<Longrightarrow> d \<Longrightarrow> p \<in> set ps \<Longrightarrow> \<not> fst p"
  by (induction ps arbitrary: d) auto

lemma chained_sorted: "chained d ps \<Longrightarrow> sorted_wrt parent_first ps"
  by (induction ps arbitrary: d) (auto simp: parent_first_def dest: chained_done)

lemma outcome_chained:
  "outcome w offset rows b arr b' \<Longrightarrow> chained (bg_done b') ps \<Longrightarrow>
     chained (bg_done b) ((arr \<noteq> None, 0 \<le> offset \<longrightarrow> arr = Some (drop (nat offset) rows)) # ps)"
proof -
  assume oc: "outcome w offset rows b arr b'" and ps: "chained (bg_done b') ps"
  have "arr \<noteq> None \<longrightarrow> \<not> bg_done b" "bg_done b \<longrightarrow> bg_done b'"
    "bg_done b' \<or> (0 \<le> offset \<longrightarrow> arr = Some (drop (nat offset) rows))"
    using oc by (auto simp: outcome_def cut_def split: if_splits)
  with ps show ?thesis unfolding chained.simps fst_conv snd_conv by blast
qed

lemma chunk_outcomes_chained:
  assumes "chunk_outcomes sizes db uid m offs c b"
  shows "chained (bg_done (b 0)) (progress db uid m offs c)"
proof -
  note D = chunk_outcomesD [OF assms]
  have "chained (bg_done (b 12)) []" by simp
  note c12 = outcome_chained [OF D(12) this]
  note c11 = outcome_chained [OF D(11) c12]
  note c10 = outcome_chained [OF D(10) c11]
  note c9 = outcome_chained [OF D(9) c10]
  note c8 = outcome_chained [OF D(8) c9]
  note c7 = outcome_chained [OF D(7) c8]
  note c6 = outcome_chained [OF D(6) c7]
  note c5 = outcome_chained [OF D(5) c6]
  note c4 = outcome_chained [OF D(4) c5]
  note c3 = outcome_chained [OF D(3) c4]
  note c2 = outcome_chained [OF D(2) c3]
  note c1 = outcome_chained [OF D(1) c2]
  from c1 show ?thesis unfolding progress_def Let_def .
qed

section \<open>A small extraction\<close>

definition sample_args :: get_sync_chunk_args where
  "sample_args =
     \<lparr>ga_from_storage_identity_key = ''a'', ga_to_storage_identity_key = ''b'',
      ga_user_identity_key = ''u'', ga_sync_map = sync_map_new, ga_max_items = 2,
      ga_max_rough_size = 100,
      ga_offsets = \<lparr>so_proven_tx = 0, so_output_basket = 0, so_output_tag = 0, so_tx_label = 0,
        so_transaction = 0, so_output = 0, so_tx_label_map = 0, so_output_tag_map = 0,
        so_certificate = 0, so_certificate_field = 0, so_commission = 0, so_proven_tx_req = 0\<rparr>\<rparr>"

definition sample_sizes :: row_sizes where
  "sample_sizes = \<lparr>rz_proven_tx = \<lambda>_. 5, rz_output_basket = \<lambda>_. 5, rz_output_tag = \<lambda>_. 5,
     rz_tx_label = \<lambda>_. 5, rz_transaction = \<lambda>_. 5, rz_output = \<lambda>_. 5, rz_tx_label_map = \<lambda>_. 5,
     rz_output_tag_map = \<lambda>_. 5, rz_certificate = \<lambda>_. 5, rz_certificate_field = \<lambda>_. 5,
     rz_commission = \<lambda>_. 5, rz_proven_tx_req = \<lambda>_. 5\<rparr>"

text \<open>A database with one user's transaction, label and label map.\<close>

definition sample_reader :: database where
  "sample_reader = fst (snd (process_sync_chunk 9000000000 False empty_database sample_chunk sync_map_new))"

lemma sample_extract:
  "case get_sync_chunk sample_sizes False sample_args sample_reader of
     Inr c \<Rightarrow> chunk_items c = 2 \<and> ch_outputs c = None | Inl _ \<Rightarrow> False"
  by code_simp

lemma sample_reader_user:
  "case find_user_by_identity_key ''u'' sample_reader of Inr (Some u) \<Rightarrow> us_user_id u = 1 | _ \<Rightarrow> False"
  by code_simp

lemma sample_chunk_out:
  obtains c u where "get_sync_chunk sample_sizes False sample_args sample_reader = Ok c"
    "find_user_by_identity_key ''u'' sample_reader = Ok (Some u)" "us_user_id u = 1"
  using sample_extract sample_reader_user by (auto split: sum.splits option.splits)

lemma sample_args_bounds:
  "ga_max_items sample_args = 2" "ga_max_rough_size sample_args = 100" "ga_user_identity_key sample_args = ''u''"
  by (simp_all add: sample_args_def)

section \<open>Guarantees of extraction\<close>

text \<open>
  C26: A chunk never holds more rows than the requested item budget, and its rough size exceeds the
  requested one by at most one row: with every row's JSON text at most \<open>limit\<close> bytes long, by at
  most \<open>limit\<close>.\<close>

theorem get_sync_chunk_budget:
  assumes "get_sync_chunk sizes trx args db = Ok c" "1 \<le> ga_max_items args" "0 \<le> ga_max_rough_size args"
    "rows_below limit sizes" "0 \<le> limit"
  shows "chunk_items c \<le> ga_max_items args \<and> chunk_size sizes c \<le> ga_max_rough_size args + limit"
proof -
  obtain u b where
    "find_user_by_identity_key (ga_user_identity_key args) db = Ok (Some u)"
    and b: "b 0 = \<lparr>bg_items = ga_max_items args, bg_size = ga_max_rough_size args, bg_done = False\<rparr>"
    and oc: "chunk_outcomes sizes db (us_user_id u) (ga_sync_map args) (ga_offsets args) c b"
    and "ch_user_identity_key c = ga_user_identity_key args" "ch_user c = None \<or> ch_user c = Some u"
    by (rule get_sync_chunkD [OF assms(1-3)])
  have "within limit (b 0)" using assms(2,3,5) by (simp add: within_def b)
  from chunk_outcomes_within [OF oc assms(4,5) this] show ?thesis
    using chunk_outcomes_spent [OF oc] by (simp add: within_def b)
qed

theorem get_sync_chunk_budget_witness:
  "\<exists>c. get_sync_chunk sample_sizes False sample_args sample_reader = Ok c \<and>
     chunk_items c \<le> 2 \<and> chunk_size sample_sizes c \<le> 105"
proof -
  obtain c u where c: "get_sync_chunk sample_sizes False sample_args sample_reader = Ok c"
    "find_user_by_identity_key ''u'' sample_reader = Ok (Some u)" "us_user_id u = 1"
    by (rule sample_chunk_out)
  have "rows_below 5 sample_sizes" by (simp add: rows_below_def sample_sizes_def)
  then show ?thesis using get_sync_chunk_budget [OF c(1), of 5] c(1) by (simp add: sample_args_bounds)
qed

text \<open>
  C25: Entity types are sent in dependency order: when the array of a later type is present at all,
  every earlier type that takes part in the request has sent all that was left of its window, so
  that no row is sent before the rows it may refer to.\<close>

theorem get_sync_chunk_parents_first:
  assumes "get_sync_chunk sizes trx args db = Ok c" "1 \<le> ga_max_items args" "0 \<le> ga_max_rough_size args"
    "find_user_by_identity_key (ga_user_identity_key args) db = Ok (Some u)"
  shows "sorted_wrt parent_first (progress db (us_user_id u) (ga_sync_map args) (ga_offsets args) c)"
proof -
  obtain u' b where "find_user_by_identity_key (ga_user_identity_key args) db = Ok (Some u')"
    and oc: "chunk_outcomes sizes db (us_user_id u') (ga_sync_map args) (ga_offsets args) c b"
    by (rule get_sync_chunkD [OF assms(1-3)]) (blast intro: that)
  then have "u' = u" using assms(4) by simp
  then show ?thesis using chained_sorted [OF chunk_outcomes_chained [OF oc]] by simp
qed

theorem get_sync_chunk_parents_first_witness:
  "\<exists>c. get_sync_chunk sample_sizes False sample_args sample_reader = Ok c \<and>
     sorted_wrt parent_first (progress sample_reader 1 sync_map_new (ga_offsets sample_args) c)"
proof -
  obtain c u where c: "get_sync_chunk sample_sizes False sample_args sample_reader = Ok c"
    "find_user_by_identity_key ''u'' sample_reader = Ok (Some u)" "us_user_id u = 1"
    by (rule sample_chunk_out)
  have "ga_sync_map sample_args = sync_map_new" by (simp add: sample_args_def)
  then show ?thesis
    using get_sync_chunk_parents_first [OF c(1), of u] c by (auto simp: sample_args_bounds)
qed

end
