(* ===== verification/SyncSession.thy ===== *)
theory SyncSession
  imports SyncExtract
begin

text \<open>
  A synchronisation session (\<open>src/storage/manager.rs\<close>, \<open>sync_to_writer\<close> and
  \<open>sync_from_reader\<close>; the provider's \<open>get_sync_chunk\<close> and \<open>process_sync_chunk\<close> in
  \<open>src/storage/traits/wallet_provider.rs\<close>; \<open>src/storage/traits/scope.rs\<close>): rounds of request,
  extraction and merge, with the position of the session kept in the writer's \<open>sync_states\<close> table.
  The JSON text of a sync map in that table is represented by what it denotes: nothing (the texts
  \<open>""\<close> and \<open>"{}"\<close>), a sync map with its time stamps cut to milliseconds as
  \<open>serde_datetime\<close> writes them, or a text that does not parse, with the parser's message. One
  reading of the clock stands for all readings of a round.
\<close>

section \<open>The sync state table\<close>

datatype sync_status = SsSuccess | SsError | SsIdentified | SsUpdated | SsUnknown

datatype sync_map_json = NoMap | MapJson sync_map | BadJson string

record sync_state =
  ys_created_at :: ts
  ys_updated_at :: ts
  ys_sync_state_id :: int
  ys_user_id :: int
  ys_storage_identity_key :: string
  ys_storage_name :: string
  ys_status :: sync_status
  ys_init :: bool
  ys_ref_num :: string
  ys_sync_map :: sync_map_json
  ys_when :: "ts option"
  ys_satoshis :: "int option"
  ys_error_local :: "string option"
  ys_error_other :: "string option"

record storage =
  st_db :: database
  st_sync_states :: "sync_state table"

record sync_state_partial =
  ysp_sync_state_id :: "int option"
  ysp_user_id :: "int option"
  ysp_storage_identity_key :: "string option"
  ysp_storage_name :: "string option"
  ysp_status :: "sync_status option"
  ysp_init :: "bool option"
  ysp_sync_map :: "sync_map_json option"
  ysp_when :: "ts option"
  ysp_updated_at :: "ts option"

definition sync_state_partial_default :: sync_state_partial where
  "sync_state_partial_default =
     \<lparr>ysp_sync_state_id = None, ysp_user_id = None, ysp_storage_identity_key = None,
      ysp_storage_name = None, ysp_status = None, ysp_init = None, ysp_sync_map = None,
      ysp_when = None, ysp_updated_at = None\<rparr>"

record find_sync_states_args =
  ysa_partial :: sync_state_partial
  ysa_since :: "ts option"
  ysa_paged :: "paged option"

definition find_sync_states_default :: find_sync_states_args where
  "find_sync_states_default =
     \<lparr>ysa_partial = sync_state_partial_default, ysa_since = None, ysa_paged = None\<rparr>"

definition sync_states_where :: "find_sync_states_args \<Rightarrow> sync_state \<Rightarrow> bool" where
  "sync_states_where a r \<longleftrightarrow>
     where_eq (ysp_sync_state_id (ysa_partial a)) (ys_sync_state_id r) \<and>
     where_eq (ysp_user_id (ysa_partial a)) (ys_user_id r) \<and>
     where_eq (ysp_storage_identity_key (ysa_partial a)) (ys_storage_identity_key r) \<and>
     where_eq (ysp_storage_name (ysa_partial a)) (ys_storage_name r) \<and>
     where_eq (ysp_status (ysa_partial a)) (ys_status r) \<and>
     where_eq (ysp_init (ysa_partial a)) (ys_init r) \<and>
     where_since (ysa_since a) (ys_updated_at r)"

definition find_sync_states :: "find_sync_states_args \<Rightarrow> storage \<Rightarrow> sync_state list" where
  "find_sync_states a st =
     ordered_page (ysa_paged a) ys_sync_state_id
       (filter (sync_states_where a) (tb_rows (st_sync_states st)))"

definition sync_state_refs :: "database \<Rightarrow> sync_state \<Rightarrow> bool" where
  "sync_state_refs db r \<longleftrightarrow> refers us_user_id (db_users db) (ys_user_id r)"

definition insert_sync_state :: "sync_state \<Rightarrow> storage \<Rightarrow> (storage \<times> int) wallet_result" where
  "insert_sync_state r st =
     bind_result (insert_row ys_sync_state_id_update ys_ref_num (sync_state_refs (st_db st))
         (r\<lparr>ys_created_at := secs (ys_created_at r), ys_updated_at := secs (ys_updated_at r),
            ys_when := map_option secs (ys_when r)\<rparr>) (st_sync_states st))
       (\<lambda>(t, i). Ok (st\<lparr>st_sync_states := t\<rparr>, i))"

definition apply_sync_state :: "ts \<Rightarrow> sync_state_partial \<Rightarrow> sync_state \<Rightarrow> sync_state" where
  "apply_sync_state now p r =
     r\<lparr>ys_user_id := set_col (ysp_user_id p) (ys_user_id r),
       ys_storage_identity_key := set_col (ysp_storage_identity_key p) (ys_storage_identity_key r),
       ys_storage_name := set_col (ysp_storage_name p) (ys_storage_name r),
       ys_status := set_col (ysp_status p) (ys_status r),
       ys_init := set_col (ysp_init p) (ys_init r),
       ys_sync_map := set_col (ysp_sync_map p) (ys_sync_map r),
       ys_when := set_null (map_option millis (ysp_when p)) (ys_when r),
       ys_updated_at := touch now (ysp_updated_at p)\<rparr>"

definition update_sync_state ::
  "ts \<Rightarrow> int \<Rightarrow> sync_state_partial \<Rightarrow> storage \<Rightarrow> (storage \<times> int) wallet_result" where
  "update_sync_state now i p st =
     bind_result (update_rows (\<lambda>r. ys_sync_state_id r = i) (apply_sync_state now p) ys_ref_num
         (sync_state_refs (st_db st)) (st_sync_states st))
       (\<lambda>(t, n). Ok (st\<lparr>st_sync_states := t\<rparr>, n))"

section \<open>The persisted map\<close>

definition trunc_entity :: "entity_sync_map \<Rightarrow> entity_sync_map" where
  "trunc_entity e = e\<lparr>em_max_updated_at := map_option millis (em_max_updated_at e)\<rparr>"

definition trunc_map :: "sync_map \<Rightarrow> sync_map" where
  "trunc_map m =
     \<lparr>sm_proven_tx = trunc_entity (sm_proven_tx m),
      sm_output_basket = trunc_entity (sm_output_basket m),
      sm_transaction = trunc_entity (sm_transaction m),
      sm_output = trunc_entity (sm_output m),
      sm_tx_label = trunc_entity (sm_tx_label m),
      sm_tx_label_map = trunc_entity (sm_tx_label_map m),
      sm_output_tag = trunc_entity (sm_output_tag m),
      sm_output_tag_map = trunc_entity (sm_output_tag_map m),
      sm_certificate = trunc_entity (sm_certificate m),
      sm_certificate_field = trunc_entity (sm_certificate_field m),
      sm_commission = trunc_entity (sm_commission m),
      sm_proven_tx_req = trunc_entity (sm_proven_tx_req m)\<rparr>"

definition render_map :: "sync_map \<Rightarrow> sync_map_json" where
  "render_map m = MapJson (trunc_map m)"

definition parse_map :: "string \<Rightarrow> sync_map_json \<Rightarrow> sync_map wallet_result" where
  "parse_map context j =
     (case j of NoMap \<Rightarrow> Ok sync_map_new | MapJson m \<Rightarrow> Ok m | BadJson e \<Rightarrow> Err (Internal (context @ e)))"

text \<open>\<open>esm.count = 0\<close> for every entity.\<close>

definition reset_counts :: "sync_map \<Rightarrow> sync_map" where
  "reset_counts m =
     \<lparr>sm_proven_tx = (sm_proven_tx m)\<lparr>em_count := 0\<rparr>,
      sm_output_basket = (sm_output_basket m)\<lparr>em_count := 0\<rparr>,
      sm_transaction = (sm_transaction m)\<lparr>em_count := 0\<rparr>,
      sm_output = (sm_output m)\<lparr>em_count := 0\<rparr>,
      sm_tx_label = (sm_tx_label m)\<lparr>em_count := 0\<rparr>,
      sm_tx_label_map = (sm_tx_label_map m)\<lparr>em_count := 0\<rparr>,
      sm_output_tag = (sm_output_tag m)\<lparr>em_count := 0\<rparr>,
      sm_output_tag_map = (sm_output_tag_map m)\<lparr>em_count := 0\<rparr>,
      sm_certificate = (sm_certificate m)\<lparr>em_count := 0\<rparr>,
      sm_certificate_field = (sm_certificate_field m)\<lparr>em_count := 0\<rparr>,
      sm_commission = (sm_commission m)\<lparr>em_count := 0\<rparr>,
      sm_proven_tx_req = (sm_proven_tx_req m)\<lparr>em_count := 0\<rparr>\<rparr>"

definition sync_map_max_updated_at :: "sync_map \<Rightarrow> ts option" where
  "sync_map_max_updated_at m =
     (case List.map_filter em_max_updated_at (entity_maps m) of
        [] \<Rightarrow> None | t # ts \<Rightarrow> Some (fold max ts t))"

section \<open>Requests\<close>

record chunk_offset =
  of_name :: string
  of_offset :: int

record request_sync_chunk_args =
  ra_from_storage_identity_key :: string
  ra_to_storage_identity_key :: string
  ra_identity_key :: string
  ra_since :: "ts option"
  ra_max_rough_size :: int
  ra_max_items :: int
  ra_offsets :: "chunk_offset list"

text \<open>\<open>{:?}\<close> of a string of printable characters.\<close>

definition debug_str :: "string \<Rightarrow> string" where
  "debug_str s =
     [CHR 0x22] @ concat (map (\<lambda>c. if c = CHR 0x22 \<or> c = CHR 0x5C then [CHR 0x5C, c] else [c]) s) @ [CHR 0x22]"

fun validate_offsets :: "chunk_offset list \<Rightarrow> unit wallet_result" where
  "validate_offsets [] = Ok ()"
| "validate_offsets (ofs # rest) =
     (if of_offset ofs < 0 then
        Err (InvalidParameter ''offsets'' (''non-negative; entity '' @ debug_str (of_name ofs) @
          '' has offset '' @ show_int (of_offset ofs)))
      else validate_offsets rest)"

definition validate_request :: "request_sync_chunk_args \<Rightarrow> unit wallet_result" where
  "validate_request args =
     (if ra_max_items args < 1 then Err (InvalidParameter ''maxItems'' ''an integer >= 1'')
      else if ra_max_rough_size args < 1 then Err (InvalidParameter ''maxRoughSize'' ''an integer >= 1'')
      else validate_offsets (ra_offsets args))"

definition ENTITY_ORDER :: "string list" where
  "ENTITY_ORDER =
     [''provenTx'', ''outputBasket'', ''outputTag'', ''txLabel''
     , ''transaction'', ''output'', ''txLabelMap'', ''outputTagMap''
     , ''certificate'', ''certificateField'', ''commission'', ''provenTxReq'']"

definition set_offset :: "nat \<Rightarrow> int \<Rightarrow> sync_chunk_offsets \<Rightarrow> sync_chunk_offsets" where
  "set_offset i v offs =
     (if i = 0 then offs\<lparr>so_proven_tx := v\<rparr>
      else if i = 1 then offs\<lparr>so_output_basket := v\<rparr>
      else if i = 2 then offs\<lparr>so_output_tag := v\<rparr>
      else if i = 3 then offs\<lparr>so_tx_label := v\<rparr>
      else if i = 4 then offs\<lparr>so_transaction := v\<rparr>
      else if i = 5 then offs\<lparr>so_output := v\<rparr>
      else if i = 6 then offs\<lparr>so_tx_label_map := v\<rparr>
      else if i = 7 then offs\<lparr>so_output_tag_map := v\<rparr>
      else if i = 8 then offs\<lparr>so_certificate := v\<rparr>
      else if i = 9 then offs\<lparr>so_certificate_field := v\<rparr>
      else if i = 10 then offs\<lparr>so_commission := v\<rparr>
      else offs\<lparr>so_proven_tx_req := v\<rparr>)"

fun fill_offsets :: "nat \<Rightarrow> chunk_offset list \<Rightarrow> sync_chunk_offsets \<Rightarrow> sync_chunk_offsets wallet_result" where
  "fill_offsets index [] offs = Ok offs"
| "fill_offsets index (ofs # rest) offs =
     (if index \<ge> length ENTITY_ORDER then
        Err (InvalidParameter ''offsets'' ''at most 12 entries in dependency order'')
      else if of_name ofs \<noteq> ENTITY_ORDER ! index then
        Err (InvalidParameter ''offsets'' (''in dependency order; '' @ [CHR 0x27] @
          ENTITY_ORDER ! index @ [CHR 0x27] @ '' expected, found '' @ of_name ofs))
      else fill_offsets (index + 1) rest (set_offset index (of_offset ofs) offs))"

definition since_entity :: "ts option \<Rightarrow> entity_sync_map \<Rightarrow> entity_sync_map" where
  "since_entity since e = (case since of None \<Rightarrow> e | Some t \<Rightarrow> e\<lparr>em_max_updated_at := Some t\<rparr>)"

definition build_sync_map_and_offsets ::
  "request_sync_chunk_args \<Rightarrow> (sync_map \<times> sync_chunk_offsets) wallet_result" where
  "build_sync_map_and_offsets args =
     (let m = sync_map_new;
          m = \<lparr>sm_proven_tx = since_entity (ra_since args) (sm_proven_tx m),
            sm_output_basket = since_entity (ra_since args) (sm_output_basket m),
            sm_transaction = since_entity (ra_since args) (sm_transaction m),
            sm_output = since_entity (ra_since args) (sm_output m),
            sm_tx_label = since_entity (ra_since args) (sm_tx_label m),
            sm_tx_label_map = since_entity (ra_since args) (sm_tx_label_map m),
            sm_output_tag = since_entity (ra_since args) (sm_output_tag m),
            sm_output_tag_map = since_entity (ra_since args) (sm_output_tag_map m),
            sm_certificate = since_entity (ra_since args) (sm_certificate m),
            sm_certificate_field = since_entity (ra_since args) (sm_certificate_field m),
            sm_commission = since_entity (ra_since args) (sm_commission m),
            sm_proven_tx_req = since_entity (ra_since args) (sm_proven_tx_req m)\<rparr>
      in bind_result (fill_offsets 0 (ra_offsets args) stopped_offsets) (\<lambda>offsets. Ok (m, offsets)))"

definition provider_get_sync_chunk ::
  "row_sizes \<Rightarrow> request_sync_chunk_args \<Rightarrow> database \<Rightarrow> sync_chunk wallet_result" where
  "provider_get_sync_chunk sizes args db =
     bind_result (validate_request args) (\<lambda>_.
     bind_result (build_sync_map_and_offsets args) (\<lambda>(m, offsets).
       get_sync_chunk sizes False
         \<lparr>ga_from_storage_identity_key = ra_from_storage_identity_key args,
          ga_to_storage_identity_key = ra_to_storage_identity_key args,
          ga_user_identity_key = ra_identity_key args, ga_sync_map = m,
          ga_max_items = ra_max_items args, ga_max_rough_size = ra_max_rough_size args,
          ga_offsets = offsets\<rparr> db))"

definition make_request_sync_chunk_args ::
  "sync_state \<Rightarrow> string \<Rightarrow> string \<Rightarrow> request_sync_chunk_args wallet_result" where
  "make_request_sync_chunk_args ss identity_key writer_storage_identity_key =
     bind_result (parse_map ''make_request_sync_chunk_args: failed to parse sync_map JSON: ''
         (ys_sync_map ss)) (\<lambda>m.
       Ok \<lparr>ra_from_storage_identity_key = ys_storage_identity_key ss,
           ra_to_storage_identity_key = writer_storage_identity_key,
           ra_identity_key = identity_key, ra_since = ys_when ss,
           ra_max_rough_size = 10000000, ra_max_items = 1000,
           ra_offsets = map (\<lambda>e. \<lparr>of_name = em_entity_name e, of_offset = em_count e\<rparr>)
             [sm_proven_tx m, sm_output_basket m, sm_output_tag m, sm_tx_label m
             , sm_transaction m, sm_output m, sm_tx_label_map m, sm_output_tag_map m
             , sm_certificate m, sm_certificate_field m, sm_commission m, sm_proven_tx_req m]\<rparr>)"

type_synonym request_key = "ts option \<times> (string \<times> int) list"

definition sync_request_key :: "request_sync_chunk_args \<Rightarrow> request_key" where
  "sync_request_key args = (ra_since args, map (\<lambda>ofs. (of_name ofs, of_offset ofs)) (ra_offsets args))"


section \<open>The writer\<close>

text \<open>
  A call on a storage ends with a result or an error and leaves the storage as it was left at that
  point.
\<close>

type_synonym 'a storage_op = "storage \<Rightarrow> 'a wallet_result \<times> storage"

definition bindP :: "'a storage_op \<Rightarrow> ('a \<Rightarrow> 'b storage_op) \<Rightarrow> 'b storage_op" where
  "bindP m f st = (case m st of (Inl e, st') \<Rightarrow> (Err e, st') | (Inr x, st') \<Rightarrow> f x st')"

definition resultP :: "(storage \<Rightarrow> 'a wallet_result) \<Rightarrow> 'a storage_op" where
  "resultP q st = (q st, st)"

definition writeP :: "(storage \<Rightarrow> (storage \<times> 'a) wallet_result) \<Rightarrow> 'a storage_op" where
  "writeP w st = (case w st of Inl e \<Rightarrow> (Err e, st) | Inr (st', x) \<Rightarrow> (Ok x, st'))"

definition find_or_insert_userP :: "ts \<Rightarrow> string \<Rightarrow> (user \<times> bool) storage_op" where
  "find_or_insert_userP now key =
     writeP (\<lambda>st. bind_result (find_or_insert_user now key (st_db st))
       (\<lambda>(db, x). Ok (st\<lparr>st_db := db\<rparr>, x)))"

record auth_id =
  au_identity_key :: string
  au_user_id :: "int option"
  au_is_active :: "bool option"

text \<open>\<open>resolve_user_scope\<close>, with \<open>UserScope\<close> represented by its only field.\<close>

definition resolve_user_scope :: "ts \<Rightarrow> auth_id \<Rightarrow> int storage_op" where
  "resolve_user_scope now auth =
     bindP (find_or_insert_userP now (au_identity_key auth)) (\<lambda>(user, _).
       resultP (\<lambda>_. case au_user_id auth of
           Some claimed \<Rightarrow>
             if claimed \<noteq> 0 \<and> claimed \<noteq> us_user_id user then
               Err (Unauthorized (''auth user_id '' @ show_int claimed @
                 '' does not match identity key owner '' @ show_int (us_user_id user)))
             else Ok (us_user_id user)
         | None \<Rightarrow> Ok (us_user_id user)))"

definition pair_state :: "int \<Rightarrow> string \<Rightarrow> storage \<Rightarrow> sync_state option wallet_result" where
  "pair_state user_id storage_identity_key st =
     verify_one_or_none (find_sync_states (find_sync_states_default\<lparr>ysa_partial :=
       sync_state_partial_default\<lparr>ysp_user_id := Some user_id,
         ysp_storage_identity_key := Some storage_identity_key\<rparr>\<rparr>) st)"

definition find_or_insert_sync_state_auth ::
  "ts \<Rightarrow> string \<Rightarrow> auth_id \<Rightarrow> string \<Rightarrow> string \<Rightarrow> (sync_state \<times> bool) storage_op" where
  "find_or_insert_sync_state_auth now ref_num auth storage_identity_key storage_name =
     bindP (resolve_user_scope now auth) (\<lambda>user_id.
     bindP (resultP (pair_state user_id storage_identity_key)) (\<lambda>existing.
       case existing of
         Some state \<Rightarrow> resultP (\<lambda>_. Ok (state, False))
       | None \<Rightarrow>
         (let new_state = \<lparr>ys_created_at = now, ys_updated_at = now, ys_sync_state_id = 0,
                ys_user_id = user_id, ys_storage_identity_key = storage_identity_key,
                ys_storage_name = storage_name, ys_status = SsUnknown, ys_init = False,
                ys_ref_num = ref_num, ys_sync_map = NoMap, ys_when = None, ys_satoshis = None,
                ys_error_local = None, ys_error_other = None\<rparr>
          in bindP (writeP (insert_sync_state new_state)) (\<lambda>i.
               resultP (\<lambda>_. Ok (new_state\<lparr>ys_sync_state_id := i\<rparr>, True))))))"

definition chunk_is_empty :: "sync_chunk \<Rightarrow> bool" where
  "chunk_is_empty chunk \<longleftrightarrow>
     ch_proven_txs chunk = Some [] \<and> ch_output_baskets chunk = Some [] \<and>
     ch_transactions chunk = Some [] \<and> ch_outputs chunk = Some [] \<and>
     ch_tx_labels chunk = Some [] \<and> ch_tx_label_maps chunk = Some [] \<and>
     ch_output_tags chunk = Some [] \<and> ch_output_tag_maps chunk = Some [] \<and>
     ch_certificates chunk = Some [] \<and> ch_certificate_fields chunk = Some [] \<and>
     ch_commissions chunk = Some [] \<and> ch_proven_tx_reqs chunk = Some []"

text \<open>The merge on a storage; the map is a local variable of the caller.\<close>

definition process_chunkP ::
  "ts \<Rightarrow> sync_chunk \<Rightarrow> sync_map \<Rightarrow> (process_sync_chunk_result \<times> sync_map) storage_op" where
  "process_chunkP now chunk m st =
     (case process_sync_chunk now False (st_db st) chunk m of
        (r, db, m') \<Rightarrow> (bind_result r (\<lambda>r. Ok (r, m')), st\<lparr>st_db := db\<rparr>))"

definition round_watermark :: "sync_chunk \<Rightarrow> sync_map \<Rightarrow> ts option" where
  "round_watermark chunk m =
     (case ch_user chunk of
        None \<Rightarrow> sync_map_max_updated_at m
      | Some u \<Rightarrow> Some (case sync_map_max_updated_at m of
            None \<Rightarrow> us_updated_at u | Some t \<Rightarrow> max t (us_updated_at u)))"

definition provider_process_sync_chunk ::
  "ts \<Rightarrow> request_sync_chunk_args \<Rightarrow> sync_chunk \<Rightarrow> process_sync_chunk_result storage_op" where
  "provider_process_sync_chunk now args chunk =
     (if ch_user_identity_key chunk \<noteq> ra_identity_key args then
        resultP (\<lambda>_. Err (InvalidParameter ''syncChunk.userIdentityKey''
          (''the requested identityKey '' @ ra_identity_key args @ '' (chunk answered for '' @
           ch_user_identity_key chunk @ '')'')))
      else
        bindP (find_or_insert_userP now (ch_user_identity_key chunk)) (\<lambda>(user, _).
        bindP (resultP (pair_state (us_user_id user) (ra_from_storage_identity_key args))) (\<lambda>existing.
        bindP (resultP (\<lambda>_. case existing of
            None \<Rightarrow> Ok sync_map_new
          | Some state \<Rightarrow> parse_map ''failed to parse persisted sync_map: '' (ys_sync_map state))) (\<lambda>m.
        bindP (process_chunkP now chunk m) (\<lambda>(r, m).
          let result = r\<lparr>pr_done := chunk_is_empty chunk, pr_max_updated_at := round_watermark chunk m\<rparr>
          in case existing of
               None \<Rightarrow> resultP (\<lambda>_. Ok result)
             | Some state \<Rightarrow>
                 (let m = (if pr_done result then reset_counts m else m);
                      when_update = (if pr_done result then pr_max_updated_at result else None)
                  in bindP (writeP (update_sync_state now (ys_sync_state_id state)
                       (sync_state_partial_default\<lparr>ysp_sync_map := Some (render_map m),
                          ysp_when := when_update\<rparr>))) (\<lambda>_. resultP (\<lambda>_. Ok result)))))))) "

section \<open>Rounds\<close>

definition override_active :: "string option \<Rightarrow> sync_chunk \<Rightarrow> sync_chunk" where
  "override_active writer_active chunk =
     (case (ch_user chunk, writer_active) of
        (Some u, Some a) \<Rightarrow> chunk\<lparr>ch_user := Some (u\<lparr>us_active_storage := a\<rparr>)\<rparr>
      | _ \<Rightarrow> chunk)"

text \<open>
  What a session needs: the owner, the two storages' names, the reader's database, the row sizes,
  and, for each round, the clock and the random reference of a state row.
\<close>

record session =
  se_identity_key :: string
  se_auth :: auth_id
  se_writer_key :: string
  se_reader_key :: string
  se_reader_name :: string
  se_reader_db :: database
  se_sizes :: row_sizes
  se_now :: "nat \<Rightarrow> ts"
  se_ref_num :: "nat \<Rightarrow> string"
  se_override :: "string option"
  se_prog_log :: "(string \<Rightarrow> string) option"

definition sync_round ::
  "session \<Rightarrow> nat \<Rightarrow> (request_key \<times> process_sync_chunk_result) storage_op" where
  "sync_round se i =
     bindP (find_or_insert_sync_state_auth (se_now se i) (se_ref_num se i) (se_auth se)
         (se_reader_key se) (se_reader_name se)) (\<lambda>(ss, _).
     bindP (resultP (\<lambda>_. make_request_sync_chunk_args ss (se_identity_key se) (se_writer_key se))) (\<lambda>args.
     bindP (resultP (\<lambda>_. provider_get_sync_chunk (se_sizes se) args (se_reader_db se))) (\<lambda>chunk.
     bindP (provider_process_sync_chunk (se_now se i) args (override_active (se_override se) chunk)) (\<lambda>r.
       resultP (\<lambda>_. Ok (sync_request_key args, r))))))"

record loop_vars =
  lv_total_inserts :: int
  lv_total_updates :: int
  lv_log :: string
  lv_no_progress :: nat
  lv_prev_request_key :: "request_key option"

definition MAX_NO_PROGRESS_CHUNKS :: nat where
  "MAX_NO_PROGRESS_CHUNKS = 2"

definition stalled_error :: "string \<Rightarrow> wallet_error" where
  "stalled_error reader_key =
     InvalidOperation (''sync from '' @ [CHR 0x27] @ reader_key @ [CHR 0x27] @ '' stalled: '' @
       show_nat MAX_NO_PROGRESS_CHUNKS @ '' consecutive chunks changed nothing and none reported done. '' @
       ''The peer is most likely an older build whose producer omits empty entity arrays instead of '' @
       ''sending them empty (pre-BRC-40 done-rule); upgrade it, or the sync state for this pair is '' @
       ''inconsistent.'')"

definition log_round :: "session \<Rightarrow> nat \<Rightarrow> process_sync_chunk_result \<Rightarrow> string \<Rightarrow> string" where
  "log_round se i r log =
     (case se_prog_log se of
        None \<Rightarrow> log
      | Some cb \<Rightarrow> log @ cb (''sync chunk '' @ show_nat i @ '' inserts='' @ show_int (pr_inserts r) @
          '' updates='' @ show_int (pr_updates r)) @ [CHR 0x0A])"

text \<open>The bookkeeping after a round: the totals, or the loop variables of the next round.\<close>

definition after_round ::
  "session \<Rightarrow> nat \<Rightarrow> request_key \<Rightarrow> process_sync_chunk_result \<Rightarrow> loop_vars \<Rightarrow>
    (int \<times> int \<times> string) wallet_result + loop_vars" where
  "after_round se i key r v =
     (let request_advanced = (lv_prev_request_key v \<noteq> Some key);
          v = v\<lparr>lv_prev_request_key := Some key,
                lv_total_inserts := lv_total_inserts v + pr_inserts r,
                lv_total_updates := lv_total_updates v + pr_updates r,
                lv_log := log_round se i r (lv_log v)\<rparr>
      in if pr_done r then Inl (Ok (lv_total_inserts v, lv_total_updates v, lv_log v))
         else if pr_inserts r = 0 \<and> pr_updates r = 0 \<and> \<not> request_advanced then
           (if lv_no_progress v + 1 \<ge> MAX_NO_PROGRESS_CHUNKS then Inl (Err (stalled_error (se_reader_key se)))
            else Inr (v\<lparr>lv_no_progress := lv_no_progress v + 1\<rparr>))
         else Inr (v\<lparr>lv_no_progress := 0\<rparr>))"

text \<open>The loop may in principle go on for ever; then it has no value.\<close>

partial_function (option) sync_loop ::
  "session \<Rightarrow> nat \<Rightarrow> loop_vars \<Rightarrow> storage \<Rightarrow> ((int \<times> int \<times> string) wallet_result \<times> storage) option" where
  "sync_loop se i v st =
     (case sync_round se i st of
        (Inl e, st') \<Rightarrow> Some (Err e, st')
      | (Inr (key, r), st') \<Rightarrow>
          (case after_round se i key r v of
             Inl result \<Rightarrow> Some (result, st')
           | Inr v' \<Rightarrow> sync_loop se (i + 1) v' st'))"

declare sync_loop.simps [code]

definition loop_start :: loop_vars where
  "loop_start = \<lparr>lv_total_inserts = 0, lv_total_updates = 0, lv_log = [], lv_no_progress = 0,
     lv_prev_request_key = None\<rparr>"

definition sync_to_writer ::
  "session \<Rightarrow> storage \<Rightarrow> ((int \<times> int \<times> string) wallet_result \<times> storage) option" where
  "sync_to_writer se st = sync_loop (se\<lparr>se_override := None\<rparr>) 0 loop_start st"

definition sync_from_reader ::
  "string \<Rightarrow> session \<Rightarrow> storage \<Rightarrow> ((int \<times> int \<times> string) wallet_result \<times> storage) option" where
  "sync_from_reader reader_identity_key se st =
     (if reader_identity_key \<noteq> se_identity_key se then
        Some (Err (Unauthorized
          ''sync_from_reader: reader identity key does not match manager identity key''), st)
      else sync_loop se 0 loop_start st)"

end
