(* ===== verification/SyncLoop.thy ===== *)
theory SyncLoop
  imports SyncSession
begin

text \<open>
  Correctness of a synchronisation session: it always ends, leaves the writer consistent, and when
  it ends successfully every row of the user's window in the reader has been merged.
\<close>

section \<open>Consistent storages\<close>

text \<open>State rows belong to a user, and their maps point to rows of the database.\<close>

definition state_ok :: "database \<Rightarrow> sync_state \<Rightarrow> bool" where
  "state_ok db r \<longleftrightarrow> sync_state_refs db r \<and>
     (case ys_sync_map r of MapJson m \<Rightarrow> maps_ok db m | _ \<Rightarrow> True)"

definition storage_ok :: "storage \<Rightarrow> bool" where
  "storage_ok st \<longleftrightarrow> db_ok (st_db st) \<and> (\<forall>r \<in> set (tb_rows (st_sync_states st)). state_ok (st_db st) r)"

lemma state_ok_grows: "state_ok db r \<Longrightarrow> db_grows db db' \<Longrightarrow> state_ok db' r"
  by (auto simp: state_ok_def sync_state_refs_def intro: refers_grows maps_ok_grows
      split: sync_map_json.splits)

lemma storage_ok_db:
  "storage_ok st \<Longrightarrow> db_ok db \<Longrightarrow> db_grows (st_db st) db \<Longrightarrow> storage_ok (st\<lparr>st_db := db\<rparr>)"
  by (auto simp: storage_ok_def intro: state_ok_grows)

section \<open>Triples for calls\<close>

definition op_ok ::
  "(storage \<Rightarrow> bool) \<Rightarrow> 'a storage_op \<Rightarrow> (storage \<Rightarrow> 'a \<Rightarrow> storage \<Rightarrow> bool) \<Rightarrow> bool" where
  "op_ok P m Q \<longleftrightarrow>
     (\<forall>st. storage_ok st \<longrightarrow> P st \<longrightarrow>
        storage_ok (snd (m st)) \<and> db_grows (st_db st) (st_db (snd (m st))) \<and>
        (\<forall>x. fst (m st) = Ok x \<longrightarrow> Q st x (snd (m st))))"

lemma op_ok_bind:
  assumes "op_ok P m Q" "\<And>x. op_ok (\<lambda>st'. \<exists>st. storage_ok st \<and> P st \<and> Q st x st') (f x) (R x)"
  shows "op_ok P (bindP m f) (\<lambda>st y st'. \<exists>x st1. storage_ok st1 \<and> db_grows (st_db st) (st_db st1) \<and>
     Q st x st1 \<and> R x st1 y st')"
proof -
  have "storage_ok (snd (bindP m f st)) \<and> db_grows (st_db st) (st_db (snd (bindP m f st))) \<and>
      (\<forall>y. fst (bindP m f st) = Ok y \<longrightarrow> (\<exists>x st1. storage_ok st1 \<and> db_grows (st_db st) (st_db st1) \<and>
         Q st x st1 \<and> R x st1 y (snd (bindP m f st))))" if "storage_ok st" "P st" for st
  proof (cases "fst (m st)")
    case (Inl e)
    then have "bindP m f st = (Inl e, snd (m st))" by (cases "m st") (simp add: bindP_def)
    then show ?thesis using assms(1) that by (simp add: op_ok_def)
  next
    case (Inr x)
    then have b: "bindP m f st = f x (snd (m st))" by (cases "m st") (simp add: bindP_def)
    have s: "storage_ok (snd (m st))" "db_grows (st_db st) (st_db (snd (m st)))" "Q st x (snd (m st))"
      using assms(1) that Inr by (simp_all add: op_ok_def)
    then show ?thesis
      using assms(2) [of x] that unfolding b op_ok_def by (blast intro: db_grows_trans)
  qed
  then show ?thesis by (simp add: op_ok_def)
qed

lemma op_ok_conseq:
  "op_ok P m Q \<Longrightarrow> (\<And>st. storage_ok st \<Longrightarrow> P' st \<Longrightarrow> P st) \<Longrightarrow>
     (\<And>st x st'. storage_ok st \<Longrightarrow> P' st \<Longrightarrow> Q st x st' \<Longrightarrow> Q' st x st') \<Longrightarrow> op_ok P' m Q'"
  by (simp add: op_ok_def)

lemma op_ok_result: "op_ok P (resultP q) (\<lambda>st x st'. st' = st \<and> q st = Ok x)"
  by (simp add: op_ok_def resultP_def)

lemma op_ok_map:
  assumes "op_ok P m Q"
  shows "op_ok P (bindP m (\<lambda>x. resultP (q x))) (\<lambda>st y st'. \<exists>x. Q st x st' \<and> q x st' = Ok y)"
  by (rule op_ok_conseq [OF op_ok_bind [OF assms op_ok_result]]) auto

section \<open>Users and state rows\<close>

definition user_in :: "string \<Rightarrow> int \<Rightarrow> database \<Rightarrow> bool" where
  "user_in k uid db \<longleftrightarrow> (\<exists>u \<in> set (tb_rows (db_users db)). us_identity_key u = k \<and> us_user_id u = uid)"

lemma user_in_grows: "user_in k uid db \<Longrightarrow> db_grows db db' \<Longrightarrow> user_in k uid db'"
  using db_growsD(1) [of db db'] by (fastforce simp: user_in_def rows_persist_def ident_defs)

lemma user_in_unique:
  assumes "db_ok db" "user_in k uid db" "user_in k uid' db"
  shows "uid' = uid"
proof -
  have "inj_on user_key (set (tb_rows (db_users db)))"
    using assms(1) users.tab_ok(1) by (auto simp: rows_ok_def keyed_ok_def distinct_map)
  then show ?thesis using assms(2,3) unfolding user_in_def inj_on_def user_key_def by metis
qed

lemma find_user_in:
  "find_user_by_identity_key k db = Ok (Some u) \<Longrightarrow> user_in k (us_user_id u) db"
  by (auto simp: find_user_by_identity_key_def find_users_by_key user_in_def
      dest!: verify_one_or_none_SomeD)

lemma find_user_none:
  "find_user_by_identity_key k db = Ok None \<Longrightarrow> \<not> user_in k uid db"
  by (auto simp: find_user_by_identity_key_def find_users_by_key user_in_def verify_one_or_none_def
      filter_empty_conv split: if_splits)

text \<open>The user is found, or gets an identifier that nothing refers to.\<close>

lemma find_or_insert_user_cases:
  assumes "find_or_insert_user now k db = Ok (db', u, c)" "db_ok db"
  shows "db_ok db' \<and> db_grows db db' \<and> user_in k (us_user_id u) db' \<and>
    (user_in k (us_user_id u) db \<or> \<not> refers us_user_id (db_users db) (us_user_id u))"
proof -
  let ?new = "\<lparr>us_created_at = now, us_updated_at = TS_1971, us_user_id = 0,
    us_identity_key = k, us_active_storage = []\<rparr>"
  obtain v where v: "find_user_by_identity_key k db = Ok v"
    using assms(1) by (auto simp: find_or_insert_user_def find_user_by_identity_key_def)
  show ?thesis
  proof (cases v)
    case (Some u')
    then have "u = u'" "db' = db" using assms(1) v
      by (simp_all add: find_or_insert_user_def find_user_by_identity_key_def)
    then show ?thesis using assms(2) find_user_in [of k db u'] v Some by simp
  next
    case None
    obtain t i where t: "insert_row us_user_id_update user_key (\<lambda>_. True)
        (?new\<lparr>us_created_at := secs now, us_updated_at := secs TS_1971\<rparr>) (db_users db) = Ok (t, i)"
      and u: "db' = db\<lparr>db_users := t\<rparr>" "us_user_id u = i"
      using assms(1) v None
      by (auto simp: find_or_insert_user_def find_user_by_identity_key_def insert_user_def Let_def)
    note ok = users.insert_put_ok [OF assms(2) t]
    have "user_in k i db'"
      by (simp add: u user_in_def insert_row_OkD(1) [OF t])
    moreover have "\<not> refers us_user_id (db_users db) i"
      using users.insert_fresh [OF t] users.tab_ok(2) [OF assms(2)] .
    ultimately show ?thesis using ok by (simp add: u secs_TS_1971)
  qed
qed


definition user_found :: "string \<Rightarrow> storage \<Rightarrow> int \<Rightarrow> storage \<Rightarrow> bool" where
  "user_found k st uid st' \<longleftrightarrow> st_sync_states st' = st_sync_states st \<and> user_in k uid (st_db st') \<and>
     (user_in k uid (st_db st) \<or> \<not> refers us_user_id (db_users (st_db st)) uid)"

lemma find_or_insert_userP_ok:
  "op_ok P (find_or_insert_userP now k) (\<lambda>st (u, c) st'. user_found k st (us_user_id u) st')"
proof -
  have "storage_ok (snd (find_or_insert_userP now k st)) \<and>
      db_grows (st_db st) (st_db (snd (find_or_insert_userP now k st))) \<and>
      (\<forall>u c. fst (find_or_insert_userP now k st) = Ok (u, c) \<longrightarrow>
         user_found k st (us_user_id u) (snd (find_or_insert_userP now k st)))"
    if st: "storage_ok st" for st
  proof (cases "find_or_insert_user now k (st_db st)")
    case (Inl e)
    then show ?thesis using st by (simp add: find_or_insert_userP_def writeP_def)
  next
    case (Inr x)
    obtain db u c where x: "x = (db, u, c)" by (cases x)
    have "db_ok (st_db st)" using st by (simp add: storage_ok_def)
    from find_or_insert_user_cases [OF Inr [unfolded x] this] show ?thesis
      using st storage_ok_db Inr x by (auto simp: find_or_insert_userP_def writeP_def user_found_def)
  qed
  then show ?thesis by (auto simp: op_ok_def)
qed

lemma resolve_user_scope_ok:
  "op_ok P (resolve_user_scope now auth) (\<lambda>st uid st'. user_found (au_identity_key auth) st uid st')"
  unfolding resolve_user_scope_def case_prod_beta
  by (rule op_ok_conseq [OF op_ok_map [OF find_or_insert_userP_ok]])
    (auto split: option.splits if_splits)

text \<open>The state row of a storage pair, and the position of the session in it.\<close>

definition pair_rows :: "int \<Rightarrow> string \<Rightarrow> storage \<Rightarrow> sync_state list" where
  "pair_rows uid rkey st =
     filter (\<lambda>r. ys_user_id r = uid \<and> ys_storage_identity_key r = rkey) (tb_rows (st_sync_states st))"

lemma pair_state_rows: "pair_state uid rkey st = verify_one_or_none (pair_rows uid rkey st)"
  by (simp add: pair_state_def find_sync_states_def find_sync_states_default_def
      sync_state_partial_default_def sync_states_where_def [abs_def] pair_rows_def)

lemma verify_one_or_none_eq:
  "verify_one_or_none xs = Ok (Some x) \<longleftrightarrow> xs = [x]" "verify_one_or_none xs = Ok None \<longleftrightarrow> xs = []"
  by (cases xs; auto simp: verify_one_or_none_def split: if_splits)+

definition at_pos :: "sync_state \<Rightarrow> ts option \<Rightarrow> sync_map \<Rightarrow> bool" where
  "at_pos ss since m \<longleftrightarrow> ys_when ss = since \<and> parse_map [] (ys_sync_map ss) = Ok m"

lemma parse_map_Ok: "parse_map context j = Ok m \<longleftrightarrow> parse_map [] j = Ok m"
  by (cases j) (simp_all add: parse_map_def)

text \<open>A session of user \<open>uid\<close> with the reader \<open>rkey\<close> stands at a window and a map.\<close>

definition stands_at :: "string \<Rightarrow> string \<Rightarrow> int \<Rightarrow> ts option \<Rightarrow> sync_map \<Rightarrow> storage \<Rightarrow> bool" where
  "stands_at k rkey uid since m st \<longleftrightarrow> user_in k uid (st_db st) \<and>
     (\<exists>ss. pair_rows uid rkey st = [ss] \<and> at_pos ss since m)"

text \<open>Where a session that is started now begins.\<close>

definition session_start :: "string \<Rightarrow> string \<Rightarrow> storage \<Rightarrow> (ts option \<times> sync_map) option" where
  "session_start k rkey st =
     (case find_user_by_identity_key k (st_db st) of
        Inr (Some u) \<Rightarrow>
          (case pair_state (us_user_id u) rkey st of
             Inr (Some ss) \<Rightarrow>
               (case parse_map [] (ys_sync_map ss) of Inr m \<Rightarrow> Some (ys_when ss, m) | Inl _ \<Rightarrow> None)
           | Inr None \<Rightarrow> Some (None, sync_map_new)
           | Inl _ \<Rightarrow> None)
      | Inr None \<Rightarrow> Some (None, sync_map_new)
      | Inl _ \<Rightarrow> None)"

lemma at_pos_unique: "at_pos ss since m \<Longrightarrow> at_pos ss since' m' \<Longrightarrow> since' = since \<and> m' = m"
  by (simp add: at_pos_def)

lemma session_start_rows:
  assumes "storage_ok st" "storage_ok st'" "db_grows (st_db st) (st_db st')" "user_found k st uid st'"
    "session_start k rkey st = Some (since, m)"
  shows "pair_rows uid rkey st' = [] \<Longrightarrow> since = None \<and> m = sync_map_new"
    "pair_rows uid rkey st' = [ss] \<Longrightarrow> at_pos ss since m"
proof -
  have rows: "pair_rows uid rkey st' = pair_rows uid rkey st"
    using assms(4) by (simp add: user_found_def pair_rows_def)
  have known: "pair_rows uid rkey st = [] \<or> refers us_user_id (db_users (st_db st)) uid"
    using assms(1) by (auto simp: pair_rows_def filter_empty_conv storage_ok_def state_ok_def sync_state_refs_def)
  have same: "us_user_id u = uid" if "find_user_by_identity_key k (st_db st) = Ok (Some u)" for u
    using user_in_unique [of "st_db st'" k uid "us_user_id u"] assms(2,4)
      user_in_grows [OF find_user_in [OF that] assms(3)]
    by (simp add: storage_ok_def user_found_def)
  have none: "pair_rows uid rkey st = []" if "find_user_by_identity_key k (st_db st) = Ok None"
    using find_user_none [OF that] known assms(4) by (auto simp: user_found_def)
  show "pair_rows uid rkey st' = [] \<Longrightarrow> since = None \<and> m = sync_map_new"
    using assms(5) same unfolding rows
    by (auto simp: session_start_def pair_state_rows verify_one_or_none_def split: sum.splits option.splits)
  show "pair_rows uid rkey st' = [ss] \<Longrightarrow> at_pos ss since m"
    using assms(5) same none unfolding rows
    by (auto simp: session_start_def pair_state_rows verify_one_or_none_def at_pos_def
        split: sum.splits option.splits)
qed

text \<open>After the lookup, the session stands where a session started now begins.\<close>

definition state_found :: "string \<Rightarrow> string \<Rightarrow> storage \<Rightarrow> sync_state \<Rightarrow> storage \<Rightarrow> bool" where
  "state_found k rkey st ss st' \<longleftrightarrow> ys_storage_identity_key ss = rkey \<and>
     (\<forall>since m. at_pos ss since m \<longrightarrow>
        (\<exists>uid. stands_at k rkey uid since m st') \<and>
        (\<forall>since' m'. session_start k rkey st = Some (since', m') \<longrightarrow> since' = since \<and> m' = m))"

lemma insert_sync_state_ok:
  assumes "pair_rows uid rkey st = []" "storage_ok st" "ys_user_id ss = uid"
    "ys_storage_identity_key ss = rkey" "ys_sync_map ss = NoMap" "ys_when ss = None"
    "insert_sync_state ss st = Ok (st', i)"
  shows "storage_ok st' \<and> st_db st' = st_db st \<and>
    (\<exists>ss'. pair_rows uid rkey st' = [ss'] \<and> at_pos ss' None sync_map_new)"
proof -
  let ?ss = "ss\<lparr>ys_created_at := secs (ys_created_at ss), ys_updated_at := secs (ys_updated_at ss),
    ys_when := map_option secs (ys_when ss)\<rparr>"
  obtain t where t: "insert_row ys_sync_state_id_update ys_ref_num (sync_state_refs (st_db st)) ?ss
      (st_sync_states st) = Ok (t, i)" and st': "st' = st\<lparr>st_sync_states := t\<rparr>"
    using assms(7) by (auto simp: insert_sync_state_def)
  note D = insert_row_OkD [OF t]
  have "state_ok (st_db st) (?ss\<lparr>ys_sync_state_id := i\<rparr>)"
    using D(4) by (simp add: state_ok_def assms(5))
  then show ?thesis
    using assms(1-6) by (auto simp: st' storage_ok_def D(1) pair_rows_def at_pos_def parse_map_def)
qed

lemma state_found_existing:
  assumes "storage_ok st0" "storage_ok st" "db_grows (st_db st0) (st_db st)" "user_found k st0 uid st"
    "pair_rows uid rkey st = [ss]"
  shows "state_found k rkey st0 ss st"
proof -
  have "ys_storage_identity_key ss = rkey"
    using assms(5) by (auto simp: pair_rows_def filter_eq_Cons_iff)
  moreover have "user_in k uid (st_db st)" using assms(4) by (simp add: user_found_def)
  ultimately show ?thesis
    using session_start_rows(2) [OF assms(1-4) _ assms(5)] at_pos_unique assms(5)
    unfolding state_found_def stands_at_def by blast
qed

lemma state_found_new:
  assumes "storage_ok st0" "storage_ok st" "db_grows (st_db st0) (st_db st)" "user_found k st0 uid st"
    "pair_rows uid rkey st = []"
    "insert_sync_state ss st = Ok (st', i)" "ys_user_id ss = uid" "ys_storage_identity_key ss = rkey"
    "ys_sync_map ss = NoMap" "ys_when ss = None"
  shows "state_found k rkey st0 (ss\<lparr>ys_sync_state_id := i\<rparr>) st'"
proof -
  note new = insert_sync_state_ok [OF assms(5,2,7-10,6)]
  have pos: "at_pos (ss\<lparr>ys_sync_state_id := i\<rparr>) since m \<longleftrightarrow> since = None \<and> m = sync_map_new" for since m
    using assms(9,10) by (auto simp: at_pos_def parse_map_def)
  have "stands_at k rkey uid None sync_map_new st'"
    using new assms(4) by (auto simp: stands_at_def user_found_def)
  then show ?thesis
    using session_start_rows(1) [OF assms(1-4) _ assms(5)] assms(8)
    unfolding state_found_def pos by auto
qed

definition new_pair_state :: "ts \<Rightarrow> string \<Rightarrow> int \<Rightarrow> string \<Rightarrow> string \<Rightarrow> sync_state" where
  "new_pair_state now ref_num uid rkey rname =
     \<lparr>ys_created_at = now, ys_updated_at = now, ys_sync_state_id = 0,
      ys_user_id = uid, ys_storage_identity_key = rkey, ys_storage_name = rname,
      ys_status = SsUnknown, ys_init = False, ys_ref_num = ref_num, ys_sync_map = NoMap,
      ys_when = None, ys_satoshis = None, ys_error_local = None, ys_error_other = None\<rparr>"

definition pair_or_new :: "ts \<Rightarrow> string \<Rightarrow> int \<Rightarrow> string \<Rightarrow> string \<Rightarrow> (sync_state \<times> bool) storage_op" where
  "pair_or_new now ref_num uid rkey rname st =
     (case pair_state uid rkey st of
        Inl e \<Rightarrow> (Err e, st)
      | Inr (Some ss) \<Rightarrow> (Ok (ss, False), st)
      | Inr None \<Rightarrow> (case insert_sync_state (new_pair_state now ref_num uid rkey rname) st of
            Inl e \<Rightarrow> (Err e, st)
          | Inr (st', i) \<Rightarrow>
              (Ok ((new_pair_state now ref_num uid rkey rname)\<lparr>ys_sync_state_id := i\<rparr>, True), st')))"

lemma find_or_insert_sync_state_auth_eq:
  "find_or_insert_sync_state_auth now ref_num auth rkey rname =
     bindP (resolve_user_scope now auth) (\<lambda>uid. pair_or_new now ref_num uid rkey rname)"
  by (auto simp: fun_eq_iff find_or_insert_sync_state_auth_def pair_or_new_def new_pair_state_def
      bindP_def resultP_def writeP_def Let_def split: sum.split option.split prod.split)

lemma pair_or_new_ok:
  assumes "storage_ok st0" "storage_ok st" "db_grows (st_db st0) (st_db st)" "user_found k st0 uid st"
    "pair_or_new now ref_num uid rkey rname st = (r, st')"
  shows "storage_ok st' \<and> st_db st' = st_db st \<and> (\<forall>ss c. r = Ok (ss, c) \<longrightarrow> state_found k rkey st0 ss st')"
proof (cases "pair_state uid rkey st")
  case (Inl e)
  then show ?thesis using assms(2,5) by (auto simp: pair_or_new_def)
next
  case (Inr v)
  show ?thesis
  proof (cases v)
    case (Some ss)
    then have "pair_rows uid rkey st = [ss]" using Inr by (simp add: pair_state_rows verify_one_or_none_eq)
    from state_found_existing [OF assms(1-4) this] show ?thesis
      using assms(2,5) Inr Some by (auto simp: pair_or_new_def)
  next
    case None
    then have rows: "pair_rows uid rkey st = []" using Inr by (simp add: pair_state_rows verify_one_or_none_eq)
    show ?thesis
    proof (cases "insert_sync_state (new_pair_state now ref_num uid rkey rname) st")
      case (Inl e)
      then show ?thesis using assms(2,5) Inr None \<open>pair_state uid rkey st = Inr v\<close> by (auto simp: pair_or_new_def)
    next
      case new: (Inr x)
      obtain st2 i where x: "x = (st2, i)" by (cases x)
      have "r = Ok ((new_pair_state now ref_num uid rkey rname)\<lparr>ys_sync_state_id := i\<rparr>, True)" "st' = st2"
        using assms(5) Inr None new x by (simp_all add: pair_or_new_def)
      then show ?thesis
        using insert_sync_state_ok [OF rows assms(2) _ _ _ _ new [unfolded x]]
          state_found_new [OF assms(1-4) rows new [unfolded x]] by (simp add: new_pair_state_def)
    qed
  qed
qed

lemma find_or_insert_sync_state_auth_ok:
  "op_ok P (find_or_insert_sync_state_auth now ref_num auth rkey rname)
     (\<lambda>st (ss, c) st'. state_found (au_identity_key auth) rkey st ss st')"
proof -
  let ?f = "find_or_insert_sync_state_auth now ref_num auth rkey rname"
  have "storage_ok st' \<and> db_grows (st_db st) (st_db st') \<and>
      (\<forall>ss c. r = Ok (ss, c) \<longrightarrow> state_found (au_identity_key auth) rkey st ss st')"
    if st: "storage_ok st" and f: "?f st = (r, st')" for st r st'
  proof -
    obtain ru st1 where u: "resolve_user_scope now auth st = (ru, st1)" by fastforce
    have 1: "storage_ok st1" "db_grows (st_db st) (st_db st1)"
      "ru = Ok uid \<Longrightarrow> user_found (au_identity_key auth) st uid st1" for uid
      using resolve_user_scope_ok [of "\<lambda>_. True" now auth] st u by (auto simp: op_ok_def dest!: spec [of _ st])
    show ?thesis
    proof (cases ru)
      case (Inl e)
      then show ?thesis using f u 1 by (auto simp: find_or_insert_sync_state_auth_eq bindP_def)
    next
      case (Inr uid)
      then have "pair_or_new now ref_num uid rkey rname st1 = (r, st')"
        using f u by (simp add: find_or_insert_sync_state_auth_eq bindP_def)
      from pair_or_new_ok [OF st 1(1,2) 1(3) [OF Inr] this] show ?thesis using 1(2) by simp
    qed
  qed
  then show ?thesis by (auto simp: op_ok_def) (metis prod.collapse)+
qed

section \<open>Merging a chunk into a storage\<close>

lemma maps_ok_new: "maps_ok db sync_map_new"
  by (simp add: maps_ok_def ids_known_def sync_map_new_def entity_sync_map_new_def)

lemma trunc_map_frame:
  "maps_ok db (trunc_map m) = maps_ok db m" "maps_grow m (trunc_map m)"
  "map em_count (entity_maps (trunc_map m)) = map em_count (entity_maps m)"
  "maps_ok db (reset_counts m) = maps_ok db m" "maps_grow m (reset_counts m)"
  by (simp_all add: trunc_map_def reset_counts_def maps_ok_def maps_grow_def ids_known_def
      trunc_entity_def entity_maps_def)

lemma parse_render: "parse_map context (render_map m) = Ok (trunc_map m)"
  by (simp add: parse_map_def render_map_def)

lemma stands_at_maps_ok:
  assumes "storage_ok st" "pair_rows uid rkey st = [ss]" "at_pos ss since m"
  shows "maps_ok (st_db st) m"
proof -
  have "ss \<in> set (tb_rows (st_sync_states st))" using assms(2) by (auto simp: pair_rows_def filter_eq_Cons_iff)
  then show ?thesis
    using assms(1,3) maps_ok_new
    by (auto simp: storage_ok_def state_ok_def at_pos_def parse_map_def split: sync_map_json.splits)
qed

lemma update_sync_state_ok:
  assumes "storage_ok st" "pair_rows uid rkey st = [ss]" "maps_ok (st_db st) m"
    "update_sync_state now (ys_sync_state_id ss) (sync_state_partial_default\<lparr>
       ysp_sync_map := Some (render_map m), ysp_when := w\<rparr>) st = Ok (st', n)"
  shows "storage_ok st' \<and> st_db st' = st_db st \<and>
    (\<exists>ss'. pair_rows uid rkey st' = [ss'] \<and> at_pos ss' (set_null (map_option millis w) (ys_when ss)) (trunc_map m))"
proof -
  let ?p = "sync_state_partial_default\<lparr>ysp_sync_map := Some (render_map m), ysp_when := w\<rparr>"
  let ?g = "apply_sync_state now ?p" and ?sel = "\<lambda>r. ys_sync_state_id r = ys_sync_state_id ss"
  obtain t where t: "update_rows ?sel ?g ys_ref_num (sync_state_refs (st_db st)) (st_sync_states st) = Ok (t, n)"
    and st': "st' = st\<lparr>st_sync_states := t\<rparr>"
    using assms(4) by (auto simp: update_sync_state_def)
  note D = update_rows_OkD [OF t]
  have g: "ys_user_id (?g r) = ys_user_id r" "ys_storage_identity_key (?g r) = ys_storage_identity_key r"
    "ys_sync_map (?g r) = render_map m" "ys_when (?g r) = set_null (map_option millis w) (ys_when r)" for r
    by (simp_all add: apply_sync_state_def sync_state_partial_default_def)
  have rendered: "case render_map m of MapJson x \<Rightarrow> maps_ok (st_db st) x | _ \<Rightarrow> True"
    using assms(3) by (simp add: render_map_def trunc_map_frame)
  have "state_ok (st_db st) (?g r)" if "r \<in> set (tb_rows (st_sync_states st))" "?sel r" for r
    using D(5) [OF that] rendered by (simp add: state_ok_def g)
  then have ok: "storage_ok st'" using assms(1) by (auto simp: storage_ok_def st' D(1))
  have "pair_rows uid rkey st' = map (\<lambda>r. if ?sel r then ?g r else r) (pair_rows uid rkey st)"
    unfolding pair_rows_def st' by (simp add: D(1) filter_map comp_def g if_distrib cong: if_cong)
  then have "pair_rows uid rkey st' = [?g ss]" using assms(2) by simp
  moreover have "at_pos (?g ss) (set_null (map_option millis w) (ys_when ss)) (trunc_map m)"
    by (simp add: at_pos_def g parse_render)
  ultimately show ?thesis using ok st' by auto
qed


text \<open>A merged chunk moves the position by its rows, or closes the round.\<close>

definition moved ::
  "string \<Rightarrow> string \<Rightarrow> int \<Rightarrow> ts option \<Rightarrow> sync_map \<Rightarrow> sync_chunk \<Rightarrow> process_sync_chunk_result \<Rightarrow> storage \<Rightarrow> bool" where
  "moved k rkey uid since m chunk r st \<longleftrightarrow> ch_user_identity_key chunk = k \<and> pr_done r = chunk_is_empty chunk \<and>
     (\<exists>since' m'. stands_at k rkey uid since' m' st \<and> maps_grow m m' \<and>
        chunk_merged uid chunk (start_st (st_db st) m') \<and>
        (\<not> chunk_is_empty chunk \<longrightarrow> since' = since \<and>
           map em_count (entity_maps m') = map2 (+) (map em_count (entity_maps m)) (chunk_counts chunk)))"

lemma chunk_merged_grows:
  "chunk_merged uid c (start_st db m) \<Longrightarrow> db_grows db db' \<Longrightarrow> maps_grow m m' \<Longrightarrow>
     chunk_merged uid c (start_st db' m')"
  using chunk_merged_stable [of uid c] by (auto simp: stable_def sync_grows_def start_st_def)

lemma persist_round:
  assumes "storage_ok st" "user_in k uid (st_db st)" "pair_rows uid rkey st = [ss]" "at_pos ss since m"
    "db_ok db" "maps_ok db m'" "db_grows (st_db st) db" "maps_grow m m'"
    "update_sync_state now (ys_sync_state_id ss) (sync_state_partial_default\<lparr>
       ysp_sync_map := Some (render_map (if d then reset_counts m' else m')), ysp_when := (if d then w else None)\<rparr>)
       (st\<lparr>st_db := db\<rparr>) = Ok (st', n)"
  shows "storage_ok st' \<and> st_db st' = db \<and>
    (\<exists>since' m''. stands_at k rkey uid since' m'' st' \<and> maps_grow m' m'' \<and>
       (\<not> d \<longrightarrow> since' = since \<and> map em_count (entity_maps m'') = map em_count (entity_maps m')))"
proof -
  let ?m = "if d then reset_counts m' else m'"
  have st: "storage_ok (st\<lparr>st_db := db\<rparr>)" by (rule storage_ok_db [OF assms(1,5,7)])
  have rows: "pair_rows uid rkey (st\<lparr>st_db := db\<rparr>) = [ss]" using assms(3) by (simp add: pair_rows_def)
  have "maps_ok (st_db (st\<lparr>st_db := db\<rparr>)) ?m" using assms(6) by (simp add: trunc_map_frame)
  from update_sync_state_ok [OF st rows this assms(9)]
  obtain ss' where *: "storage_ok st'" "st_db st' = db" "pair_rows uid rkey st' = [ss']"
    "at_pos ss' (set_null (map_option millis (if d then w else None)) (ys_when ss)) (trunc_map ?m)" by auto
  have "maps_grow m' (trunc_map ?m)"
    using trunc_map_frame(2) [of ?m] trunc_map_frame(5) [of m'] maps_grow_trans by (cases d) auto
  moreover have "user_in k uid db" by (rule user_in_grows [OF assms(2,7)])
  ultimately show ?thesis using * assms(4)
    by (intro conjI exI [of _ "set_null (map_option millis (if d then w else None)) (ys_when ss)"]
        exI [of _ "trunc_map ?m"]) (auto simp: stands_at_def at_pos_def trunc_map_frame)
qed

text \<open>The call in a state where the session stands: merge, then persist.\<close>

lemma provider_process_eq:
  assumes "ch_user_identity_key chunk = ra_identity_key args"
    "find_or_insert_userP now (ra_identity_key args) st = (Ok (u, c), st1)"
    "pair_rows (us_user_id u) (ra_from_storage_identity_key args) st1 = [ss]" "at_pos ss since m"
    "process_sync_chunk now False (st_db st1) chunk m = (r0, db, m')"
  shows "provider_process_sync_chunk now args chunk st =
    (case r0 of
       Inl e \<Rightarrow> (Err e, st1\<lparr>st_db := db\<rparr>)
     | Inr r \<Rightarrow>
        (let d = chunk_is_empty chunk; w = round_watermark chunk m' in
         case update_sync_state now (ys_sync_state_id ss) (sync_state_partial_default\<lparr>
             ysp_sync_map := Some (render_map (if d then reset_counts m' else m')),
             ysp_when := (if d then w else None)\<rparr>) (st1\<lparr>st_db := db\<rparr>) of
           Inl e \<Rightarrow> (Err e, st1\<lparr>st_db := db\<rparr>)
         | Inr (st2, n) \<Rightarrow> (Ok (r\<lparr>pr_done := d, pr_max_updated_at := w\<rparr>), st2)))"
proof -
  have "pair_state (us_user_id u) (ra_from_storage_identity_key args) st1 = Ok (Some ss)"
    using assms(3) by (simp add: pair_state_rows verify_one_or_none_eq)
  moreover have "parse_map cx (ys_sync_map ss) = Ok m" for cx
    using assms(4) parse_map_Ok by (auto simp: at_pos_def)
  ultimately show ?thesis
    using assms(1,2,5)
    by (cases r0) (simp_all add: provider_process_sync_chunk_def bindP_def resultP_def writeP_def
        process_chunkP_def Let_def split: sum.split prod.split)
qed

text \<open>The user of a session that stands somewhere is found again.\<close>

lemma stands_at_user:
  assumes "storage_ok st" "stands_at k rkey uid since m st"
  shows "(\<exists>e st1. find_or_insert_userP now k st = (Err e, st1) \<and> storage_ok st1 \<and>
      db_grows (st_db st) (st_db st1)) \<or>
    (\<exists>u c st1 ss. find_or_insert_userP now k st = (Ok (u, c), st1) \<and> storage_ok st1 \<and>
      db_grows (st_db st) (st_db st1) \<and> us_user_id u = uid \<and> user_in k uid (st_db st1) \<and>
      pair_rows uid rkey st1 = [ss] \<and> at_pos ss since m)"
proof -
  obtain r st1 where r: "find_or_insert_userP now k st = (r, st1)" by fastforce
  have 1: "storage_ok st1" "db_grows (st_db st) (st_db st1)"
    "r = Ok (u, c) \<Longrightarrow> user_found k st (us_user_id u) st1" for u c
    using find_or_insert_userP_ok [of "\<lambda>_. True" now k] assms(1) r by (auto simp: op_ok_def dest!: spec [of _ st])
  show ?thesis
  proof (cases r)
    case (Inl e)
    then show ?thesis using r 1 by blast
  next
    case (Inr x)
    obtain u c where x: "x = (u, c)" by (cases x)
    note f = 1(3) [OF Inr [unfolded x]]
    have in1: "user_in k uid (st_db st1)" using assms(2) 1(2) user_in_grows by (auto simp: stands_at_def)
    have "us_user_id u = uid"
      using user_in_unique [OF _ in1] f 1(1) by (simp add: user_found_def storage_ok_def)
    moreover obtain ss where "pair_rows uid rkey st = [ss]" "at_pos ss since m"
      using assms(2) by (auto simp: stands_at_def)
    moreover have "pair_rows uid rkey st1 = pair_rows uid rkey st"
      using f by (simp add: user_found_def pair_rows_def)
    ultimately show ?thesis using r Inr x 1 in1 by auto
  qed
qed

lemma persisted_moved:
  assumes "storage_ok st" "user_in k uid (st_db st)" "pair_rows uid rkey st = [ss]" "at_pos ss since m"
    "process_sync_chunk now False (st_db st) chunk m = (Ok y, db, m')" "ch_user_identity_key chunk = k"
    "d = chunk_is_empty chunk"
    "update_sync_state now (ys_sync_state_id ss) (sync_state_partial_default\<lparr>
       ysp_sync_map := Some (render_map (if d then reset_counts m' else m')),
       ysp_when := (if d then w else None)\<rparr>) (st\<lparr>st_db := db\<rparr>) = Ok (st', n)"
  shows "storage_ok st' \<and> st_db st' = db \<and>
    moved k rkey uid since m chunk (y\<lparr>pr_done := d, pr_max_updated_at := w\<rparr>) st'"
proof -
  have db: "db_ok (st_db st)" using assms(1) by (simp add: storage_ok_def)
  note mok = stands_at_maps_ok [OF assms(1,3,4)]
  note keeps = process_keeps [OF db mok assms(5)] and counts = merge_chunk_counts(1) [OF assms(5)]
  obtain uid' where m: "user_in k uid' db" "chunk_merged uid' chunk (start_st db m')"
    using process_merges [OF db mok assms(5)] assms(6) by (auto simp: user_row_def user_in_def start_st_def)
  have "uid' = uid" using user_in_unique [OF _ user_in_grows [OF assms(2)] m(1)] keeps by blast
  note merged = m(2) [unfolded this]
  from persist_round [OF assms(1-4) _ _ _ _ assms(8)] keeps
  obtain since' m'' where 3: "storage_ok st'" "st_db st' = db" "stands_at k rkey uid since' m'' st'"
    "maps_grow m' m''" "\<not> d \<longrightarrow> since' = since \<and> map em_count (entity_maps m'') = map em_count (entity_maps m')"
    by blast
  have "chunk_merged uid chunk (start_st (st_db st') m'')"
    using chunk_merged_grows [OF merged _ 3(4)] 3(2) by simp
  moreover have "maps_grow m m''" using keeps maps_grow_trans 3(4) by blast
  ultimately have "moved k rkey uid since m chunk (y\<lparr>pr_done := d, pr_max_updated_at := w\<rparr>) st'"
    using 3(3,5) counts assms(6,7) unfolding moved_def by auto
  then show ?thesis using 3 by blast
qed

lemma provider_process_found:
  assumes "ra_identity_key args = k" "ra_from_storage_identity_key args = rkey"
    "ch_user_identity_key chunk = k" "find_or_insert_userP now k st = (Ok (u, c), st1)"
    "us_user_id u = uid" "storage_ok st1" "user_in k uid (st_db st1)"
    "pair_rows uid rkey st1 = [ss]" "at_pos ss since m"
    "provider_process_sync_chunk now args chunk st = (r, st')"
  shows "storage_ok st' \<and> db_grows (st_db st1) (st_db st') \<and>
    (\<forall>x. r = Ok x \<longrightarrow> moved k rkey uid since m chunk x st')"
proof -
  obtain r0 db m' where p: "process_sync_chunk now False (st_db st1) chunk m = (r0, db, m')"
    by (cases "process_sync_chunk now False (st_db st1) chunk m")
  have "db_ok (st_db st1)" using assms(6) by (simp add: storage_ok_def)
  note keeps = process_keeps [OF this stands_at_maps_ok [OF assms(6,8,9)] p]
  note eq = provider_process_eq [OF assms(3) [folded assms(1)] assms(4) [folded assms(1)]
      assms(8) [folded assms(5,2)] assms(9) p]
  have st2: "storage_ok (st1\<lparr>st_db := db\<rparr>)" using storage_ok_db [OF assms(6)] keeps by auto
  show ?thesis
  proof (cases r0)
    case (Inl e)
    then show ?thesis using eq assms(10) st2 keeps by auto
  next
    case (Inr y)
    let ?d = "chunk_is_empty chunk"
    show ?thesis
    proof (cases "update_sync_state now (ys_sync_state_id ss) (sync_state_partial_default\<lparr>
           ysp_sync_map := Some (render_map (if ?d then reset_counts m' else m')),
           ysp_when := (if ?d then round_watermark chunk m' else None)\<rparr>) (st1\<lparr>st_db := db\<rparr>)")
      case (Inl e)
      then show ?thesis using eq assms(10) st2 keeps \<open>r0 = Inr y\<close> by (auto simp: Let_def)
    next
      case upd: (Inr z)
      obtain st3 n where z: "z = (st3, n)" by (cases z)
      from persisted_moved [OF assms(6-9) p [unfolded Inr] assms(3) refl upd [unfolded z]]
      show ?thesis using eq assms(10) Inr upd z keeps by (auto simp: Let_def)
    qed
  qed
qed

lemma provider_process_ok:
  assumes "ra_identity_key args = k" "ra_from_storage_identity_key args = rkey" "storage_ok st"
    "stands_at k rkey uid since m st" "provider_process_sync_chunk now args chunk st = (r, st')"
  shows "storage_ok st' \<and> db_grows (st_db st) (st_db st') \<and>
    (\<forall>x. r = Ok x \<longrightarrow> moved k rkey uid since m chunk x st')"
proof (cases "ch_user_identity_key chunk = k")
  case False
  then show ?thesis using assms(1,3,5) by (auto simp: provider_process_sync_chunk_def resultP_def)
next
  case k: True
  from stands_at_user [OF assms(3,4), of now] show ?thesis
  proof (elim disjE exE conjE)
    fix e st1
    assume "find_or_insert_userP now k st = (Err e, st1)" "storage_ok st1" "db_grows (st_db st) (st_db st1)"
    then show ?thesis using assms(1,5) k by (auto simp: provider_process_sync_chunk_def bindP_def)
  next
    fix u c st1 ss
    assume u: "find_or_insert_userP now k st = (Ok (u, c), st1)" "us_user_id u = uid"
      and 1: "storage_ok st1" "user_in k uid (st_db st1)" "pair_rows uid rkey st1 = [ss]" "at_pos ss since m"
      and g: "db_grows (st_db st) (st_db st1)"
    from provider_process_found [OF assms(1,2) k u 1 assms(5)] show ?thesis
      using db_grows_trans [OF g] by blast
  qed
qed

section \<open>The window that is left\<close>

text \<open>The counters of the map are the offsets of the request.\<close>

definition offsets_of :: "sync_map \<Rightarrow> sync_chunk_offsets" where
  "offsets_of m =
     \<lparr>so_proven_tx = em_count (sm_proven_tx m),
      so_output_basket = em_count (sm_output_basket m),
      so_output_tag = em_count (sm_output_tag m),
      so_tx_label = em_count (sm_tx_label m),
      so_transaction = em_count (sm_transaction m),
      so_output = em_count (sm_output m),
      so_tx_label_map = em_count (sm_tx_label_map m),
      so_output_tag_map = em_count (sm_output_tag_map m),
      so_certificate = em_count (sm_certificate m),
      so_certificate_field = em_count (sm_certificate_field m),
      so_commission = em_count (sm_commission m),
      so_proven_tx_req = em_count (sm_proven_tx_req m)\<rparr>"

definition counts_nonneg :: "sync_map \<Rightarrow> bool" where
  "counts_nonneg m \<longleftrightarrow> list_all (\<lambda>e. 0 \<le> em_count e) (entity_maps m)"

definition since_map :: "ts option \<Rightarrow> sync_map" where
  "since_map since =
     \<lparr>sm_proven_tx = since_entity since (sm_proven_tx sync_map_new),
      sm_output_basket = since_entity since (sm_output_basket sync_map_new),
      sm_transaction = since_entity since (sm_transaction sync_map_new),
      sm_output = since_entity since (sm_output sync_map_new),
      sm_tx_label = since_entity since (sm_tx_label sync_map_new),
      sm_tx_label_map = since_entity since (sm_tx_label_map sync_map_new),
      sm_output_tag = since_entity since (sm_output_tag sync_map_new),
      sm_output_tag_map = since_entity since (sm_output_tag_map sync_map_new),
      sm_certificate = since_entity since (sm_certificate sync_map_new),
      sm_certificate_field = since_entity since (sm_certificate_field sync_map_new),
      sm_commission = since_entity since (sm_commission sync_map_new),
      sm_proven_tx_req = since_entity since (sm_proven_tx_req sync_map_new)\<rparr>"

lemma since_map_since:
  "em_max_updated_at (sm_proven_tx (since_map since)) = since"
  "em_max_updated_at (sm_output_basket (since_map since)) = since"
  "em_max_updated_at (sm_output_tag (since_map since)) = since"
  "em_max_updated_at (sm_tx_label (since_map since)) = since"
  "em_max_updated_at (sm_transaction (since_map since)) = since"
  "em_max_updated_at (sm_output (since_map since)) = since"
  "em_max_updated_at (sm_tx_label_map (since_map since)) = since"
  "em_max_updated_at (sm_output_tag_map (since_map since)) = since"
  "em_max_updated_at (sm_certificate (since_map since)) = since"
  "em_max_updated_at (sm_certificate_field (since_map since)) = since"
  "em_max_updated_at (sm_commission (since_map since)) = since"
  "em_max_updated_at (sm_proven_tx_req (since_map since)) = since"
  by (simp_all add: since_map_def since_entity_def sync_map_new_def entity_sync_map_new_def split: option.split)

lemma validate_offsets_Ok: "validate_offsets os = Ok () \<Longrightarrow> o' \<in> set os \<Longrightarrow> 0 \<le> of_offset o'"
  by (induction os) (auto split: if_splits)

lemma request_offsets:
  assumes "make_request_sync_chunk_args ss k wkey = Ok args" "at_pos ss since m"
    "validate_request args = Ok ()" "build_sync_map_and_offsets args = Ok (m', offs)"
  shows "ra_identity_key args = k" "ra_from_storage_identity_key args = ys_storage_identity_key ss"
    "ra_max_items args = 1000" "ra_max_rough_size args = 10000000"
    "m' = since_map since" "offs = offsets_of m" "counts_nonneg m"
proof -
  have "parse_map cx (ys_sync_map ss) = Ok m" "ys_when ss = since" for cx
    using assms(2) parse_map_Ok by (auto simp: at_pos_def)
  then have args: "args = \<lparr>ra_from_storage_identity_key = ys_storage_identity_key ss,
      ra_to_storage_identity_key = wkey, ra_identity_key = k, ra_since = since,
      ra_max_rough_size = 10000000, ra_max_items = 1000,
      ra_offsets = map (\<lambda>e. \<lparr>of_name = em_entity_name e, of_offset = em_count e\<rparr>)
        [sm_proven_tx m, sm_output_basket m, sm_output_tag m, sm_tx_label m, sm_transaction m, sm_output m, sm_tx_label_map m, sm_output_tag_map m, sm_certificate m, sm_certificate_field m, sm_commission m, sm_proven_tx_req m]\<rparr>"
    using assms(1) by (simp add: make_request_sync_chunk_args_def)
  show "ra_identity_key args = k" "ra_from_storage_identity_key args = ys_storage_identity_key ss"
    "ra_max_items args = 1000" "ra_max_rough_size args = 10000000"
    by (simp_all add: args)
  show "m' = since_map since"
    using assms(4) by (simp add: build_sync_map_and_offsets_def since_map_def args Let_def)
  show "offs = offsets_of m"
    using assms(4) by (simp add: build_sync_map_and_offsets_def args ENTITY_ORDER_def set_offset_def
        stopped_offsets_def offsets_of_def split: if_splits)
  show "counts_nonneg m"
    using assms(3) by (auto simp: validate_request_def args counts_nonneg_def entity_maps_def split: if_splits)
qed

lemma provider_get_ok:
  assumes "make_request_sync_chunk_args ss k wkey = Ok args" "at_pos ss since m"
    "provider_get_sync_chunk sizes args rdb = Ok c"
  obtains ru b where "ra_identity_key args = k" "ra_from_storage_identity_key args = ys_storage_identity_key ss"
    "counts_nonneg m" "find_user_by_identity_key k rdb = Ok (Some ru)" "\<not> bg_done (b 0)"
    "chunk_outcomes sizes rdb (us_user_id ru) (since_map since) (offsets_of m) c b"
proof -
  obtain m' offs where v: "validate_request args = Ok ()" and bs: "build_sync_map_and_offsets args = Ok (m', offs)"
    using assms(3) by (auto simp: provider_get_sync_chunk_def)
  note R = request_offsets [OF assms(1,2) v bs]
  let ?ga = "\<lparr>ga_from_storage_identity_key = ra_from_storage_identity_key args,
          ga_to_storage_identity_key = ra_to_storage_identity_key args,
          ga_user_identity_key = k, ga_sync_map = since_map since,
          ga_max_items = 1000, ga_max_rough_size = 10000000, ga_offsets = offsets_of m\<rparr>"
  have g: "get_sync_chunk sizes False ?ga rdb = Ok c"
    using assms(3) v bs R by (simp add: provider_get_sync_chunk_def)
  obtain u b where
    u: "find_user_by_identity_key (ga_user_identity_key ?ga) rdb = Ok (Some u)"
    and b: "b 0 = \<lparr>bg_items = ga_max_items ?ga, bg_size = ga_max_rough_size ?ga, bg_done = False\<rparr>"
    and oc: "chunk_outcomes sizes rdb (us_user_id u) (ga_sync_map ?ga) (ga_offsets ?ga) c b"
    and "ch_user_identity_key c = ga_user_identity_key ?ga" "ch_user c = None \<or> ch_user c = Some u"
    by (rule get_sync_chunkD [OF g]) simp_all
  show thesis by (rule that [of u b]) (use u b oc R in simp_all)
qed

text \<open>
  What is left of a window behind the counters, as one chunk; and a chunk that was cut from it.
\<close>

definition window_rest :: "database \<Rightarrow> int \<Rightarrow> ts option \<Rightarrow> sync_map \<Rightarrow> sync_chunk" where
  "window_rest db uid since m =
     \<lparr>ch_from_storage_identity_key = [], ch_to_storage_identity_key = [], ch_user_identity_key = [],
      ch_user = None,
      ch_proven_txs = Some (drop (nat (em_count (sm_proven_tx m))) (proven_txs_window db uid since)),
      ch_output_baskets = Some (drop (nat (em_count (sm_output_basket m))) (output_baskets_window db uid since)),
      ch_transactions = Some (drop (nat (em_count (sm_transaction m))) (transactions_window db uid since)),
      ch_outputs = Some (drop (nat (em_count (sm_output m))) (outputs_window db uid since)),
      ch_tx_labels = Some (drop (nat (em_count (sm_tx_label m))) (tx_labels_window db uid since)),
      ch_tx_label_maps = Some (drop (nat (em_count (sm_tx_label_map m))) (tx_label_maps_window db uid since)),
      ch_output_tags = Some (drop (nat (em_count (sm_output_tag m))) (output_tags_window db uid since)),
      ch_output_tag_maps = Some (drop (nat (em_count (sm_output_tag_map m))) (output_tag_maps_window db uid since)),
      ch_certificates = Some (drop (nat (em_count (sm_certificate m))) (certificates_window db uid since)),
      ch_certificate_fields = Some (drop (nat (em_count (sm_certificate_field m))) (certificate_fields_window db uid since)),
      ch_commissions = Some (drop (nat (em_count (sm_commission m))) (commissions_window db uid since)),
      ch_proven_tx_reqs = Some (drop (nat (em_count (sm_proven_tx_req m))) (proven_tx_reqs_window db uid since))\<rparr>"

definition rows_of :: "'r list option \<Rightarrow> 'r list" where
  "rows_of v = (case v of None \<Rightarrow> [] | Some xs \<Rightarrow> xs)"

lemma outcome_rest:
  assumes "outcome w n rows b arr b'" "0 \<le> n"
  shows "drop (nat n) rows = rows_of arr @ drop (nat (n + entries arr)) rows"
proof (cases "bg_done b")
  case True
  then show ?thesis using assms(1) by (simp add: outcome_def rows_of_def entries_def)
next
  case False
  then obtain xs rest where x: "arr = Some xs" "drop (nat n) rows = xs @ rest"
    using assms by (auto simp: outcome_def cut_def)
  have "drop (nat (n + int (length xs))) rows = drop (length xs) (drop (nat n) rows)"
    using assms(2) by (simp add: nat_add_distrib add.commute)
  also have "\<dots> = rest" by (simp add: x(2))
  finally show ?thesis by (simp add: x rows_of_def entries_def)
qed

lemma each_split: "each (Some (rows_of v @ rest)) Q s \<longleftrightarrow> each v Q s \<and> each (Some rest) Q s"
  by (auto simp: each_def rows_of_def split: option.splits)

lemma entries_split: "entries (Some (rows_of v @ rest)) = entries v + entries (Some rest)"
  by (simp add: entries_def rows_of_def split: option.split)

definition advanced :: "sync_map \<Rightarrow> sync_map \<Rightarrow> sync_chunk \<Rightarrow> bool" where
  "advanced m m' c \<longleftrightarrow> map em_count (entity_maps m') = map2 (+) (map em_count (entity_maps m)) (chunk_counts c)"

lemma advancedD:
  assumes "advanced m m' c"
  shows "em_count (sm_proven_tx m') = em_count (sm_proven_tx m) + entries (ch_proven_txs c)"
    "em_count (sm_output_basket m') = em_count (sm_output_basket m) + entries (ch_output_baskets c)"
    "em_count (sm_output_tag m') = em_count (sm_output_tag m) + entries (ch_output_tags c)"
    "em_count (sm_tx_label m') = em_count (sm_tx_label m) + entries (ch_tx_labels c)"
    "em_count (sm_transaction m') = em_count (sm_transaction m) + entries (ch_transactions c)"
    "em_count (sm_output m') = em_count (sm_output m) + entries (ch_outputs c)"
    "em_count (sm_tx_label_map m') = em_count (sm_tx_label_map m) + entries (ch_tx_label_maps c)"
    "em_count (sm_output_tag_map m') = em_count (sm_output_tag_map m) + entries (ch_output_tag_maps c)"
    "em_count (sm_certificate m') = em_count (sm_certificate m) + entries (ch_certificates c)"
    "em_count (sm_certificate_field m') = em_count (sm_certificate_field m) + entries (ch_certificate_fields c)"
    "em_count (sm_commission m') = em_count (sm_commission m) + entries (ch_commissions c)"
    "em_count (sm_proven_tx_req m') = em_count (sm_proven_tx_req m) + entries (ch_proven_tx_reqs c)"
  using assms by (simp_all add: advanced_def entity_maps_def chunk_counts_def)

lemma counts_nonnegD:
  assumes "counts_nonneg m"
  shows "0 \<le> em_count (sm_proven_tx m)"
    "0 \<le> em_count (sm_output_basket m)"
    "0 \<le> em_count (sm_output_tag m)"
    "0 \<le> em_count (sm_tx_label m)"
    "0 \<le> em_count (sm_transaction m)"
    "0 \<le> em_count (sm_output m)"
    "0 \<le> em_count (sm_tx_label_map m)"
    "0 \<le> em_count (sm_output_tag_map m)"
    "0 \<le> em_count (sm_certificate m)"
    "0 \<le> em_count (sm_certificate_field m)"
    "0 \<le> em_count (sm_commission m)"
    "0 \<le> em_count (sm_proven_tx_req m)"
  using assms by (simp_all add: counts_nonneg_def entity_maps_def)

lemma window_rest_split:
  assumes "chunk_outcomes sizes db uid (since_map since) (offsets_of m) c b" "counts_nonneg m" "advanced m m' c"
  shows "ch_proven_txs (window_rest db uid since m) = Some (rows_of (ch_proven_txs c) @ drop (nat (em_count (sm_proven_tx m'))) (proven_txs_window db uid since))"
    "ch_output_baskets (window_rest db uid since m) = Some (rows_of (ch_output_baskets c) @ drop (nat (em_count (sm_output_basket m'))) (output_baskets_window db uid since))"
    "ch_output_tags (window_rest db uid since m) = Some (rows_of (ch_output_tags c) @ drop (nat (em_count (sm_output_tag m'))) (output_tags_window db uid since))"
    "ch_tx_labels (window_rest db uid since m) = Some (rows_of (ch_tx_labels c) @ drop (nat (em_count (sm_tx_label m'))) (tx_labels_window db uid since))"
    "ch_transactions (window_rest db uid since m) = Some (rows_of (ch_transactions c) @ drop (nat (em_count (sm_transaction m'))) (transactions_window db uid since))"
    "ch_outputs (window_rest db uid since m) = Some (rows_of (ch_outputs c) @ drop (nat (em_count (sm_output m'))) (outputs_window db uid since))"
    "ch_tx_label_maps (window_rest db uid since m) = Some (rows_of (ch_tx_label_maps c) @ drop (nat (em_count (sm_tx_label_map m'))) (tx_label_maps_window db uid since))"
    "ch_output_tag_maps (window_rest db uid since m) = Some (rows_of (ch_output_tag_maps c) @ drop (nat (em_count (sm_output_tag_map m'))) (output_tag_maps_window db uid since))"
    "ch_certificates (window_rest db uid since m) = Some (rows_of (ch_certificates c) @ drop (nat (em_count (sm_certificate m'))) (certificates_window db uid since))"
    "ch_certificate_fields (window_rest db uid since m) = Some (rows_of (ch_certificate_fields c) @ drop (nat (em_count (sm_certificate_field m'))) (certificate_fields_window db uid since))"
    "ch_commissions (window_rest db uid since m) = Some (rows_of (ch_commissions c) @ drop (nat (em_count (sm_commission m'))) (commissions_window db uid since))"
    "ch_proven_tx_reqs (window_rest db uid since m) = Some (rows_of (ch_proven_tx_reqs c) @ drop (nat (em_count (sm_proven_tx_req m'))) (proven_tx_reqs_window db uid since))"
proof -
  note D = chunk_outcomesD [OF assms(1), unfolded since_map_since] and N = counts_nonnegD [OF assms(2)]
    and A = advancedD [OF assms(3)]
  show "ch_proven_txs (window_rest db uid since m) = Some (rows_of (ch_proven_txs c) @ drop (nat (em_count (sm_proven_tx m'))) (proven_txs_window db uid since))"
    using outcome_rest [OF D(1)] N(1) by (simp add: window_rest_def offsets_of_def A(1))
  show "ch_output_baskets (window_rest db uid since m) = Some (rows_of (ch_output_baskets c) @ drop (nat (em_count (sm_output_basket m'))) (output_baskets_window db uid since))"
    using outcome_rest [OF D(2)] N(2) by (simp add: window_rest_def offsets_of_def A(2))
  show "ch_output_tags (window_rest db uid since m) = Some (rows_of (ch_output_tags c) @ drop (nat (em_count (sm_output_tag m'))) (output_tags_window db uid since))"
    using outcome_rest [OF D(3)] N(3) by (simp add: window_rest_def offsets_of_def A(3))
  show "ch_tx_labels (window_rest db uid since m) = Some (rows_of (ch_tx_labels c) @ drop (nat (em_count (sm_tx_label m'))) (tx_labels_window db uid since))"
    using outcome_rest [OF D(4)] N(4) by (simp add: window_rest_def offsets_of_def A(4))
  show "ch_transactions (window_rest db uid since m) = Some (rows_of (ch_transactions c) @ drop (nat (em_count (sm_transaction m'))) (transactions_window db uid since))"
    using outcome_rest [OF D(5)] N(5) by (simp add: window_rest_def offsets_of_def A(5))
  show "ch_outputs (window_rest db uid since m) = Some (rows_of (ch_outputs c) @ drop (nat (em_count (sm_output m'))) (outputs_window db uid since))"
    using outcome_rest [OF D(6)] N(6) by (simp add: window_rest_def offsets_of_def A(6))
  show "ch_tx_label_maps (window_rest db uid since m) = Some (rows_of (ch_tx_label_maps c) @ drop (nat (em_count (sm_tx_label_map m'))) (tx_label_maps_window db uid since))"
    using outcome_rest [OF D(7)] N(7) by (simp add: window_rest_def offsets_of_def A(7))
  show "ch_output_tag_maps (window_rest db uid since m) = Some (rows_of (ch_output_tag_maps c) @ drop (nat (em_count (sm_output_tag_map m'))) (output_tag_maps_window db uid since))"
    using outcome_rest [OF D(8)] N(8) by (simp add: window_rest_def offsets_of_def A(8))
  show "ch_certificates (window_rest db uid since m) = Some (rows_of (ch_certificates c) @ drop (nat (em_count (sm_certificate m'))) (certificates_window db uid since))"
    using outcome_rest [OF D(9)] N(9) by (simp add: window_rest_def offsets_of_def A(9))
  show "ch_certificate_fields (window_rest db uid since m) = Some (rows_of (ch_certificate_fields c) @ drop (nat (em_count (sm_certificate_field m'))) (certificate_fields_window db uid since))"
    using outcome_rest [OF D(10)] N(10) by (simp add: window_rest_def offsets_of_def A(10))
  show "ch_commissions (window_rest db uid since m) = Some (rows_of (ch_commissions c) @ drop (nat (em_count (sm_commission m'))) (commissions_window db uid since))"
    using outcome_rest [OF D(11)] N(11) by (simp add: window_rest_def offsets_of_def A(11))
  show "ch_proven_tx_reqs (window_rest db uid since m) = Some (rows_of (ch_proven_tx_reqs c) @ drop (nat (em_count (sm_proven_tx_req m'))) (proven_tx_reqs_window db uid since))"
    using outcome_rest [OF D(12)] N(12) by (simp add: window_rest_def offsets_of_def A(12))
qed

lemma window_rest_new:
  "ch_proven_txs (window_rest db uid since m) = Some (drop (nat (em_count (sm_proven_tx m))) (proven_txs_window db uid since))"
  "ch_output_baskets (window_rest db uid since m) = Some (drop (nat (em_count (sm_output_basket m))) (output_baskets_window db uid since))"
  "ch_output_tags (window_rest db uid since m) = Some (drop (nat (em_count (sm_output_tag m))) (output_tags_window db uid since))"
  "ch_tx_labels (window_rest db uid since m) = Some (drop (nat (em_count (sm_tx_label m))) (tx_labels_window db uid since))"
  "ch_transactions (window_rest db uid since m) = Some (drop (nat (em_count (sm_transaction m))) (transactions_window db uid since))"
  "ch_outputs (window_rest db uid since m) = Some (drop (nat (em_count (sm_output m))) (outputs_window db uid since))"
  "ch_tx_label_maps (window_rest db uid since m) = Some (drop (nat (em_count (sm_tx_label_map m))) (tx_label_maps_window db uid since))"
  "ch_output_tag_maps (window_rest db uid since m) = Some (drop (nat (em_count (sm_output_tag_map m))) (output_tag_maps_window db uid since))"
  "ch_certificates (window_rest db uid since m) = Some (drop (nat (em_count (sm_certificate m))) (certificates_window db uid since))"
  "ch_certificate_fields (window_rest db uid since m) = Some (drop (nat (em_count (sm_certificate_field m))) (certificate_fields_window db uid since))"
  "ch_commissions (window_rest db uid since m) = Some (drop (nat (em_count (sm_commission m))) (commissions_window db uid since))"
  "ch_proven_tx_reqs (window_rest db uid since m) = Some (drop (nat (em_count (sm_proven_tx_req m))) (proven_tx_reqs_window db uid since))"
  by (simp_all add: window_rest_def)

lemma window_rest_merged:
  assumes "chunk_outcomes sizes db uid (since_map since) (offsets_of m) c b" "counts_nonneg m" "advanced m m' c"
    "chunk_merged wuid c s" "chunk_merged wuid (window_rest db uid since m') s"
  shows "chunk_merged wuid (window_rest db uid since m) s"
  using assms(4,5)
  unfolding chunk_merged_def window_rest_split [OF assms(1-3)] each_split window_rest_new [of db uid since m']
  by blast

lemma window_rest_items:
  assumes "chunk_outcomes sizes db uid (since_map since) (offsets_of m) c b" "counts_nonneg m" "advanced m m' c"
  shows "chunk_items (window_rest db uid since m) = chunk_items c + chunk_items (window_rest db uid since m')"
  unfolding chunk_items_def window_rest_split [OF assms] entries_split window_rest_new [of db uid since m']
  by simp


lemma outcome_nil:
  assumes "outcome w n rows b arr b'" "\<not> bg_done b" "0 \<le> n" "entries arr = 0"
  shows "arr = Some []" "\<not> bg_done b'" "drop (nat n) rows = []"
  using assms by (auto simp: outcome_def cut_def entries_def)

lemma entries_nonneg: "0 \<le> entries v"
  by (simp add: entries_def split: option.split)

lemma chunk_items_zero:
  assumes "chunk_items c = 0"
  shows "entries (ch_proven_txs c) = 0" "entries (ch_output_baskets c) = 0" "entries (ch_output_tags c) = 0" "entries (ch_tx_labels c) = 0" "entries (ch_transactions c) = 0" "entries (ch_outputs c) = 0" "entries (ch_tx_label_maps c) = 0" "entries (ch_output_tag_maps c) = 0" "entries (ch_certificates c) = 0" "entries (ch_certificate_fields c) = 0" "entries (ch_commissions c) = 0" "entries (ch_proven_tx_reqs c) = 0"
  using assms entries_nonneg [of "ch_proven_txs c"] entries_nonneg [of "ch_output_baskets c"] entries_nonneg [of "ch_output_tags c"] entries_nonneg [of "ch_tx_labels c"] entries_nonneg [of "ch_transactions c"] entries_nonneg [of "ch_outputs c"] entries_nonneg [of "ch_tx_label_maps c"] entries_nonneg [of "ch_output_tag_maps c"] entries_nonneg [of "ch_certificates c"] entries_nonneg [of "ch_certificate_fields c"] entries_nonneg [of "ch_commissions c"] entries_nonneg [of "ch_proven_tx_reqs c"]
  unfolding chunk_items_def by linarith+

text \<open>A chunk without rows ends the round, and then nothing is left of the window.\<close>

lemma chunk_without_rows:
  assumes "chunk_outcomes sizes db uid (since_map since) (offsets_of m) c b" "counts_nonneg m"
    "\<not> bg_done (b 0)" "chunk_items c = 0"
  shows "chunk_is_empty c" "chunk_merged wuid (window_rest db uid since m) s"
proof -
  note D = chunk_outcomesD [OF assms(1), unfolded since_map_since offsets_of_def sync_chunk_offsets.simps]
    and N = counts_nonnegD [OF assms(2)] and Z = chunk_items_zero [OF assms(4)]
  note n1 = outcome_nil [OF D(1) assms(3) N(1) Z(1)]
  note n2 = outcome_nil [OF D(2) n1(2) N(2) Z(2)]
  note n3 = outcome_nil [OF D(3) n2(2) N(3) Z(3)]
  note n4 = outcome_nil [OF D(4) n3(2) N(4) Z(4)]
  note n5 = outcome_nil [OF D(5) n4(2) N(5) Z(5)]
  note n6 = outcome_nil [OF D(6) n5(2) N(6) Z(6)]
  note n7 = outcome_nil [OF D(7) n6(2) N(7) Z(7)]
  note n8 = outcome_nil [OF D(8) n7(2) N(8) Z(8)]
  note n9 = outcome_nil [OF D(9) n8(2) N(9) Z(9)]
  note n10 = outcome_nil [OF D(10) n9(2) N(10) Z(10)]
  note n11 = outcome_nil [OF D(11) n10(2) N(11) Z(11)]
  note n12 = outcome_nil [OF D(12) n11(2) N(12) Z(12)]
  note nil = n1 n2 n3 n4 n5 n6 n7 n8 n9 n10 n11 n12
  show "chunk_is_empty c" by (simp add: chunk_is_empty_def nil)
  show "chunk_merged wuid (window_rest db uid since m) s"
    by (simp add: chunk_merged_def window_rest_new nil each_def)
qed

lemma chunk_is_empty_items: "chunk_is_empty c \<Longrightarrow> chunk_items c = 0"
  by (simp add: chunk_is_empty_def chunk_items_def entries_def)

lemma override_frame:
  "chunk_outcomes sizes db uid m offs (override_active a c) b = chunk_outcomes sizes db uid m offs c b"
  "chunk_items (override_active a c) = chunk_items c"
  by (simp_all add: override_active_def chunk_outcomes_def chunk_items_def split: option.split)

section \<open>Rounds\<close>

lemma stands_at_start:
  assumes "storage_ok st" "stands_at k rkey uid since m st"
    "find_user_by_identity_key k (st_db st) = Ok (Some u)"
  shows "session_start k rkey st = Some (since, m)"
proof -
  have "us_user_id u = uid"
    using user_in_unique [OF _ _ find_user_in [OF assms(3)]] assms(1,2) by (auto simp: storage_ok_def stands_at_def)
  then show ?thesis
    using assms(2,3) by (auto simp: session_start_def stands_at_def pair_state_rows verify_one_or_none_def at_pos_def)
qed

lemma filter_single: "distinct (map f xs) \<Longrightarrow> x \<in> set xs \<Longrightarrow> filter (\<lambda>y. f y = f x) xs = [x]"
proof (induction xs)
  case (Cons a xs)
  show ?case
  proof (cases "a = x")
    case True
    then show ?thesis using Cons.prems by (auto simp: filter_empty_conv image_iff)
  next
    case False
    then have "x \<in> set xs" using Cons.prems by simp
    moreover from this have "f a \<noteq> f x" using Cons.prems(1) by (auto simp: image_iff)
    ultimately show ?thesis using Cons by simp
  qed
qed simp

lemma user_in_found:
  assumes "db_ok db" "user_in k uid db"
  shows "\<exists>u. find_user_by_identity_key k db = Ok (Some u)"
proof -
  have d: "distinct (map us_identity_key (tb_rows (db_users db)))"
    using users.tab_ok(1) [OF assms(1)] by (simp add: rows_ok_def keyed_ok_def user_key_def [abs_def])
  obtain u where u: "u \<in> set (tb_rows (db_users db))" "us_identity_key u = k"
    using assms(2) by (auto simp: user_in_def)
  have "filter (\<lambda>u. us_identity_key u = k) (tb_rows (db_users db)) = [u]"
    using filter_single [OF d u(1)] u(2) by simp
  then show ?thesis
    by (simp add: find_user_by_identity_key_def find_users_by_key verify_one_or_none_def)
qed

text \<open>
  What a successful round achieves: the window was empty, or the session has moved on in the same
  window and once the rest of it is merged, all of it is.
\<close>

definition round_done ::
  "session \<Rightarrow> int \<Rightarrow> ts option \<Rightarrow> sync_map \<Rightarrow> bool \<Rightarrow> storage \<Rightarrow> bool" where
  "round_done se uid since m d st \<longleftrightarrow>
     (\<exists>ru since' m'. find_user_by_identity_key (se_identity_key se) (se_reader_db se) = Ok (Some ru) \<and>
        stands_at (se_identity_key se) (se_reader_key se) uid since' m' st \<and> maps_grow m m' \<and>
        (let rest = window_rest (se_reader_db se) (us_user_id ru) since in
         if d then \<forall>s. chunk_merged uid (rest m) s
         else since' = since \<and> nat (chunk_items (rest m')) < nat (chunk_items (rest m)) \<and>
           (\<forall>db'' m''. db_grows (st_db st) db'' \<longrightarrow> maps_grow m' m'' \<longrightarrow>
              chunk_merged uid (rest m') (start_st db'' m'') \<longrightarrow> chunk_merged uid (rest m) (start_st db'' m''))))"

lemma chunk_items_nonneg: "0 \<le> chunk_items c"
  by (simp add: chunk_items_def entries_nonneg)

lemma moved_round_done:
  assumes "moved (se_identity_key se) (se_reader_key se) uid since m (override_active a c) r st"
    "counts_nonneg m" "find_user_by_identity_key (se_identity_key se) (se_reader_db se) = Ok (Some ru)"
    "\<not> bg_done (b 0)"
    "chunk_outcomes (se_sizes se) (se_reader_db se) (us_user_id ru) (since_map since) (offsets_of m) c b"
  shows "round_done se uid since m (pr_done r) st"
proof -
  let ?c = "override_active a c" and ?rest = "window_rest (se_reader_db se) (us_user_id ru) since"
  have oc: "chunk_outcomes (se_sizes se) (se_reader_db se) (us_user_id ru) (since_map since) (offsets_of m) ?c b"
    using assms(5) by (simp only: override_frame)
  obtain since' m' where d: "pr_done r = chunk_is_empty ?c"
    and s: "stands_at (se_identity_key se) (se_reader_key se) uid since' m' st" "maps_grow m m'"
    and c: "chunk_merged uid ?c (start_st (st_db st) m')"
    and adv: "\<not> chunk_is_empty ?c \<longrightarrow> since' = since \<and> advanced m m' ?c"
    using assms(1) unfolding moved_def advanced_def by blast
  show ?thesis
  proof (cases "chunk_is_empty ?c")
    case True
    then show ?thesis
      using chunk_without_rows(2) [OF oc assms(2,4) chunk_is_empty_items] assms(3) d s
      unfolding round_done_def Let_def by auto
  next
    case False
    then have a: "since' = since" "advanced m m' ?c" using adv by blast+
    have "chunk_items ?c \<noteq> 0" using False chunk_without_rows(1) [OF oc assms(2,4)] by blast
    then have "nat (chunk_items (?rest m')) < nat (chunk_items (?rest m))"
      using window_rest_items [OF oc assms(2) a(2)] chunk_items_nonneg [of ?c] chunk_items_nonneg [of "?rest m'"]
      by linarith
    moreover have "chunk_merged uid (?rest m) (start_st db'' m'')"
      if "db_grows (st_db st) db''" "maps_grow m' m''" "chunk_merged uid (?rest m') (start_st db'' m'')" for db'' m''
      by (rule window_rest_merged [OF oc assms(2) a(2) chunk_merged_grows [OF c that(1,2)] that(3)])
    ultimately show ?thesis using False assms(3) d s a(1) unfolding round_done_def Let_def by auto
  qed
qed

definition round_from ::
  "session \<Rightarrow> storage \<Rightarrow> process_sync_chunk_result \<Rightarrow> storage \<Rightarrow> bool" where
  "round_from se st x st' \<longleftrightarrow> (\<exists>uid since m. round_done se uid since m (pr_done x) st' \<and>
     (\<forall>s0 m0. session_start (se_identity_key se) (se_reader_key se) st = Some (s0, m0) \<longrightarrow> s0 = since \<and> m0 = m))"

lemma round_after_state:
  assumes "storage_ok st1" "state_found (se_identity_key se) (se_reader_key se) st ss st1"
    "make_request_sync_chunk_args ss (se_identity_key se) (se_writer_key se) = Ok args"
    "provider_get_sync_chunk (se_sizes se) args (se_reader_db se) = Ok chunk"
    "provider_process_sync_chunk now args (override_active a chunk) st1 = (r, st')"
  shows "storage_ok st' \<and> db_grows (st_db st1) (st_db st') \<and> (\<forall>x. r = Ok x \<longrightarrow> round_from se st x st')"
proof -
  let ?k = "se_identity_key se" and ?rkey = "se_reader_key se"
  obtain m where "parse_map [] (ys_sync_map ss) = Ok m"
    using assms(3) parse_map_Ok by (auto simp: make_request_sync_chunk_args_def)
  then have pos: "at_pos ss (ys_when ss) m" by (simp add: at_pos_def)
  then obtain uid where at: "stands_at ?k ?rkey uid (ys_when ss) m st1"
    and start: "\<forall>s0 m0. session_start ?k ?rkey st = Some (s0, m0) \<longrightarrow> s0 = ys_when ss \<and> m0 = m"
    and rk: "ys_storage_identity_key ss = ?rkey"
    using assms(2) unfolding state_found_def by blast
  obtain ru b where g: "ra_identity_key args = ?k" "ra_from_storage_identity_key args = ys_storage_identity_key ss"
    "counts_nonneg m" "find_user_by_identity_key ?k (se_reader_db se) = Ok (Some ru)" "\<not> bg_done (b 0)"
    "chunk_outcomes (se_sizes se) (se_reader_db se) (us_user_id ru) (since_map (ys_when ss)) (offsets_of m) chunk b"
    by (rule provider_get_ok [OF assms(3) pos assms(4)])
  note pp = provider_process_ok [OF g(1) g(2) [unfolded rk] assms(1) at assms(5)]
  then show ?thesis using start moved_round_done [OF _ g(3-6)] unfolding round_from_def by blast
qed

lemma sync_round_ok:
  assumes "storage_ok st" "au_identity_key (se_auth se) = se_identity_key se" "sync_round se i st = (r, st')"
  shows "storage_ok st' \<and> db_grows (st_db st) (st_db st')" "r = Ok (key, x) \<Longrightarrow> round_from se st x st'"
proof -
  let ?k = "se_identity_key se" and ?rkey = "se_reader_key se"
  obtain rf st1 where f: "find_or_insert_sync_state_auth (se_now se i) (se_ref_num se i) (se_auth se) ?rkey
      (se_reader_name se) st = (rf, st1)" by fastforce
  have 1: "storage_ok st1" "db_grows (st_db st) (st_db st1)"
    "rf = Ok (ss, c) \<Longrightarrow> state_found ?k ?rkey st ss st1" for ss c
    using find_or_insert_sync_state_auth_ok [of "\<lambda>_. True" "se_now se i" "se_ref_num se i" "se_auth se"
        ?rkey "se_reader_name se"] assms(1,2) f
    by (auto simp: op_ok_def dest!: spec [of _ st])
  have "storage_ok st' \<and> db_grows (st_db st) (st_db st') \<and> (\<forall>key x. r = Ok (key, x) \<longrightarrow> round_from se st x st')"
  proof (cases "\<exists>ss c args chunk. rf = Ok (ss, c) \<and> make_request_sync_chunk_args ss ?k (se_writer_key se) = Ok args \<and>
      provider_get_sync_chunk (se_sizes se) args (se_reader_db se) = Ok chunk")
    case False
    then have "st' = st1 \<and> isl r" using assms(3) f
      by (auto simp: sync_round_def bindP_def resultP_def split: sum.splits prod.splits)
    then show ?thesis using 1 by auto
  next
    case True
    then obtain ss c args chunk where rf: "rf = Ok (ss, c)"
      and rq: "make_request_sync_chunk_args ss ?k (se_writer_key se) = Ok args"
        "provider_get_sync_chunk (se_sizes se) args (se_reader_db se) = Ok chunk" by blast
    obtain rp st2 where p: "provider_process_sync_chunk (se_now se i) args
        (override_active (se_override se) chunk) st1 = (rp, st2)" by fastforce
    have "st' = st2" "\<And>key x. r = Ok (key, x) \<Longrightarrow> rp = Ok x"
      using assms(3) f rf rq p by (auto simp: sync_round_def bindP_def resultP_def split: sum.splits)
    then show ?thesis
      using round_after_state [OF 1(1) 1(3) [OF rf] rq p] db_grows_trans [OF 1(2)] by blast
  qed
  then show "storage_ok st' \<and> db_grows (st_db st) (st_db st')" "r = Ok (key, x) \<Longrightarrow> round_from se st x st'"
    by auto
qed

section \<open>Sessions\<close>

text \<open>What a finished session leaves in the writer.\<close>

definition window_synced ::
  "session \<Rightarrow> ts option \<Rightarrow> sync_map \<Rightarrow> int \<Rightarrow> sync_map \<Rightarrow> storage \<Rightarrow> bool" where
  "window_synced se since m uid m' st \<longleftrightarrow>
     (\<exists>ru. find_user_by_identity_key (se_identity_key se) (se_reader_db se) = Ok (Some ru) \<and>
        user_in (se_identity_key se) uid (st_db st) \<and> maps_grow m m' \<and>
        chunk_merged uid (window_rest (se_reader_db se) (us_user_id ru) since m) (start_st (st_db st) m'))"

lemma after_round_done:
  "after_round se i key x v = Inl (Ok tot) \<Longrightarrow> pr_done x" "after_round se i key x v = Inr v' \<Longrightarrow> \<not> pr_done x"
  by (auto simp: after_round_def Let_def split: if_splits)

text \<open>The loop ends, and a successful end means that the window from \<open>m\<close> on is merged.\<close>

definition ends ::
  "session \<Rightarrow> nat \<Rightarrow> loop_vars \<Rightarrow> storage \<Rightarrow> ts option \<Rightarrow> sync_map \<Rightarrow> int \<Rightarrow> bool" where
  "ends se i v st since m uid \<longleftrightarrow>
     (\<exists>r st'. sync_loop se i v st = Some (r, st') \<and> storage_ok st' \<and> db_grows (st_db st) (st_db st') \<and>
        (\<forall>tot. r = Ok tot \<longrightarrow> (\<exists>m'. window_synced se since m uid m' st')))"

lemma loop_step:
  assumes "sync_round se i st = (Ok (key, x), st1)" "after_round se i key x v = Inr v'"
  shows "sync_loop se i v st = sync_loop se (i + 1) v' st1"
  using assms by (subst sync_loop.simps) simp

lemma loop_round:
  assumes "sync_round se i st = (Ok (key, x), st1)" "storage_ok st1" "db_grows (st_db st) (st_db st1)"
    "round_done se uid since m (pr_done x) st1"
    and rest: "\<And>v' m' ru. stands_at (se_identity_key se) (se_reader_key se) uid since m' st1 \<Longrightarrow>
      find_user_by_identity_key (se_identity_key se) (se_reader_db se) = Ok (Some ru) \<Longrightarrow>
      nat (chunk_items (window_rest (se_reader_db se) (us_user_id ru) since m')) <
        nat (chunk_items (window_rest (se_reader_db se) (us_user_id ru) since m)) \<Longrightarrow>
      ends se (i + 1) v' st1 since m' uid"
  shows "ends se i v st since m uid"
proof -
  let ?rest = "\<lambda>ru. window_rest (se_reader_db se) (us_user_id ru) since"
  obtain ru since' m' where D: "find_user_by_identity_key (se_identity_key se) (se_reader_db se) = Ok (Some ru)"
    "stands_at (se_identity_key se) (se_reader_key se) uid since' m' st1" "maps_grow m m'"
    and C: "if pr_done x then \<forall>s. chunk_merged uid (?rest ru m) s
       else since' = since \<and> nat (chunk_items (?rest ru m')) < nat (chunk_items (?rest ru m)) \<and>
         (\<forall>db'' m''. db_grows (st_db st1) db'' \<longrightarrow> maps_grow m' m'' \<longrightarrow>
            chunk_merged uid (?rest ru m') (start_st db'' m'') \<longrightarrow> chunk_merged uid (?rest ru m) (start_st db'' m''))"
    using assms(4) unfolding round_done_def Let_def by blast
  show ?thesis
  proof (cases "after_round se i key x v")
    case (Inl res)
    then have "sync_loop se i v st = Some (res, st1)" using assms(1) by (subst sync_loop.simps) simp
    moreover have "window_synced se since m uid m' st1" if "res = Ok tot" for tot
      using after_round_done(1) [of se i key x v tot] Inl that C D by (auto simp: window_synced_def stands_at_def)
    ultimately show ?thesis using assms(2,3) unfolding ends_def by blast
  next
    case (Inr v')
    note nd = after_round_done(2) [OF Inr] and step = loop_step [OF assms(1) Inr]
    have "ends se (i + 1) v' st1 since m' uid" using rest C nd D(1,2) by simp
    moreover have "window_synced se since m uid m'' st'"
      if "window_synced se since m' uid m'' st'" "db_grows (st_db st1) (st_db st')" for m'' st'
      using that C nd D maps_grow_trans [OF D(3)] by (auto simp: window_synced_def)
    ultimately show ?thesis using assms(3) db_grows_trans unfolding ends_def step by metis
  qed
qed

lemma loop_error:
  "sync_round se i st = (Err e, st1) \<Longrightarrow> storage_ok st1 \<Longrightarrow> db_grows (st_db st) (st_db st1) \<Longrightarrow>
     ends se i v st since m uid"
  unfolding ends_def by (subst sync_loop.simps) simp

text \<open>From a state where the session stands, by induction on what is left of the window.\<close>

lemma loop_ends_at:
  assumes "au_identity_key (se_auth se) = se_identity_key se"
  shows "storage_ok st \<Longrightarrow> stands_at (se_identity_key se) (se_reader_key se) uid since m st \<Longrightarrow>
    ends se i v st since m uid"
proof (induction "case find_user_by_identity_key (se_identity_key se) (se_reader_db se) of
      Inr (Some ru) \<Rightarrow> nat (chunk_items (window_rest (se_reader_db se) (us_user_id ru) since m)) | _ \<Rightarrow> 0"
    arbitrary: i v st m rule: less_induct)
  case less
  let ?k = "se_identity_key se" and ?rkey = "se_reader_key se"
  obtain u where "find_user_by_identity_key ?k (st_db st) = Ok (Some u)"
    using user_in_found [of "st_db st" ?k uid] less.prems by (auto simp: storage_ok_def stands_at_def)
  note start = stands_at_start [OF less.prems this]
  obtain r st1 where r: "sync_round se i st = (r, st1)" by fastforce
  note R = sync_round_ok [OF less.prems(1) assms r]
  show ?case
  proof (cases r)
    case (Inl e)
    then show ?thesis using loop_error r R(1) by blast
  next
    case (Inr kx)
    obtain key x where kx: "kx = (key, x)" by (cases kx)
    obtain uid' where rd: "round_done se uid' since m (pr_done x) st1"
      using R(2) [OF Inr [unfolded kx]] start by (auto simp: round_from_def)
    then obtain since' m' where D: "stands_at ?k ?rkey uid' since' m' st1" unfolding round_done_def by blast
    have "uid' = uid"
      using user_in_unique [of "st_db st1" ?k uid uid'] D R(1) less.prems(2) user_in_grows
      by (auto simp: stands_at_def storage_ok_def)
    with rd have "round_done se uid since m (pr_done x) st1" by simp
    then show ?thesis
      using loop_round [OF r [unfolded Inr kx]] R(1) less.hyps by simp
  qed
qed

lemma loop_ends:
  assumes "au_identity_key (se_auth se) = se_identity_key se" "storage_ok st"
  shows "\<exists>uid since m. ends se i v st since m uid \<and>
    (\<forall>s0 m0. session_start (se_identity_key se) (se_reader_key se) st = Some (s0, m0) \<longrightarrow> s0 = since \<and> m0 = m)"
proof -
  obtain r st1 where r: "sync_round se i st = (r, st1)" by fastforce
  note R = sync_round_ok [OF assms(2,1) r]
  show ?thesis
  proof (cases r)
    case (Inl e)
    then show ?thesis using loop_error [OF r [unfolded Inl]] R(1)
      by (cases "session_start (se_identity_key se) (se_reader_key se) st") auto
  next
    case (Inr kx)
    obtain key x where kx: "kx = (key, x)" by (cases kx)
    obtain uid since m where rd: "round_done se uid since m (pr_done x) st1"
      and start: "\<forall>s0 m0. session_start (se_identity_key se) (se_reader_key se) st = Some (s0, m0) \<longrightarrow> s0 = since \<and> m0 = m"
      using R(2) [OF Inr [unfolded kx]] unfolding round_from_def by blast
    have "ends se i v st since m uid"
      using loop_round [OF r [unfolded Inr kx] _ _ rd] R(1) loop_ends_at [OF assms(1)] by blast
    then show ?thesis using start by blast
  qed
qed

text \<open>A small session: a reader that holds one user's transaction with a label, an empty writer.\<close>

definition sample_session :: session where
  "sample_session =
     \<lparr>se_identity_key = ''u'', se_auth = \<lparr>au_identity_key = ''u'', au_user_id = None, au_is_active = None\<rparr>,
      se_writer_key = ''w'', se_reader_key = ''r'', se_reader_name = ''n'', se_reader_db = sample_reader,
      se_sizes = sample_sizes,
      se_now = (\<lambda>i. 9000000000), se_ref_num = (\<lambda>i. ''x''), se_override = None, se_prog_log = None\<rparr>"

definition empty_storage :: storage where
  "empty_storage = \<lparr>st_db = empty_database, st_sync_states = empty_table\<rparr>"

lemma empty_storage_ok: "storage_ok empty_storage"
  by (simp add: storage_ok_def empty_storage_def empty_database_ok empty_table_def)

lemma sample_session_start: "session_start ''u'' ''r'' empty_storage = Some (None, sync_map_new)"
  by (simp add: session_start_def empty_storage_def find_user_by_identity_key_def find_users_by_key
      empty_database_def empty_table_def verify_one_or_none_def)

lemma sample_session_succeeds:
  "case sync_to_writer sample_session empty_storage of Some (Inr (ni, nu, log), st) \<Rightarrow> ni = 3 | _ \<Rightarrow> False"
  by code_simp


section \<open>Guarantees of a session\<close>

lemma session_frame [simp]:
  "window_synced (se\<lparr>se_override := a\<rparr>) since m uid m' st = window_synced se since m uid m' st"
  by (simp add: window_synced_def)

text \<open>
  C7: A synchronisation session always ends, for every reader and every consistent writer: each round
  that is not the last takes at least one row of a window that holds finitely many. Whatever the
  outcome, it leaves the writer consistent and loses no row.\<close>

theorem sync_session_ends:
  assumes "storage_ok st" "au_identity_key (se_auth se) = se_identity_key se"
  shows "(\<exists>r st'. sync_to_writer se st = Some (r, st') \<and> storage_ok st' \<and> db_grows (st_db st) (st_db st')) \<and>
    (\<exists>r st'. sync_from_reader k se st = Some (r, st') \<and> storage_ok st' \<and> db_grows (st_db st) (st_db st'))"
proof -
  have "\<exists>r st'. sync_loop se' 0 v st = Some (r, st') \<and> storage_ok st' \<and> db_grows (st_db st) (st_db st')"
    if "au_identity_key (se_auth se') = se_identity_key se'" for se' v
    using loop_ends [OF that assms(1), of 0 v] unfolding ends_def by blast
  then show ?thesis using assms by (simp add: sync_to_writer_def sync_from_reader_def)
qed

theorem sync_session_ends_witness:
  "\<exists>r st. sync_to_writer sample_session empty_storage = Some (r, st) \<and> storage_ok st"
proof -
  have "au_identity_key (se_auth sample_session) = se_identity_key sample_session"
    by (simp add: sample_session_def)
  from sync_session_ends [OF empty_storage_ok this] show ?thesis by blast
qed

text \<open>
  C3: When a session ends successfully, every row of the user that the reader holds in the session's
  window, from the position where the session started, is in the writer: under its natural key, with
  its references translated and its identifier mapped. A session with a new writer starts at the
  beginning of the window of all rows.\<close>

theorem sync_session_complete:
  assumes "storage_ok st" "au_identity_key (se_auth se) = se_identity_key se"
    "sync_to_writer se st = Some (Ok totals, st')"
    "session_start (se_identity_key se) (se_reader_key se) st = Some (since, m)"
  shows "\<exists>uid m'. window_synced se since m uid m' st'"
proof -
  have "au_identity_key (se_auth (se\<lparr>se_override := None\<rparr>)) = se_identity_key (se\<lparr>se_override := None\<rparr>)"
    using assms(2) by simp
  from loop_ends [OF this assms(1), of 0 loop_start] assms(4) obtain uid
    where "ends (se\<lparr>se_override := None\<rparr>) 0 loop_start st since m uid" by auto
  then show ?thesis using assms(3) unfolding ends_def sync_to_writer_def by (cases totals) auto
qed

theorem sync_session_complete_witness:
  "\<exists>totals st uid m. sync_to_writer sample_session empty_storage = Some (Ok totals, st) \<and>
     window_synced sample_session None sync_map_new uid m st"
proof -
  obtain totals st where *: "sync_to_writer sample_session empty_storage = Some (Ok totals, st)"
    using sample_session_succeeds by (auto split: option.splits sum.splits)
  have "au_identity_key (se_auth sample_session) = se_identity_key sample_session"
    and "session_start (se_identity_key sample_session) (se_reader_key sample_session) empty_storage =
      Some (None, sync_map_new)"
    using sample_session_start by (simp_all add: sample_session_def)
  from sync_session_complete [OF empty_storage_ok this(1) * this(2)] * show ?thesis by blast
qed

text \<open>
  The user identifier that the manager caches belongs to its active storage. A backup in which the
  same identity has another identifier refuses every session.
\<close>

lemma foreign_user_id_refused:
  assumes "storage_ok st" "au_user_id (se_auth se) = Some c" "c \<noteq> 0"
    "user_in (au_identity_key (se_auth se)) uid (st_db st)" "uid \<noteq> c"
  shows "\<exists>msg. sync_to_writer se st = Some (Err (Unauthorized msg), st)"
proof -
  let ?k = "au_identity_key (se_auth se)"
  obtain u where u: "find_user_by_identity_key ?k (st_db st) = Ok (Some u)"
    using user_in_found [of "st_db st" ?k uid] assms(1,4) by (auto simp: storage_ok_def)
  have "us_user_id u = uid"
    using user_in_unique [OF _ assms(4) find_user_in [OF u]] assms(1) by (simp add: storage_ok_def)
  then have "\<exists>msg. resolve_user_scope now (se_auth se) st = (Err (Unauthorized msg), st)" for now
    using u assms(2,3,5)
    by (simp add: resolve_user_scope_def find_or_insert_userP_def bindP_def writeP_def resultP_def
        find_or_insert_user_def find_user_by_identity_key_def)
  then obtain msg where "resolve_user_scope (se_now se 0) (se_auth se) st = (Err (Unauthorized msg), st)"
    by blast
  then have "sync_loop (se\<lparr>se_override := None\<rparr>) 0 loop_start st = Some (Err (Unauthorized msg), st)"
    by (subst sync_loop.simps) (simp add: sync_round_def find_or_insert_sync_state_auth_def bindP_def)
  then show ?thesis by (simp add: sync_to_writer_def)
qed

end
