(* ===== verification/ActionDb.thy ===== *)
theory ActionDb
  imports StorageDb SyncProcess
begin

text \<open>
  Computations on the wallet database, as the storage methods for actions perform them, and the
  statements and helpers those methods share: claiming and releasing outputs
  (\<open>src/storage/sqlx_impl/update.rs\<close>), the find-or-insert helpers
  (\<open>src/storage/traits/reader_writer.rs\<close>), and the composite status updates of
  \<open>src/storage/sqlx_impl/trait_impls.rs\<close>. A computation ends with a value or an error and leaves
  the database as it was at that point; a database transaction that is rolled back, or whose token
  is dropped by an early return, leaves it as it was before. One reading of the clock stands for
  all readings of a call.
\<close>

section \<open>Computations\<close>

type_synonym 'a db_op = "database \<Rightarrow> 'a wallet_result \<times> database"

definition returnD :: "'a \<Rightarrow> 'a db_op" where
  "returnD x db = (Ok x, db)"

definition failD :: "wallet_error \<Rightarrow> 'a db_op" where
  "failD e db = (Err e, db)"

definition bindD :: "'a db_op \<Rightarrow> ('a \<Rightarrow> 'b db_op) \<Rightarrow> 'b db_op" where
  "bindD m f db = (case m db of (Inl e, db') \<Rightarrow> (Err e, db') | (Inr x, db') \<Rightarrow> f x db')"

definition readD :: "(database \<Rightarrow> 'a wallet_result) \<Rightarrow> 'a db_op" where
  "readD q db = (q db, db)"

definition writeD :: "(database \<Rightarrow> (database \<times> 'a) wallet_result) \<Rightarrow> 'a db_op" where
  "writeD w db = (case w db of Inl e \<Rightarrow> (Err e, db) | Inr (db', x) \<Rightarrow> (Ok x, db'))"

definition write_unitD :: "(database \<Rightarrow> database wallet_result) \<Rightarrow> unit db_op" where
  "write_unitD w = writeD (\<lambda>db. bind_result (w db) (\<lambda>db'. Ok (db', ())))"

fun mapD :: "('x \<Rightarrow> 'a db_op) \<Rightarrow> 'x list \<Rightarrow> 'a list db_op" where
  "mapD f [] = returnD []"
| "mapD f (x # xs) = bindD (f x) (\<lambda>y. bindD (mapD f xs) (\<lambda>ys. returnD (y # ys)))"

definition forD :: "('x \<Rightarrow> unit db_op) \<Rightarrow> 'x list \<Rightarrow> unit db_op" where
  "forD f xs = bindD (mapD f xs) (\<lambda>_. returnD ())"

text \<open>\<open>begin_transaction\<close>, the computation, then \<open>commit_transaction\<close> or a rollback.\<close>

definition in_trx :: "'a db_op \<Rightarrow> 'a db_op" where
  "in_trx m db = (case m db of (Inl e, _) \<Rightarrow> (Err e, db) | (Inr x, db') \<Rightarrow> (Ok x, db'))"

definition verify_one :: "'a list \<Rightarrow> 'a wallet_result" where
  "verify_one results =
     (if length results \<noteq> 1 then
        Err (Internal (''Expected exactly one result, got '' @ show_nat (length results)))
      else Ok (last results))"

section \<open>Claiming and releasing outputs\<close>

definition claim_row :: "ts \<Rightarrow> int \<Rightarrow> output_row \<Rightarrow> output_row" where
  "claim_row now transaction_id r =
     r\<lparr>ou_spendable := False, ou_spent_by := Some transaction_id, ou_updated_at := secs now\<rparr>"

definition mark_inputs_spent ::
  "ts \<Rightarrow> int list \<Rightarrow> int \<Rightarrow> int \<Rightarrow> database \<Rightarrow> (database \<times> int) wallet_result" where
  "mark_inputs_spent now output_ids transaction_id user_id db =
     (if output_ids = [] then Ok (db, 0)
      else bind_result (update_rows
          (\<lambda>r. ou_output_id r \<in> set output_ids \<and> ou_spendable r \<and> ou_spent_by r = None \<and>
             ou_user_id r = user_id)
          (claim_row now transaction_id) output_key (output_refs db) (db_outputs db))
        (\<lambda>(t, n). Ok (db\<lparr>db_outputs := t\<rparr>, n)))"

definition release_row :: "ts \<Rightarrow> output_row \<Rightarrow> output_row" where
  "release_row now r = r\<lparr>ou_spendable := True, ou_spent_by := None, ou_updated_at := secs now\<rparr>"

definition release_inputs_spent_by ::
  "ts \<Rightarrow> int list \<Rightarrow> int \<Rightarrow> database \<Rightarrow> (database \<times> int) wallet_result" where
  "release_inputs_spent_by now output_ids transaction_id db =
     (if output_ids = [] then Ok (db, 0)
      else bind_result (update_rows
          (\<lambda>r. ou_output_id r \<in> set output_ids \<and>
             (ou_spent_by r = Some transaction_id \<or> ou_spent_by r = None))
          (release_row now) output_key (output_refs db) (db_outputs db))
        (\<lambda>(t, n). Ok (db\<lparr>db_outputs := t\<rparr>, n)))"

definition restore_consumed_inputs :: "ts \<Rightarrow> bool \<Rightarrow> int \<Rightarrow> int db_op" where
  "restore_consumed_inputs now trx tx_id =
     bindD (readD (find_outputs trx (find_outputs_default\<lparr>oua_partial :=
         output_partial_default\<lparr>oup_spent_by := Some tx_id\<rparr>\<rparr>))) (\<lambda>outputs.
       writeD (release_inputs_spent_by now (map ou_output_id outputs) tx_id))"

section \<open>Status updates\<close>

definition update_transaction_status :: "ts \<Rightarrow> string \<Rightarrow> transaction_status \<Rightarrow> unit db_op" where
  "update_transaction_status now txid new_status =
     bindD (readD (\<lambda>db. Ok (find_transactions (find_transactions_default\<lparr>txa_partial :=
         transaction_partial_default\<lparr>txp_txid := Some txid\<rparr>, txa_no_raw_tx := True\<rparr>) db))) (\<lambda>txs.
     case txs of
       [] \<Rightarrow> failD (InvalidParameter ''txid''
         (''an existing transaction, '' @ [CHR 0x27] @ txid @ [CHR 0x27] @ '' not found''))
     | tx # _ \<Rightarrow>
         bindD (writeD (update_transaction now (tx_transaction_id tx)
           (transaction_partial_default\<lparr>txp_status := Some new_status\<rparr>))) (\<lambda>_. returnD ()))"

definition update_transactions_status :: "ts \<Rightarrow> string list \<Rightarrow> transaction_status \<Rightarrow> unit db_op" where
  "update_transactions_status now txids new_status =
     forD (\<lambda>txid. update_transaction_status now txid new_status) txids"

text \<open>The body that inserts a proof and completes the request and the transactions of its txid.\<close>

definition complete_with_proof :: "ts \<Rightarrow> int \<Rightarrow> proven_tx \<Rightarrow> int db_op" where
  "complete_with_proof now req_id proven =
     bindD (readD (\<lambda>db. Ok (find_proven_txs (find_proven_txs_default\<lparr>pta_partial :=
         proven_tx_partial_default\<lparr>ptp_txid := Some (pt_txid proven)\<rparr>\<rparr>) db))) (\<lambda>existing.
     bindD (case existing of
         ep # _ \<Rightarrow> returnD (pt_proven_tx_id ep, False)
       | [] \<Rightarrow> bindD (writeD (insert_proven_tx proven)) (\<lambda>i. returnD (i, True))) (\<lambda>(proven_tx_id, is_new).
     bindD (writeD (update_proven_tx_req now req_id
         (proven_tx_req_partial_default\<lparr>prp_proven_tx_id := Some proven_tx_id,
            prp_status := Some RsCompleted\<rparr>))) (\<lambda>_.
     bindD (if is_new then
         bindD (readD (\<lambda>db. Ok (find_transactions (find_transactions_default\<lparr>txa_partial :=
             transaction_partial_default\<lparr>txp_txid := Some (pt_txid proven)\<rparr>, txa_no_raw_tx := True\<rparr>) db)))
           (forD (\<lambda>t. bindD (writeD (update_transaction now (tx_transaction_id t)
             (transaction_partial_default\<lparr>txp_status := Some TsCompleted,
                txp_proven_tx_id := Some proven_tx_id\<rparr>))) (\<lambda>_. returnD ())))
       else returnD ()) (\<lambda>_. returnD proven_tx_id))))"

definition update_proven_tx_req_with_new_proven_tx :: "ts \<Rightarrow> bool \<Rightarrow> int \<Rightarrow> proven_tx \<Rightarrow> int db_op" where
  "update_proven_tx_req_with_new_proven_tx now trx req_id proven =
     (if trx then complete_with_proof now req_id proven
      else in_trx (complete_with_proof now req_id proven))"

definition review_status :: "ts \<Rightarrow> ts \<Rightarrow> string db_op" where
  "review_status now aged_limit =
     bindD (readD (\<lambda>db. Ok (find_proven_tx_reqs (find_proven_tx_reqs_default\<lparr>pra_statuses :=
         Some [RsUnsent, RsSending]\<rparr>) db))) (\<lambda>reqs.
     bindD (forD (\<lambda>req. if pr_updated_at req < aged_limit
           then bindD (writeD (update_proven_tx_req now (pr_proven_tx_req_id req)
             (proven_tx_req_partial_default\<lparr>prp_status := Some RsUnsent\<rparr>))) (\<lambda>_. returnD ())
           else returnD ()) reqs) (\<lambda>_.
       returnD (''review_status: checked '' @ show_nat (length reqs) @ '' reqs, corrected '' @
         show_nat (length (filter (\<lambda>req. pr_updated_at req < aged_limit) reqs)))))"

section \<open>Find or insert\<close>

definition find_or_insert_output_basket :: "ts \<Rightarrow> int \<Rightarrow> string \<Rightarrow> output_basket db_op" where
  "find_or_insert_output_basket now user_id name =
     bindD (readD (\<lambda>db. verify_one_or_none (find_output_baskets (find_output_baskets_default\<lparr>oba_partial :=
         output_basket_partial_default\<lparr>obp_user_id := Some user_id, obp_name := Some name\<rparr>\<rparr>) db)))
       (\<lambda>existing. case existing of
         Some basket \<Rightarrow> returnD basket
       | None \<Rightarrow>
           (let new_basket = \<lparr>ob_created_at = now, ob_updated_at = now, ob_basket_id = 0,
                  ob_user_id = user_id, ob_name = name, ob_number_of_desired_utxos = 0,
                  ob_minimum_desired_utxo_value = 0, ob_is_deleted = False\<rparr>
            in bindD (writeD (insert_output_basket new_basket)) (\<lambda>i.
                 returnD (new_basket\<lparr>ob_basket_id := i\<rparr>))))"

definition find_or_insert_tx_label :: "ts \<Rightarrow> int \<Rightarrow> string \<Rightarrow> tx_label db_op" where
  "find_or_insert_tx_label now user_id label =
     bindD (readD (\<lambda>db. verify_one_or_none (find_tx_labels (find_tx_labels_default\<lparr>tla_partial :=
         tx_label_partial_default\<lparr>tlp_user_id := Some user_id, tlp_label := Some label\<rparr>\<rparr>) db)))
       (\<lambda>existing. case existing of
         Some l \<Rightarrow> returnD l
       | None \<Rightarrow>
           (let new_label = \<lparr>tl_created_at = now, tl_updated_at = now, tl_tx_label_id = 0,
                  tl_user_id = user_id, tl_label = label, tl_is_deleted = False\<rparr>
            in bindD (writeD (insert_tx_label new_label)) (\<lambda>i.
                 returnD (new_label\<lparr>tl_tx_label_id := i\<rparr>))))"

definition find_or_insert_output_tag :: "ts \<Rightarrow> int \<Rightarrow> string \<Rightarrow> output_tag db_op" where
  "find_or_insert_output_tag now user_id tag =
     bindD (readD (\<lambda>db. verify_one_or_none (find_output_tags (find_output_tags_default\<lparr>ota_partial :=
         output_tag_partial_default\<lparr>otp_user_id := Some user_id, otp_tag := Some tag\<rparr>\<rparr>) db)))
       (\<lambda>existing. case existing of
         Some t \<Rightarrow> returnD t
       | None \<Rightarrow>
           (let new_tag = \<lparr>ot_created_at = now, ot_updated_at = now, ot_output_tag_id = 0,
                  ot_user_id = user_id, ot_tag = tag, ot_is_deleted = False\<rparr>
            in bindD (writeD (insert_output_tag new_tag)) (\<lambda>i.
                 returnD (new_tag\<lparr>ot_output_tag_id := i\<rparr>))))"

section \<open>Runs\<close>

named_theorems run_simps \<open>when a computation returns a value\<close>

lemma returnD_run [run_simps]: "returnD x db = (r, db') \<longleftrightarrow> r = Ok x \<and> db' = db"
  by (auto simp: returnD_def)

lemma failD_run [run_simps]: "failD e db = (r, db') \<longleftrightarrow> r = Err e \<and> db' = db"
  by (auto simp: failD_def)

lemma readD_run [run_simps]: "readD q db = (r, db') \<longleftrightarrow> q db = r \<and> db' = db"
  by (auto simp: readD_def)

lemma writeD_run [run_simps]: "writeD w db = (Ok x, db') \<longleftrightarrow> w db = Ok (db', x)"
  by (auto simp: writeD_def split: sum.splits)

lemma write_unitD_run [run_simps]: "write_unitD w db = (Ok x, db') \<longleftrightarrow> w db = Ok db'"
  by (simp add: write_unitD_def run_simps)

lemma bindD_run [run_simps]:
  "bindD m f db = (Ok y, db') \<longleftrightarrow> (\<exists>x db1. m db = (Ok x, db1) \<and> f x db1 = (Ok y, db'))"
  by (auto simp: bindD_def split: prod.splits sum.splits)

lemma in_trx_run [run_simps]: "in_trx m db = (Ok x, db') \<longleftrightarrow> m db = (Ok x, db')"
  by (auto simp: in_trx_def split: prod.splits sum.splits)

lemma in_trx_Err: "in_trx m db = (Err e, db') \<Longrightarrow> db' = db"
  by (auto simp: in_trx_def split: prod.splits sum.splits)

lemma verify_one_Ok: "verify_one xs = Ok x \<longleftrightarrow> xs = [x]"
  by (cases xs rule: rev_cases) (auto simp: verify_one_def)

lemma verify_one_or_none_Ok:
  "verify_one_or_none xs = Ok y \<longleftrightarrow> xs = [] \<and> y = None \<or> (\<exists>x. xs = [x] \<and> y = Some x)"
  by (cases xs rule: rev_cases) (auto simp: verify_one_or_none_def)

text \<open>A part of the database that no step of a loop changes is not changed by the loop.\<close>

lemma mapD_frame:
  assumes "\<And>x db y db'. f x db = (Ok y, db') \<Longrightarrow> g db' = g db" "mapD f xs db = (Ok ys, db')"
  shows "g db' = g db"
  using assms(2) by (induction xs arbitrary: db ys) (auto simp: run_simps dest: assms(1))

lemma forD_frame:
  assumes "\<And>x db y db'. f x db = (Ok y, db') \<Longrightarrow> g db' = g db" "forD f xs db = (Ok y, db')"
  shows "g db' = g db"
  using assms(2) mapD_frame [of f g, OF assms(1)] by (auto simp: forD_def run_simps)

lemma mapD_length: "mapD f xs db = (Ok ys, db') \<Longrightarrow> length ys = length xs"
  by (induction xs arbitrary: db ys) (auto simp: run_simps)

section \<open>Claims\<close>

definition claimable :: "int \<Rightarrow> output_row \<Rightarrow> bool" where
  "claimable user_id r \<longleftrightarrow> ou_spendable r \<and> ou_spent_by r = None \<and> ou_user_id r = user_id"

definition claim_in :: "ts \<Rightarrow> int \<Rightarrow> int set \<Rightarrow> output_row \<Rightarrow> output_row" where
  "claim_in now transaction_id C r =
     (if ou_output_id r \<in> C then claim_row now transaction_id r else r)"

text \<open>The database where the outputs \<open>C\<close>, all claimable before, have been claimed.\<close>

definition claimed :: "ts \<Rightarrow> int \<Rightarrow> int \<Rightarrow> int set \<Rightarrow> database \<Rightarrow> database \<Rightarrow> bool" where
  "claimed now transaction_id user_id C db db' \<longleftrightarrow>
     db' = db\<lparr>db_outputs := (db_outputs db)\<lparr>tb_rows :=
       map (claim_in now transaction_id C) (tb_rows (db_outputs db))\<rparr>\<rparr> \<and>
     (\<forall>i \<in> C. \<exists>r \<in> set (tb_rows (db_outputs db)). ou_output_id r = i \<and> claimable user_id r)"

lemma claim_row_simps [simp]:
  "ou_output_id (claim_row now i r) = ou_output_id r" "ou_user_id (claim_row now i r) = ou_user_id r"
  "ou_transaction_id (claim_row now i r) = ou_transaction_id r" "ou_vout (claim_row now i r) = ou_vout r"
  "ou_spendable (claim_row now i r) = False" "ou_spent_by (claim_row now i r) = Some i"
  "ou_txid (claim_row now i r) = ou_txid r" "ou_satoshis (claim_row now i r) = ou_satoshis r"
  "claim_row now i (claim_row now i r) = claim_row now i r"
  by (simp_all add: claim_row_def)

lemma claim_in_simps [simp]:
  "ou_output_id (claim_in now i C r) = ou_output_id r" "ou_user_id (claim_in now i C r) = ou_user_id r"
  "ou_transaction_id (claim_in now i C r) = ou_transaction_id r" "ou_vout (claim_in now i C r) = ou_vout r"
  "ou_txid (claim_in now i C r) = ou_txid r" "ou_satoshis (claim_in now i C r) = ou_satoshis r"
  by (simp_all add: claim_in_def)

lemma claim_in_union: "claim_in now i D (claim_in now i C r) = claim_in now i (C \<union> D) r"
  by (auto simp: claim_in_def)

lemma claim_in_empty [simp]: "claim_in now i {} = id"
  by (auto simp: claim_in_def)

lemma claimed_none: "claimed now i u {} db db"
  by (simp add: claimed_def)

lemma claimed_ids_ok:
  "claimed now i u C db db' \<Longrightarrow> ids_ok ou_output_id (db_outputs db') \<longleftrightarrow> ids_ok ou_output_id (db_outputs db)"
  by (auto simp: claimed_def ids_ok_def comp_def)

lemma claimed_trans:
  assumes "claimed now i u C db db1" "claimed now i u D db1 db2"
  shows "claimed now i u (C \<union> D) db db2"
proof -
  have "\<exists>r \<in> set (tb_rows (db_outputs db)). ou_output_id r = j \<and> claimable u r" if j: "j \<in> D" for j
  proof -
    obtain r where "r \<in> set (tb_rows (db_outputs db))" "ou_output_id (claim_in now i C r) = j"
        "claimable u (claim_in now i C r)"
      using assms j by (auto simp: claimed_def)
    then show ?thesis by (intro bexI [of _ r]) (auto simp: claim_in_def claimable_def split: if_splits)
  qed
  then show ?thesis
    using assms by (auto simp: claimed_def comp_def claim_in_union)
qed

text \<open>When every requested output was counted, exactly the requested outputs are claimed.\<close>

lemma mark_inputs_spent_claims:
  assumes "mark_inputs_spent now ids i u db = Ok (db', n)" "n = int (length ids)" "distinct ids"
    "ids_ok ou_output_id (db_outputs db)"
  shows "claimed now i u (set ids) db db'"
proof (cases "ids = []")
  case True
  then show ?thesis using assms(1) by (simp add: mark_inputs_spent_def claimed_def)
next
  case False
  let ?rows = "tb_rows (db_outputs db)" and ?sel = "\<lambda>r. ou_output_id r \<in> set ids \<and> claimable u r"
  have sel: "(\<lambda>r. ou_output_id r \<in> set ids \<and> ou_spendable r \<and> ou_spent_by r = None \<and> ou_user_id r = u) = ?sel"
    by (auto simp: claimable_def)
  obtain t where t: "update_rows ?sel (claim_row now i) output_key (output_refs db) (db_outputs db) = Ok (t, n)"
      and db': "db' = db\<lparr>db_outputs := t\<rparr>"
    using assms(1) False unfolding mark_inputs_spent_def sel by auto
  note D = update_rows_OkD [OF t]
  have d: "distinct (map ou_output_id ?rows)" using assms(4) by (simp add: ids_ok_def)
  have "card (ou_output_id ` set (filter ?sel ?rows)) = length (filter ?sel ?rows)"
    using d by (metis (no_types, lifting) distinct_card distinct_map_filter length_map list.set_map)
  also have "\<dots> = card (set ids)" using D(3) assms(2,3) by (simp add: distinct_card)
  finally have all: "ou_output_id ` set (filter ?sel ?rows) = set ids"
    by (intro card_subset_eq) auto
  have found: "\<exists>r \<in> set ?rows. ou_output_id r = j \<and> claimable u r" if "j \<in> set ids" for j
  proof -
    have "j \<in> ou_output_id ` set (filter ?sel ?rows)" using that all by simp
    then show ?thesis by auto
  qed
  then have "?sel r \<longleftrightarrow> ou_output_id r \<in> set ids" if "r \<in> set ?rows" for r
    using that d by (metis eq_key_imp_eq_value in_set_conv_nth distinct_map inj_onD)
  then have "tb_rows t = map (claim_in now i (set ids)) ?rows"
    using D(1) by (simp add: claim_in_def)
  then have "t = (db_outputs db)\<lparr>tb_rows := map (claim_in now i (set ids)) ?rows\<rparr>"
    using D(2) by simp
  then show ?thesis using db' found by (auto simp: claimed_def)
qed

end
