(* ===== verification/TxSize.thy ===== *)
theory TxSize
  imports Prelude
begin

text \<open>
  Serialised transaction sizes (\<open>src/utility/tx_size.rs\<close>), the quantity every fee in the
  wallet is computed from. The four functions are translated on \<open>usize\<close> words. The
  specification is the byte layout the source documents: a transaction is serialised as
  version, input count, inputs, output count, outputs and lock time, with Bitcoin's
  variable-length integers in front of lists and scripts, and the functions return the length
  of that serialisation.
\<close>

section \<open>The code\<close>

definition var_uint_size :: "usize \<Rightarrow> usize" where
  "var_uint_size val =
     (if val \<le> 0xfc then 1
      else if val \<le> 0xffff then 3
      else if val \<le> 0xffffffff then 5
      else 9)"

definition transaction_input_size :: "usize \<Rightarrow> usize" where
  "transaction_input_size script_size = 32 + 4 + var_uint_size script_size + script_size + 4"

definition transaction_output_size :: "usize \<Rightarrow> usize" where
  "transaction_output_size script_size = var_uint_size script_size + script_size + 8"

definition transaction_size :: "usize list \<Rightarrow> usize list \<Rightarrow> usize" where
  "transaction_size input_script_lengths output_script_lengths =
     4 + var_uint_size (of_nat (length input_script_lengths))
       + sum_list (map transaction_input_size input_script_lengths)
       + var_uint_size (of_nat (length output_script_lengths))
       + sum_list (map transaction_output_size output_script_lengths)
       + 4"

section \<open>The serialisation the sizes stand for\<close>

text \<open>
  The byte layout documented above each function. Contents do not matter for the length, so
  an input is its previous transaction id, output index, unlocking script and sequence number,
  and an output its locking script and satoshis, all as byte lists.
\<close>

fun le_bytes :: "nat \<Rightarrow> nat \<Rightarrow> u8 list" where
  "le_bytes 0 v = []"
| "le_bytes (Suc n) v = of_nat v # le_bytes n (v div 256)"

definition varint :: "nat \<Rightarrow> u8 list" where
  "varint n =
     (if n < 0xfd then [of_nat n]
      else if n < 2 ^ 16 then 0xfd # le_bytes 2 n
      else if n < 2 ^ 32 then 0xfe # le_bytes 4 n
      else 0xff # le_bytes 8 n)"

record tx_in =
  prev_txid :: "u8 list"
  prev_vout :: nat
  unlocking :: "u8 list"
  sequence :: nat

record tx_out =
  out_satoshis :: nat
  locking :: "u8 list"

record tx =
  version :: nat
  tx_ins :: "tx_in list"
  tx_outs :: "tx_out list"
  lock_time :: nat

definition serialize_in :: "tx_in \<Rightarrow> u8 list" where
  "serialize_in i = prev_txid i @ le_bytes 4 (prev_vout i) @ varint (length (unlocking i)) @
     unlocking i @ le_bytes 4 (sequence i)"

definition serialize_out :: "tx_out \<Rightarrow> u8 list" where
  "serialize_out x = le_bytes 8 (out_satoshis x) @ varint (length (locking x)) @ locking x"

definition serialize_tx :: "tx \<Rightarrow> u8 list" where
  "serialize_tx t = le_bytes 4 (version t) @ varint (length (tx_ins t)) @
     concat (map serialize_in (tx_ins t)) @ varint (length (tx_outs t)) @
     concat (map serialize_out (tx_outs t)) @ le_bytes 4 (lock_time t)"

definition wf_tx :: "tx \<Rightarrow> bool" where
  "wf_tx t \<longleftrightarrow> list_all (\<lambda>i. length (prev_txid i) = 32) (tx_ins t)"

definition unlocking_lengths :: "tx \<Rightarrow> usize list" where
  "unlocking_lengths t = map (\<lambda>i. of_nat (length (unlocking i))) (tx_ins t)"

definition locking_lengths :: "tx \<Rightarrow> usize list" where
  "locking_lengths t = map (\<lambda>x. of_nat (length (locking x))) (tx_outs t)"

lemma length_le_bytes [simp]: "length (le_bytes n v) = n"
  by (induction n arbitrary: v) auto

lemma varint_length: "n < 2 ^ 64 \<Longrightarrow> of_nat (length (varint n)) = var_uint_size (of_nat n)"
  by (auto simp: varint_def var_uint_size_def word_le_nat_alt unat_of_nat)

lemma of_nat_sum_list_map:
  "of_nat (sum_list (map f xs)) = sum_list (map (\<lambda>x. of_nat (f x)) xs)"
  by (induction xs) auto

lemma serialize_in_length:
  "length (prev_txid i) = 32 \<Longrightarrow> length (unlocking i) < 2 ^ 64 \<Longrightarrow>
     of_nat (length (serialize_in i)) = transaction_input_size (of_nat (length (unlocking i)))"
  by (simp add: serialize_in_def transaction_input_size_def varint_length algebra_simps)

lemma serialize_out_length:
  "length (locking x) < 2 ^ 64 \<Longrightarrow>
     of_nat (length (serialize_out x)) = transaction_output_size (of_nat (length (locking x)))"
  by (simp add: serialize_out_def transaction_output_size_def varint_length algebra_simps)

lemma varint_nonempty [simp]: "0 < length (varint n)"
  by (simp add: varint_def)

lemma serialize_in_bound: "length (unlocking i) < length (serialize_in i)"
  by (simp add: serialize_in_def)

lemma serialize_out_bound: "length (locking x) < length (serialize_out x)"
  by (simp add: serialize_out_def)

lemma length_concat_bounds:
  assumes "\<And>x. g x < length (f x)"
  shows "length xs \<le> length (concat (map f xs))"
    and "x \<in> set xs \<Longrightarrow> g x < length (concat (map f xs))"
proof -
  have pos: "0 < length (f y)" for y by (rule le_less_trans [OF _ assms]) simp
  show "length xs \<le> length (concat (map f xs))"
  proof (induction xs)
    case (Cons a xs)
    with pos [of a] have "Suc (length xs) \<le> length (f a) + length (concat (map f xs))" by linarith
    then show ?case by simp
  qed simp
  show "g x < length (concat (map f xs))" if "x \<in> set xs"
    using that assms [of x] by (induction xs) (auto intro: less_le_trans trans_less_add2)
qed

lemma inputs_length:
  assumes "list_all (\<lambda>i. length (prev_txid i) = 32) ins"
    and "length (concat (map serialize_in ins)) < 2 ^ 64"
  shows "sum_list (map transaction_input_size (map (\<lambda>i. of_nat (length (unlocking i))) ins)) =
    of_nat (length (concat (map serialize_in ins)))"
proof -
  have "of_nat (length (serialize_in i)) =
      transaction_input_size (of_nat (length (unlocking i)))" if "i \<in> set ins" for i
    using that assms length_concat_bounds(2) [of "\<lambda>i. length (unlocking i)" serialize_in i ins]
    by (intro serialize_in_length) (auto simp: list_all_iff serialize_in_bound)
  then show ?thesis
    by (simp add: length_concat o_def of_nat_sum_list_map cong: map_cong)
qed

lemma outputs_length:
  assumes "length (concat (map serialize_out xs)) < 2 ^ 64"
  shows "sum_list (map transaction_output_size (map (\<lambda>x. of_nat (length (locking x))) xs)) =
    of_nat (length (concat (map serialize_out xs)))"
proof -
  have "of_nat (length (serialize_out x)) =
      transaction_output_size (of_nat (length (locking x)))" if "x \<in> set xs" for x
    using that assms length_concat_bounds(2) [of "\<lambda>x. length (locking x)" serialize_out x xs]
    by (intro serialize_out_length) (auto simp: serialize_out_bound)
  then show ?thesis
    by (simp add: length_concat o_def of_nat_sum_list_map cong: map_cong)
qed

text \<open>
  C28: For every transaction whose serialisation is shorter than 2^64 bytes,
  \<open>transaction_size\<close> applied to its script lengths is exactly the number of bytes of the
  serialisation, although the code never builds it.
\<close>

theorem transaction_size_serialized:
  assumes "wf_tx t" and "length (serialize_tx t) < 2 ^ 64"
  shows "unat (transaction_size (unlocking_lengths t) (locking_lengths t)) =
    length (serialize_tx t)"
proof -
  let ?I = "concat (map serialize_in (tx_ins t))" and ?O = "concat (map serialize_out (tx_outs t))"
  have len: "length (serialize_tx t) = 4 + length (varint (length (tx_ins t))) + length ?I +
      length (varint (length (tx_outs t))) + length ?O + 4"
    by (simp add: serialize_tx_def)
  have bI: "length ?I < 2 ^ 64" and bO: "length ?O < 2 ^ 64" using assms(2) len by simp_all
  have nI: "length (tx_ins t) < 2 ^ 64" and nO: "length (tx_outs t) < 2 ^ 64"
    using length_concat_bounds(1) [of "\<lambda>i. length (unlocking i)" serialize_in "tx_ins t"]
      length_concat_bounds(1) [of "\<lambda>x. length (locking x)" serialize_out "tx_outs t"] bI bO
    by (simp_all add: serialize_in_bound serialize_out_bound)
  have "transaction_size (unlocking_lengths t) (locking_lengths t) = of_nat (length (serialize_tx t))"
    unfolding transaction_size_def len unlocking_lengths_def locking_lengths_def
    using assms(1) bI bO nI nO
    by (simp add: inputs_length outputs_length varint_length wf_tx_def algebra_simps del: map_map)
  with assms(2) show ?thesis by (simp add: unat_of_nat)
qed

definition example_tx :: tx where
  "example_tx = \<lparr>version = 1,
     tx_ins = [\<lparr>prev_txid = replicate 32 0, prev_vout = 0, unlocking = replicate 108 1, sequence = 0\<rparr>],
     tx_outs = [\<lparr>out_satoshis = 1000, locking = replicate 25 2\<rparr>], lock_time = 0\<rparr>"

theorem transaction_size_serialized_witness:
  "wf_tx example_tx \<and> length (serialize_tx example_tx) = 193 \<and>
   unat (transaction_size (unlocking_lengths example_tx) (locking_lengths example_tx)) = 193"
proof -
  have wf: "wf_tx example_tx" by (simp add: wf_tx_def example_tx_def)
  have len: "length (serialize_tx example_tx) = 193"
    by (simp add: serialize_tx_def serialize_in_def serialize_out_def example_tx_def varint_def)
  have "length (serialize_tx example_tx) < 2 ^ 64" by (simp add: len)
  from transaction_size_serialized [OF wf this] show ?thesis by (simp add: wf len)
qed

end
