(* ===== verification/ChangeStorage.thy ===== *)
theory ChangeStorage
  imports TxSize
begin

text \<open>
  The in-memory UTXO allocator of change generation (\<open>ChangeStorage\<close> in
  \<open>src/storage/methods/generate_change.rs\<close>): its two pools, the constructor that sorts the
  basket pool, \<open>allocate\<close> with its four preferences and \<open>release\<close>. The interface the funding
  loop relies on is the locale \<open>coin_pool\<close>: allocation moves one free coin to the taken ones,
  release by id moves it back. The allocator is shown to provide it.
\<close>

section \<open>Data\<close>

record available_change =
  ac_output_id :: int
  ac_satoshis :: u64
  ac_spendable :: bool

record allocated_ref =
  ar_output_id :: int
  ar_satoshis :: u64

record change_storage =
  cs_change :: "available_change list"
  cs_no_send_change :: "available_change list"

section \<open>Operations\<close>

definition fresh_change :: "available_change \<Rightarrow> available_change" where
  "fresh_change c = \<lparr>ac_output_id = ac_output_id c, ac_satoshis = ac_satoshis c, ac_spendable = True\<rparr>"

definition with_no_send_change ::
    "available_change list \<Rightarrow> available_change list \<Rightarrow> change_storage" where
  "with_no_send_change no_send_change available =
     \<lparr>cs_change =
        sort_key (\<lambda>c. (ac_satoshis c, ac_output_id c)) (map fresh_change available),
      cs_no_send_change = map fresh_change no_send_change\<rparr>"

definition new_change_storage :: "available_change list \<Rightarrow> change_storage" where
  "new_change_storage available = with_no_send_change [] available"

definition ref_of :: "available_change \<Rightarrow> allocated_ref" where
  "ref_of c = \<lparr>ar_output_id = ac_output_id c, ar_satoshis = ac_satoshis c\<rparr>"

definition set_spendable :: "bool \<Rightarrow> nat \<Rightarrow> available_change list \<Rightarrow> available_change list" where
  "set_spendable b i cs = cs[i := (cs ! i)\<lparr>ac_spendable := b\<rparr>]"

text \<open>
  The four searches of \<open>allocate\<close>, in the order of the code: the last spendable
  noSendChange coin; an exact match; the first (smallest) coin of at least the target; the
  last (largest) spendable coin.
\<close>

definition allocate ::
    "change_storage \<Rightarrow> u64 \<Rightarrow> u64 option \<Rightarrow> allocated_ref option \<times> change_storage" where
  "allocate s target_satoshis exact_satoshis =
     (case rposition ac_spendable (cs_no_send_change s) of
        Some idx \<Rightarrow>
          (Some (ref_of (cs_no_send_change s ! idx)),
           s\<lparr>cs_no_send_change := set_spendable False idx (cs_no_send_change s)\<rparr>)
      | None \<Rightarrow>
          (let take_change = (\<lambda>idx. (Some (ref_of (cs_change s ! idx)),
                 s\<lparr>cs_change := set_spendable False idx (cs_change s)\<rparr>));
               exact_match = (case exact_satoshis of
                   Some exact \<Rightarrow>
                     position (\<lambda>c. ac_spendable c \<and> ac_satoshis c = exact) (cs_change s)
                 | None \<Rightarrow> None)
           in case exact_match of
                Some idx \<Rightarrow> take_change idx
              | None \<Rightarrow>
                  (case position (\<lambda>c. ac_spendable c \<and> target_satoshis \<le> ac_satoshis c)
                          (cs_change s) of
                     Some idx \<Rightarrow> take_change idx
                   | None \<Rightarrow>
                       (case rposition ac_spendable (cs_change s) of
                          Some idx \<Rightarrow> take_change idx
                        | None \<Rightarrow> (None, s)))))"

definition release :: "change_storage \<Rightarrow> int \<Rightarrow> change_storage" where
  "release s output_id =
     (case position (\<lambda>c. ac_output_id c = output_id) (cs_no_send_change s) of
        Some idx \<Rightarrow> s\<lparr>cs_no_send_change := set_spendable True idx (cs_no_send_change s)\<rparr>
      | None \<Rightarrow>
          (case position (\<lambda>c. ac_output_id c = output_id) (cs_change s) of
             Some idx \<Rightarrow> s\<lparr>cs_change := set_spendable True idx (cs_change s)\<rparr>
           | None \<Rightarrow> s))"

section \<open>Which coins are free\<close>

definition pool :: "change_storage \<Rightarrow> available_change list" where
  "pool s = cs_no_send_change s @ cs_change s"

definition pool_refs :: "change_storage \<Rightarrow> allocated_ref list" where
  "pool_refs s = map ref_of (pool s)"

definition free_coins :: "change_storage \<Rightarrow> allocated_ref multiset" where
  "free_coins s = mset (map ref_of (filter ac_spendable (pool s)))"

definition taken_coins :: "change_storage \<Rightarrow> allocated_ref multiset" where
  "taken_coins s = mset (map ref_of (filter (\<lambda>c. \<not> ac_spendable c) (pool s)))"

definition distinct_ids :: "change_storage \<Rightarrow> bool" where
  "distinct_ids s \<longleftrightarrow> distinct (map ar_output_id (pool_refs s))"

lemmas coin_defs = pool_def pool_refs_def free_coins_def taken_coins_def distinct_ids_def

lemma ref_of_spendable [simp]: "ref_of (c\<lparr>ac_spendable := b\<rparr>) = ref_of c"
  by (simp add: ref_of_def)

lemma ref_of_sel [simp]:
  "ar_output_id (ref_of c) = ac_output_id c" "ar_satoshis (ref_of c) = ac_satoshis c"
  by (simp_all add: ref_of_def)

lemma set_spendable_split:
  assumes "i < length cs"
  shows "cs = take i cs @ cs ! i # drop (Suc i) cs"
    and "set_spendable b i cs = take i cs @ (cs ! i)\<lparr>ac_spendable := b\<rparr> # drop (Suc i) cs"
  using assms by (simp_all add: set_spendable_def id_take_nth_drop upd_conv_take_nth_drop)

lemma map_ref_of_set_spendable [simp]:
  "i < length cs \<Longrightarrow> map ref_of (set_spendable b i cs) = map ref_of cs"
  by (simp add: set_spendable_def map_update list_update_same_conv)

text \<open>Flipping one flag moves one coin between the free and the taken ones.\<close>

lemma set_spendable_False:
  assumes "i < length cs" and "ac_spendable (cs ! i)"
  shows "image_mset ref_of (filter_mset ac_spendable (mset cs)) =
      add_mset (ref_of (cs ! i))
        (image_mset ref_of (filter_mset ac_spendable (mset (set_spendable False i cs))))"
    and "image_mset ref_of (filter_mset (\<lambda>c. \<not> ac_spendable c) (mset (set_spendable False i cs))) =
      add_mset (ref_of (cs ! i))
        (image_mset ref_of (filter_mset (\<lambda>c. \<not> ac_spendable c) (mset cs)))"
  using assms
  by ((subst (1) set_spendable_split(1) [OF assms(1)], simp add: set_spendable_split(2)),
      (subst (2) set_spendable_split(1) [OF assms(1)], simp add: set_spendable_split(2)))

lemma set_spendable_True:
  assumes "i < length cs" and "\<not> ac_spendable (cs ! i)"
  shows "image_mset ref_of (filter_mset ac_spendable (mset (set_spendable True i cs))) =
      add_mset (ref_of (cs ! i)) (image_mset ref_of (filter_mset ac_spendable (mset cs)))"
    and "image_mset ref_of (filter_mset (\<lambda>c. \<not> ac_spendable c) (mset cs)) =
      add_mset (ref_of (cs ! i))
        (image_mset ref_of (filter_mset (\<lambda>c. \<not> ac_spendable c) (mset (set_spendable True i cs))))"
  using assms
  by ((subst (2) set_spendable_split(1) [OF assms(1)], simp add: set_spendable_split(2)),
      (subst (1) set_spendable_split(1) [OF assms(1)], simp add: set_spendable_split(2)))

section \<open>Allocation and release\<close>

text \<open>Whatever search succeeds, \<open>allocate\<close> takes one spendable coin of one of the pools.\<close>

lemma allocate_cases:
  assumes "allocate s t e = (r, s')"
  obtains
    (none) "r = None" "s' = s" "\<forall>c \<in> set (pool s). \<not> ac_spendable c"
  | (no_send) i where "i < length (cs_no_send_change s)" "ac_spendable (cs_no_send_change s ! i)"
      "r = Some (ref_of (cs_no_send_change s ! i))"
      "s' = s\<lparr>cs_no_send_change := set_spendable False i (cs_no_send_change s)\<rparr>"
  | (basket) i where "i < length (cs_change s)" "ac_spendable (cs_change s ! i)"
      "r = Some (ref_of (cs_change s ! i))"
      "s' = s\<lparr>cs_change := set_spendable False i (cs_change s)\<rparr>"
  using assms unfolding allocate_def Let_def
  by (fastforce split: option.splits dest!: position_SomeD rposition_SomeD
      simp: pool_def rposition_None_iff)

lemma allocate_NoneD:
  "allocate s t e = (None, s') \<Longrightarrow> free_coins s = {#} \<and> s' = s"
  by (erule allocate_cases) (auto simp: free_coins_def filter_empty_conv)

lemma allocate_SomeD:
  assumes "allocate s t e = (Some r, s')"
  shows "free_coins s = add_mset r (free_coins s')"
    and "taken_coins s' = add_mset r (taken_coins s)"
    and "pool_refs s' = pool_refs s"
  using assms
  by (auto elim!: allocate_cases simp: coin_defs set_spendable_False)

lemma allocate_distinct_ids:
  "allocate s t e = (Some r, s') \<Longrightarrow> distinct_ids s' = distinct_ids s"
  by (simp add: distinct_ids_def allocate_SomeD(3))

text \<open>
  Release searches by id. Under distinct ids the coin found is the one that was allocated.
\<close>

lemma position_id:
  assumes "distinct (map ar_output_id (map ref_of cs))" and "c \<in> set cs"
  obtains i where "position (\<lambda>x. ac_output_id x = ac_output_id c) cs = Some i" "i < length cs"
    "cs ! i = c"
proof -
  obtain i where i: "position (\<lambda>x. ac_output_id x = ac_output_id c) cs = Some i"
    using assms(2) position_None_iff [of "\<lambda>x. ac_output_id x = ac_output_id c" cs] by fastforce
  note d = position_SomeD [OF i]
  have "inj_on ac_output_id (set cs)"
    using assms(1) by (simp add: distinct_map ref_of_def o_def)
  with d assms(2) have "cs ! i = c" by (auto dest: inj_onD)
  with i d that show thesis by blast
qed

lemma release_coins:
  assumes "distinct_ids s" and "r \<in># taken_coins s"
  shows "taken_coins s = add_mset r (taken_coins (release s (ar_output_id r)))"
    and "free_coins (release s (ar_output_id r)) = add_mset r (free_coins s)"
    and "pool_refs (release s (ar_output_id r)) = pool_refs s"
proof -
  from assms(2) obtain c where c: "c \<in> set (pool s)" "\<not> ac_spendable c" "r = ref_of c"
    by (auto simp: taken_coins_def)
  have id: "ar_output_id r = ac_output_id c" by (simp add: c)
  have dn: "distinct (map ar_output_id (map ref_of (cs_no_send_change s)))"
    and dc: "distinct (map ar_output_id (map ref_of (cs_change s)))"
    and disj: "ac_output_id ` set (cs_no_send_change s) \<inter> ac_output_id ` set (cs_change s) = {}"
    using assms(1) by (auto simp: coin_defs ref_of_def o_def image_image)
  have "taken_coins s = add_mset r (taken_coins (release s (ar_output_id r))) \<and>
    free_coins (release s (ar_output_id r)) = add_mset r (free_coins s) \<and>
    pool_refs (release s (ar_output_id r)) = pool_refs s"
  proof (cases "c \<in> set (cs_no_send_change s)")
    case True
    from position_id [OF dn True] obtain i where i:
      "position (\<lambda>x. ac_output_id x = ac_output_id c) (cs_no_send_change s) = Some i"
      "i < length (cs_no_send_change s)" "cs_no_send_change s ! i = c" .
    then show ?thesis
      using c(2) set_spendable_True [of i "cs_no_send_change s"]
      by (simp add: release_def id coin_defs c(3))
  next
    case False
    then have cc: "c \<in> set (cs_change s)" using c(1) by (simp add: pool_def)
    then have none: "position (\<lambda>x. ac_output_id x = ac_output_id c) (cs_no_send_change s) = None"
      using disj by fastforce
    from position_id [OF dc cc] obtain i where i:
      "position (\<lambda>x. ac_output_id x = ac_output_id c) (cs_change s) = Some i"
      "i < length (cs_change s)" "cs_change s ! i = c" .
    then show ?thesis
      using c(2) set_spendable_True [of i "cs_change s"]
      by (simp add: release_def id none coin_defs c(3))
  qed
  then show "taken_coins s = add_mset r (taken_coins (release s (ar_output_id r)))"
    and "free_coins (release s (ar_output_id r)) = add_mset r (free_coins s)"
    and "pool_refs (release s (ar_output_id r)) = pool_refs s" by auto
qed

section \<open>The interface of the funding loop\<close>

text \<open>
  What a client of an allocator relies on: a coin is free or taken, \<open>alloc\<close> moves one free
  coin to the taken ones and fails only when none is free, \<open>rel\<close> moves a taken coin back.
\<close>

locale coin_pool =
  fixes alloc :: "'s \<Rightarrow> 'q \<Rightarrow> 'r option \<times> 's"
    and rel :: "'s \<Rightarrow> 'i \<Rightarrow> 's"
    and id_of :: "'r \<Rightarrow> 'i"
    and free :: "'s \<Rightarrow> 'r multiset"
    and taken :: "'s \<Rightarrow> 'r multiset"
    and invar :: "'s \<Rightarrow> bool"
  assumes alloc_None: "invar s \<Longrightarrow> alloc s q = (None, s') \<Longrightarrow> free s = {#} \<and> s' = s"
    and alloc_Some: "invar s \<Longrightarrow> alloc s q = (Some r, s') \<Longrightarrow>
      free s = add_mset r (free s') \<and> taken s' = add_mset r (taken s) \<and> invar s'"
    and rel_taken: "invar s \<Longrightarrow> r \<in># taken s \<Longrightarrow>
      taken s = add_mset r (taken (rel s (id_of r))) \<and>
      free (rel s (id_of r)) = add_mset r (free s) \<and> invar (rel s (id_of r))"
begin

lemma alloc_total: "invar s \<Longrightarrow> alloc s q = (r, s') \<Longrightarrow> free s' + taken s' = free s + taken s"
  by (cases r) (auto dest: alloc_None alloc_Some)

lemma alloc_decreases: "invar s \<Longrightarrow> alloc s q = (Some r, s') \<Longrightarrow> size (free s') < size (free s)"
  by (auto dest: alloc_Some)

lemma rel_list:
  assumes "invar s" and "mset rs \<subseteq># taken s"
  shows "taken s = taken (fold (\<lambda>r s. rel s (id_of r)) rs s) + mset rs \<and>
    free (fold (\<lambda>r s. rel s (id_of r)) rs s) = free s + mset rs \<and>
    invar (fold (\<lambda>r s. rel s (id_of r)) rs s)"
  using assms
proof (induction rs arbitrary: s)
  case Nil
  then show ?case by simp
next
  case (Cons r rs)
  from Cons.prems have "r \<in># taken s" by (auto dest: mset_subset_eqD)
  note r = rel_taken [OF Cons.prems(1) this]
  then have "mset rs \<subseteq># taken (rel s (id_of r))" using Cons.prems(2) by auto
  from Cons.IH [OF _ this] r show ?case by auto
qed

lemma rel_all_taken:
  assumes "invar s" and "mset rs = taken s"
  shows "taken (fold (\<lambda>r s. rel s (id_of r)) rs s) = {#}"
    and "free (fold (\<lambda>r s. rel s (id_of r)) rs s) = free s + taken s"
    and "invar (fold (\<lambda>r s. rel s (id_of r)) rs s)"
proof -
  have sub: "mset rs \<subseteq># taken s" by (simp add: assms(2))
  note r = rel_list [OF assms(1) sub, unfolded assms(2)]
  from conjunct1 [OF r] show "taken (fold (\<lambda>r s. rel s (id_of r)) rs s) = {#}"
    by (rule add_cancel_right_left [THEN iffD1])
  show "free (fold (\<lambda>r s. rel s (id_of r)) rs s) = free s + taken s"
    by (rule conjunct1 [OF conjunct2 [OF r]])
  show "invar (fold (\<lambda>r s. rel s (id_of r)) rs s)"
    by (rule conjunct2 [OF conjunct2 [OF r]])
qed

end

interpretation cs: coin_pool "\<lambda>s q. allocate s (fst q) (snd q)" release ar_output_id
  free_coins taken_coins distinct_ids
proof (unfold_locales, goal_cases)
  case 1
  then show ?case by (simp add: allocate_NoneD)
next
  case 2
  then show ?case by (auto simp: allocate_SomeD allocate_distinct_ids)
next
  case (3 s r)
  note r = release_coins [OF 3]
  have "distinct_ids (release s (ar_output_id r))" using 3(1) by (simp add: distinct_ids_def r(3))
  then show ?case by (intro conjI r(1,2))
qed

section \<open>Which coin is taken\<close>

definition sorted_pool :: "change_storage \<Rightarrow> bool" where
  "sorted_pool s \<longleftrightarrow> sorted (map ac_satoshis (cs_change s))"

definition basket_values :: "change_storage \<Rightarrow> u64 set" where
  "basket_values s = ac_satoshis ` set (filter ac_spendable (cs_change s))"

lemma map_satoshis_set_spendable [simp]:
  "i < length cs \<Longrightarrow> map ac_satoshis (set_spendable b i cs) = map ac_satoshis cs"
  by (simp add: set_spendable_def map_update list_update_same_conv)

lemma sorted_pool_allocate: "allocate s t e = (r, s') \<Longrightarrow> sorted_pool s' = sorted_pool s"
  by (erule allocate_cases) (simp_all add: sorted_pool_def)

lemma sorted_pool_release: "sorted_pool (release s i) = sorted_pool s"
  by (auto simp: release_def sorted_pool_def split: option.splits dest!: position_SomeD)

lemma sorted_pool_new: "sorted_pool (with_no_send_change ns av)"
proof -
  have "sorted (map (\<lambda>c. (ac_satoshis c, ac_output_id c)) (cs_change (with_no_send_change ns av)))"
    by (simp add: with_no_send_change_def)
  then show ?thesis
    unfolding sorted_pool_def sorted_map
    by (rule sorted_wrt_mono_rel [rotated]) (auto simp: less_eq_prod_def)
qed

lemma sorted_value_mono:
  "sorted_pool s \<Longrightarrow> i \<le> j \<Longrightarrow> j < length (cs_change s) \<Longrightarrow>
     ac_satoshis (cs_change s ! i) \<le> ac_satoshis (cs_change s ! j)"
  unfolding sorted_pool_def
  by (drule sorted_nth_mono [of _ i j]) auto

lemma in_basket_values:
  "v \<in> basket_values s \<longleftrightarrow>
     (\<exists>j < length (cs_change s). ac_spendable (cs_change s ! j) \<and> v = ac_satoshis (cs_change s ! j))"
  by (fastforce simp: basket_values_def in_set_conv_nth)

lemma first_fit_is_Min:
  assumes "sorted_pool s"
    and "position (\<lambda>c. ac_spendable c \<and> t \<le> ac_satoshis c) (cs_change s) = Some i"
  shows "ac_satoshis (cs_change s ! i) = Min {v \<in> basket_values s. t \<le> v}"
proof (rule Min_eqI [symmetric])
  note d = position_SomeD [OF assms(2)]
  show "finite {v \<in> basket_values s. t \<le> v}" by (simp add: basket_values_def)
  show "ac_satoshis (cs_change s ! i) \<in> {v \<in> basket_values s. t \<le> v}"
    using d by (auto simp: in_basket_values)
  fix v assume "v \<in> {v \<in> basket_values s. t \<le> v}"
  then obtain j where j: "j < length (cs_change s)" "ac_spendable (cs_change s ! j)"
    "v = ac_satoshis (cs_change s ! j)" "t \<le> v" by (auto simp: in_basket_values)
  with d have "i \<le> j" by (meson not_le_imp_less)
  with j sorted_value_mono [OF assms(1)] show "ac_satoshis (cs_change s ! i) \<le> v" by simp
qed

lemma last_spendable_is_Max:
  assumes "sorted_pool s" and "rposition ac_spendable (cs_change s) = Some i"
  shows "ac_satoshis (cs_change s ! i) = Max (basket_values s)"
proof (rule Max_eqI [symmetric])
  note d = rposition_SomeD [OF assms(2)]
  show "finite (basket_values s)" by (simp add: basket_values_def)
  show "ac_satoshis (cs_change s ! i) \<in> basket_values s" using d by (auto simp: in_basket_values)
  fix v assume "v \<in> basket_values s"
  then obtain j where j: "j < length (cs_change s)" "ac_spendable (cs_change s ! j)"
    "v = ac_satoshis (cs_change s ! j)" by (auto simp: in_basket_values)
  with d have "j \<le> i" by (meson not_le_imp_less)
  with j d sorted_value_mono [OF assms(1)] show "v \<le> ac_satoshis (cs_change s ! i)" by simp
qed

lemma best_fit_value:
  assumes "sorted_pool s" and "\<forall>c \<in> set (cs_no_send_change s). \<not> ac_spendable c"
    and "allocate s t e = (Some r, s')"
  shows "ar_satoshis r =
    (if \<exists>x. e = Some x \<and> x \<in> basket_values s then the e
     else if \<exists>v \<in> basket_values s. t \<le> v then Min {v \<in> basket_values s. t \<le> v}
     else Max (basket_values s))"
proof -
  let ?exact = "case e of
      Some x \<Rightarrow> position (\<lambda>c. ac_spendable c \<and> ac_satoshis c = x) (cs_change s) | None \<Rightarrow> None"
  have none: "rposition ac_spendable (cs_no_send_change s) = None" using assms(2) by simp
  show ?thesis
  proof (cases ?exact)
    case (Some i)
    then obtain x where x: "e = Some x"
      "position (\<lambda>c. ac_spendable c \<and> ac_satoshis c = x) (cs_change s) = Some i"
      by (auto split: option.splits)
    with position_SomeD [OF x(2)] have "x \<in> basket_values s" "ar_satoshis r = x"
      using assms(3) by (auto simp: allocate_def none in_basket_values)
    with x(1) show ?thesis by simp
  next
    case None
    then have no_exact: "\<not> (\<exists>x. e = Some x \<and> x \<in> basket_values s)"
      by (auto simp: basket_values_def split: option.splits)
    show ?thesis
    proof (cases "position (\<lambda>c. ac_spendable c \<and> t \<le> ac_satoshis c) (cs_change s)")
      case (Some i)
      then have "\<exists>v \<in> basket_values s. t \<le> v"
        using position_SomeD [OF Some] unfolding Bex_def in_basket_values by blast
      moreover have "ar_satoshis r = ac_satoshis (cs_change s ! i)"
        using assms(3) by (auto simp: allocate_def none Some \<open>?exact = None\<close>)
      ultimately show ?thesis using no_exact first_fit_is_Min [OF assms(1) Some] by auto
    next
      case no_fit: None
      then have "\<not> (\<exists>v \<in> basket_values s. t \<le> v)" by (auto simp: basket_values_def)
      moreover obtain i where i: "rposition ac_spendable (cs_change s) = Some i"
        "ar_satoshis r = ac_satoshis (cs_change s ! i)"
        using assms(3)
        by (auto simp: allocate_def none no_fit \<open>?exact = None\<close> simp del: rposition_None_iff
            split: option.splits)
      ultimately show ?thesis using no_exact last_spendable_is_Max [OF assms(1) i(1)] by auto
    qed
  qed
qed

text \<open>The states of an allocator: the constructor, then any allocations and releases.\<close>

inductive allocator_state :: "change_storage \<Rightarrow> bool" where
  start: "allocator_state (with_no_send_change ns av)"
| allocated: "allocator_state s \<Longrightarrow> allocator_state (snd (allocate s t e))"
| released: "allocator_state s \<Longrightarrow> allocator_state (release s i)"

lemma allocator_state_sorted: "allocator_state s \<Longrightarrow> sorted_pool s"
  by (induction rule: allocator_state.induct)
    (simp_all add: sorted_pool_new sorted_pool_release sorted_pool_allocate [OF prod.collapse [symmetric]])

lemma allocate_no_send:
  assumes "\<exists>c \<in> set (cs_no_send_change s). ac_spendable c"
  shows "fst (allocate s t e) = Some (ref_of (last (filter ac_spendable (cs_no_send_change s))))"
proof -
  have last: "rposition P xs = Some i \<Longrightarrow> last (filter P xs) = xs ! i"
    for P :: "available_change \<Rightarrow> bool" and xs i
    by (induction xs arbitrary: i)
      (fastforce split: option.splits if_splits simp: filter_empty_conv dest: rposition_SomeD)+
  obtain i where i: "rposition ac_spendable (cs_no_send_change s) = Some i"
    using assms by (metis not_None_eq rposition_None_iff)
  then show ?thesis by (simp add: allocate_def last [OF i])
qed

lemma allocate_None: "fst (allocate s t e) = None \<Longrightarrow> \<forall>c \<in> set (pool s). \<not> ac_spendable c"
  by (rule allocate_cases [OF prod.collapse [symmetric, of "allocate s t e"]]) simp_all

text \<open>
  C27: In every state of the allocator, \<open>allocate\<close> returns nothing only when no coin is free. While
  a noSendChange coin is free it returns the last of them, whatever its value. Otherwise it returns a
  coin of exactly the requested value when the basket has one, else the smallest coin of at least the
  target, and only when no coin reaches the target the largest coin there is.
\<close>

theorem allocate_best_fit:
  assumes "allocator_state s"
  shows "case fst (allocate s t e) of
      None \<Rightarrow> \<forall>c \<in> set (pool s). \<not> ac_spendable c
    | Some r \<Rightarrow>
        if \<exists>c \<in> set (cs_no_send_change s). ac_spendable c
        then r = ref_of (last (filter ac_spendable (cs_no_send_change s)))
        else ar_satoshis r =
          (if \<exists>x. e = Some x \<and> x \<in> basket_values s then the e
           else if \<exists>v \<in> basket_values s. t \<le> v then Min {v \<in> basket_values s. t \<le> v}
           else Max (basket_values s))"
proof (cases "fst (allocate s t e)")
  case None
  then show ?thesis using allocate_None [OF None] by simp
next
  case (Some r)
  show ?thesis
  proof (cases "\<exists>c \<in> set (cs_no_send_change s). ac_spendable c")
    case True
    then show ?thesis using allocate_no_send [OF True, of t e] Some by simp
  next
    case False
    have "allocate s t e = (Some r, snd (allocate s t e))" using Some by (metis prod.collapse)
    from best_fit_value [OF allocator_state_sorted [OF assms] _ this] False
    show ?thesis unfolding Some option.case if_not_P [OF False] by blast
  qed
qed

definition example_pool :: change_storage where
  "example_pool = with_no_send_change [\<lparr>ac_output_id = 8, ac_satoshis = 50, ac_spendable = True\<rparr>]
     [\<lparr>ac_output_id = 1, ac_satoshis = 900, ac_spendable = True\<rparr>,
      \<lparr>ac_output_id = 2, ac_satoshis = 400, ac_spendable = False\<rparr>,
      \<lparr>ac_output_id = 3, ac_satoshis = 700, ac_spendable = True\<rparr>]"

theorem allocate_best_fit_witness:
  "allocator_state example_pool \<and> allocator_state (snd (allocate example_pool 0 None)) \<and>
   fst (allocate example_pool 0 None) = Some \<lparr>ar_output_id = 8, ar_satoshis = 50\<rparr> \<and>
   fst (allocate (snd (allocate example_pool 0 None)) 500 None) = Some \<lparr>ar_output_id = 3, ar_satoshis = 700\<rparr> \<and>
   (700 :: u64) = Min {v \<in> basket_values (snd (allocate example_pool 0 None)). 500 \<le> v}"
proof -
  let ?s = "snd (allocate example_pool 0 None)"
  have states: "allocator_state example_pool" "allocator_state ?s"
    by (simp_all add: example_pool_def allocator_state.intros)
  have ns: "\<not> (\<exists>c \<in> set (cs_no_send_change ?s). ac_spendable c)" by code_simp
  have bv: "basket_values ?s = {400, 700, 900}" by code_simp
  have a: "fst (allocate example_pool 0 None) = Some \<lparr>ar_output_id = 8, ar_satoshis = 50\<rparr>"
    "fst (allocate ?s 500 None) = Some \<lparr>ar_output_id = 3, ar_satoshis = 700\<rparr>" by code_simp+
  from allocate_best_fit [OF states(2), where t = 500 and e = None] ns bv states a show ?thesis by (simp split: if_splits)
qed

end
