(* ===== verification/GenerateChange.thy ===== *)
theory GenerateChange
  imports ChangeStorage
begin

text \<open>
  Change generation (\<open>generate_change_sdk_with_no_send\<close> in
  \<open>src/storage/methods/generate_change.rs\<close>): parameter validation, the fee arithmetic, the
  creation of the desired change outputs, the starvation loop with its funding, dropping and
  trimming loops, the adjustment of a max-possible output, and the distribution of the excess.
  Every loop of the source is a recursive function with a termination proof; the amounts are
  64-bit words that wrap as the release build does, and \<open>fee_excess\<close> is the signed reading of
  a 64-bit word as the code's \<open>as i64\<close> casts make it.
\<close>

section \<open>Data\<close>

record fixed_input =
  fi_satoshis :: u64
  fi_unlocking_script_length :: usize

record fixed_output =
  fo_satoshis :: u64
  fo_locking_script_length :: usize

record storage_fee_model =
  fee_model_name :: string
  fee_value :: u64

record change_args =
  fixed_inputs :: "fixed_input list"
  fixed_outputs :: "fixed_output list"
  fee_model :: storage_fee_model
  change_initial_satoshis :: u64
  change_first_satoshis :: u64
  change_locking_script_length :: usize
  change_unlocking_script_length :: usize
  target_net_count :: "int option"

record max_possible_adjustment =
  mp_fixed_output_index :: nat
  mp_satoshis :: u64

record change_result =
  cr_change_outputs :: "u64 list"
  cr_allocated_change_inputs :: "allocated_ref list"
  cr_size :: usize
  cr_fee :: u64
  cr_sats_per_kb :: u64
  cr_max_possible :: "max_possible_adjustment option"

section \<open>Validation and fee arithmetic\<close>

definition MAX_POSSIBLE_SATOSHIS :: u64 where
  "MAX_POSSIBLE_SATOSHIS = 2099999999999999"

text \<open>The scan over the fixed outputs, with the index of the current output.\<close>

fun find_max_possible :: "nat \<Rightarrow> fixed_output list \<Rightarrow> nat option \<Rightarrow> nat option wallet_result" where
  "find_max_possible i [] has_max = Ok has_max"
| "find_max_possible i (x # xs) has_max =
     (if fo_satoshis x = MAX_POSSIBLE_SATOSHIS then
        (if has_max \<noteq> None then
           Err (InvalidParameter (''fixed_outputs['' @ show_nat i @ ''].satoshis'')
             ''valid satoshis amount. Only one 'maxPossibleSatoshis' output allowed.'')
         else find_max_possible (Suc i) xs (Some i))
      else find_max_possible (Suc i) xs has_max)"

definition validate_params :: "change_args \<Rightarrow> nat option wallet_result" where
  "validate_params args =
     (if fee_model_name (fee_model args) \<noteq> ''sat/kb'' then
        Err (InvalidParameter ''fee_model.model'' (CHR 0x27 # ''sat/kb'' @ [CHR 0x27]))
      else find_max_possible 0 (fixed_outputs args) None)"

definition compute_size :: "change_args \<Rightarrow> nat \<Rightarrow> nat \<Rightarrow> nat \<Rightarrow> nat \<Rightarrow> usize" where
  "compute_size args allocated_len change_len added_inputs added_outputs =
     transaction_size
       (map fi_unlocking_script_length (fixed_inputs args) @
        replicate (allocated_len + added_inputs) (change_unlocking_script_length args))
       (map fo_locking_script_length (fixed_outputs args) @
        replicate (change_len + added_outputs) (change_locking_script_length args))"

definition fee_target :: "change_args \<Rightarrow> nat \<Rightarrow> nat \<Rightarrow> nat \<Rightarrow> nat \<Rightarrow> u64" where
  "fee_target args allocated_len change_len added_inputs added_outputs =
     div_ceil (compute_size args allocated_len change_len added_inputs added_outputs *
               fee_value (fee_model args)) 1000"

definition funding :: "change_args \<Rightarrow> allocated_ref list \<Rightarrow> u64" where
  "funding args allocated =
     sum_list (map fi_satoshis (fixed_inputs args)) + sum_list (map ar_satoshis allocated)"

definition spending :: "u64 list \<Rightarrow> u64" where
  "spending fixed_output_satoshis = sum_list fixed_output_satoshis"

definition change_total :: "u64 list \<Rightarrow> u64" where
  "change_total outputs = sum_list outputs"

definition fee_excess ::
    "change_args \<Rightarrow> allocated_ref list \<Rightarrow> u64 list \<Rightarrow> u64 list \<Rightarrow> nat \<Rightarrow> nat \<Rightarrow> i64" where
  "fee_excess args allocated change_outputs fixed_output_satoshis added_inputs added_outputs =
     funding args allocated - spending fixed_output_satoshis - change_total change_outputs -
     fee_target args (length allocated) (length change_outputs) added_inputs added_outputs"

definition release_all :: "allocated_ref list \<Rightarrow> change_storage \<Rightarrow> change_storage" where
  "release_all allocated storage =
     fold (\<lambda>input s. release s (ar_output_id input)) (rev allocated) storage"

section \<open>The loops\<close>

definition net_change_count :: "nat \<Rightarrow> nat \<Rightarrow> int" where
  "net_change_count co_len ai_len = int co_len - int ai_len"

definition should_add_output :: "change_args \<Rightarrow> nat \<Rightarrow> nat \<Rightarrow> bool" where
  "should_add_output args co_len ai_len =
     (case target_net_count args of
        None \<Rightarrow> False
      | Some tnc \<Rightarrow> net_change_count co_len ai_len - 1 < tnc)"

text \<open>The first loop: create the desired change outputs before any input is allocated.\<close>

function initial_outputs :: "change_args \<Rightarrow> u64 list \<Rightarrow> u64 list \<Rightarrow> u64 list" where
  "initial_outputs args fos outs =
     (if (case target_net_count args of
            None \<Rightarrow> False | Some tnc \<Rightarrow> tnc > net_change_count (length outs) 0)
         \<or> (outs = [] \<and> 0 < sint (fee_excess args [] outs fos 0 0))
      then initial_outputs args fos
             (outs @ [if outs = [] then change_first_satoshis args
                      else change_initial_satoshis args])
      else outs)"
  by pat_completeness auto
termination
  by (relation "measures [\<lambda>(args, fos, outs). if outs = [] then 1 else 0,
        \<lambda>(args, fos, outs). case target_net_count args of
          None \<Rightarrow> 0 | Some tnc \<Rightarrow> nat (tnc - int (length outs))]")
    (auto simp: net_change_count_def split: option.splits)

declare initial_outputs.simps [simp del]

text \<open>
  The inner funding loop: while underfunded, ask the allocator for one more coin, and add a
  change output when the coin leaves an excess.
\<close>

definition exact_satoshis :: "change_args \<Rightarrow> u64 list \<Rightarrow> allocated_ref list \<Rightarrow> u64 list \<Rightarrow> u64 option" where
  "exact_satoshis args fos allocated outs =
     (if target_net_count args = None \<and> outs = [] then
        (let deficit = - fee_excess args allocated outs fos 1 0
         in if 0 < sint deficit then Some deficit else None)
      else None)"

definition target_satoshis ::
    "change_args \<Rightarrow> u64 list \<Rightarrow> nat \<Rightarrow> allocated_ref list \<Rightarrow> u64 list \<Rightarrow> u64" where
  "target_satoshis args fos ao allocated outs =
     (let deficit = - fee_excess args allocated outs fos 1 ao;
          extra = (if ao = 1 then 2 * change_initial_satoshis args else 0)
      in if 0 < sint deficit then deficit + extra else extra)"

definition add_change_output ::
    "change_args \<Rightarrow> u64 list \<Rightarrow> bool \<Rightarrow> nat \<Rightarrow> allocated_ref list \<Rightarrow> u64 list \<Rightarrow> u64 list" where
  "add_change_output args fos removing_outputs ao allocated outs =
     (let current_excess = fee_excess args allocated outs fos 0 0
      in if \<not> removing_outputs \<and> 0 < sint current_excess \<and> (ao = 1 \<or> outs = [])
         then outs @ [min current_excess
                (if outs = [] then change_first_satoshis args else change_initial_satoshis args)]
         else outs)"

type_synonym fund_state = "change_storage \<times> allocated_ref list \<times> u64 list"

function fund_loop :: "change_args \<Rightarrow> u64 list \<Rightarrow> bool \<Rightarrow> fund_state \<Rightarrow> fund_state" where
  "fund_loop args fos removing_outputs (storage, allocated, outs) =
     (if sint (fee_excess args allocated outs fos 0 0) < 0 then
        (let exact = exact_satoshis args fos allocated outs;
             ao = (if should_add_output args (length outs) (length allocated) then 1 else 0);
             target = target_satoshis args fos ao allocated outs
         in case allocate storage target exact of
              (None, _) \<Rightarrow> (storage, allocated, outs)
            | (Some input, storage') \<Rightarrow>
                (let allocated' = allocated @ [input]
                 in fund_loop args fos removing_outputs
                      (storage', allocated', add_change_output args fos removing_outputs ao allocated' outs)))
      else (storage, allocated, outs))"
  by pat_completeness auto
termination
  by (relation "measure (\<lambda>(args, fos, rem, storage, allocated, outs). size (free_coins storage))")
    (auto dest!: sym [of "allocate _ _ _"] allocate_SomeD(1) simp: eq_commute [of "(Some _, _)"])

declare fund_loop.simps [simp del]

text \<open>Dropping change outputs, one at a time, until the transaction is funded or none remain.\<close>

function drop_outputs :: "change_args \<Rightarrow> u64 list \<Rightarrow> allocated_ref list \<Rightarrow> u64 list \<Rightarrow> u64 list" where
  "drop_outputs args fos allocated outs =
     (if outs \<noteq> [] \<and> sint (fee_excess args allocated outs fos 0 0) < 0
      then drop_outputs args fos allocated (butlast outs)
      else outs)"
  by pat_completeness auto
termination
  by (relation "measure (\<lambda>(args, fos, allocated, outs). length outs)") auto

declare drop_outputs.simps [simp del]

text \<open>Removing the change outputs that a single input pays for.\<close>

function trim_outputs :: "allocated_ref list \<Rightarrow> u64 list \<Rightarrow> u64 list" where
  "trim_outputs temp_inputs outs =
     (if 1 < length temp_inputs \<and> 1 < length outs then
        (case position (\<lambda>ci. ar_satoshis ci \<le> last outs) temp_inputs of
           None \<Rightarrow> outs
         | Some i \<Rightarrow> trim_outputs (take i temp_inputs @ drop (Suc i) temp_inputs) (butlast outs))
      else outs)"
  by pat_completeness auto
termination
  by (relation "measure (\<lambda>(temp_inputs, outs). length outs)") auto

declare trim_outputs.simps [simp del]

text \<open>
  The starvation loop terminates because after its first pass \<open>removing_outputs\<close> is set, so
  that funding adds no output any more, and every further pass drops at least one.
\<close>

lemma add_change_output_removing [simp]: "add_change_output args fos True ao allocated outs = outs"
  by (simp add: add_change_output_def)

lemma fund_loop_removing:
  "fund_loop args fos True (storage, allocated, outs) = (storage', allocated', outs') \<Longrightarrow> outs' = outs"
proof (induction "size (free_coins storage)" arbitrary: storage allocated rule: less_induct)
  case less
  from less.prems show ?case
    by (subst (asm) fund_loop.simps)
      (auto simp: Let_def dest!: allocate_SomeD(1) split: if_splits prod.splits option.splits
        intro!: less.hyps)
qed

lemma length_drop_outputs: "length (drop_outputs args fos allocated outs) \<le> length outs"
proof (induction args fos allocated outs rule: drop_outputs.induct)
  case (1 args fos allocated outs)
  have "length (butlast outs) \<le> length outs" by simp
  with 1 show ?case by (subst drop_outputs.simps) (auto intro: order_trans)
qed

lemma length_drop_outputs_less:
  assumes "outs \<noteq> []" and "sint (fee_excess args allocated outs fos 0 0) < 0"
  shows "length (drop_outputs args fos allocated outs) < length outs"
proof -
  have "drop_outputs args fos allocated outs = drop_outputs args fos allocated (butlast outs)"
    using assms by (subst drop_outputs.simps) simp
  also have "length \<dots> \<le> length (butlast outs)" by (rule length_drop_outputs)
  also have "\<dots> < length outs" using assms(1) by simp
  finally show ?thesis .
qed

lemma length_trim_outputs: "length (trim_outputs temp_inputs outs) \<le> length outs"
proof (induction temp_inputs outs rule: trim_outputs.induct)
  case (1 temp_inputs outs)
  then show ?case
    by (subst trim_outputs.simps) (fastforce split: option.splits)
qed

function starvation_loop :: "change_args \<Rightarrow> u64 list \<Rightarrow> bool \<Rightarrow> fund_state \<Rightarrow> fund_state" where
  "starvation_loop args fos removing_outputs (storage, allocated, outs) =
     (case fund_loop args fos removing_outputs (release_all allocated storage, [], outs) of
        (storage1, allocated1, outs1) \<Rightarrow>
          if 0 \<le> sint (fee_excess args allocated1 outs1 fos 0 0) \<or> outs1 = []
          then (storage1, allocated1, outs1)
          else let outs2 = drop_outputs args fos allocated1 outs1
               in if sint (fee_excess args allocated1 outs2 fos 0 0) < 0
                  then (storage1, allocated1, outs2)
                  else starvation_loop args fos True
                         (storage1, allocated1, trim_outputs allocated1 outs2))"
  by pat_completeness auto
termination
proof (relation "measures [\<lambda>(args, fos, removing, st). if removing then 0 else 1,
      \<lambda>(args, fos, removing, storage, allocated, outs). length outs]", goal_cases)
  case 1
  then show ?case by simp
next
  case (2 args fos removing storage allocated outs storage1 y allocated1 outs1 outs2)
  have "length (trim_outputs allocated1 outs2) \<le> length outs2" by (rule length_trim_outputs)
  also have "length outs2 < length outs1"
    unfolding 2 using 2 by (intro length_drop_outputs_less) auto
  finally have "length (trim_outputs allocated1 outs2) < length outs1" .
  then show ?case
    using fund_loop_removing [of args fos "release_all allocated storage" "[]" outs] 2(1,2)
    by (auto dest: sym)
qed

declare starvation_loop.simps [simp del]

text \<open>The distribution of the excess over the change outputs.\<close>

definition excess_share :: "change_args \<Rightarrow> u64 \<Rightarrow> i64 \<Rightarrow> u64" where
  "excess_share args first fe =
     (if first < change_initial_satoshis args
      then min fe (change_initial_satoshis args - first)
      else max 1 (fe div 2))"

lemma excess_share_bounds:
  assumes "0 < sint fe"
  shows "0 < excess_share args first fe" and "excess_share args first fe \<le> fe"
proof -
  from assms have fe: "0 < fe"
    using sint_nonneg_uint [of fe] by (simp add: word_less_def)
  have one: "1 \<le> fe" using fe by (simp add: word_le_nat_alt word_less_nat_alt)
  have half: "fe div 2 \<le> fe"
    by (simp add: word_le_nat_alt unat_div)
  have sub: "0 < change_initial_satoshis args - first" if "first < change_initial_satoshis args"
    using that by (simp add: word_less_nat_alt unat_sub_if' )
  show "0 < excess_share args first fe"
    using fe sub by (auto simp: excess_share_def min_def max_def word_gt_0)
  show "excess_share args first fe \<le> fe"
    using one half by (simp add: excess_share_def)
qed

function distribute_excess :: "change_args \<Rightarrow> u64 list \<Rightarrow> i64 \<Rightarrow> u64 list \<times> i64" where
  "distribute_excess args outs fe =
     (if outs \<noteq> [] \<and> 0 < sint fe then
        (if length outs = 1 then distribute_excess args [hd outs + fe] 0
         else let sats = excess_share args (hd outs) fe
              in distribute_excess args ((hd outs + sats) # tl outs) (fe - sats))
      else (outs, fe))"
  by pat_completeness auto
termination
proof (relation "measure (\<lambda>(args, outs, fe). unat fe)", goal_cases)
  case (3 args outs fe sats)
  then show ?case
    using excess_share_bounds [of fe args "hd outs"]
    by (simp add: unat_sub word_less_nat_alt word_le_nat_alt)
next
  case (2 args outs fe)
  then show ?case by (cases "fe = 0") (auto simp: word_less_nat_alt unat_gt_0)
qed simp

declare distribute_excess.simps [simp del]

section \<open>The whole algorithm\<close>

text \<open>Phase one: create the desired outputs, then fund them in the starvation loop.\<close>

definition fund_change ::
    "change_args \<Rightarrow> available_change list \<Rightarrow> available_change list \<Rightarrow> u64 list \<Rightarrow> fund_state" where
  "fund_change args no_send_change available_change fos =
     starvation_loop args fos False
       (with_no_send_change no_send_change available_change, [], initial_outputs args fos [])"

text \<open>Phase two: an underfunded transaction with a max-possible output gives up the deficit there.\<close>

definition adjust_max_possible ::
    "change_args \<Rightarrow> nat option \<Rightarrow> allocated_ref list \<Rightarrow> u64 list \<Rightarrow> u64 list \<Rightarrow>
      (u64 list \<times> i64 \<times> max_possible_adjustment option) wallet_result" where
  "adjust_max_possible args has_max allocated outs fos =
     (let fe = fee_excess args allocated outs fos 0 0
      in if sint fe < 0 then
           (case has_max of
              Some idx \<Rightarrow>
                if fos ! idx \<noteq> MAX_POSSIBLE_SATOSHIS then
                  Err (Internal ''maxPossibleSatoshis output changed unexpectedly'')
                else (let adjusted = fos ! idx + fe; fos' = fos[idx := adjusted]
                      in Ok (fos', fee_excess args allocated outs fos' 0 0,
                             Some \<lparr>mp_fixed_output_index = idx, mp_satoshis = adjusted\<rparr>))
            | None \<Rightarrow> Ok (fos, fe, None))
         else Ok (fos, fe, None))"

text \<open>Phase three: the two insufficient-funds exits.\<close>

definition check_funded ::
    "change_args \<Rightarrow> allocated_ref list \<Rightarrow> u64 list \<Rightarrow> u64 list \<Rightarrow> i64 \<Rightarrow> unit wallet_result" where
  "check_funded args allocated outs fos fe =
     (let total_needed = spending fos + fee_target args (length allocated) (length outs) 0 0
      in if sint fe < 0 then
           Err (InsufficientFunds
             (''Insufficient funds: need '' @ show_int (sint (- fe)) @ '' more satoshis'')
             (sint total_needed) (sint (- fe)))
         else if outs = [] \<and> 0 < sint fe then
           Err (InsufficientFunds ''Insufficient funds: need change output''
             (sint total_needed) (sint (change_first_satoshis args)))
         else Ok ())"

text \<open>Phase four: distribute the excess, recompute the fee and compare it with the target.\<close>

definition finish_change ::
    "change_args \<Rightarrow> allocated_ref list \<Rightarrow> u64 list \<Rightarrow> u64 list \<Rightarrow> i64 \<Rightarrow>
      max_possible_adjustment option \<Rightarrow> change_result wallet_result" where
  "finish_change args allocated outs fos fe adj =
     (let outs' = fst (distribute_excess args outs fe);
          final_size = compute_size args (length allocated) (length outs') 0 0;
          actual_fee = funding args allocated - spending fos - change_total outs';
          expected_fee = fee_target args (length allocated) (length outs') 0 0
      in if actual_fee \<noteq> expected_fee then
           Err (Internal (''generateChangeSdk error: required fee error '' @
             show_nat (unat expected_fee) @ '' !== '' @ show_nat (unat actual_fee)))
         else Ok \<lparr>cr_change_outputs = outs', cr_allocated_change_inputs = allocated,
                  cr_size = final_size, cr_fee = actual_fee,
                  cr_sats_per_kb = fee_value (fee_model args), cr_max_possible = adj\<rparr>)"

definition generate_change_sdk_with_no_send ::
    "change_args \<Rightarrow> available_change list \<Rightarrow> available_change list \<Rightarrow> change_result wallet_result" where
  "generate_change_sdk_with_no_send args no_send_change available_change =
     bind_result (validate_params args) (\<lambda>has_max.
       (case fund_change args no_send_change available_change (map fo_satoshis (fixed_outputs args)) of
          (storage, allocated, outs) \<Rightarrow>
            bind_result
              (adjust_max_possible args has_max allocated outs (map fo_satoshis (fixed_outputs args)))
              (\<lambda>(fos, fe, adj).
                 bind_result (check_funded args allocated outs fos fe)
                   (\<lambda>_. finish_change args allocated outs fos fe adj))))"

definition generate_change_sdk ::
    "change_args \<Rightarrow> available_change list \<Rightarrow> change_result wallet_result" where
  "generate_change_sdk args available_change =
     generate_change_sdk_with_no_send args [] available_change"

section \<open>The distribution loop\<close>

lemma distribute_excess_inv:
  "distribute_excess args outs fe = (outs', fe') \<Longrightarrow>
     length outs' = length outs \<and> change_total outs' + fe' = change_total outs + fe \<and>
     (outs \<noteq> [] \<longrightarrow> 0 \<le> sint fe \<longrightarrow> fe' = 0)"
proof (induction args outs fe arbitrary: outs' fe' rule: distribute_excess.induct)
  case (1 args outs fe)
  show ?case
  proof (cases "outs \<noteq> [] \<and> 0 < sint fe")
    case False
    with 1(3) have "outs' = outs" "fe' = fe" by (auto simp: distribute_excess.simps [of args outs fe])
    moreover from False have "outs \<noteq> [] \<longrightarrow> 0 \<le> sint fe \<longrightarrow> sint fe = 0" by auto
    ultimately show ?thesis by (simp add: sint_eq_0_iff)
  next
    case True
    then obtain x xs where outs: "outs = x # xs" by (cases outs) auto
    show ?thesis
    proof (cases "length outs = 1")
      case one: True
      with 1(3) True have "distribute_excess args [hd outs + fe] 0 = (outs', fe')"
        by (simp add: distribute_excess.simps [of args outs fe])
      from 1(1) [OF True one this] one show ?thesis by (auto simp: change_total_def outs)
    next
      case more: False
      define sats where "sats = excess_share args (hd outs) fe"
      have rec: "distribute_excess args ((hd outs + sats) # tl outs) (fe - sats) = (outs', fe')"
        using 1(3) True more by (simp add: distribute_excess.simps [of args outs fe] sats_def Let_def)
      have "0 \<le> sint (fe - sats)"
        unfolding sats_def using True by (intro sint_diff_pos(2) excess_share_bounds(2)) simp_all
      with 1(2) [OF True more sats_def rec] show ?thesis by (auto simp: change_total_def outs ac_simps)
    qed
  qed
qed

lemma finish_change_ok:
  assumes "check_funded args allocated outs fos fe = Ok ()"
    and "fe = fee_excess args allocated outs fos 0 0"
  obtains outs' where
    "finish_change args allocated outs fos fe adj =
       Ok \<lparr>cr_change_outputs = outs', cr_allocated_change_inputs = allocated,
          cr_size = compute_size args (length allocated) (length outs') 0 0,
          cr_fee = fee_target args (length allocated) (length outs') 0 0,
          cr_sats_per_kb = fee_value (fee_model args), cr_max_possible = adj\<rparr>"
    "length outs' = length outs"
    "funding args allocated = spending fos + change_total outs' +
       fee_target args (length allocated) (length outs') 0 0"
proof -
  obtain outs' fe' where d: "distribute_excess args outs fe = (outs', fe')" by force
  note inv = distribute_excess_inv [OF d]
  from assms(1) have nonneg: "0 \<le> sint fe" and "outs = [] \<Longrightarrow> sint fe = 0"
    by (auto simp: check_funded_def Let_def split: if_splits)
  then have "outs = [] \<Longrightarrow> fe = 0" by (simp add: sint_eq_0_iff)
  then have "fe' = 0" using inv nonneg d by (auto simp: distribute_excess.simps [of args "[]"])
  with inv have "change_total outs' = change_total outs + fe" by simp
  with assms(2) inv have bal: "funding args allocated - spending fos - change_total outs' =
      fee_target args (length allocated) (length outs') 0 0"
    by (simp add: fee_excess_def)
  show thesis
  proof (rule that)
    show "finish_change args allocated outs fos fe adj =
       Ok \<lparr>cr_change_outputs = outs', cr_allocated_change_inputs = allocated,
          cr_size = compute_size args (length allocated) (length outs') 0 0,
          cr_fee = fee_target args (length allocated) (length outs') 0 0,
          cr_sats_per_kb = fee_value (fee_model args), cr_max_possible = adj\<rparr>"
      by (simp add: finish_change_def d bal)
    show "length outs' = length outs" using inv by simp
    show "funding args allocated = spending fos + change_total outs' +
       fee_target args (length allocated) (length outs') 0 0"
      using bal by (simp add: algebra_simps)
  qed
qed

section \<open>Validation\<close>

lemma find_max_possible_bounds:
  assumes "find_max_possible i xs h = Ok (Some k)"
  shows "h = Some k \<or> (i \<le> k \<and> k < i + length xs \<and> fo_satoshis (xs ! (k - i)) = MAX_POSSIBLE_SATOSHIS)"
  using assms
proof (induction i xs h rule: find_max_possible.induct)
  case (1 i has_max)
  then show ?case by simp
next
  case (2 i x xs has_max)
  show ?case
  proof (cases "fo_satoshis x = MAX_POSSIBLE_SATOSHIS")
    case True
    with 2 have "Some i = Some k \<or> (Suc i \<le> k \<and> k < Suc i + length xs \<and>
        fo_satoshis (xs ! (k - Suc i)) = MAX_POSSIBLE_SATOSHIS)"
      by (auto split: if_splits)
    with True show ?thesis by (auto simp: nth_Cons' Suc_diff_Suc)
  next
    case False
    with 2 have "has_max = Some k \<or> (Suc i \<le> k \<and> k < Suc i + length xs \<and>
        fo_satoshis (xs ! (k - Suc i)) = MAX_POSSIBLE_SATOSHIS)"
      by auto
    then show ?thesis by (auto simp: nth_Cons' Suc_diff_Suc)
  qed
qed

lemma validate_params_max:
  assumes "validate_params args = Ok (Some k)"
  shows "k < length (fixed_outputs args)"
    and "map fo_satoshis (fixed_outputs args) ! k = MAX_POSSIBLE_SATOSHIS"
  using find_max_possible_bounds [of 0 "fixed_outputs args" None k] assms
  by (auto simp: validate_params_def split: if_splits)

lemma validate_params_not_internal: "validate_params args \<noteq> Err (Internal m)"
proof -
  have "find_max_possible i xs h \<noteq> Err (Internal m)" for i xs h
    by (induction i xs h rule: find_max_possible.induct) auto
  then show ?thesis by (simp add: validate_params_def)
qed

text \<open>After phase two the tracked excess is the excess of the adjusted outputs.\<close>

lemma adjust_max_possible_ok:
  assumes "validate_params args = Ok has_max"
  obtains fos' adj where
    "adjust_max_possible args has_max allocated outs (map fo_satoshis (fixed_outputs args)) =
       Ok (fos', fee_excess args allocated outs fos' 0 0, adj)"
    "fos' = (case adj of None \<Rightarrow> map fo_satoshis (fixed_outputs args)
       | Some a \<Rightarrow> (map fo_satoshis (fixed_outputs args))[mp_fixed_output_index a := mp_satoshis a])"
proof (cases has_max)
  case None
  then show thesis by (intro that [of _ None]) (auto simp: adjust_max_possible_def Let_def)
next
  case (Some idx)
  with assms have "map fo_satoshis (fixed_outputs args) ! idx = MAX_POSSIBLE_SATOSHIS"
    using validate_params_max(2) by simp
  with Some that show thesis
    by (cases "sint (fee_excess args allocated outs (map fo_satoshis (fixed_outputs args)) 0 0) < 0")
      (force simp: adjust_max_possible_def Let_def)+
qed

text \<open>An adjusted transaction has no excess left; an unadjusted one keeps its outputs.\<close>

lemma sum_list_update_word:
  "k < length xs \<Longrightarrow> sum_list (xs[k := v]) = sum_list xs - xs ! k + (v :: u64)"
  by (induction xs arbitrary: k) (auto split: nat.splits simp: algebra_simps)

lemma adjusted_excess_zero:
  assumes "validate_params args = Ok has_max"
    and "adjust_max_possible args has_max allocated outs (map fo_satoshis (fixed_outputs args)) =
      Ok (fos, fe, adj)"
  shows "fos = map fo_satoshis (fixed_outputs args) \<or> fe = 0"
proof (cases adj)
  case None
  then show ?thesis using assms(2)
    by (auto simp: adjust_max_possible_def Let_def split: if_splits option.splits)
next
  case (Some a)
  let ?f = "map fo_satoshis (fixed_outputs args)"
  from Some assms(2) obtain k where k: "has_max = Some k"
    "fos = ?f[k := ?f ! k + fee_excess args allocated outs ?f 0 0]"
    "fe = fee_excess args allocated outs fos 0 0"
    by (auto simp: adjust_max_possible_def Let_def split: if_splits option.splits)
  from assms(1) k(1) have "k < length ?f" using validate_params_max(1) by simp
  then have "spending fos = spending ?f + fee_excess args allocated outs ?f 0 0"
    unfolding k(2) spending_def by (simp add: sum_list_update_word)
  then show ?thesis unfolding k(3) by (simp add: fee_excess_def)
qed

section \<open>Correctness of the result\<close>

text \<open>The fixed output amounts a result stands for: the requested ones, with the adjustment applied.\<close>

definition final_outputs :: "change_args \<Rightarrow> change_result \<Rightarrow> u64 list" where
  "final_outputs args r =
     (case cr_max_possible r of
        None \<Rightarrow> map fo_satoshis (fixed_outputs args)
      | Some a \<Rightarrow> (map fo_satoshis (fixed_outputs args))[mp_fixed_output_index a := mp_satoshis a])"

lemma generate_change_cases:
  assumes "validate_params args = Ok has_max"
    and "fund_change args ns av (map fo_satoshis (fixed_outputs args)) = (storage, allocated, outs)"
  obtains
    (insufficient) fos adj e where
      "generate_change_sdk_with_no_send args ns av = Err e"
      "check_funded args allocated outs fos (fee_excess args allocated outs fos 0 0) = Err e"
      "adjust_max_possible args has_max allocated outs (map fo_satoshis (fixed_outputs args)) =
         Ok (fos, fee_excess args allocated outs fos 0 0, adj)"
  | (ok) fos adj outs' where
      "generate_change_sdk_with_no_send args ns av =
       Ok \<lparr>cr_change_outputs = outs', cr_allocated_change_inputs = allocated,
          cr_size = compute_size args (length allocated) (length outs') 0 0,
          cr_fee = fee_target args (length allocated) (length outs') 0 0,
          cr_sats_per_kb = fee_value (fee_model args), cr_max_possible = adj\<rparr>"
      "length outs' = length outs"
      "funding args allocated = spending fos + change_total outs' +
         fee_target args (length allocated) (length outs') 0 0"
      "fos = (case adj of None \<Rightarrow> map fo_satoshis (fixed_outputs args)
         | Some a \<Rightarrow> (map fo_satoshis (fixed_outputs args))[mp_fixed_output_index a := mp_satoshis a])"
proof -
  obtain fos adj where adj:
    "adjust_max_possible args has_max allocated outs (map fo_satoshis (fixed_outputs args)) =
       Ok (fos, fee_excess args allocated outs fos 0 0, adj)"
    "fos = (case adj of None \<Rightarrow> map fo_satoshis (fixed_outputs args)
       | Some a \<Rightarrow> (map fo_satoshis (fixed_outputs args))[mp_fixed_output_index a := mp_satoshis a])"
    by (rule adjust_max_possible_ok [OF assms(1)])
  let ?chk = "check_funded args allocated outs fos (fee_excess args allocated outs fos 0 0)"
  show thesis
  proof (cases ?chk)
    case (Inl e)
    then have "generate_change_sdk_with_no_send args ns av = Err e"
      by (simp add: generate_change_sdk_with_no_send_def assms adj(1))
    from insufficient [OF this Inl adj(1)] show thesis .
  next
    case (Inr u)
    then have chk: "?chk = Ok ()" by simp
    from finish_change_ok [OF chk refl, of adj] obtain outs' where o:
      "finish_change args allocated outs fos (fee_excess args allocated outs fos 0 0) adj =
       Ok \<lparr>cr_change_outputs = outs', cr_allocated_change_inputs = allocated,
          cr_size = compute_size args (length allocated) (length outs') 0 0,
          cr_fee = fee_target args (length allocated) (length outs') 0 0,
          cr_sats_per_kb = fee_value (fee_model args), cr_max_possible = adj\<rparr>"
      "length outs' = length outs"
      "funding args allocated = spending fos + change_total outs' +
         fee_target args (length allocated) (length outs') 0 0" .
    show thesis
      by (rule ok [OF _ o(2,3) adj(2)])
        (simp add: generate_change_sdk_with_no_send_def assms adj(1) chk o(1))
  qed
qed

section \<open>Coins through the loops\<close>

text \<open>The allocated inputs are exactly the coins the allocator holds as taken.\<close>

definition coins_ok :: "change_storage \<Rightarrow> allocated_ref list \<Rightarrow> bool" where
  "coins_ok storage allocated \<longleftrightarrow> distinct_ids storage \<and> mset allocated = taken_coins storage"

lemma pool_refs_mset: "mset (pool_refs s) = free_coins s + taken_coins s"
proof -
  have "mset (map ref_of xs) =
      mset (map ref_of (filter ac_spendable xs)) + mset (map ref_of (filter (\<lambda>c. \<not> ac_spendable c) xs))"
    for xs :: "available_change list" by (induction xs) auto
  from this [of "pool s"] show ?thesis unfolding pool_refs_def free_coins_def taken_coins_def .
qed

lemma coins_ok_release_all:
  assumes "coins_ok storage allocated"
  shows "coins_ok (release_all allocated storage) []"
    and "mset (pool_refs (release_all allocated storage)) = mset (pool_refs storage)"
proof -
  from assms have inv: "distinct_ids storage" and t: "mset (rev allocated) = taken_coins storage"
    by (simp_all add: coins_ok_def)
  note r = cs.rel_all_taken [OF inv t, folded release_all_def]
  from r(1,3) show "coins_ok (release_all allocated storage) []" by (simp add: coins_ok_def)
  from r(1,2) show "mset (pool_refs (release_all allocated storage)) = mset (pool_refs storage)"
    by (simp add: pool_refs_mset)
qed

lemma coins_ok_allocate:
  assumes "coins_ok storage allocated" and "allocate storage t e = (Some r, storage')"
  shows "coins_ok storage' (allocated @ [r])" and "pool_refs storage' = pool_refs storage"
  using assms allocate_SomeD [OF assms(2)] allocate_distinct_ids [OF assms(2)]
  by (simp_all add: coins_ok_def)

lemma fund_loop_inv:
  assumes "coins_ok storage allocated"
    and "fund_loop args fos rem (storage, allocated, outs) = (storage', allocated', outs')"
  shows "coins_ok storage' allocated' \<and> mset (pool_refs storage') = mset (pool_refs storage) \<and>
    (0 \<le> sint (fee_excess args allocated' outs' fos 0 0) \<or> free_coins storage' = {#})"
  using assms
proof (induction "size (free_coins storage)" arbitrary: storage allocated outs rule: less_induct)
  case less
  define ao :: nat where
    "ao = (if should_add_output args (length outs) (length allocated) then 1 else 0)"
  define target where "target = target_satoshis args fos ao allocated outs"
  define exact where "exact = exact_satoshis args fos allocated outs"
  show ?case
  proof (cases "sint (fee_excess args allocated outs fos 0 0) < 0")
    case False
    with less.prems show ?thesis by (subst (asm) fund_loop.simps) auto
  next
    case short: True
    obtain r s' where alloc: "allocate storage target exact = (r, s')" by force
    show ?thesis
    proof (cases r)
      case None
      then have "(storage', allocated', outs') = (storage, allocated, outs)"
        using less.prems(2) short alloc unfolding ao_def target_def exact_def
        by (subst (asm) fund_loop.simps) (simp add: Let_def)
      with less.prems(1) allocate_NoneD alloc None show ?thesis by auto
    next
      case (Some input)
      note a = alloc [unfolded Some]
      have rec: "fund_loop args fos rem (s', allocated @ [input],
          add_change_output args fos rem ao (allocated @ [input]) outs) = (storage', allocated', outs')"
        using less.prems(2) short a unfolding ao_def target_def exact_def
        by (subst (asm) fund_loop.simps) (simp add: Let_def)
      have "size (free_coins s') < size (free_coins storage)"
        using allocate_SomeD(1) [OF a] by simp
      from less.hyps [OF this coins_ok_allocate(1) [OF less.prems(1) a] rec] show ?thesis
        by (simp add: coins_ok_allocate(2) [OF less.prems(1) a])
    qed
  qed
qed

lemma drop_outputs_short:
  "sint (fee_excess args allocated (drop_outputs args fos allocated outs) fos 0 0) < 0 \<Longrightarrow>
     drop_outputs args fos allocated outs = []"
proof (induction args fos allocated outs rule: drop_outputs.induct)
  case (1 args fos allocated outs)
  show ?case
  proof (cases "outs \<noteq> [] \<and> sint (fee_excess args allocated outs fos 0 0) < 0")
    case True
    with 1 show ?thesis by (simp add: drop_outputs.simps [of args fos allocated outs])
  next
    case False
    then have "drop_outputs args fos allocated outs = outs"
      by (auto simp: drop_outputs.simps [of args fos allocated outs])
    with 1(2) False show ?thesis by auto
  qed
qed

lemma starvation_loop_inv:
  assumes "coins_ok storage allocated"
    and "starvation_loop args fos rem (storage, allocated, outs) = (storage', allocated', outs')"
  shows "coins_ok storage' allocated' \<and> mset (pool_refs storage') = mset (pool_refs storage) \<and>
    (0 \<le> sint (fee_excess args allocated' outs' fos 0 0) \<or> free_coins storage' = {#} \<and> outs' = [])"
  using assms
proof (induction args fos rem "(storage, allocated, outs)" arbitrary: storage allocated outs
    rule: starvation_loop.induct)
  case (1 args fos rem storage allocated outs)
  obtain s1 a1 o1 where f:
    "fund_loop args fos rem (release_all allocated storage, [], outs) = (s1, a1, o1)"
    using prod_cases3 by blast
  note r = coins_ok_release_all [OF 1(2)]
  note inv = fund_loop_inv [OF r(1) f, unfolded r(2)]
  define o2 where "o2 = drop_outputs args fos a1 o1"
  show ?case
  proof (cases "0 \<le> sint (fee_excess args a1 o1 fos 0 0) \<or> o1 = []")
    case True
    with 1(3) f inv show ?thesis by (auto simp: starvation_loop.simps [of args fos rem])
  next
    case short: False
    then have free: "free_coins s1 = {#}" using inv by simp
    show ?thesis
    proof (cases "sint (fee_excess args a1 o2 fos 0 0) < 0")
      case True
      then have "(storage', allocated', outs') = (s1, a1, o2)"
        using 1(3) f short by (auto simp: starvation_loop.simps [of args fos rem] o2_def Let_def)
      with True inv free drop_outputs_short [of args a1 fos o1] show ?thesis by (simp add: o2_def)
    next
      case False
      then have rec: "starvation_loop args fos True (s1, a1, trim_outputs a1 o2) =
          (storage', allocated', outs')"
        using 1(3) f short by (simp add: starvation_loop.simps [of args fos rem] o2_def Let_def)
      from 1(1) [OF f [symmetric] refl short o2_def False _ rec] inv show ?thesis by simp
    qed
  qed
qed

lemma pool_refs_new: "mset (pool_refs (with_no_send_change ns av)) = mset (map ref_of (ns @ av))"
proof -
  have [simp]: "ref_of (fresh_change c) = ref_of c" for c
    by (simp add: fresh_change_def ref_of_def)
  show ?thesis by (simp add: coin_defs with_no_send_change_def multiset.map_comp o_def)
qed

lemma coins_ok_new:
  assumes "distinct (map ac_output_id (ns @ av))"
  shows "coins_ok (with_no_send_change ns av) []"
proof -
  let ?s = "with_no_send_change ns av"
  have all: "\<forall>c \<in> set (pool ?s). ac_spendable c"
    by (auto simp: pool_def with_no_send_change_def fresh_change_def)
  have "mset (map ar_output_id (pool_refs ?s)) = image_mset ar_output_id (mset (pool_refs ?s))"
    by simp
  also have "\<dots> = mset (map ac_output_id (ns @ av))"
    by (simp only: pool_refs_new) (simp add: multiset.map_comp o_def)
  finally have "distinct_ids ?s"
    unfolding distinct_ids_def by (metis assms mset_eq_imp_distinct_iff)
  moreover have "taken_coins ?s = {#}"
    using all by (simp add: taken_coins_def filter_mset_eq_conv filter_empty_conv flip: mset_filter)
  ultimately show "coins_ok ?s []" by (simp add: coins_ok_def)
qed

lemma fund_change_short:
  assumes "distinct (map ac_output_id (ns @ av))"
    and "fund_change args ns av fos = (storage, allocated, outs)"
    and "sint (fee_excess args allocated outs fos 0 0) < 0"
  shows "outs = [] \<and> mset allocated = mset (map ref_of (ns @ av))"
proof -
  note i = starvation_loop_inv [OF coins_ok_new [OF assms(1)] assms(2) [unfolded fund_change_def], unfolded pool_refs_new]
  then have "mset (map ref_of (ns @ av)) = free_coins storage + mset allocated"
    by (simp add: pool_refs_mset coins_ok_def)
  then show ?thesis using i assms(3) by auto
qed

text \<open>
  Also when the same coin is offered twice, no coin is allocated more often than it is offered:
  the allocated and the free coins together are always among the coins of the pool.
\<close>

definition within_pool :: "change_storage \<Rightarrow> allocated_ref list \<Rightarrow> bool" where
  "within_pool s a \<longleftrightarrow> mset a + free_coins s \<subseteq># mset (pool_refs s)"

lemma within_pool_Nil: "within_pool s []"
  by (simp add: within_pool_def pool_refs_mset)

lemma within_pool_allocate:
  "within_pool s a \<Longrightarrow> allocate s t e = (Some r, s') \<Longrightarrow> within_pool s' (a @ [r]) \<and> pool_refs s' = pool_refs s"
  using allocate_SomeD [of s t e r s'] by (simp add: within_pool_def)

lemma pool_refs_release [simp]: "pool_refs (release s i) = pool_refs s"
  by (auto simp: release_def coin_defs split: option.splits dest!: position_SomeD)

lemma pool_refs_release_all [simp]: "pool_refs (release_all allocated s) = pool_refs s"
proof -
  have "pool_refs (fold (\<lambda>input s. release s (ar_output_id input)) xs s) = pool_refs s" for xs
    by (induction xs arbitrary: s) simp_all
  then show ?thesis by (simp add: release_all_def)
qed

lemma fund_loop_within:
  "fund_loop args fos rem (s, a, outs) = (s', a', outs') \<Longrightarrow> within_pool s a \<Longrightarrow>
     within_pool s' a' \<and> pool_refs s' = pool_refs s"
proof (induction "size (free_coins s)" arbitrary: s a outs rule: less_induct)
  case less
  show ?case
  proof (cases "sint (fee_excess args a outs fos 0 0) < 0")
    case False
    then show ?thesis using less.prems by (auto simp: fund_loop.simps [of args fos rem s])
  next
    case True
    let ?ao = "if should_add_output args (length outs) (length a) then 1 else 0"
    obtain r s1 where al: "allocate s (target_satoshis args fos ?ao a outs) (exact_satoshis args fos a outs) = (r, s1)"
      by fastforce
    show ?thesis
    proof (cases r)
      case None
      then show ?thesis using less.prems True al by (auto simp: fund_loop.simps [of args fos rem s] Let_def)
    next
      case (Some x)
      have "fund_loop args fos rem (s1, a @ [x], add_change_output args fos rem ?ao (a @ [x]) outs) = (s', a', outs')"
        using less.prems(1) True al Some by (simp add: fund_loop.simps [of args fos rem s] Let_def)
      from less.hyps [OF _ this] within_pool_allocate [OF less.prems(2) al [unfolded Some]]
        allocate_SomeD(1) [OF al [unfolded Some]] show ?thesis by auto
    qed
  qed
qed

lemma starvation_loop_within:
  "starvation_loop args fos rem (s, a, outs) = (s', a', outs') \<Longrightarrow> mset a' \<subseteq># mset (pool_refs s)"
proof (induction args fos rem "(s, a, outs)" arbitrary: s a outs rule: starvation_loop.induct)
  case (1 args fos rem s a outs)
  obtain s1 a1 outs1 where f: "fund_loop args fos rem (release_all a s, [], outs) = (s1, a1, outs1)"
    using prod_cases3 by blast
  have p: "mset a1 \<subseteq># mset (pool_refs s1)" "pool_refs s1 = pool_refs s"
    using fund_loop_within [OF f within_pool_Nil]
    by (auto simp: within_pool_def intro: subset_mset.order_trans [OF mset_subset_eq_add_left])
  show ?case
    using 1(2) p 1(1) [OF f [symmetric] refl]
    by (auto simp: starvation_loop.simps [of args fos rem s] f Let_def split: if_splits)
qed

lemma fund_change_within:
  "fund_change args ns av fos = (s, a, outs) \<Longrightarrow> mset a \<subseteq># mset (map ref_of (ns @ av))"
  using starvation_loop_within [of args fos False "with_no_send_change ns av"]
  by (fastforce simp: fund_change_def pool_refs_new)

lemma generate_change_within:
  assumes "generate_change_sdk_with_no_send args ns av = Ok r"
  shows "mset (cr_allocated_change_inputs r) \<subseteq># mset (map ref_of (ns @ av))"
proof -
  from assms obtain has_max where v: "validate_params args = Ok has_max"
    by (auto simp: generate_change_sdk_with_no_send_def)
  obtain s a outs where f: "fund_change args ns av (map fo_satoshis (fixed_outputs args)) = (s, a, outs)"
    using prod_cases3 by blast
  have "cr_allocated_change_inputs r = a"
    by (rule generate_change_cases [OF v f]) (use assms in auto)
  then show ?thesis using fund_change_within [OF f] by simp
qed

lemma generate_change_offered:
  assumes "generate_change_sdk_with_no_send args ns av = Ok r"
  shows "set (cr_allocated_change_inputs r) \<subseteq> set (map ref_of (ns @ av))"
  using set_mset_mono [OF generate_change_within [OF assms]] by simp

section \<open>Properties of change generation\<close>

text \<open>
  C23: Change generation never ends in an internal error: the check that the final fee equals the
  target fee, and the check that the max-possible output still has its sentinel value, can
  not fail, for any arguments and any available coins, wrapped arithmetic included.
\<close>

theorem generate_change_never_internal:
  "generate_change_sdk_with_no_send args ns av \<noteq> Err (Internal m)"
proof (cases "validate_params args")
  case (Inl e)
  then show ?thesis
    using validate_params_not_internal [of args m]
    by (auto simp: generate_change_sdk_with_no_send_def)
next
  case (Inr has_max)
  obtain s a outs where f: "fund_change args ns av (map fo_satoshis (fixed_outputs args)) = (s, a, outs)"
    using prod_cases3 by blast
  show ?thesis
  proof (cases rule: generate_change_cases [OF Inr f])
    case (1 fos adj e)
    then show ?thesis by (auto simp: check_funded_def Let_def split: if_splits)
  next
    case (2 fos adj outs')
    then show ?thesis by simp
  qed
qed

lemma balanced_result:
  assumes "generate_change_sdk_with_no_send args ns av = Ok r"
  shows "funding args (cr_allocated_change_inputs r) =
      spending (final_outputs args r) + change_total (cr_change_outputs r) + cr_fee r \<and>
    cr_fee r = fee_target args (length (cr_allocated_change_inputs r)) (length (cr_change_outputs r)) 0 0 \<and>
    cr_size r = compute_size args (length (cr_allocated_change_inputs r)) (length (cr_change_outputs r)) 0 0"
proof -
  from assms obtain has_max where v: "validate_params args = Ok has_max"
    by (auto simp: generate_change_sdk_with_no_send_def)
  obtain s a outs where f: "fund_change args ns av (map fo_satoshis (fixed_outputs args)) = (s, a, outs)"
    using prod_cases3 by blast
  show ?thesis
  proof (cases rule: generate_change_cases [OF v f])
    case (1 fos adj e)
    with assms show ?thesis by simp
  next
    case (2 fos adj outs')
    with assms show ?thesis by (auto simp: final_outputs_def)
  qed
qed

text \<open>
  C8: A successful result balances: the fixed and allocated inputs pay exactly for the fixed
  outputs (with the max-possible adjustment applied), the change outputs and the fee, and the
  fee is the target fee of a transaction with exactly these inputs and outputs. The equation is
  between 64-bit amounts.
\<close>

theorem generate_change_balanced:
  assumes "generate_change_sdk_with_no_send args ns av = Ok r"
  shows "funding args (cr_allocated_change_inputs r) =
      spending (final_outputs args r) + change_total (cr_change_outputs r) + cr_fee r \<and>
    cr_fee r = fee_target args (length (cr_allocated_change_inputs r)) (length (cr_change_outputs r)) 0 0 \<and>
    cr_size r = compute_size args (length (cr_allocated_change_inputs r)) (length (cr_change_outputs r)) 0 0"
  using assms by (rule balanced_result)

definition example_args :: change_args where
  "example_args = \<lparr>fixed_inputs = [],
     fixed_outputs = [\<lparr>fo_satoshis = 1000, fo_locking_script_length = 25\<rparr>],
     fee_model = \<lparr>fee_model_name = ''sat/kb'', fee_value = 100\<rparr>,
     change_initial_satoshis = 1000, change_first_satoshis = 285,
     change_locking_script_length = 25, change_unlocking_script_length = 107,
     target_net_count = None\<rparr>"

definition example_coins :: "available_change list" where
  "example_coins = [\<lparr>ac_output_id = 7, ac_satoshis = 800, ac_spendable = True\<rparr>,
     \<lparr>ac_output_id = 9, ac_satoshis = 5000, ac_spendable = True\<rparr>]"

definition example_result :: change_result where
  "example_result = \<lparr>cr_change_outputs = [3977],
     cr_allocated_change_inputs = [\<lparr>ar_output_id = 9, ar_satoshis = 5000\<rparr>],
     cr_size = 226, cr_fee = 23, cr_sats_per_kb = 100, cr_max_possible = None\<rparr>"

lemma example_change:
  "generate_change_sdk_with_no_send example_args [] example_coins = Ok example_result"
  by code_simp

theorem generate_change_balanced_witness:
  "generate_change_sdk_with_no_send example_args [] example_coins = Ok example_result \<and>
   funding example_args [\<lparr>ar_output_id = 9, ar_satoshis = 5000\<rparr>] = 1000 + 3977 + 23 \<and>
   fee_target example_args 1 1 0 0 = 23"
  using example_change generate_change_balanced [OF example_change]
  by (simp add: example_result_def final_outputs_def spending_def change_total_def example_args_def)

text \<open>
  C22: The inputs a successful result spends are coins of the caller's lists with the values given
  there, and no coin is spent more often than the caller offers it. So when the identifiers in the
  two lists together are distinct, no coin is spent twice.
\<close>

theorem generate_change_inputs_distinct:
  assumes "generate_change_sdk_with_no_send args ns av = Ok r"
  shows "mset (cr_allocated_change_inputs r) \<subseteq># mset (map ref_of (ns @ av)) \<and>
    (distinct (map ac_output_id (ns @ av)) \<longrightarrow> distinct (map ar_output_id (cr_allocated_change_inputs r)))"
proof -
  note sub = generate_change_within [OF assms]
  have "mset (map ar_output_id (cr_allocated_change_inputs r)) \<subseteq># mset (map ar_output_id (map ref_of (ns @ av)))"
    using image_mset_subseteq_mono [OF sub, of ar_output_id] by (simp only: mset_map)
  moreover have "map ar_output_id (map ref_of (ns @ av)) = map ac_output_id (ns @ av)" by (simp add: o_def)
  ultimately show ?thesis using sub distinct_subseteq_mset by metis
qed

theorem generate_change_inputs_distinct_witness:
  "distinct (map ac_output_id ([] @ example_coins)) \<and>
   generate_change_sdk_with_no_send example_args [] example_coins = Ok example_result \<and>
   mset (cr_allocated_change_inputs example_result) \<subseteq># mset (map ref_of example_coins) \<and>
   distinct (map ar_output_id (cr_allocated_change_inputs example_result))"
proof -
  have d: "distinct (map ac_output_id ([] @ example_coins))" by (simp add: example_coins_def)
  from generate_change_inputs_distinct [OF example_change] d example_change show ?thesis by simp
qed

text \<open>
  C13: An insufficient-funds error is genuine, when the identifiers of the offered coins are distinct.
  The funding phase ended without a change output. Either it spent every coin the caller offered and
  the transaction is still short by exactly the reported number of satoshis; or the coins it chose
  overfund the fixed outputs and the fee, there is no change output to take the excess, and the
  missing amount is that of a first change output. The needed amount is that of the fixed outputs
  and the fee. Amounts are the 64-bit amounts of the code.
\<close>

theorem insufficient_funds_genuine:
  assumes "distinct (map ac_output_id (ns @ av))"
    and "generate_change_sdk_with_no_send args ns av = Err (InsufficientFunds m needed missing)"
  shows "\<exists>s a. fund_change args ns av (map fo_satoshis (fixed_outputs args)) = (s, a, []) \<and>
    needed = sint (spending (map fo_satoshis (fixed_outputs args)) + fee_target args (length a) 0 0 0) \<and>
    (let excess = fee_excess args a [] (map fo_satoshis (fixed_outputs args)) 0 0
     in sint excess < 0 \<and> mset a = mset (map ref_of (ns @ av)) \<and> missing = sint (- excess) \<or>
        0 < sint excess \<and> m = ''Insufficient funds: need change output'' \<and>
        missing = sint (change_first_satoshis args))"
proof -
  let ?fos = "map fo_satoshis (fixed_outputs args)"
  have "find_max_possible i xs h \<noteq> Err (InsufficientFunds m needed missing)" for i xs h
    by (induction i xs h rule: find_max_possible.induct) auto
  with assms(2) obtain has_max where v: "validate_params args = Ok has_max"
    by (auto simp: generate_change_sdk_with_no_send_def bind_result_eq_Inl validate_params_def
        split: if_splits)
  obtain s a outs where f: "fund_change args ns av ?fos = (s, a, outs)"
    using prod_cases3 by blast
  show ?thesis
  proof (cases rule: generate_change_cases [OF v f])
    case (1 fos adj e)
    from 1 assms(2) have e: "check_funded args a outs fos (fee_excess args a outs fos 0 0) =
        Err (InsufficientFunds m needed missing)" by simp
    then have "fee_excess args a outs fos 0 0 \<noteq> 0" by (auto simp: check_funded_def Let_def)
    then have fos: "fos = ?fos" using adjusted_excess_zero [OF v 1(3)] by simp
    have outs: "outs = []"
      using e fund_change_short [OF assms(1) f]
      by (auto simp: fos check_funded_def Let_def split: if_splits)
    show ?thesis
      using f e fund_change_short [OF assms(1) f] unfolding outs fos
      by (auto simp: check_funded_def Let_def split: if_splits)
  next
    case (2 fos adj outs')
    with assms(2) show ?thesis by simp
  qed
qed

theorem insufficient_funds_genuine_witness:
  "generate_change_sdk_with_no_send example_args [] [hd example_coins] =
     Err (InsufficientFunds ''Insufficient funds: need 220 more satoshis'' 1020 220) \<and>
   (\<exists>s a. fund_change example_args [] [hd example_coins] [1000] = (s, a, []) \<and>
      mset a = {#\<lparr>ar_output_id = 7, ar_satoshis = 800\<rparr>#} \<and> 220 = sint (- fee_excess example_args a [] [1000] 0 0))"
proof -
  have d: "distinct (map ac_output_id ([] @ [hd example_coins]))" by simp
  have e: "generate_change_sdk_with_no_send example_args [] [hd example_coins] =
      Err (InsufficientFunds ''Insufficient funds: need 220 more satoshis'' 1020 220)"
    by code_simp
  show ?thesis
    using e insufficient_funds_genuine [OF d e]
    by (auto simp: example_coins_def example_args_def ref_of_def Let_def)
qed

section \<open>Amounts that do not overflow\<close>

definition nat_total :: "u64 list \<Rightarrow> nat" where
  "nat_total xs = sum_list (map unat xs)"

definition max_change :: "change_args \<Rightarrow> nat" where
  "max_change args = max (unat (change_first_satoshis args)) (unat (change_initial_satoshis args))"

definition desired_outputs :: "change_args \<Rightarrow> nat" where
  "desired_outputs args = (case target_net_count args of None \<Rightarrow> 1 | Some t \<Rightarrow> Suc (nat t))"

lemma unat_sum_list: "nat_total xs < 2 ^ 64 \<Longrightarrow> unat (sum_list xs) = nat_total xs"
  by (induction xs) (simp_all add: nat_total_def unat_plus_nowrap)

lemma nat_total_le: "\<forall>x \<in> set xs. unat x \<le> m \<Longrightarrow> nat_total xs \<le> length xs * m"
  by (induction xs) (auto simp: nat_total_def intro: add_mono)

lemma nat_total_subseteq: "mset xs \<subseteq># mset ys \<Longrightarrow> nat_total xs \<le> nat_total ys"
proof -
  assume sub: "mset xs \<subseteq># mset ys"
  have total: "nat_total zs = sum_mset (image_mset unat (mset zs))" for zs
    unfolding nat_total_def by (simp flip: sum_mset_sum_list)
  from sub obtain r where "mset ys = mset xs + r" by (metis mset_subset_eq_exists_conv)
  then show ?thesis by (simp add: total)
qed

lemma initial_outputs_bound:
  "(\<forall>x \<in> set outs. unat x \<le> max_change args) \<Longrightarrow> length outs \<le> desired_outputs args \<Longrightarrow>
     (\<forall>x \<in> set (initial_outputs args fos outs). unat x \<le> max_change args) \<and>
     length (initial_outputs args fos outs) \<le> desired_outputs args"
proof (induction args fos outs rule: initial_outputs.induct)
  case (1 args fos outs)
  let ?more = "(case target_net_count args of
      None \<Rightarrow> False | Some tnc \<Rightarrow> tnc > net_change_count (length outs) 0)
    \<or> (outs = [] \<and> 0 < sint (fee_excess args [] outs fos 0 0))"
  let ?outs = "outs @ [if outs = [] then change_first_satoshis args else change_initial_satoshis args]"
  show ?case
  proof (cases ?more)
    case True
    then have len: "length ?outs \<le> desired_outputs args"
      by (auto simp: desired_outputs_def net_change_count_def split: option.splits)
    have le: "\<forall>x \<in> set ?outs. unat x \<le> max_change args"
      using 1(2) by (auto simp: max_change_def)
    have eq: "initial_outputs args fos outs = initial_outputs args fos ?outs"
      using True by (subst initial_outputs.simps) (simp only: if_True simp_thms)
    show ?thesis unfolding eq by (rule 1(1) [OF True le len])
  next
    case False
    then have "initial_outputs args fos outs = outs"
      by (subst initial_outputs.simps) (simp only: if_False simp_thms)
    with 1(2,3) show ?thesis by simp
  qed
qed

lemma add_change_output_bound:
  assumes "\<forall>x \<in> set outs. unat x \<le> max_change args"
  shows "(\<forall>x \<in> set (add_change_output args fos rem ao a outs). unat x \<le> max_change args) \<and>
    length (add_change_output args fos rem ao a outs) \<le> Suc (length outs)"
proof -
  have "unat (min v w) \<le> unat w" for v w :: u64 by (simp add: min_def word_le_nat_alt)
  then have "unat (min v (change_first_satoshis args)) \<le> max_change args"
    "unat (min v (change_initial_satoshis args)) \<le> max_change args" for v
    unfolding max_change_def by (meson max.coboundedI1 max.coboundedI2)+
  with assms show ?thesis by (auto simp: add_change_output_def Let_def)
qed

lemma fund_loop_bound:
  assumes "\<forall>x \<in> set outs. unat x \<le> max_change args"
    and "fund_loop args fos rem (storage, allocated, outs) = (storage', allocated', outs')"
  shows "(\<forall>x \<in> set outs'. unat x \<le> max_change args) \<and>
    length outs' + size (free_coins storage') \<le> length outs + size (free_coins storage)"
  using assms
proof (induction "size (free_coins storage)" arbitrary: storage allocated outs rule: less_induct)
  case less
  show ?case
  proof (cases "(storage', allocated', outs') = (storage, allocated, outs)")
    case True
    with less.prems show ?thesis by simp
  next
    case False
    then obtain t e input s' ao where a: "allocate storage t e = (Some input, s')"
      and rec: "fund_loop args fos rem (s', allocated @ [input],
        add_change_output args fos rem ao (allocated @ [input]) outs) = (storage', allocated', outs')"
      using less.prems(2)
      by (subst (asm) fund_loop.simps)
        (auto simp: Let_def split: if_splits prod.splits option.splits)
    have sz: "size (free_coins storage) = Suc (size (free_coins s'))"
      using allocate_SomeD(1) [OF a] by simp
    note b = add_change_output_bound [OF less.prems(1), of fos rem ao "allocated @ [input]"]
    from less.hyps [OF _ conjunct1 [OF b] rec] sz b show ?thesis by auto
  qed
qed

lemma drop_outputs_subset: "set (drop_outputs args fos a outs) \<subseteq> set outs"
proof (induction args fos a outs rule: drop_outputs.induct)
  case (1 args fos a outs)
  then show ?case
    by (subst drop_outputs.simps) (auto dest: in_set_butlastD)
qed

lemma trim_outputs_subset: "set (trim_outputs ins outs) \<subseteq> set outs"
proof (induction ins outs rule: trim_outputs.induct)
  case (1 ins outs)
  have "set (butlast outs) \<subseteq> set outs" by (auto dest: in_set_butlastD)
  with 1 show ?case
    by (subst trim_outputs.simps) (auto split: option.splits)
qed

lemma starvation_loop_bound:
  assumes "\<forall>x \<in> set outs. unat x \<le> max_change args"
    and "starvation_loop args fos rem (storage, allocated, outs) = (storage', allocated', outs')"
  shows "(\<forall>x \<in> set outs'. unat x \<le> max_change args) \<and>
    length outs' \<le> length outs + (if rem then 0 else size (free_coins (release_all allocated storage)))"
  using assms
proof (induction args fos rem "(storage, allocated, outs)" arbitrary: storage allocated outs
    rule: starvation_loop.induct)
  case (1 args fos rem storage allocated outs)
  obtain s1 a1 o1 where f:
    "fund_loop args fos rem (release_all allocated storage, [], outs) = (s1, a1, o1)"
    using prod_cases3 by blast
  have b: "(\<forall>x \<in> set o1. unat x \<le> max_change args) \<and>
      length o1 \<le> length outs + (if rem then 0 else size (free_coins (release_all allocated storage)))"
    using fund_loop_bound [OF 1(2) f] f
      fund_loop_removing [of args fos "release_all allocated storage" "[]" outs s1 a1 o1]
    by (cases rem) auto
  define o2 where "o2 = drop_outputs args fos a1 o1"
  have o2: "set o2 \<subseteq> set o1" "length o2 \<le> length o1"
    by (simp_all add: o2_def drop_outputs_subset length_drop_outputs)
  have o3: "set (trim_outputs a1 o2) \<subseteq> set o2" "length (trim_outputs a1 o2) \<le> length o2"
    by (rule trim_outputs_subset, rule length_trim_outputs)
  show ?case
  proof (cases "0 \<le> sint (fee_excess args a1 o1 fos 0 0) \<or> o1 = []")
    case True
    with 1(3) f b show ?thesis by (auto simp: starvation_loop.simps [of args fos rem])
  next
    case short: False
    show ?thesis
    proof (cases "sint (fee_excess args a1 o2 fos 0 0) < 0")
      case True
      then have "outs' = o2"
        using 1(3) f short by (auto simp: starvation_loop.simps [of args fos rem] o2_def Let_def)
      with b o2 show ?thesis by auto
    next
      case False
      then have rec: "starvation_loop args fos True (s1, a1, trim_outputs a1 o2) =
          (storage', allocated', outs')"
        using 1(3) f short by (simp add: starvation_loop.simps [of args fos rem] o2_def Let_def)
      have "\<forall>x \<in> set (trim_outputs a1 o2). unat x \<le> max_change args" using b o2 o3 by auto
      from 1(1) [OF f [symmetric] refl short o2_def False this rec] b o2 o3 show ?thesis by auto
    qed
  qed
qed

lemma fund_change_bound:
  assumes "fund_change args ns av fos = (storage, allocated, outs)"
  shows "nat_total outs \<le> (desired_outputs args + length (ns @ av)) * max_change args"
proof -
  let ?s = "with_no_send_change ns av"
  have i: "(\<forall>x \<in> set (initial_outputs args fos []). unat x \<le> max_change args) \<and>
      length (initial_outputs args fos []) \<le> desired_outputs args"
    by (rule initial_outputs_bound) (auto simp: desired_outputs_def split: option.splits)
  note b = starvation_loop_bound [OF conjunct1 [OF i] assms [unfolded fund_change_def]]
  have "size (free_coins ?s) \<le> size (mset (pool_refs ?s))" by (simp add: pool_refs_mset)
  also have "\<dots> = length (ns @ av)" using arg_cong [OF pool_refs_new, of size] by simp
  finally have "length outs \<le> desired_outputs args + length (ns @ av)"
    using b i by (simp add: release_all_def)
  then have "length outs * max_change args \<le> (desired_outputs args + length (ns @ av)) * max_change args"
    by (rule mult_le_mono1)
  with nat_total_le [OF conjunct1 [OF b]] show ?thesis by (rule order_trans)
qed

lemma distribute_excess_total:
  "nat_total (fst (distribute_excess args outs fe)) \<le> nat_total outs + unat fe"
proof (induction args outs fe rule: distribute_excess.induct)
  case (1 args outs fe)
  have plus: "unat (a + b) \<le> unat a + unat b" for a b :: u64
    by (simp add: unat_word_ariths(1))
  show ?case
  proof (cases "outs \<noteq> [] \<and> 0 < sint fe")
    case False
    then show ?thesis by (simp add: distribute_excess.simps [of args outs fe] del: de_Morgan_conj)
  next
    case True
    then obtain x xs where outs: "outs = x # xs" by (cases outs) auto
    show ?thesis
    proof (cases "length outs = 1")
      case one: True
      then have eq: "distribute_excess args outs fe = distribute_excess args [hd outs + fe] 0"
        using True by (subst distribute_excess.simps) (simp only: if_True simp_thms)
      from one 1(1) [OF True one] plus [of x fe] show ?thesis
        unfolding eq by (simp add: outs nat_total_def)
    next
      case more: False
      define sats where "sats = excess_share args (hd outs) fe"
      have "sats \<le> fe" using True excess_share_bounds(2) by (simp add: sats_def)
      then have "unat (fe - sats) = unat fe - unat sats" "unat sats \<le> unat fe"
        by (simp_all add: unat_sub word_le_nat_alt)
      moreover have eq: "distribute_excess args outs fe =
          distribute_excess args ((hd outs + sats) # tl outs) (fe - sats)"
        using True more unfolding sats_def
        by (subst distribute_excess.simps) (simp only: if_True if_False simp_thms Let_def)
      ultimately show ?thesis
        using 1(2) [OF True more sats_def] plus [of x sats]
        unfolding eq by (simp add: outs nat_total_def)
    qed
  qed
qed

lemma fee_target_bound: "unat (fee_target args a c i k) < 2 ^ 62"
proof -
  have "unat (div_ceil x 1000) < 2 ^ 62" for x :: u64
  proof -
    have "unat x < 2 ^ LENGTH(64)" by (rule unsigned_less)
    then have "unat (x div 1000) \<le> (2 ^ 64 - 1) div 1000"
      by (simp add: unat_div div_le_mono)
    moreover have "unat (x div 1000 + 1) \<le> unat (x div 1000) + 1"
      by (simp add: unat_word_ariths(1))
    ultimately show ?thesis by (simp add: div_ceil_def)
  qed
  then show ?thesis by (simp add: fee_target_def)
qed

lemma conserved_satoshis:
  assumes "generate_change_sdk_with_no_send args ns av = Ok r" and "cr_max_possible r = None"
    and "nat_total (map fi_satoshis (fixed_inputs args)) + nat_total (map ac_satoshis (ns @ av)) < 2 ^ 64"
    and "nat_total (map fo_satoshis (fixed_outputs args)) +
      (desired_outputs args + length (ns @ av)) * max_change args < 2 ^ 62"
  shows "nat_total (map fi_satoshis (fixed_inputs args)) +
      nat_total (map ar_satoshis (cr_allocated_change_inputs r)) =
    nat_total (map fo_satoshis (fixed_outputs args)) + nat_total (cr_change_outputs r) + unat (cr_fee r)"
proof -
  from assms(1) obtain has_max where v: "validate_params args = Ok has_max"
    by (auto simp: generate_change_sdk_with_no_send_def)
  obtain s a outs where f: "fund_change args ns av (map fo_satoshis (fixed_outputs args)) = (s, a, outs)"
    using prod_cases3 by blast
  obtain fe where r: "cr_allocated_change_inputs r = a"
      "cr_change_outputs r = fst (distribute_excess args outs fe)" and fe: "0 \<le> sint fe"
    using assms(1) by (auto simp: generate_change_sdk_with_no_send_def v f finish_change_def
        check_funded_def Let_def split: if_splits)
  let ?ins = "map fi_satoshis (fixed_inputs args) @ map ar_satoshis a"
  let ?outs = "map fo_satoshis (fixed_outputs args) @ cr_change_outputs r @ [cr_fee r]"
  have "mset (map ar_satoshis a) \<subseteq># mset (map ar_satoshis (map ref_of (ns @ av)))"
    using image_mset_subseteq_mono [OF fund_change_within [OF f], of ar_satoshis]
    by (simp only: mset_map)
  then have "nat_total (map ar_satoshis a) \<le> nat_total (map ac_satoshis (ns @ av))"
    by (drule_tac nat_total_subseteq) (simp add: o_def)
  with assms(3) have ins: "nat_total ?ins < 2 ^ 64" by (simp add: nat_total_def)
  have "unat fe < 2 ^ 63" using sint_nonneg_unat [OF fe] by simp
  then have "nat_total (cr_change_outputs r) <
      (desired_outputs args + length (ns @ av)) * max_change args + 2 ^ 63"
    using distribute_excess_total [of args outs fe] fund_change_bound [OF f]
    unfolding r by linarith
  moreover have bal: "funding args a = spending (final_outputs args r) +
      change_total (cr_change_outputs r) + cr_fee r"
    and fee: "unat (cr_fee r) < 2 ^ 62"
    using balanced_result [OF assms(1)] fee_target_bound by (simp_all add: r(1))
  ultimately have outs: "nat_total ?outs < 2 ^ 64" using assms(4) by (simp add: nat_total_def)
  have "sum_list ?ins = sum_list ?outs"
    using bal assms(2)
    by (simp add: funding_def spending_def change_total_def final_outputs_def add.assoc)
  then have "nat_total ?ins = nat_total ?outs"
    using unat_sum_list [OF ins] unat_sum_list [OF outs] by (simp only:)
  then show ?thesis by (simp add: nat_total_def r(1))
qed

text \<open>
  C21: Satoshis are conserved as true integers, not only modulo 2^64: when the coins on offer and
  the desired outputs fit the 64-bit range and no max-possible adjustment was made, the inputs
  of a successful result are worth exactly the outputs, the change and the fee.
\<close>

theorem generate_change_conserves_satoshis:
  assumes "generate_change_sdk_with_no_send args ns av = Ok r" and "cr_max_possible r = None"
    and "nat_total (map fi_satoshis (fixed_inputs args)) + nat_total (map ac_satoshis (ns @ av)) < 2 ^ 64"
    and "nat_total (map fo_satoshis (fixed_outputs args)) +
      (desired_outputs args + length (ns @ av)) * max_change args < 2 ^ 62"
  shows "nat_total (map fi_satoshis (fixed_inputs args)) +
      nat_total (map ar_satoshis (cr_allocated_change_inputs r)) =
    nat_total (map fo_satoshis (fixed_outputs args)) + nat_total (cr_change_outputs r) + unat (cr_fee r)"
  using assms by (rule conserved_satoshis)

theorem generate_change_conserves_satoshis_witness:
  "generate_change_sdk_with_no_send example_args [] example_coins = Ok example_result \<and>
   nat_total (map fi_satoshis (fixed_inputs example_args)) + nat_total [5000] =
     nat_total (map fo_satoshis (fixed_outputs example_args)) + nat_total [3977] + unat (23 :: u64)"
proof -
  have 1: "cr_max_possible example_result = None" by (simp add: example_result_def)
  have 3: "nat_total (map fi_satoshis (fixed_inputs example_args)) +
      nat_total (map ac_satoshis ([] @ example_coins)) < 2 ^ 64"
    by (simp add: nat_total_def example_args_def example_coins_def)
  have 4: "nat_total (map fo_satoshis (fixed_outputs example_args)) +
      (desired_outputs example_args + length ([] @ example_coins)) * max_change example_args < 2 ^ 62"
    by (simp add: nat_total_def desired_outputs_def max_change_def example_args_def example_coins_def)
  from generate_change_conserves_satoshis [OF example_change 1 3 4] example_change
  show ?thesis by (simp add: example_result_def)
qed

text \<open>Words of sums as integers.\<close>

lemma sum_list_nat_total: "sum_list xs = (of_nat (nat_total xs) :: u64)"
  by (induction xs) (simp_all add: nat_total_def)

lemma fee_excess_int:
  "fee_excess args a outs fos i j = word_of_int (int (nat_total (map fi_satoshis (fixed_inputs args)) +
     nat_total (map ar_satoshis a)) - int (nat_total fos) - int (nat_total outs) -
     int (unat (fee_target args (length a) (length outs) i j)))"
  by (simp add: fee_excess_def funding_def spending_def change_total_def sum_list_nat_total)

lemma sint_small: "- (2 ^ 63) \<le> k \<Longrightarrow> k < 2 ^ 63 \<Longrightarrow> sint (word_of_int k :: i64) = k"
  by (simp add: sint_sbintrunc' signed_take_bit_int_eq_self)

lemma uint_negative: "- (2 ^ 64) \<le> k \<Longrightarrow> k < 0 \<Longrightarrow> uint (word_of_int k :: u64) = k + 2 ^ 64"
  by (simp add: uint_word_of_int mod_pos_pos_trivial mod_add_self2 [symmetric, of k] del: mod_add_self2)

lemma adjusted_succeeds:
  assumes "validate_params args = Ok (Some k)"
    and "fund_change args ns av (map fo_satoshis (fixed_outputs args)) = (s, a, [])"
    and "sint (fee_excess args a [] (map fo_satoshis (fixed_outputs args)) 0 0) < 0"
  shows "\<exists>r. generate_change_sdk_with_no_send args ns av = Ok r \<and>
    cr_max_possible r = Some \<lparr>mp_fixed_output_index = k, mp_satoshis =
      MAX_POSSIBLE_SATOSHIS + fee_excess args a [] (map fo_satoshis (fixed_outputs args)) 0 0\<rparr>"
proof -
  let ?f = "map fo_satoshis (fixed_outputs args)" and ?fe = "fee_excess args a [] (map fo_satoshis (fixed_outputs args)) 0 0"
  define fos where "fos = ?f[k := MAX_POSSIBLE_SATOSHIS + ?fe]"
  define adj where "adj = Some \<lparr>mp_fixed_output_index = k, mp_satoshis = MAX_POSSIBLE_SATOSHIS + ?fe\<rparr>"
  note k = validate_params_max [OF assms(1)]
  have ad: "adjust_max_possible args (Some k) a [] ?f = Ok (fos, fee_excess args a [] fos 0 0, adj)"
    using assms(3) k by (simp add: adjust_max_possible_def Let_def fos_def adj_def)
  have "fos \<noteq> ?f"
  proof
    assume "fos = ?f"
    then have "fos ! k = ?f ! k" by simp
    then have "?fe = 0" using k by (simp add: fos_def)
    then show False using assms(3) by simp
  qed
  then have z: "fee_excess args a [] fos 0 0 = 0" using adjusted_excess_zero [OF assms(1) ad] by simp
  then have "check_funded args a [] fos (fee_excess args a [] fos 0 0) = Ok ()"
    by (simp add: check_funded_def)
  from finish_change_ok [OF this refl, of adj] obtain outs' where
    "finish_change args a [] fos (fee_excess args a [] fos 0 0) adj =
       Ok \<lparr>cr_change_outputs = outs', cr_allocated_change_inputs = a,
          cr_size = compute_size args (length a) (length outs') 0 0,
          cr_fee = fee_target args (length a) (length outs') 0 0,
          cr_sats_per_kb = fee_value (fee_model args), cr_max_possible = adj\<rparr>" by metis
  then show ?thesis
    using ad assms(1,2) z by (simp add: generate_change_sdk_with_no_send_def check_funded_def adj_def)
qed

text \<open>
  C29: A max-possible output hides a lack of funds. When the coins cannot pay for the other outputs and
  the fee, change generation with a max-possible output does not report insufficient funds: it succeeds,
  and the amount of the max-possible output wraps around to $2^{64}$ less the deficit. The identifiers of
  the coins are supposed to be distinct, the amounts to be in range, and the coins to be worth less than
  the requested outputs.
\<close>

theorem max_possible_underfunded_wraps:
  assumes "validate_params args = Ok (Some k)" and "distinct (map ac_output_id (ns @ av))"
    and "nat_total (map fo_satoshis (fixed_outputs args)) +
      (desired_outputs args + length (ns @ av)) * max_change args < 2 ^ 62"
    and "funds = nat_total (map fi_satoshis (fixed_inputs args)) + nat_total (map ac_satoshis (ns @ av))"
    and "funds < nat_total (map fo_satoshis (fixed_outputs args))"
    and "others + unat MAX_POSSIBLE_SATOSHIS = nat_total (map fo_satoshis (fixed_outputs args))"
    and "funds < others + unat (fee_target args (length (ns @ av)) 0 0 0)"
  shows "\<exists>r amount. generate_change_sdk_with_no_send args ns av = Ok r \<and>
    cr_max_possible r = Some \<lparr>mp_fixed_output_index = k, mp_satoshis = amount\<rparr> \<and>
    unat amount = 2 ^ 64 - (others + unat (fee_target args (length (ns @ av)) 0 0 0) - funds)"
proof -
  let ?f = "map fo_satoshis (fixed_outputs args)"
  obtain s a outs where f: "fund_change args ns av ?f = (s, a, outs)" using prod_cases3 by blast
  let ?E = "int (nat_total (map fi_satoshis (fixed_inputs args)) + nat_total (map ar_satoshis a)) - int (nat_total ?f) -
      int (nat_total outs) - int (unat (fee_target args (length a) (length outs) 0 0))"
  have "mset (map ar_satoshis a) \<subseteq># mset (map ac_satoshis (ns @ av))"
    using image_mset_subseteq_mono [OF fund_change_within [OF f], of ar_satoshis]
    by (simp add: image_mset.compositionality o_def)
  then have "nat_total (map ar_satoshis a) \<le> nat_total (map ac_satoshis (ns @ av))" by (rule nat_total_subseteq)
  moreover have "nat_total outs \<le> (desired_outputs args + length (ns @ av)) * max_change args"
    by (rule fund_change_bound [OF f])
  ultimately have b: "nat_total ?f + nat_total outs < 2 ^ 62"
    "nat_total (map fi_satoshis (fixed_inputs args)) + nat_total (map ar_satoshis a) < nat_total ?f"
    using assms(3-5) by linarith+
  then have E: "?E < 0" "- (2 ^ 63) \<le> ?E"
    using fee_target_bound [of args "length a" "length outs" 0 0] by (simp_all add: uint_nat del: of_nat_unat)
  then have neg: "sint (fee_excess args a outs ?f 0 0) < 0"
    unfolding fee_excess_int by (subst sint_small) linarith+
  note short = fund_change_short [OF assms(2) f neg]
  from adjusted_succeeds [OF assms(1), of ns av s a] f neg short obtain r where r:
    "generate_change_sdk_with_no_send args ns av = Ok r"
    "cr_max_possible r = Some \<lparr>mp_fixed_output_index = k, mp_satoshis = MAX_POSSIBLE_SATOSHIS + fee_excess args a [] ?f 0 0\<rparr>"
    by auto
  have len: "length a = length (ns @ av)" using arg_cong [OF conjunct2 [OF short], of size] by simp
  have "mset (map ar_satoshis a) = mset (map ac_satoshis (ns @ av))"
    using arg_cong [OF conjunct2 [OF short], of "image_mset ar_satoshis"] by (simp add: image_mset.compositionality o_def)
  then have tot: "nat_total (map ar_satoshis a) = nat_total (map ac_satoshis (ns @ av))"
    using nat_total_subseteq by (metis antisym subset_mset.order_refl)
  let ?d = "int funds - int others - int (unat (fee_target args (length (ns @ av)) 0 0 0))"
  have w: "MAX_POSSIBLE_SATOSHIS + fee_excess args a [] ?f 0 0 = word_of_int ?d"
    unfolding fee_excess_int tot len assms(4) assms(6) [symmetric]
    by (simp add: nat_total_def algebra_simps)
  have "others < 2 ^ 62" using assms(3,6) by linarith
  then have "- (2 ^ 64) \<le> ?d" "?d < 0"
    using assms(7) fee_target_bound [of args "length (ns @ av)" 0 0 0] by (simp_all add: uint_nat del: of_nat_unat)
  then have "uint (MAX_POSSIBLE_SATOSHIS + fee_excess args a [] ?f 0 0) = ?d + 2 ^ 64"
    unfolding w by (rule uint_negative)
  then have "unat (MAX_POSSIBLE_SATOSHIS + fee_excess args a [] ?f 0 0) =
      2 ^ 64 - (others + unat (fee_target args (length (ns @ av)) 0 0 0) - funds)"
    using assms(7) by (simp add: uint_nat del: of_nat_unat)
  with r show ?thesis by blast
qed

definition sweep_args :: change_args where
  "sweep_args = example_args\<lparr>fixed_outputs :=
     [\<lparr>fo_satoshis = MAX_POSSIBLE_SATOSHIS, fo_locking_script_length = 25\<rparr>]\<rparr>"

theorem max_possible_underfunded_wraps_witness:
  "\<exists>r. generate_change_sdk sweep_args [] = Ok r \<and>
     cr_max_possible r = Some \<lparr>mp_fixed_output_index = 0, mp_satoshis = 18446744073709551611\<rparr>"
proof -
  have 1: "validate_params sweep_args = Ok (Some 0)" by code_simp
  have fee: "fee_target sweep_args 0 0 0 0 = 5" by code_simp
  obtain r amount where r: "generate_change_sdk_with_no_send sweep_args [] [] = Ok r"
      "cr_max_possible r = Some \<lparr>mp_fixed_output_index = 0, mp_satoshis = amount\<rparr>" "unat amount = 18446744073709551611"
    using max_possible_underfunded_wraps [OF 1, of "[]" "[]" 0 0] fee
    by (auto simp: sweep_args_def example_args_def nat_total_def desired_outputs_def max_change_def MAX_POSSIBLE_SATOSHIS_def)
  have "amount = of_nat (unat amount)" by simp
  also have "\<dots> = 18446744073709551611" unfolding r(3) by simp
  finally show ?thesis using r by (simp add: generate_change_sdk_def)
qed

section \<open>Facts for the callers\<close>

lemma find_max_possible_none:
  "\<forall>x \<in> set fos. fo_satoshis x \<noteq> MAX_POSSIBLE_SATOSHIS \<Longrightarrow> find_max_possible i fos None = Ok None"
  by (induction fos arbitrary: i) auto

lemma generate_change_no_max:
  assumes "generate_change_sdk_with_no_send args ns av = Ok r"
    and "\<forall>x \<in> set (fixed_outputs args). fo_satoshis x \<noteq> MAX_POSSIBLE_SATOSHIS"
  shows "final_outputs args r = map fo_satoshis (fixed_outputs args)"
proof -
  from assms have v: "validate_params args = Ok None"
    by (auto simp: generate_change_sdk_with_no_send_def validate_params_def find_max_possible_none split: if_splits)
  then show ?thesis
    using assms(1)
    by (auto simp: generate_change_sdk_with_no_send_def adjust_max_possible_def final_outputs_def
        finish_change_def Let_def split: prod.splits if_splits)
qed

end
