(* ===== verification/OutputShuffle.thy ===== *)
theory OutputShuffle
  imports Prelude
begin

text \<open>
  The random order of a transaction's outputs (\<open>repeatable_random\<close> and \<open>randomized_vouts\<close> in
  \<open>src/storage/methods/create_action.rs\<close>): a Fisher-Yates shuffle whose indices are computed in
  double precision. The product of a number below one and the current length is rounded to 53
  significant bits, ties to even, before it is cut to an integer; the shuffle is correct because
  this rounding never reaches the length. Fresh entropy is a sequence of 32-bit draws.
\<close>

section \<open>Double precision\<close>

text \<open>\<open>Finite m e\<close> is $m \cdot 2^e$; a value of type \<open>f64\<close> has a significand of at most 53 bits.\<close>

datatype f64 = NotANumber | Infinite bool | Finite int int

fun f64_ok :: "f64 \<Rightarrow> bool" where
  "f64_ok (Finite m e) = (\<bar>m\<bar> < 2 ^ 53)"
| "f64_ok _ = True"

text \<open>\<open>(0.0..1.0).contains(v)\<close>\<close>

fun in_unit_range :: "f64 \<Rightarrow> bool" where
  "in_unit_range (Finite m e) = (0 \<le> m \<and> (if 0 \<le> e then m = 0 else m < 2 ^ nat (- e)))"
| "in_unit_range _ = False"

fun bit_length :: "nat \<Rightarrow> nat" where
  "bit_length n = (if n = 0 then 0 else Suc (bit_length (n div 2)))"

declare bit_length.simps [simp del]

definition round_sig :: "nat \<Rightarrow> nat" where
  "round_sig p =
     (if bit_length p \<le> 53 then p
      else (let s = bit_length p - 53; q = p div 2 ^ s; r = p mod 2 ^ s
            in (if r > 2 ^ (s - 1) \<or> (r = 2 ^ (s - 1) \<and> odd q) then q + 1 else q) * 2 ^ s))"

text \<open>
  \<open>(v * current as f64).floor() as usize\<close> for a value in the range; lengths are below $2^{53}$,
  where their conversion is exact. Values outside the range were refused before.
\<close>

fun scaled_index :: "f64 \<Rightarrow> nat \<Rightarrow> nat" where
  "scaled_index (Finite m e) current =
     (if 0 \<le> e then nat m * current * 2 ^ nat e else round_sig (nat m * current) div 2 ^ nat (- e))"
| "scaled_index _ current = 0"

section \<open>The shuffle\<close>

text \<open>The supplied values in a cycle, or the next draw when there are none.\<close>

fun next_random :: "(nat \<Rightarrow> u32) \<Rightarrow> f64 list \<times> nat \<Rightarrow> f64 \<times> f64 list \<times> nat" where
  "next_random draw (v # vals, k) = (v, vals @ [v], k)"
| "next_random draw ([], k) = (Finite (uint (draw k)) (- 32), [], Suc k)"

text \<open>The loop over \<open>current\<close>; \<open>None\<close> is the panic of \<open>swap\<close> on an index out of bounds.\<close>

fun shuffle :: "(nat \<Rightarrow> u32) \<Rightarrow> nat \<Rightarrow> f64 list \<times> nat \<Rightarrow> nat list \<Rightarrow> nat list option" where
  "shuffle draw 0 rs vouts = Some vouts"
| "shuffle draw (Suc c) rs vouts =
     (case next_random draw rs of (v, rs') \<Rightarrow>
        let i = scaled_index v (Suc c)
        in if c < length vouts \<and> i < length vouts
           then shuffle draw c rs' (vouts[c := vouts ! i, i := vouts ! c])
           else None)"

definition vout_panic :: wallet_error where
  "vout_panic = Internal ''panic: index out of bounds''"

text \<open>The positions are \<open>(0..len as u32)\<close>: the cast wraps.\<close>

definition randomized_vouts :: "(nat \<Rightarrow> u32) \<Rightarrow> nat \<Rightarrow> f64 list option \<Rightarrow> u32 list wallet_result" where
  "randomized_vouts draw len random_vals =
     (if \<not> list_all in_unit_range (case random_vals of None \<Rightarrow> [] | Some vs \<Rightarrow> vs) then
        Err (InvalidParameter ''randomVals'' ''values in the range [0, 1)'')
      else (case shuffle draw len (case random_vals of None \<Rightarrow> [] | Some vs \<Rightarrow> vs, 0)
            [0..<unat (of_nat len :: u32)] of
          None \<Rightarrow> Err vout_panic
        | Some vouts \<Rightarrow> Ok (map of_nat vouts)))"

section \<open>Rounding stays below the length\<close>

lemma bit_length_bounds: "0 < n \<Longrightarrow> 2 ^ (bit_length n - 1) \<le> n \<and> n < 2 ^ bit_length n"
proof (induction n rule: bit_length.induct)
  case (1 n)
  show ?case
  proof (cases "n div 2 = 0")
    case True
    with 1(2) have "n = 1" by linarith
    then show ?thesis by (simp add: bit_length.simps)
  next
    case False
    with 1 have "2 ^ (bit_length (n div 2) - 1) \<le> n div 2 \<and> n div 2 < 2 ^ bit_length (n div 2)"
      by simp
    moreover have "0 < bit_length (n div 2)" using False by (simp add: bit_length.simps [of "n div 2"])
    ultimately have "2 * 2 ^ (bit_length (n div 2) - 1) \<le> n \<and> n < 2 * 2 ^ bit_length (n div 2)"
      by linarith
    moreover have "2 * 2 ^ (bit_length (n div 2) - 1) = (2 :: nat) ^ bit_length (n div 2)"
      using \<open>0 < bit_length (n div 2)\<close> by (cases "bit_length (n div 2)") simp_all
    ultimately show ?thesis using 1(2) by (simp add: bit_length.simps [of n])
  qed
qed

lemma bit_length_le: "n < 2 ^ b \<Longrightarrow> bit_length n \<le> b"
proof (rule ccontr)
  assume "n < 2 ^ b" "\<not> bit_length n \<le> b"
  then have "0 < n" by (cases "n = 0") (simp_all add: bit_length.simps)
  with bit_length_bounds have "2 ^ (bit_length n - 1) \<le> n" by blast
  moreover have "(2 :: nat) ^ b \<le> 2 ^ (bit_length n - 1)"
    using \<open>\<not> bit_length n \<le> b\<close> by (intro power_increasing) auto
  ultimately show False using \<open>n < 2 ^ b\<close> by linarith
qed

text \<open>A long product moves by at most half a unit of its last kept bit.\<close>

lemma round_sig_le:
  assumes "53 < bit_length p"
  shows "round_sig p \<le> p + 2 ^ (bit_length p - 54)"
proof -
  let ?s = "bit_length p - 53"
  have half: "(2 :: nat) ^ ?s = 2 * 2 ^ (?s - 1)" using assms by (cases ?s) simp_all
  have p: "p = p div 2 ^ ?s * 2 ^ ?s + p mod 2 ^ ?s" by (rule div_mult_mod_eq [symmetric])
  have "?s - 1 = bit_length p - 54" by simp
  then show ?thesis
    using assms p half unfolding round_sig_def Let_def by (auto simp: algebra_simps)
qed

lemma round_sig_below:
  fixes m n k :: nat
  assumes "m < 2 ^ k" "m < 2 ^ 53" "0 < n"
  shows "round_sig (m * n) < n * 2 ^ k"
proof (cases "bit_length (m * n) \<le> 53")
  case True
  then show ?thesis using assms by (simp add: round_sig_def)
next
  case False
  let ?p = "m * n" and ?h = "2 ^ (bit_length (m * n) - 54) :: nat"
  have "0 < ?p" using False by (cases "?p = 0") (simp_all add: bit_length.simps)
  then have p: "2 ^ (bit_length ?p - 1) \<le> ?p" using bit_length_bounds by blast
  have up: "round_sig ?p \<le> ?p + ?h" using round_sig_le False by simp
  have "?h * 2 ^ 53 = 2 ^ (bit_length ?p - 1)"
    using False unfolding power_add [symmetric] by (intro arg_cong [of _ _ "power 2"]) simp
  then have big: "?h * 2 ^ 53 \<le> ?p" using p by simp
  show ?thesis
  proof (cases "54 \<le> k")
    case True
    then have "m * 2 < 2 ^ k"
      using assms(2) power_increasing [of 54 k "2 :: nat"] by simp
    then have "2 * ?p < n * 2 ^ k" using assms(3) by simp
    moreover have "?h \<le> ?p" using big by simp
    ultimately show ?thesis using up by linarith
  next
    case False
    have "?p + n \<le> n * 2 ^ k"
      using mult_le_mono2 [of "Suc m" "2 ^ k" n] assms(1) by (simp add: algebra_simps)
    moreover have "?h \<noteq> n \<and> ?h \<le> n"
    proof -
      have b: "2 ^ (bit_length n - 1) \<le> n" "n < 2 ^ bit_length n"
        using bit_length_bounds assms(3) by blast+
      have "?p < 2 ^ (bit_length n + 53)"
        using mult_strict_mono [OF assms(2) b(2)] by (simp add: power_add mult.commute)
      then have "bit_length ?p \<le> bit_length n + 53" by (rule bit_length_le)
      then have "?h \<le> 2 ^ (bit_length n - 1)" by (intro power_increasing) auto
      moreover have "?p < n * 2 ^ 53" using assms(2,3) by simp
      then have "?h \<noteq> n" using big by auto
      ultimately show ?thesis using b(1) by linarith
    qed
    ultimately show ?thesis using up by linarith
  qed
qed

lemma scaled_index_below:
  assumes "in_unit_range v" "f64_ok v" "0 < n"
  shows "scaled_index v n < n"
proof -
  obtain m e where v: "v = Finite m e" using assms(1) by (cases v) simp_all
  show ?thesis
  proof (cases "0 \<le> e")
    case True
    then show ?thesis using assms v by simp
  next
    case False
    have "nat m < 2 ^ nat (- e)" "nat m < 2 ^ 53"
      using assms False v by (simp_all add: nat_less_iff)
    then have "round_sig (nat m * n) < n * 2 ^ nat (- e)" by (rule round_sig_below) (rule assms(3))
    then show ?thesis using False v by (simp add: less_mult_imp_div_less)
  qed
qed

lemma next_random_range:
  assumes "next_random draw rs = (v, rs')" "\<forall>x \<in> set (fst rs). in_unit_range x \<and> f64_ok x"
  shows "in_unit_range v \<and> f64_ok v \<and> (\<forall>x \<in> set (fst rs'). in_unit_range x \<and> f64_ok x)"
proof (cases rs)
  case (Pair vals k)
  show ?thesis
  proof (cases vals)
    case Nil
    have "uint (draw k) < 2 ^ 32" using uint_lt2p [of "draw k"] by simp
    then show ?thesis using assms Pair Nil by auto
  next
    case (Cons x xs)
    then show ?thesis using assms Pair by auto
  qed
qed


lemma shuffle_permutes:
  "\<forall>x \<in> set (fst rs). in_unit_range x \<and> f64_ok x \<Longrightarrow> n \<le> length vouts \<Longrightarrow>
     \<exists>vs. shuffle draw n rs vouts = Some vs \<and> mset vs = mset vouts"
proof (induction n arbitrary: rs vouts)
  case 0
  then show ?case by simp
next
  case (Suc c)
  obtain v rs' where n: "next_random draw rs = (v, rs')" by (cases "next_random draw rs")
  note range = next_random_range [OF n Suc.prems(1)]
  have i: "scaled_index v (Suc c) < Suc c" using range by (intro scaled_index_below) auto
  let ?xs = "vouts[c := vouts ! scaled_index v (Suc c), scaled_index v (Suc c) := vouts ! c]"
  obtain vs where "shuffle draw c rs' ?xs = Some vs" "mset vs = mset ?xs"
    using Suc.IH [of rs' ?xs] range Suc.prems(2) by auto
  then show ?case using n i Suc.prems(2) by (simp add: Let_def mset_swap)
qed

text \<open>
  C16: For fewer than $2^{32}$ outputs the shuffle never panics and never loses a position: for every
  supplied list of numbers in the unit range, or fresh entropy, the result is a permutation of all
  positions; a number outside the range is refused.
\<close>

theorem randomized_vouts_permutation:
  assumes "\<forall>v \<in> set vals. f64_ok v" "len < 2 ^ 32"
    and vals: "vals = (case random_vals of None \<Rightarrow> [] | Some vs \<Rightarrow> vs)"
  shows "case randomized_vouts draw len random_vals of
      Inr vouts \<Rightarrow> list_all in_unit_range vals \<and> mset (map unat vouts) = mset [0..<len]
    | Inl e \<Rightarrow> \<not> list_all in_unit_range vals \<and> e \<noteq> vout_panic"
proof (cases "list_all in_unit_range vals")
  case True
  then obtain vs where vs: "shuffle draw len (vals, 0) [0..<len] = Some vs" "mset vs = mset [0..<len]"
    using shuffle_permutes [of "(vals, 0)" len "[0..<len]" draw] assms(1) by (auto simp: list_all_iff)
  have "set vs = {0..<len}" using vs(2) by (metis set_mset_mset set_upt)
  then have "unat (of_nat x :: u32) = x" if "x \<in> set vs" for x
    using assms(2) that by (simp add: unat_of_nat take_bit_nat_eq_self_iff)
  then have "map unat (map of_nat vs :: u32 list) = vs" by (simp add: map_idI)
  moreover have "unat (of_nat len :: u32) = len"
    using assms(2) by (simp add: unat_of_nat take_bit_nat_eq_self_iff)
  ultimately show ?thesis using True vs by (simp add: randomized_vouts_def flip: vals)
next
  case False
  then show ?thesis by (simp add: randomized_vouts_def vout_panic_def flip: vals)
qed

theorem randomized_vouts_permutation_witness:
  "randomized_vouts (\<lambda>_. 0) 5 (Some [Finite 1 (- 1)]) = Ok [0, 3, 1, 4, 2] \<and>
   mset (map unat ([0, 3, 1, 4, 2] :: u32 list)) = mset [0..<5]"
proof -
  have r: "randomized_vouts (\<lambda>_. 0) 5 (Some [Finite 1 (- 1)]) = Ok [0, 3, 1, 4, 2]" by code_simp
  show ?thesis
    using randomized_vouts_permutation [of "[Finite 1 (- 1)]" 5 "Some [Finite 1 (- 1)]" "\<lambda>_. 0"] r
    by simp
qed

end
