(* ===== verification/CreateAction.thy ===== *)
theory CreateAction
  imports ActionDb GenerateChange OutputShuffle
begin

text \<open>
  Creating an action (\<open>src/storage/methods/create_action.rs\<close>, the argument and result structs of
  \<open>src/storage/action_types.rs\<close>, \<open>create_action\<close> of \<open>src/storage/action_traits.rs\<close>): in one database
  transaction a row for the new transaction is inserted, its labels are linked, the caller's inputs
  are claimed, change is generated from the user's spendable outputs, the allocated outputs are
  claimed, and the new outputs are stored under shuffled positions. Parsing of BEEF and of raw
  transactions belongs to the \<open>bsv\<close> crate and is the argument \<open>sdk\<close>; random texts and draws are the
  argument \<open>entropy\<close>. Strings are ASCII.
\<close>

section \<open>Arguments and results\<close>

text \<open>What the code reads of a parsed transaction; the script also in the hexadecimal text of the SDK.\<close>

record sdk_input =
  xi_source_txid :: "string option"
  xi_source_output_index :: u32

record sdk_output =
  xo_satoshis :: "u64 option"
  xo_locking_script :: "u8 list"
  xo_locking_script_hex :: string

record sdk_tx =
  xt_inputs :: "sdk_input list"
  xt_outputs :: "sdk_output list"

text \<open>A parsed BEEF is its lookup by txid; an entry may lack the raw transaction.\<close>

record sdk =
  sdk_merge_beef :: "u8 list \<Rightarrow> string + (string \<Rightarrow> sdk_tx option option)"
  sdk_parse_tx :: "u8 list \<Rightarrow> string + sdk_tx"

record entropy =
  en_reference :: string
  en_prefix :: string
  en_suffix :: "nat \<Rightarrow> string"
  en_draw :: "nat \<Rightarrow> u32"

record storage_out_point =
  op_txid :: string
  op_vout :: u32

record create_action_options =
  cop_sign_and_process :: "bool option"
  cop_accept_delayed_broadcast :: "bool option"
  cop_trust_self :: "string option"
  cop_known_txids :: "string list"
  cop_return_txid_only :: "bool option"
  cop_no_send :: "bool option"
  cop_no_send_change :: "storage_out_point list"
  cop_send_with :: "string list"
  cop_randomize_outputs :: "bool option"

record create_action_input =
  cai_outpoint :: storage_out_point
  cai_input_description :: string
  cai_unlocking_script_length :: usize
  cai_sequence_number :: u32

record create_action_output =
  cao_locking_script :: string
  cao_satoshis :: u64
  cao_output_description :: string
  cao_basket :: "string option"
  cao_custom_instructions :: "string option"
  cao_tags :: "string list"

record create_action_args =
  caa_description :: string
  caa_inputs :: "create_action_input list"
  caa_outputs :: "create_action_output list"
  caa_lock_time :: u32
  caa_version :: u32
  caa_labels :: "string list"
  caa_options :: create_action_options
  caa_input_beef :: "u8 list option"
  caa_is_new_tx :: bool
  caa_is_sign_action :: bool
  caa_is_no_send :: bool
  caa_is_delayed :: bool
  caa_is_send_with :: bool
  caa_is_remix_change :: bool
  caa_is_test_werr_review_actions :: "bool option"
  caa_include_all_source_transactions :: bool
  caa_random_vals :: "f64 list option"

record create_sdk_input =
  csi_vin :: u32
  csi_source_txid :: string
  csi_source_vout :: u32
  csi_source_satoshis :: u64
  csi_source_locking_script :: string
  csi_source_transaction :: "u8 list option"
  csi_unlocking_script_length :: usize
  csi_provided_by :: storage_provided_by
  csi_output_type :: string
  csi_spending_description :: "string option"
  csi_derivation_prefix :: "string option"
  csi_derivation_suffix :: "string option"
  csi_sender_identity_key :: "string option"

record create_sdk_output =
  cso_vout :: u32
  cso_satoshis :: u64
  cso_locking_script :: string
  cso_provided_by :: storage_provided_by
  cso_purpose :: "string option"
  cso_basket :: "string option"
  cso_tags :: "string list"
  cso_output_description :: "string option"
  cso_derivation_suffix :: "string option"
  cso_custom_instructions :: "string option"

record create_action_result =
  car_reference :: string
  car_version :: u32
  car_lock_time :: u32
  car_inputs :: "create_sdk_input list"
  car_outputs :: "create_sdk_output list"
  car_derivation_prefix :: string
  car_input_beef :: "u8 list option"
  car_no_send_change_output_vouts :: "u32 list option"

section \<open>Hexadecimal text\<close>

definition hex_digit :: "nat \<Rightarrow> char" where
  "hex_digit d = (if d < 10 then char_of (48 + d) else char_of (87 + d))"

definition bytes_to_hex :: "u8 list \<Rightarrow> string" where
  "bytes_to_hex bytes = concat (map (\<lambda>b. [hex_digit (unat b div 16), hex_digit (unat b mod 16)]) bytes)"

definition hex_value :: "char \<Rightarrow> nat option" where
  "hex_value c = (let n = of_char c in
     if 48 \<le> n \<and> n \<le> 57 then Some (n - 48)
     else if 97 \<le> n \<and> n \<le> 102 then Some (n - 87)
     else if 65 \<le> n \<and> n \<le> 70 then Some (n - 55) else None)"

text \<open>\<open>u8::from_str_radix\<close> on two characters accepts a leading plus sign.\<close>

definition parse_hex_pair :: "char \<Rightarrow> char \<Rightarrow> u8 option" where
  "parse_hex_pair c d =
     (case (hex_value c, hex_value d) of
        (Some h, Some l) \<Rightarrow> Some (of_nat (16 * h + l))
      | (None, Some l) \<Rightarrow> (if c = CHR ''+'' then Some (of_nat l) else None)
      | _ \<Rightarrow> None)"

fun hex_to_bytes :: "string \<Rightarrow> u8 list" where
  "hex_to_bytes (c # d # rest) =
     (case parse_hex_pair c d of None \<Rightarrow> hex_to_bytes rest | Some b \<Rightarrow> b # hex_to_bytes rest)"
| "hex_to_bytes _ = []"

section \<open>Inputs named by the caller\<close>

definition parse_input_beef ::
  "sdk \<Rightarrow> u8 list option \<Rightarrow> (string \<Rightarrow> sdk_tx option option) option wallet_result" where
  "parse_input_beef sdk input_beef =
     (case input_beef of
        Some bytes \<Rightarrow>
          if bytes \<noteq> [] then
            (case sdk_merge_beef sdk bytes of
               Inl e \<Rightarrow> Err (InvalidParameter ''inputBEEF'' (''valid BEEF binary: '' @ e))
             | Inr beef \<Rightarrow> Ok (Some beef))
          else Ok None
      | None \<Rightarrow> Ok None)"

definition show_outpoint :: "string \<Rightarrow> storage_out_point \<Rightarrow> string" where
  "show_outpoint sep p = op_txid p @ sep @ show_nat (unat (op_vout p))"

definition resolve_external_input ::
  "(string \<Rightarrow> sdk_tx option option) option \<Rightarrow> storage_out_point \<Rightarrow> (u64 \<times> string) wallet_result" where
  "resolve_external_input beef p =
     (case beef of
        None \<Rightarrow> Err (InvalidParameter ''inputBEEF''
          (''provided with proof data for unmanaged input '' @ show_outpoint '':'' p))
      | Some find_txid \<Rightarrow>
          (case find_txid (op_txid p) of
             None \<Rightarrow> Err (InvalidParameter ''inputBEEF'' (''contain source transaction '' @ op_txid p))
           | Some None \<Rightarrow> Err (InvalidParameter ''inputBEEF''
               (''contain raw transaction data (not txid-only) for '' @ op_txid p))
           | Some (Some tx) \<Rightarrow>
               (if unat (op_vout p) < length (xt_outputs tx) then
                  (let out = xt_outputs tx ! unat (op_vout p)
                   in case xo_satoshis out of
                        None \<Rightarrow> Err (InvalidParameter (show_outpoint ''.'' p)
                          ''an output with a satoshis value'')
                      | Some satoshis \<Rightarrow> Ok (satoshis, xo_locking_script_hex out))
                else Err (InvalidParameter (show_outpoint ''.'' p) ''a valid outpoint''))))"

definition by_outpoint :: "int \<Rightarrow> storage_out_point \<Rightarrow> find_outputs_args" where
  "by_outpoint user_id p = find_outputs_default\<lparr>oua_partial :=
     output_partial_default\<lparr>oup_user_id := Some user_id, oup_txid := Some (op_txid p),
       oup_vout := Some (sint (op_vout p))\<rparr>\<rparr>"

definition not_spendable :: "nat \<Rightarrow> storage_out_point \<Rightarrow> wallet_error" where
  "not_spendable vin p = InvalidParameter (''inputs['' @ show_nat vin @ '']'')
     (''spendable output. output '' @ show_outpoint '':'' p @ '' is not spendable.'')"

text \<open>One turn of the loop over the caller's inputs.\<close>

definition take_input ::
  "ts \<Rightarrow> int \<Rightarrow> int \<Rightarrow> (string \<Rightarrow> sdk_tx option option) option \<Rightarrow> nat \<times> create_action_input \<Rightarrow>
    (fixed_input \<times> create_sdk_input) db_op" where
  "take_input now user_id transaction_id beef vi =
     (case vi of (vin, input) \<Rightarrow>
       bindD (readD (find_outputs True (by_outpoint user_id (cai_outpoint input)))) (\<lambda>outputs.
       case outputs of
         row # _ \<Rightarrow>
           if \<not> ou_spendable row then failD (not_spendable vin (cai_outpoint input))
           else
             bindD (writeD (mark_inputs_spent now [ou_output_id row] transaction_id user_id)) (\<lambda>updated.
               if updated \<noteq> 1 then failD (not_spendable vin (cai_outpoint input))
               else returnD
                 (\<lparr>fi_satoshis = word_of_int (ou_satoshis row),
                   fi_unlocking_script_length = cai_unlocking_script_length input\<rparr>,
                  \<lparr>csi_vin = of_nat vin, csi_source_txid = op_txid (cai_outpoint input),
                   csi_source_vout = op_vout (cai_outpoint input),
                   csi_source_satoshis = word_of_int (ou_satoshis row),
                   csi_source_locking_script = (case ou_locking_script row of
                      None \<Rightarrow> [] | Some ls \<Rightarrow> bytes_to_hex ls),
                   csi_source_transaction = None,
                   csi_unlocking_script_length = cai_unlocking_script_length input,
                   csi_provided_by = (if ou_provided_by row = PbStorage then PbStorage else PbYou),
                   csi_output_type = ou_output_type row,
                   csi_spending_description = ou_spending_description row,
                   csi_derivation_prefix = ou_derivation_prefix row,
                   csi_derivation_suffix = ou_derivation_suffix row,
                   csi_sender_identity_key = ou_sender_identity_key row\<rparr>))
       | [] \<Rightarrow>
           bindD (readD (\<lambda>_. resolve_external_input beef (cai_outpoint input))) (\<lambda>(satoshis, script).
             returnD
               (\<lparr>fi_satoshis = satoshis,
                 fi_unlocking_script_length = cai_unlocking_script_length input\<rparr>,
                \<lparr>csi_vin = of_nat vin, csi_source_txid = op_txid (cai_outpoint input),
                 csi_source_vout = op_vout (cai_outpoint input), csi_source_satoshis = satoshis,
                 csi_source_locking_script = script, csi_source_transaction = None,
                 csi_unlocking_script_length = cai_unlocking_script_length input,
                 csi_provided_by = PbYou, csi_output_type = ''custom'',
                 csi_spending_description = None, csi_derivation_prefix = None,
                 csi_derivation_suffix = None, csi_sender_identity_key = None\<rparr>))))"

section \<open>Available change\<close>

definition change_statuses :: "bool \<Rightarrow> transaction_status list" where
  "change_statuses is_delayed = [TsCompleted, TsUnproven] @ (if is_delayed then [TsSending] else [])"

definition change_query :: "int \<Rightarrow> int \<Rightarrow> bool \<Rightarrow> find_outputs_args" where
  "change_query user_id basket_id is_delayed = find_outputs_default\<lparr>oua_partial :=
     output_partial_default\<lparr>oup_user_id := Some user_id, oup_basket_id := Some basket_id,
       oup_spendable := Some True\<rparr>,
     oua_tx_status := Some (change_statuses is_delayed), oua_for_update := True\<rparr>"

definition as_available :: "output_row \<Rightarrow> available_change" where
  "as_available r = \<lparr>ac_output_id = ou_output_id r, ac_satoshis = word_of_int (ou_satoshis r),
     ac_spendable = True\<rparr>"

definition invalid_no_send_change :: "string \<Rightarrow> wallet_error" where
  "invalid_no_send_change must_be = InvalidParameter ''noSendChange outpoint'' must_be"

text \<open>The loop over \<open>options.noSendChange\<close>, with the rows accepted so far.\<close>

fun take_no_send_change :: "int \<Rightarrow> int \<Rightarrow> storage_out_point list \<Rightarrow> output_row list \<Rightarrow> output_row list db_op" where
  "take_no_send_change user_id basket_id [] rows = returnD rows"
| "take_no_send_change user_id basket_id (p # ps) rows =
     bindD (readD (find_outputs True (by_outpoint user_id p))) (\<lambda>found.
     bindD (readD (\<lambda>_. verify_one_or_none found)) (\<lambda>one.
     case one of
       None \<Rightarrow> failD (invalid_no_send_change ''valid'')
     | Some r \<Rightarrow>
         if ou_provided_by r \<noteq> PbStorage \<or> ou_purpose r \<noteq> ''change'' \<or> \<not> ou_spendable r \<or>
            ou_spent_by r \<noteq> None \<or> ou_satoshis r \<le> 0 \<or> ou_basket_id r \<noteq> Some basket_id
         then failD (invalid_no_send_change ''valid'')
         else if \<exists>o1 \<in> set rows. ou_output_id o1 = ou_output_id r
         then failD (invalid_no_send_change ''unique. Duplicates are not allowed.'')
         else take_no_send_change user_id basket_id ps (rows @ [r])))"

section \<open>New outputs\<close>

record pending_output =
  po_row :: output_row
  po_record :: create_sdk_output
  po_is_change :: bool

definition caller_output ::
  "ts \<Rightarrow> int \<Rightarrow> int \<Rightarrow> nat \<times> create_action_output \<Rightarrow> pending_output db_op" where
  "caller_output now user_id transaction_id vs =
     (case vs of (vout, spec) \<Rightarrow>
       bindD (case cao_basket spec of
           None \<Rightarrow> returnD None
         | Some name \<Rightarrow> bindD (find_or_insert_output_basket now user_id name) (\<lambda>b.
             returnD (Some (ob_basket_id b)))) (\<lambda>basket_id.
       let script_bytes = hex_to_bytes (cao_locking_script spec) in
       returnD
         \<lparr>po_row = \<lparr>ou_created_at = now, ou_updated_at = now, ou_output_id = 0, ou_user_id = user_id,
            ou_transaction_id = transaction_id, ou_basket_id = basket_id, ou_spendable = False,
            ou_change = False, ou_output_description = Some (cao_output_description spec),
            ou_vout = sint (of_nat vout :: u32), ou_satoshis = sint (cao_satoshis spec),
            ou_provided_by = PbYou, ou_purpose = [], ou_output_type = ''custom'', ou_txid = None,
            ou_sender_identity_key = None, ou_derivation_prefix = None,
            ou_derivation_suffix = None, ou_custom_instructions = cao_custom_instructions spec,
            ou_spent_by = None, ou_sequence_number = None, ou_spending_description = None,
            ou_script_length = Some (int (length script_bytes)), ou_script_offset = None,
            ou_locking_script = Some script_bytes\<rparr>,
          po_record = \<lparr>cso_vout = of_nat vout, cso_satoshis = cao_satoshis spec,
            cso_locking_script = cao_locking_script spec, cso_provided_by = PbYou,
            cso_purpose = None, cso_basket = cao_basket spec, cso_tags = cao_tags spec,
            cso_output_description = Some (cao_output_description spec),
            cso_derivation_suffix = None, cso_custom_instructions = cao_custom_instructions spec\<rparr>,
          po_is_change = False\<rparr>))"

definition change_output ::
  "ts \<Rightarrow> entropy \<Rightarrow> int \<Rightarrow> int \<Rightarrow> int \<Rightarrow> nat \<Rightarrow> nat \<times> u64 \<Rightarrow> pending_output" where
  "change_output now en user_id transaction_id basket_id first_vout ks =
     (case ks of (k, satoshis) \<Rightarrow>
       \<lparr>po_row = \<lparr>ou_created_at = now, ou_updated_at = now, ou_output_id = 0, ou_user_id = user_id,
          ou_transaction_id = transaction_id, ou_basket_id = Some basket_id, ou_spendable = False,
          ou_change = True, ou_output_description = Some [],
          ou_vout = sint (of_nat (first_vout + k) :: u32), ou_satoshis = sint satoshis,
          ou_provided_by = PbStorage, ou_purpose = ''change'', ou_output_type = ''P2PKH'',
          ou_txid = None, ou_sender_identity_key = None, ou_derivation_prefix = Some (en_prefix en),
          ou_derivation_suffix = Some (en_suffix en k), ou_custom_instructions = None,
          ou_spent_by = None, ou_sequence_number = None, ou_spending_description = None,
          ou_script_length = Some 25, ou_script_offset = None, ou_locking_script = None\<rparr>,
        po_record = \<lparr>cso_vout = of_nat (first_vout + k), cso_satoshis = satoshis,
          cso_locking_script = [], cso_provided_by = PbStorage, cso_purpose = Some ''change'',
          cso_basket = Some ''default'', cso_tags = [], cso_output_description = Some [],
          cso_derivation_suffix = Some (en_suffix en k), cso_custom_instructions = None\<rparr>,
        po_is_change = True\<rparr>)"

definition place_output :: "pending_output \<times> u32 \<Rightarrow> pending_output" where
  "place_output pv =
     (case pv of (p, vout) \<Rightarrow>
        p\<lparr>po_row := (po_row p)\<lparr>ou_vout := sint vout\<rparr>, po_record := (po_record p)\<lparr>cso_vout := vout\<rparr>\<rparr>)"

definition assign_vouts ::
  "(nat \<Rightarrow> u32) \<Rightarrow> create_action_args \<Rightarrow> pending_output list \<Rightarrow> pending_output list wallet_result" where
  "assign_vouts draw args pending =
     (if (case cop_randomize_outputs (caa_options args) of None \<Rightarrow> True | Some b \<Rightarrow> b) \<and> length pending > 1
      then bind_result (randomized_vouts draw (length pending) (caa_random_vals args)) (\<lambda>vouts.
        Ok (map place_output (zip pending vouts)))
      else Ok pending)"

section \<open>Inputs taken from change\<close>

text \<open>The raw source transaction and the script it has at the position of the output.\<close>

definition change_source :: "sdk \<Rightarrow> output_row \<Rightarrow> database \<Rightarrow> u8 list option \<times> string option" where
  "change_source sdk r db =
     (case ou_txid r of
        None \<Rightarrow> (None, None)
      | Some src_txid \<Rightarrow>
          (case find_transactions (find_transactions_default\<lparr>txa_partial :=
               transaction_partial_default\<lparr>txp_txid := Some src_txid\<rparr>\<rparr>) db of
             [] \<Rightarrow> (None, None)
           | tx # _ \<Rightarrow>
               (tx_raw_tx tx,
                Option.bind (tx_raw_tx tx) (\<lambda>raw.
                  case sdk_parse_tx sdk raw of
                    Inl _ \<Rightarrow> None
                  | Inr parsed \<Rightarrow>
                      (let i = unat (word_of_int (ou_vout r) :: usize)
                       in if i < length (xt_outputs parsed)
                          then Some (bytes_to_hex (xo_locking_script (xt_outputs parsed ! i)))
                          else None)))))"

definition change_input :: "sdk \<Rightarrow> database \<Rightarrow> nat \<times> output_row \<Rightarrow> create_sdk_input" where
  "change_input sdk db vr =
     (case vr of (vin, r) \<Rightarrow>
        \<lparr>csi_vin = of_nat vin, csi_source_txid = (case ou_txid r of None \<Rightarrow> [] | Some t \<Rightarrow> t),
         csi_source_vout = word_of_int (ou_vout r), csi_source_satoshis = word_of_int (ou_satoshis r),
         csi_source_locking_script = (case ou_locking_script r of
            Some ls \<Rightarrow> bytes_to_hex ls
          | None \<Rightarrow> (case snd (change_source sdk r db) of None \<Rightarrow> [] | Some s \<Rightarrow> s)),
         csi_source_transaction = fst (change_source sdk r db), csi_unlocking_script_length = 107,
         csi_provided_by = PbStorage, csi_output_type = ou_output_type r,
         csi_spending_description = None, csi_derivation_prefix = ou_derivation_prefix r,
         csi_derivation_suffix = ou_derivation_suffix r,
         csi_sender_identity_key = ou_sender_identity_key r\<rparr>)"

section \<open>The whole action\<close>

definition default_fee_model :: storage_fee_model where
  "default_fee_model = \<lparr>fee_model_name = ''sat/kb'', fee_value = 100\<rparr>"

definition new_transaction :: "ts \<Rightarrow> entropy \<Rightarrow> int \<Rightarrow> create_action_args \<Rightarrow> transaction" where
  "new_transaction now en user_id args =
     \<lparr>tx_created_at = now, tx_updated_at = now, tx_transaction_id = 0, tx_user_id = user_id,
      tx_proven_tx_id = None, tx_status = TsUnsigned, tx_reference = en_reference en,
      tx_is_outgoing = True, tx_satoshis = 0, tx_description = caa_description args,
      tx_version = Some (sint (caa_version args)), tx_lock_time = Some (sint (caa_lock_time args)),
      tx_txid = None, tx_input_beef = caa_input_beef args, tx_raw_tx = None\<rparr>"

definition link_label :: "ts \<Rightarrow> int \<Rightarrow> int \<Rightarrow> string \<Rightarrow> unit db_op" where
  "link_label now user_id transaction_id label =
     bindD (find_or_insert_tx_label now user_id label) (\<lambda>l.
       write_unitD (insert_tx_label_map \<lparr>tm_created_at = now, tm_updated_at = now,
         tm_tx_label_id = tl_tx_label_id l, tm_transaction_id = transaction_id, tm_is_deleted = False\<rparr>))"

definition fixed_output_of :: "create_action_output \<Rightarrow> fixed_output" where
  "fixed_output_of spec = \<lparr>fo_satoshis = cao_satoshis spec,
     fo_locking_script_length = of_nat (length (hex_to_bytes (cao_locking_script spec)))\<rparr>"

definition change_args_of ::
  "output_basket \<Rightarrow> fixed_input list \<Rightarrow> create_action_args \<Rightarrow> nat \<Rightarrow> change_args" where
  "change_args_of basket fixed args available =
     \<lparr>fixed_inputs = fixed, fixed_outputs = map fixed_output_of (caa_outputs args),
      fee_model = default_fee_model,
      change_initial_satoshis = max 1 (word_of_int (ob_minimum_desired_utxo_value basket)),
      change_first_satoshis = max 1 (word_of_int (ob_minimum_desired_utxo_value basket) div 4),
      change_locking_script_length = 25, change_unlocking_script_length = 107,
      target_net_count = Some (ob_number_of_desired_utxos basket - int available)\<rparr>"

text \<open>
  Funding: the available change in ascending order, the accepted noSend change, the generated
  change, and the claim of the allocated outputs.
\<close>

definition fund_action ::
  "ts \<Rightarrow> int \<Rightarrow> int \<Rightarrow> create_action_args \<Rightarrow> output_basket \<Rightarrow> fixed_input list \<Rightarrow>
    (change_result \<times> output_row list) db_op" where
  "fund_action now user_id transaction_id args basket fixed =
     bindD (readD (find_outputs True (change_query user_id (ob_basket_id basket) (caa_is_delayed args))))
       (\<lambda>found.
     let available = sort_key ou_satoshis found in
     bindD (if caa_is_no_send args
         then take_no_send_change user_id (ob_basket_id basket) (cop_no_send_change (caa_options args)) []
         else returnD []) (\<lambda>no_send.
     bindD (readD (\<lambda>_. generate_change_sdk_with_no_send
         (change_args_of basket fixed args (length available))
         (map as_available no_send) (map as_available available))) (\<lambda>change.
     let claimed = sorted_list_of_set (set (map ar_output_id (cr_allocated_change_inputs change))) in
     bindD (writeD (mark_inputs_spent now (claimed) transaction_id user_id)) (\<lambda>updated.
       if updated \<noteq> int (length claimed) then
         failD (InvalidOperation (''utxo contention: '' @ show_int (int (length claimed) - updated) @
           '' of '' @ show_nat (length claimed) @ '' planned funding inputs were claimed by another '' @
           ''transaction; retry createAction''))
       else returnD (change, List.map_filter (\<lambda>a. find (\<lambda>r. ou_output_id r = ar_output_id a)
           (available @ no_send)) (cr_allocated_change_inputs change))))))"

definition store_output :: "pending_output \<Rightarrow> unit db_op" where
  "store_output p = bindD (writeD (insert_output (po_row p))) (\<lambda>_. returnD ())"

definition do_create_action ::
  "sdk \<Rightarrow> entropy \<Rightarrow> ts \<Rightarrow> int \<Rightarrow> create_action_args \<Rightarrow> output_basket \<Rightarrow> create_action_result db_op" where
  "do_create_action sdk en now user_id args basket =
     bindD (writeD (insert_transaction (new_transaction now en user_id args))) (\<lambda>transaction_id.
     bindD (forD (link_label now user_id transaction_id) (caa_labels args)) (\<lambda>_.
     bindD (readD (\<lambda>_. parse_input_beef sdk (caa_input_beef args))) (\<lambda>beef.
     bindD (mapD (take_input now user_id transaction_id beef) (enumerate 0 (caa_inputs args))) (\<lambda>taken.
     bindD (fund_action now user_id transaction_id args basket (map fst taken)) (\<lambda>(change, allocated).
     bindD (mapD (caller_output now user_id transaction_id) (enumerate 0 (caa_outputs args))) (\<lambda>callers.
     let pending = callers @ map (change_output now en user_id transaction_id (ob_basket_id basket)
         (length (caa_outputs args))) (enumerate 0 (cr_change_outputs change)) in
     bindD (readD (\<lambda>_. assign_vouts (en_draw en) args pending)) (\<lambda>pending.
     bindD (forD store_output pending) (\<lambda>_.
     bindD (readD (\<lambda>db. Ok (map (change_input sdk db)
         (enumerate (length taken) allocated)))) (\<lambda>change_inputs.
     bindD (writeD (update_transaction now transaction_id
         (transaction_partial_default\<lparr>txp_is_outgoing := Some True\<rparr>))) (\<lambda>_.
       returnD
         \<lparr>car_reference = en_reference en, car_version = caa_version args,
          car_lock_time = caa_lock_time args, car_inputs = map snd taken @ change_inputs,
          car_outputs = map po_record pending, car_derivation_prefix = en_prefix en,
          car_input_beef = caa_input_beef args,
          car_no_send_change_output_vouts =
            (if caa_is_no_send args
             then Some (map (\<lambda>p. cso_vout (po_record p)) (filter po_is_change pending))
             else None)\<rparr>))))))))))"

definition storage_create_action ::
  "sdk \<Rightarrow> entropy \<Rightarrow> ts \<Rightarrow> int \<Rightarrow> create_action_args \<Rightarrow> create_action_result db_op" where
  "storage_create_action sdk en now user_id args =
     bindD (readD (\<lambda>db. verify_one (find_output_baskets (find_output_baskets_default\<lparr>oba_partial :=
         output_basket_partial_default\<lparr>obp_user_id := Some user_id, obp_name := Some ''default''\<rparr>\<rparr>) db)))
       (\<lambda>basket. in_trx (do_create_action sdk en now user_id args basket))"

definition create_action ::
  "sdk \<Rightarrow> entropy \<Rightarrow> ts \<Rightarrow> string \<Rightarrow> create_action_args \<Rightarrow> create_action_result db_op" where
  "create_action sdk en now identity_key args =
     bindD (writeD (find_or_insert_user now identity_key)) (\<lambda>(user, _).
       storage_create_action sdk en now (us_user_id user) args)"

end
