(* ===== verification/ProcessAction.thy ===== *)
theory ProcessAction
  imports CreateAction
begin

text \<open>
  Committing a signed action (\<open>src/storage/methods/process_action.rs\<close>, \<open>process_action\<close> of
  \<open>src/storage/action_traits.rs\<close>, the argument and result structs of
  \<open>src/storage/action_types.rs\<close>): the unsigned transaction is found by its reference, a proof request
  is inserted, the transaction and its outputs get the txid, and a \<open>sendWith\<close> batch is scheduled.
  The batch identifier is the argument \<open>batch_text\<close>: base64 of sixteen random bytes. The field for
  results of a direct broadcast is never filled by this function and is left out.
\<close>

section \<open>Status texts\<close>

fun show_tx_status :: "transaction_status \<Rightarrow> string" where
  "show_tx_status TsCompleted = ''completed''"
| "show_tx_status TsFailed = ''failed''"
| "show_tx_status TsUnprocessed = ''unprocessed''"
| "show_tx_status TsSending = ''sending''"
| "show_tx_status TsUnproven = ''unproven''"
| "show_tx_status TsUnsigned = ''unsigned''"
| "show_tx_status TsNosend = ''nosend''"
| "show_tx_status TsNonfinal = ''nonfinal''"
| "show_tx_status TsUnfail = ''unfail''"

fun show_req_status :: "proven_tx_req_status \<Rightarrow> string" where
  "show_req_status RsSending = ''sending''"
| "show_req_status RsUnsent = ''unsent''"
| "show_req_status RsNosend = ''nosend''"
| "show_req_status RsUnknown = ''unknown''"
| "show_req_status RsNonfinal = ''nonfinal''"
| "show_req_status RsUnprocessed = ''unprocessed''"
| "show_req_status RsUnmined = ''unmined''"
| "show_req_status RsCallback = ''callback''"
| "show_req_status RsUnconfirmed = ''unconfirmed''"
| "show_req_status RsCompleted = ''completed''"
| "show_req_status RsInvalid = ''invalid''"
| "show_req_status RsDoubleSpend = ''doubleSpend''"
| "show_req_status RsUnfail = ''unfail''"

section \<open>Arguments and results\<close>

record process_action_args =
  paa_is_new_tx :: bool
  paa_is_send_with :: bool
  paa_is_no_send :: bool
  paa_is_delayed :: bool
  paa_reference :: "string option"
  paa_txid :: "string option"
  paa_raw_tx :: "u8 list option"
  paa_send_with :: "string list"

datatype action_result_status = ArUnproven | ArSending | ArFailed

record send_with_result =
  swr_txid :: string
  swr_status :: action_result_status

record process_action_result =
  par_send_with_results :: "send_with_result list option"
  par_log :: "string option"

section \<open>The sendWith batch\<close>

definition ready_to_send :: "proven_tx_req \<Rightarrow> bool" where
  "ready_to_send req \<longleftrightarrow>
     pr_status req \<in> {RsSending, RsUnsent, RsNosend, RsUnprocessed} \<and> pr_raw_tx req \<noteq> []"

definition already_sent :: "proven_tx_req \<Rightarrow> bool" where
  "already_sent req \<longleftrightarrow> pr_status req \<in> {RsUnmined, RsCallback, RsUnconfirmed, RsCompleted}"

definition requests_of :: "string \<Rightarrow> database \<Rightarrow> proven_tx_req list" where
  "requests_of txid = find_proven_tx_reqs (find_proven_tx_reqs_default\<lparr>pra_partial :=
     proven_tx_req_partial_default\<lparr>prp_txid := Some txid\<rparr>\<rparr>)"

definition user_transactions_of :: "int \<Rightarrow> string \<Rightarrow> database \<Rightarrow> transaction list" where
  "user_transactions_of user_id txid = find_transactions (find_transactions_default\<lparr>txa_partial :=
     transaction_partial_default\<lparr>txp_user_id := Some user_id, txp_txid := Some txid\<rparr>\<rparr>)"

definition set_sending :: "ts \<Rightarrow> transaction \<Rightarrow> unit db_op" where
  "set_sending now tx = bindD (writeD (update_transaction now (tx_transaction_id tx)
     (transaction_partial_default\<lparr>txp_status := Some TsSending\<rparr>))) (\<lambda>_. returnD ())"

definition release_request :: "ts \<Rightarrow> string option \<Rightarrow> int \<Rightarrow> unit db_op" where
  "release_request now batch req_id = bindD (writeD (update_proven_tx_req now req_id
     (proven_tx_req_partial_default\<lparr>prp_status := Some RsUnsent, prp_batch := batch\<rparr>))) (\<lambda>_. returnD ())"

definition schedule_one :: "ts \<Rightarrow> int \<Rightarrow> string option \<Rightarrow> string \<Rightarrow> send_with_result db_op" where
  "schedule_one now user_id batch txid =
     bindD (readD (\<lambda>db. Ok (requests_of txid db))) (\<lambda>reqs.
     case reqs of
       [] \<Rightarrow> returnD \<lparr>swr_txid = txid, swr_status = ArFailed\<rparr>
     | req # _ \<Rightarrow>
         if ready_to_send req then
           bindD (release_request now batch (pr_proven_tx_req_id req)) (\<lambda>_.
           bindD (readD (\<lambda>db. Ok (user_transactions_of user_id txid db))) (\<lambda>txs.
           bindD (forD (set_sending now) txs) (\<lambda>_.
             returnD \<lparr>swr_txid = txid, swr_status = ArSending\<rparr>)))
         else returnD \<lparr>swr_txid = txid,
           swr_status = (if already_sent req then ArUnproven else ArFailed)\<rparr>)"

definition schedule_send_with :: "string \<Rightarrow> ts \<Rightarrow> int \<Rightarrow> string list \<Rightarrow> send_with_result list db_op" where
  "schedule_send_with batch_text now user_id txids =
     (if txids = [] then returnD []
      else in_trx (mapD (schedule_one now user_id
        (if length txids > 1 then Some batch_text else None)) txids))"

section \<open>Committing the transaction\<close>

definition action_status ::
  "process_action_args \<Rightarrow> (proven_tx_req_status \<times> transaction_status) wallet_result" where
  "action_status args =
     (if paa_is_no_send args \<and> \<not> paa_is_send_with args then Ok (RsNosend, TsNosend)
      else if \<not> paa_is_no_send args \<and> paa_is_delayed args then Ok (RsUnsent, TsUnprocessed)
      else if \<not> paa_is_no_send args \<and> \<not> paa_is_delayed args then Ok (RsUnprocessed, TsUnprocessed)
      else Err (Internal ''logic error in status determination''))"

text \<open>The compact JSON text of the object with the one field \<open>transactionIds\<close>.\<close>

definition notify_text :: "int \<Rightarrow> string" where
  "notify_text transaction_id =
     ''{'' @ [CHR 0x22] @ ''transactionIds'' @ [CHR 0x22] @ '':['' @ show_int transaction_id @ '']}''"

definition new_request ::
  "ts \<Rightarrow> proven_tx_req_status \<Rightarrow> string \<Rightarrow> u8 list \<Rightarrow> transaction \<Rightarrow> proven_tx_req" where
  "new_request now status txid raw_tx tx =
     \<lparr>pr_created_at = now, pr_updated_at = now, pr_proven_tx_req_id = 0, pr_proven_tx_id = None,
      pr_status = status, pr_attempts = 0, pr_notified = False, pr_txid = txid, pr_batch = None,
      pr_history = ''[]'', pr_notify = notify_text (tx_transaction_id tx), pr_raw_tx = raw_tx,
      pr_input_beef = tx_input_beef tx\<rparr>"

definition outputs_of :: "int \<Rightarrow> int \<Rightarrow> find_outputs_args" where
  "outputs_of user_id transaction_id = find_outputs_default\<lparr>oua_partial :=
     output_partial_default\<lparr>oup_user_id := Some user_id, oup_transaction_id := Some transaction_id\<rparr>\<rparr>"

definition release_output :: "ts \<Rightarrow> string \<Rightarrow> output_row \<Rightarrow> unit db_op" where
  "release_output now txid r = bindD (writeD (update_output now (ou_output_id r)
     (output_partial_default\<lparr>oup_txid := Some txid, oup_spendable := Some True\<rparr>))) (\<lambda>_. returnD ())"

definition commit_action ::
  "ts \<Rightarrow> int \<Rightarrow> string \<Rightarrow> u8 list \<Rightarrow> transaction \<Rightarrow> proven_tx_req_status \<Rightarrow> transaction_status \<Rightarrow> unit db_op" where
  "commit_action now user_id txid raw_tx tx req_status new_status =
     bindD (writeD (insert_proven_tx_req (new_request now req_status txid raw_tx tx))) (\<lambda>_.
     bindD (writeD (update_transaction now (tx_transaction_id tx)
         (transaction_partial_default\<lparr>txp_txid := Some txid, txp_status := Some new_status,
            txp_raw_tx := Some raw_tx\<rparr>))) (\<lambda>_.
     bindD (readD (find_outputs True (outputs_of user_id (tx_transaction_id tx)))) (\<lambda>outputs.
       forD (release_output now txid) outputs)))"

definition required :: "string \<Rightarrow> 'a option \<Rightarrow> 'a wallet_result" where
  "required name v =
     (case v of None \<Rightarrow> Err (InvalidOperation (name @ '' is required'')) | Some x \<Rightarrow> Ok x)"

definition by_reference :: "int \<Rightarrow> string \<Rightarrow> database \<Rightarrow> transaction list" where
  "by_reference user_id reference = find_transactions (find_transactions_default\<lparr>txa_partial :=
     transaction_partial_default\<lparr>txp_user_id := Some user_id, txp_reference := Some reference\<rparr>\<rparr>)"

definition check_signable :: "transaction \<Rightarrow> unit wallet_result" where
  "check_signable tx =
     (if \<not> tx_is_outgoing tx then Err (InvalidOperation ''isOutgoing is not true'')
      else if tx_status tx \<noteq> TsUnsigned \<and> tx_status tx \<noteq> TsUnprocessed
      then Err (InvalidOperation (''invalid transaction status '' @ show_tx_status (tx_status tx)))
      else Ok ())"

definition storage_process_action ::
  "string \<Rightarrow> ts \<Rightarrow> int \<Rightarrow> process_action_args \<Rightarrow> process_action_result db_op" where
  "storage_process_action batch_text now user_id args =
     (if \<not> paa_is_new_tx args then
        bindD (schedule_send_with batch_text now user_id (paa_send_with args)) (\<lambda>results.
          returnD \<lparr>par_send_with_results = Some results, par_log = None\<rparr>)
      else
        bindD (readD (\<lambda>_. required ''reference'' (paa_reference args))) (\<lambda>reference.
        bindD (readD (\<lambda>_. required ''txid'' (paa_txid args))) (\<lambda>txid.
        bindD (readD (\<lambda>_. required ''rawTx'' (paa_raw_tx args))) (\<lambda>raw_tx.
        bindD (readD (\<lambda>db. verify_one (by_reference user_id reference db))) (\<lambda>tx.
        bindD (readD (\<lambda>_. check_signable tx)) (\<lambda>_.
        bindD (readD (\<lambda>_. action_status args)) (\<lambda>(req_status, new_status).
        bindD (in_trx (commit_action now user_id txid raw_tx tx req_status new_status)) (\<lambda>_.
          if paa_send_with args = []
          then returnD \<lparr>par_send_with_results = None, par_log = None\<rparr>
          else
            bindD (schedule_send_with batch_text now user_id (paa_send_with args @
                (if \<not> (paa_is_no_send args \<and> \<not> paa_is_send_with args) then [txid] else []))) (\<lambda>results.
              returnD \<lparr>par_send_with_results = Some results, par_log = None\<rparr>)))))))))"

definition process_action ::
  "string \<Rightarrow> ts \<Rightarrow> string \<Rightarrow> process_action_args \<Rightarrow> process_action_result db_op" where
  "process_action batch_text now identity_key args =
     bindD (writeD (find_or_insert_user now identity_key)) (\<lambda>(user, _).
       storage_process_action batch_text now (us_user_id user) args)"

end
