(* ===== verification/AbortAction.thy ===== *)
theory AbortAction
  imports ProcessAction
begin

text \<open>
  Aborting an action (\<open>src/storage/methods/abort_action.rs\<close> and \<open>abort_action\<close> of
  \<open>src/storage/traits/wallet_provider.rs\<close>): the transaction is found by its reference or its txid, the
  outputs it consumes are released, the outputs it created are retired, it is failed, and its proof
  request is marked invalid with two notes in its history. The base64 text of the reference, the
  JSON text of a history and the text of the time belong to other crates and are the argument
  \<open>codec\<close>; the order of the fields of a JSON object is left to its printer.
\<close>

section \<open>Texts\<close>

datatype json =
    JNull | JBool bool | JNumber string | JString string | JArray "json list"
  | JObject "(string \<times> json) list"

record codec =
  cd_base64 :: "u8 list \<Rightarrow> string"
  cd_parse_json :: "string \<Rightarrow> json option"
  cd_print_json :: "json \<Rightarrow> string"
  cd_show_time :: "ts \<Rightarrow> string"

fun put_field :: "string \<Rightarrow> json \<Rightarrow> (string \<times> json) list \<Rightarrow> (string \<times> json) list" where
  "put_field k v [] = [(k, v)]"
| "put_field k v ((k', v') # members) =
     (if k' = k then (k, v) # members else (k', v') # put_field k v members)"

text \<open>\<open>std::str::from_utf8\<close>; a string is the list of its bytes.\<close>

definition continuation :: "u8 \<Rightarrow> u8 \<Rightarrow> u8 \<Rightarrow> bool" where
  "continuation lo hi b \<longleftrightarrow> lo \<le> b \<and> b \<le> hi"

fun utf8_valid :: "u8 list \<Rightarrow> bool" where
  "utf8_valid [] = True"
| "utf8_valid (a # rest) =
     (if a < 0x80 then utf8_valid rest
      else case rest of
        [] \<Rightarrow> False
      | b # rest1 \<Rightarrow>
          if 0xC2 \<le> a \<and> a \<le> 0xDF then continuation 0x80 0xBF b \<and> utf8_valid rest1
          else (case rest1 of
            [] \<Rightarrow> False
          | c # rest2 \<Rightarrow>
              if 0xE0 \<le> a \<and> a \<le> 0xEF then
                continuation (if a = 0xE0 then 0xA0 else 0x80) (if a = 0xED then 0x9F else 0xBF) b \<and>
                continuation 0x80 0xBF c \<and> utf8_valid rest2
              else (case rest2 of
                [] \<Rightarrow> False
              | d # rest3 \<Rightarrow>
                  0xF0 \<le> a \<and> a \<le> 0xF4 \<and>
                  continuation (if a = 0xF0 then 0x90 else 0x80) (if a = 0xF4 then 0x8F else 0xBF) b \<and>
                  continuation 0x80 0xBF c \<and> continuation 0x80 0xBF d \<and> utf8_valid rest3)))"

definition from_utf8 :: "u8 list \<Rightarrow> string option" where
  "from_utf8 bytes = (if utf8_valid bytes then Some (map (\<lambda>b. char_of (unat b)) bytes) else None)"

section \<open>The transaction to abort\<close>

definition txid_fallback :: "codec \<Rightarrow> u8 list \<Rightarrow> string option" where
  "txid_fallback cd reference =
     (if length (cd_base64 cd reference) = 64 then Some (cd_base64 cd reference)
      else case from_utf8 reference of
        None \<Rightarrow> None
      | Some value \<Rightarrow> (if length value = 64 then Some value else None))"

definition find_action :: "codec \<Rightarrow> int \<Rightarrow> u8 list \<Rightarrow> database \<Rightarrow> transaction list" where
  "find_action cd user_id reference db =
     (case by_reference user_id (cd_base64 cd reference) db of
        [] \<Rightarrow> (case txid_fallback cd reference of
           None \<Rightarrow> []
         | Some txid \<Rightarrow> user_transactions_of user_id txid db)
      | txs \<Rightarrow> txs)"

definition un_abortable :: "transaction_status set" where
  "un_abortable = {TsCompleted, TsFailed, TsSending, TsUnproven}"

definition action_to_abort :: "codec \<Rightarrow> int \<Rightarrow> u8 list \<Rightarrow> database \<Rightarrow> transaction wallet_result" where
  "action_to_abort cd user_id reference db =
     (case find_action cd user_id reference db of
        [] \<Rightarrow> Err (InvalidParameter ''reference'' ''an existing action reference'')
      | tx # _ \<Rightarrow>
          if \<not> tx_is_outgoing tx \<or> tx_status tx \<in> un_abortable
          then Err (InvalidParameter ''reference''
            ''an inprocess, outgoing action that has not been signed and shared to the network'')
          else Ok tx)"

section \<open>Consumed and created outputs\<close>

definition spent_by_query :: "int \<Rightarrow> int \<Rightarrow> find_outputs_args" where
  "spent_by_query user_id transaction_id = find_outputs_default\<lparr>oua_partial :=
     output_partial_default\<lparr>oup_user_id := Some user_id, oup_spent_by := Some transaction_id\<rparr>\<rparr>"

fun push_new :: "output_row list \<Rightarrow> output_row list \<Rightarrow> output_row list" where
  "push_new inputs [] = inputs"
| "push_new inputs (r # rs) =
     push_new (if \<exists>e \<in> set inputs. ou_output_id e = ou_output_id r then inputs else inputs @ [r]) rs"

fun add_raw_inputs :: "int \<Rightarrow> sdk_input list \<Rightarrow> output_row list \<Rightarrow> output_row list db_op" where
  "add_raw_inputs user_id [] inputs = returnD inputs"
| "add_raw_inputs user_id (x # xs) inputs =
     (case xi_source_txid x of
        None \<Rightarrow> add_raw_inputs user_id xs inputs
      | Some txid \<Rightarrow>
          bindD (readD (find_outputs True (by_outpoint user_id
              \<lparr>op_txid = txid, op_vout = xi_source_output_index x\<rparr>))) (\<lambda>found.
            add_raw_inputs user_id xs (push_new inputs found)))"

definition consumed_inputs :: "sdk \<Rightarrow> int \<Rightarrow> transaction \<Rightarrow> output_row list db_op" where
  "consumed_inputs sdk user_id tx =
     bindD (readD (find_outputs True (spent_by_query user_id (tx_transaction_id tx)))) (\<lambda>inputs.
     case tx_raw_tx tx of
       None \<Rightarrow> returnD inputs
     | Some raw_tx \<Rightarrow>
         (case sdk_parse_tx sdk raw_tx of
            Inl e \<Rightarrow> failD (Internal (''abort_action: transaction '' @ show_int (tx_transaction_id tx) @
              '' has invalid rawTx: '' @ e))
          | Inr parsed \<Rightarrow> add_raw_inputs user_id (xt_inputs parsed) inputs))"

definition retire_output :: "ts \<Rightarrow> output_row \<Rightarrow> unit db_op" where
  "retire_output now r =
     (if ou_spendable r \<or> ou_spent_by r \<noteq> None then
        bindD (writeD (update_output now (ou_output_id r)
          (output_partial_default\<lparr>oup_spendable := Some False, oup_spent_by := Some 0\<rparr>))) (\<lambda>_. returnD ())
      else returnD ())"

section \<open>The history of the request\<close>

definition abort_notes :: "codec \<Rightarrow> ts \<Rightarrow> string \<Rightarrow> proven_tx_req \<Rightarrow> json list" where
  "abort_notes cd now reference req =
     JObject [(''what'', JString ''abortAction''), (''reference'', JString reference),
       (''when'', JString (cd_show_time cd now))] #
     (if pr_status req \<noteq> RsInvalid then
        [JObject [(''what'', JString ''status''),
          (''status_was'', JString (show_req_status (pr_status req))),
          (''status_now'', JString (show_req_status RsInvalid)), (''when'', JString (cd_show_time cd now))]]
      else [])"

definition history_error :: "proven_tx_req \<Rightarrow> string \<Rightarrow> wallet_error" where
  "history_error req what =
     Internal (''abort_action: proven request '' @ show_int (pr_proven_tx_req_id req) @ '' history '' @ what)"

definition noted_history :: "codec \<Rightarrow> ts \<Rightarrow> string \<Rightarrow> proven_tx_req \<Rightarrow> string wallet_result" where
  "noted_history cd now reference req =
     (case (case cd_parse_json cd (pr_history req) of None \<Rightarrow> JObject [] | Some h \<Rightarrow> h) of
        JObject members \<Rightarrow>
          (case (case map_of members ''notes'' of None \<Rightarrow> JArray [] | Some n \<Rightarrow> n) of
             JArray notes \<Rightarrow>
               Ok (cd_print_json cd (JObject (put_field ''notes''
                 (JArray (notes @ abort_notes cd now reference req)) members)))
           | _ \<Rightarrow> Err (history_error req ''notes is not an array''))
      | _ \<Rightarrow> Err (history_error req ''is not an object''))"

definition invalidate_request :: "codec \<Rightarrow> ts \<Rightarrow> string \<Rightarrow> string option \<Rightarrow> unit db_op" where
  "invalidate_request cd now reference txid =
     (case txid of
        None \<Rightarrow> returnD ()
      | Some txid \<Rightarrow>
          bindD (readD (\<lambda>db. Ok (requests_of txid db))) (\<lambda>reqs.
          case reqs of
            [] \<Rightarrow> returnD ()
          | req # _ \<Rightarrow>
              bindD (readD (\<lambda>_. noted_history cd now reference req)) (\<lambda>history.
              bindD (writeD (update_proven_tx_req now (pr_proven_tx_req_id req)
                (proven_tx_req_partial_default\<lparr>prp_status := Some RsInvalid,
                   prp_history := Some history\<rparr>))) (\<lambda>_. returnD ()))))"

section \<open>The whole abort\<close>

definition abort_transaction ::
  "codec \<Rightarrow> sdk \<Rightarrow> ts \<Rightarrow> int \<Rightarrow> u8 list \<Rightarrow> transaction \<Rightarrow> unit db_op" where
  "abort_transaction cd sdk now user_id reference tx =
     bindD (consumed_inputs sdk user_id tx) (\<lambda>inputs.
     bindD (writeD (release_inputs_spent_by now (map ou_output_id inputs) (tx_transaction_id tx))) (\<lambda>_.
     bindD (readD (find_outputs True (outputs_of user_id (tx_transaction_id tx)))) (\<lambda>created.
     bindD (forD (retire_output now) created) (\<lambda>_.
     bindD (writeD (update_transaction now (tx_transaction_id tx)
         (transaction_partial_default\<lparr>txp_status := Some TsFailed\<rparr>))) (\<lambda>_.
       invalidate_request cd now
         (case txid_fallback cd reference of None \<Rightarrow> cd_base64 cd reference | Some t \<Rightarrow> t)
         (tx_txid tx))))))"

definition do_abort_action :: "codec \<Rightarrow> sdk \<Rightarrow> ts \<Rightarrow> string \<Rightarrow> u8 list \<Rightarrow> bool db_op" where
  "do_abort_action cd sdk now identity_key reference =
     bindD (readD (find_user_by_identity_key identity_key)) (\<lambda>found.
     bindD (readD (\<lambda>_. case found of
         None \<Rightarrow> Err (Unauthorized ''User not found'')
       | Some user \<Rightarrow> Ok user)) (\<lambda>user.
     bindD (readD (action_to_abort cd (us_user_id user) reference)) (\<lambda>tx.
     bindD (abort_transaction cd sdk now (us_user_id user) reference tx) (\<lambda>_. returnD True))))"

definition abort_action :: "codec \<Rightarrow> sdk \<Rightarrow> ts \<Rightarrow> string \<Rightarrow> u8 list \<Rightarrow> bool db_op" where
  "abort_action cd sdk now identity_key reference = in_trx (do_abort_action cd sdk now identity_key reference)"

end
