(* ===== verification/CreateCorrect.thy ===== *)
theory CreateCorrect
  imports CreateAction
begin

text \<open>
  What creating an action does: the outputs it claims, the rows it adds, and that the inputs it
  returns pay for the outputs it returns and the fee. The effect is read off the run step by step;
  the parts of the database that a step leaves alone are frame lemmas.
\<close>

section \<open>Inputs and the outputs they spend\<close>

definition output_rows :: "database \<Rightarrow> output_row list" where
  "output_rows db = tb_rows (db_outputs db)"

definition spends :: "create_sdk_input \<Rightarrow> output_row \<Rightarrow> bool" where
  "spends inp r \<longleftrightarrow>
     csi_source_txid inp = (case ou_txid r of None \<Rightarrow> [] | Some t \<Rightarrow> t) \<and>
     csi_source_vout inp = word_of_int (ou_vout r) \<and>
     csi_source_satoshis inp = word_of_int (ou_satoshis r)"

definition at_outpoint :: "int \<Rightarrow> create_sdk_input \<Rightarrow> output_row \<Rightarrow> bool" where
  "at_outpoint user_id inp r \<longleftrightarrow>
     ou_user_id r = user_id \<and> ou_txid r = Some (csi_source_txid inp) \<and>
     ou_vout r = sint (csi_source_vout inp)"

text \<open>
  Every input spends one of the outputs \<open>C\<close> or names no output of the user, and every output of
  \<open>C\<close> is spent by one of the inputs.
\<close>

definition paid_by :: "int \<Rightarrow> int set \<Rightarrow> database \<Rightarrow> create_sdk_input list \<Rightarrow> bool" where
  "paid_by user_id C db inps \<longleftrightarrow>
     (\<forall>inp \<in> set inps. (\<exists>r \<in> set (output_rows db). ou_output_id r \<in> C \<and> spends inp r) \<or>
        (\<forall>r \<in> set (output_rows db). \<not> at_outpoint user_id inp r)) \<and>
     (\<forall>i \<in> C. \<exists>inp \<in> set inps. \<exists>r \<in> set (output_rows db). ou_output_id r = i \<and> spends inp r)"

lemma paid_by_Nil [simp]: "paid_by u {} db []"
  by (simp add: paid_by_def)

lemma paid_by_append:
  "paid_by u C db xs \<Longrightarrow> paid_by u D db ys \<Longrightarrow> paid_by u (C \<union> D) db (xs @ ys)"
  unfolding paid_by_def by (fastforce simp: ball_Un)

lemma spends_claim [simp]: "spends inp (claim_in now i C r) = spends inp r"
  by (simp add: spends_def)

lemma at_outpoint_claim [simp]: "at_outpoint u inp (claim_in now i C r) = at_outpoint u inp r"
  by (simp add: at_outpoint_def)

lemma claimed_rows: "claimed now i u C db db1 \<Longrightarrow> output_rows db1 = map (claim_in now i C) (output_rows db)"
  by (simp add: claimed_def output_rows_def)

lemma paid_by_claimed: "claimed now i u C db db1 \<Longrightarrow> paid_by v D db1 inps \<longleftrightarrow> paid_by v D db inps"
  by (simp add: paid_by_def claimed_rows)

lemma find_by_outpoint:
  "find_outputs trx (by_outpoint u p) db =
     Ok (filter (\<lambda>r. ou_user_id r = u \<and> ou_vout r = sint (op_vout p) \<and> ou_txid r = Some (op_txid p))
       (output_rows db))"
proof -
  have "outputs_where db (by_outpoint u p) r \<longleftrightarrow>
      ou_user_id r = u \<and> ou_vout r = sint (op_vout p) \<and> ou_txid r = Some (op_txid p)" for r
    by (simp add: by_outpoint_def find_outputs_default_def outputs_where_def output_partial_default_def)
  then have "outputs_where db (by_outpoint u p) =
      (\<lambda>r. ou_user_id r = u \<and> ou_vout r = sint (op_vout p) \<and> ou_txid r = Some (op_txid p))" by blast
  then show ?thesis
    by (simp add: find_outputs_def output_rows_def by_outpoint_def find_outputs_default_def
        output_partial_default_def)
qed

section \<open>The caller's inputs\<close>

definition same_input :: "fixed_input \<times> create_sdk_input \<Rightarrow> bool" where
  "same_input x \<longleftrightarrow> fi_satoshis (fst x) = csi_source_satoshis (snd x) \<and>
     fi_unlocking_script_length (fst x) = csi_unlocking_script_length (snd x)"

lemma take_input_effect:
  assumes "take_input now u i beef vi db = (Ok x, db')" "ids_ok ou_output_id (db_outputs db)"
  shows "\<exists>C. claimed now i u C db db' \<and> paid_by u C db [snd x] \<and> same_input x"
proof -
  obtain vin inp where vi: "vi = (vin, inp)" by fastforce
  let ?p = "cai_outpoint inp"
  let ?rows = "filter (\<lambda>r. ou_user_id r = u \<and> ou_vout r = sint (op_vout ?p) \<and> ou_txid r = Some (op_txid ?p))
    (output_rows db)"
  show ?thesis
  proof (cases ?rows)
    case Nil
    then have none: "\<forall>r \<in> set (output_rows db). ou_user_id r = u \<longrightarrow> ou_vout r = sint (op_vout ?p) \<longrightarrow>
        ou_txid r \<noteq> Some (op_txid ?p)"
      by (simp add: filter_empty_conv)
    obtain s script where x: "resolve_external_input beef ?p = Ok (s, script)" "db' = db"
      "csi_source_txid (snd x) = op_txid ?p" "csi_source_vout (snd x) = op_vout ?p" "same_input x"
      using assms(1) Nil by (auto simp: vi take_input_def run_simps find_by_outpoint same_input_def)
    then have "paid_by u {} db [snd x]" using none by (auto simp: paid_by_def at_outpoint_def)
    then show ?thesis using x(2,5) claimed_none by blast
  next
    case (Cons r rest)
    have "r \<in> set ?rows" by (simp add: Cons)
    then have r: "r \<in> set (output_rows db)" "ou_vout r = sint (op_vout ?p)" "ou_txid r = Some (op_txid ?p)"
      by auto
    have m: "mark_inputs_spent now [ou_output_id r] i u db = Ok (db', 1)"
      and x: "spends (snd x) r" "same_input x"
      using assms(1) Cons r
      by (auto simp: vi take_input_def run_simps find_by_outpoint same_input_def spends_def split: if_splits)
    have "claimed now i u {ou_output_id r} db db'"
      using mark_inputs_spent_claims [OF m] assms(2) by simp
    moreover have "paid_by u {ou_output_id r} db [snd x]" using r(1) x(1) by (auto simp: paid_by_def)
    ultimately show ?thesis using x(2) by blast
  qed
qed

lemma take_inputs_effect:
  assumes "mapD (take_input now u i beef) vis db = (Ok xs, db')" "ids_ok ou_output_id (db_outputs db)"
  shows "\<exists>C. claimed now i u C db db' \<and> paid_by u C db (map snd xs) \<and> list_all same_input xs"
  using assms
proof (induction vis arbitrary: db xs)
  case Nil
  then show ?case by (auto simp: run_simps intro: claimed_none)
next
  case (Cons vi vis)
  then obtain x ys db1 where x: "take_input now u i beef vi db = (Ok x, db1)"
    and ys: "mapD (take_input now u i beef) vis db1 = (Ok ys, db')" and xs: "xs = x # ys"
    by (auto simp: run_simps)
  obtain C where C: "claimed now i u C db db1" "paid_by u C db [snd x]" "same_input x"
    using take_input_effect [OF x Cons.prems(2)] by blast
  obtain D where D: "claimed now i u D db1 db'" "paid_by u D db1 (map snd ys)" "list_all same_input ys"
    using Cons.IH [OF ys] claimed_ids_ok [OF C(1)] Cons.prems(2) by blast
  have "paid_by u (C \<union> D) db (map snd xs)"
    using paid_by_append [OF C(2)] D(2) paid_by_claimed [OF C(1)] by (simp add: xs)
  then show ?case using claimed_trans [OF C(1) D(1)] C(3) D(3) xs by auto
qed

section \<open>Funding\<close>

lemma find_change:
  assumes "find_outputs True (change_query u b d) db = Ok found"
  shows "set found \<subseteq> set (output_rows db)"
  using assms by (auto simp: find_outputs_def change_query_def find_outputs_default_def
      output_partial_default_def output_rows_def)

lemma take_no_send_change_rows:
  assumes "take_no_send_change u b ps rows db = (Ok out, db')" "distinct (map ou_output_id rows)"
  shows "db' = db \<and> distinct (map ou_output_id out) \<and>
    (\<forall>r \<in> set out. r \<in> set rows \<or> r \<in> set (output_rows db) \<and> (\<exists>p \<in> set ps. ou_txid r = Some (op_txid p)))"
  using assms
proof (induction ps arbitrary: rows)
  case Nil
  then show ?case by (simp add: run_simps)
next
  case (Cons p ps)
  from Cons.prems(1) obtain r where r: "[r] = filter (\<lambda>r. ou_user_id r = u \<and> ou_vout r = sint (op_vout p) \<and>
        ou_txid r = Some (op_txid p)) (output_rows db)"
    and new: "ou_output_id r \<notin> ou_output_id ` set rows"
    and rest: "take_no_send_change u b ps (rows @ [r]) db = (Ok out, db')"
    by (fastforce simp: run_simps find_by_outpoint verify_one_or_none_Ok split: if_splits)
  have "r \<in> set (output_rows db) \<and> ou_txid r = Some (op_txid p)"
    using arg_cong [OF r, of set] by auto
  then show ?case using Cons.IH [OF rest] Cons.prems(2) new by auto
qed

text \<open>The rows that stand for the allocated coins, one per coin, in the same order.\<close>

lemma allocated_rows:
  assumes "set refs \<subseteq> set (map ref_of (map as_available rows))" and rows': "set rows' = set rows"
  shows "list_all2 (\<lambda>a r. ou_output_id r = ar_output_id a \<and> r \<in> set rows) refs
      (List.map_filter (\<lambda>a. find (\<lambda>r. ou_output_id r = ar_output_id a) rows') refs)"
  using assms(1)
proof (induction refs)
  case Nil
  then show ?case by (simp add: List.map_filter_def)
next
  case (Cons a refs)
  then obtain r where "r \<in> set rows'" "ou_output_id r = ar_output_id a"
    using rows' by (auto simp: as_available_def)
  then obtain r' where f: "find (\<lambda>r. ou_output_id r = ar_output_id a) rows' = Some r'"
    by (cases "find (\<lambda>r. ou_output_id r = ar_output_id a) rows'") (auto simp: find_None_iff)
  then have "r' \<in> set rows'" "ou_output_id r' = ar_output_id a"
    by (auto simp: find_Some_iff)
  then show ?case using Cons f rows' by (simp add: List.map_filter_simps)
qed

definition stands_for :: "database \<Rightarrow> allocated_ref \<Rightarrow> output_row \<Rightarrow> bool" where
  "stands_for db a r \<longleftrightarrow> r \<in> set (output_rows db) \<and> ou_output_id r = ar_output_id a \<and>
     word_of_int (ou_satoshis r) = ar_satoshis a"

lemma row_by_id:
  assumes "ids_ok ou_output_id (db_outputs db)" "r \<in> set (output_rows db)" "s \<in> set (output_rows db)"
    "ou_output_id r = ou_output_id s"
  shows "r = s"
  using assms by (auto simp: ids_ok_def output_rows_def distinct_map dest: inj_onD)

lemma fund_action_run:
  assumes "fund_action now u i args basket fixed db = (Ok (change, allocated), db')"
  obtains found no_send n where
    "find_outputs True (change_query u (ob_basket_id basket) (caa_is_delayed args)) db = Ok found"
    "(if caa_is_no_send args then take_no_send_change u (ob_basket_id basket)
        (cop_no_send_change (caa_options args)) [] else returnD []) db = (Ok no_send, db)"
    "generate_change_sdk_with_no_send (change_args_of basket fixed args (length found))
       (map as_available no_send) (map as_available (sort_key ou_satoshis found)) = Ok change"
    "mark_inputs_spent now (sorted_list_of_set (set (map ar_output_id (cr_allocated_change_inputs change))))
       i u db = Ok (db', n)"
    "n = int (length (sorted_list_of_set (set (map ar_output_id (cr_allocated_change_inputs change)))))"
    "allocated = List.map_filter (\<lambda>a. find (\<lambda>r. ou_output_id r = ar_output_id a)
       (sort_key ou_satoshis found @ no_send)) (cr_allocated_change_inputs change)"
proof -
  from assms obtain found no_send db1 where 1:
    "find_outputs True (change_query u (ob_basket_id basket) (caa_is_delayed args)) db = Ok found"
    "(if caa_is_no_send args then take_no_send_change u (ob_basket_id basket)
        (cop_no_send_change (caa_options args)) [] else returnD []) db = (Ok no_send, db1)"
    and rest: "generate_change_sdk_with_no_send (change_args_of basket fixed args (length found))
       (map as_available no_send) (map as_available (sort_key ou_satoshis found)) = Ok change"
    "mark_inputs_spent now (sorted_list_of_set (set (map ar_output_id (cr_allocated_change_inputs change))))
       i u db1 = Ok (db', int (length (sorted_list_of_set (set (map ar_output_id (cr_allocated_change_inputs change))))))"
    "allocated = List.map_filter (\<lambda>a. find (\<lambda>r. ou_output_id r = ar_output_id a)
       (sort_key ou_satoshis found @ no_send)) (cr_allocated_change_inputs change)"
    by (auto simp: fund_action_def Let_def run_simps split: if_splits)
  have "db1 = db"
    using 1(2) take_no_send_change_rows [of u "ob_basket_id basket"] by (auto simp: run_simps split: if_splits)
  with 1 rest that show thesis by blast
qed

lemma fund_action_effect:
  assumes run: "fund_action now u i args basket fixed db = (Ok (change, allocated), db')"
    and ids: "ids_ok ou_output_id (db_outputs db)"
  obtains ns av where
    "claimed now i u (ar_output_id ` set (cr_allocated_change_inputs change)) db db'"
    "list_all2 (stands_for db) (cr_allocated_change_inputs change) allocated"
    "generate_change_sdk_with_no_send (change_args_of basket fixed args (length av)) ns av = Ok change"
proof (rule fund_action_run [OF run], goal_cases)
  case F: (1 found no_send n)
  let ?refs = "cr_allocated_change_inputs change" and ?rows = "no_send @ sort_key ou_satoshis found"
  have rows: "set ?rows \<subseteq> set (output_rows db)"
    using F(3) take_no_send_change_rows [of u "ob_basket_id basket"] find_change [OF F(2)]
    by (fastforce simp: run_simps split: if_splits)
  have off: "set ?refs \<subseteq> set (map ref_of (map as_available ?rows))"
    using generate_change_offered [OF F(4)] by simp
  have l: "list_all2 (\<lambda>a r. ou_output_id r = ar_output_id a \<and> r \<in> set ?rows) ?refs allocated"
    unfolding F(7) by (rule allocated_rows [OF off]) auto
  have "stands_for db a r" if a: "a \<in> set ?refs" "ou_output_id r = ar_output_id a" "r \<in> set ?rows" for a r
  proof -
    have "a \<in> set (map ref_of (map as_available ?rows))" using off a(1) by (rule subsetD)
    then obtain s where s: "s \<in> set ?rows" "a = ref_of (as_available s)" by auto
    then have "r = s" using row_by_id [OF ids] rows a(2,3) by (auto simp: as_available_def)
    then show ?thesis using s a(2,3) rows by (auto simp: stands_for_def as_available_def)
  qed
  then have "list_all2 (stands_for db) ?refs allocated"
    using l by (simp add: list_all2_conv_all_nth)
  moreover have "claimed now i u (ar_output_id ` set ?refs) db db'"
    using mark_inputs_spent_claims [OF F(5,6) _ ids] by simp
  ultimately show ?case using F(1) [of "map as_available (sort_key ou_satoshis found)"] F(4) by simp
qed

lemma change_input_spends: "spends (change_input sdk db (v, r)) r"
  by (simp add: change_input_def spends_def)

lemma change_inputs_amounts:
  "map csi_source_satoshis (map (change_input sdk db) (enumerate n rows)) =
     map (\<lambda>r. word_of_int (ou_satoshis r)) rows"
  "map csi_unlocking_script_length (map (change_input sdk db) (enumerate n rows)) =
     replicate (length rows) 107"
  by (induction rows arbitrary: n) (simp_all add: change_input_def)

lemma stands_for_amounts:
  "list_all2 (stands_for db) refs rows \<Longrightarrow> map (\<lambda>r. word_of_int (ou_satoshis r)) rows = map ar_satoshis refs"
  by (induction rule: list_all2_induct) (simp_all add: stands_for_def)

lemma change_inputs_paid:
  assumes "list_all2 (stands_for db) refs rows"
  shows "paid_by u (ar_output_id ` set refs) db (map (change_input sdk db') (enumerate n rows))"
proof -
  have "\<exists>r \<in> set (output_rows db). ou_output_id r \<in> ar_output_id ` set refs \<and> spends inp r"
    if inp: "inp \<in> set (map (change_input sdk db') (enumerate n rows))" for inp
  proof -
    obtain v r where "(v, r) \<in> set (enumerate n rows)" and i: "inp = change_input sdk db' (v, r)"
      using inp by auto
    then have r: "r \<in> set rows" by (auto simp: in_set_enumerate_eq)
    then obtain k where "k < length rows" "rows ! k = r" by (auto simp: in_set_conv_nth)
    then have "stands_for db (refs ! k) r" "refs ! k \<in> set refs"
      using assms by (auto simp: list_all2_conv_all_nth)
    then show ?thesis using i change_input_spends by (auto simp: stands_for_def)
  qed
  moreover have "\<exists>inp \<in> set (map (change_input sdk db') (enumerate n rows)).
      \<exists>r \<in> set (output_rows db). ou_output_id r = ar_output_id a \<and> spends inp r" if a: "a \<in> set refs" for a
  proof -
    obtain k where k: "k < length refs" "refs ! k = a" using a by (auto simp: in_set_conv_nth)
    then have "stands_for db a (rows ! k)" "k < length rows"
      using assms by (auto simp: list_all2_conv_all_nth)
    then have "(n + k, rows ! k) \<in> set (enumerate n rows)" "stands_for db a (rows ! k)"
      by (auto simp: in_set_enumerate_eq)
    then show ?thesis using change_input_spends by (force simp: stands_for_def)
  qed
  ultimately show ?thesis by (auto simp: paid_by_def)
qed

section \<open>New outputs\<close>

definition fresh_for :: "int \<Rightarrow> int \<Rightarrow> output_row \<Rightarrow> bool" where
  "fresh_for user_id transaction_id r \<longleftrightarrow>
     ou_user_id r = user_id \<and> ou_transaction_id r = transaction_id \<and> \<not> ou_spendable r \<and>
     ou_spent_by r = None \<and> ou_txid r = None"

definition matches :: "create_sdk_output \<Rightarrow> output_row \<Rightarrow> bool" where
  "matches out r \<longleftrightarrow> ou_satoshis r = sint (cso_satoshis out) \<and> ou_vout r = sint (cso_vout out)"

definition pending_ok :: "int \<Rightarrow> int \<Rightarrow> pending_output \<Rightarrow> bool" where
  "pending_ok u i p \<longleftrightarrow> fresh_for u i (po_row p) \<and> matches (po_record p) (po_row p)"

definition locking_length :: "create_sdk_output \<Rightarrow> usize" where
  "locking_length out = (if cso_purpose out = Some ''change'' then 25
     else of_nat (length (hex_to_bytes (cso_locking_script out))))"

lemmas pending_defs = pending_ok_def fresh_for_def matches_def

lemma find_or_insert_output_basket_frame:
  "find_or_insert_output_basket now u name db = (Ok b, db') \<Longrightarrow>
     db_outputs db' = db_outputs db \<and> db_transactions db' = db_transactions db"
  by (auto simp: find_or_insert_output_basket_def insert_output_basket_def Let_def run_simps
      split: option.splits)

lemma find_or_insert_tx_label_frame:
  "find_or_insert_tx_label now u name db = (Ok l, db') \<Longrightarrow>
     db_outputs db' = db_outputs db \<and> db_transactions db' = db_transactions db"
  by (auto simp: find_or_insert_tx_label_def insert_tx_label_def Let_def run_simps split: option.splits)

lemma link_label_frame:
  "link_label now u i l db = (Ok x, db') \<Longrightarrow>
     (db_outputs db', db_transactions db') = (db_outputs db, db_transactions db)"
  by (auto simp: link_label_def insert_tx_label_map_def run_simps dest!: find_or_insert_tx_label_frame)

lemma caller_output_effect:
  assumes "caller_output now u i (v, spec) db = (Ok p, db')"
  shows "(db_outputs db', db_transactions db') = (db_outputs db, db_transactions db) \<and>
    pending_ok u i p \<and> cso_satoshis (po_record p) = fo_satoshis (fixed_output_of spec) \<and>
    locking_length (po_record p) = fo_locking_script_length (fixed_output_of spec)"
  using assms
  by (auto simp: caller_output_def Let_def run_simps pending_defs locking_length_def fixed_output_of_def
      split: option.splits dest: find_or_insert_output_basket_frame)

lemma caller_outputs_effect:
  "mapD (caller_output now u i) (enumerate n specs) db = (Ok ps, db') \<Longrightarrow>
     (db_outputs db', db_transactions db') = (db_outputs db, db_transactions db) \<and>
     list_all (pending_ok u i) ps \<and>
     map (\<lambda>p. cso_satoshis (po_record p)) ps = map (\<lambda>s. fo_satoshis (fixed_output_of s)) specs \<and>
     map (\<lambda>p. locking_length (po_record p)) ps = map (\<lambda>s. fo_locking_script_length (fixed_output_of s)) specs"
proof (induction specs arbitrary: n db ps)
  case Nil
  then show ?case by (simp add: run_simps)
next
  case (Cons spec specs)
  then obtain p qs db1 where p: "caller_output now u i (n, spec) db = (Ok p, db1)"
    and qs: "mapD (caller_output now u i) (enumerate (Suc n) specs) db1 = (Ok qs, db')" and ps: "ps = p # qs"
    by (auto simp: run_simps)
  show ?case using caller_output_effect [OF p] Cons.IH [OF qs] ps by simp
qed

lemma change_output_ok:
  "pending_ok u i (change_output now en u i b n ks)"
  "cso_satoshis (po_record (change_output now en u i b n ks)) = snd ks"
  "locking_length (po_record (change_output now en u i b n ks)) = 25"
  by (auto simp: change_output_def pending_defs locking_length_def split: prod.splits)

lemma shuffle_length: "shuffle draw n rs vouts = Some vs \<Longrightarrow> length vs = length vouts"
  by (induction n arbitrary: rs vouts) (auto simp: Let_def split: prod.splits if_splits)

lemma shuffle_fits: "shuffle draw n rs vouts = Some vs \<Longrightarrow> n \<le> length vouts"
  by (cases n) (auto simp: Let_def split: prod.splits if_splits)

lemma randomized_vouts_length:
  assumes "randomized_vouts draw len vals = Ok vs"
  shows "length vs = len"
proof -
  obtain r ns where "shuffle draw len r [0..<unat (of_nat len :: u32)] = Some ns" "vs = map of_nat ns"
    using assms by (auto simp: randomized_vouts_def split: if_splits option.splits)
  moreover have "unat (of_nat len :: u32) \<le> len" by (simp add: unat_of_nat)
  ultimately show ?thesis using shuffle_fits shuffle_length by fastforce
qed

lemma place_output_simps:
  "pending_ok u i p \<Longrightarrow> pending_ok u i (place_output (p, v))"
  "cso_satoshis (po_record (place_output (p, v))) = cso_satoshis (po_record p)"
  "locking_length (po_record (place_output (p, v))) = locking_length (po_record p)"
  by (simp_all add: place_output_def pending_defs locking_length_def)

lemma assign_vouts_effect:
  assumes "assign_vouts draw args pending = Ok ps" "list_all (pending_ok u i) pending"
  shows "list_all (pending_ok u i) ps \<and>
    map (\<lambda>p. cso_satoshis (po_record p)) ps = map (\<lambda>p. cso_satoshis (po_record p)) pending \<and>
    map (\<lambda>p. locking_length (po_record p)) ps = map (\<lambda>p. locking_length (po_record p)) pending"
proof -
  have *: "list_all (pending_ok u i) (map place_output (zip pending vouts)) \<and>
      map (\<lambda>p. cso_satoshis (po_record p)) (map place_output (zip pending vouts)) =
        map (\<lambda>p. cso_satoshis (po_record p)) pending \<and>
      map (\<lambda>p. locking_length (po_record p)) (map place_output (zip pending vouts)) =
        map (\<lambda>p. locking_length (po_record p)) pending"
    if "length vouts = length pending" for vouts :: "u32 list"
    using that assms(2)
    by (induction pending vouts rule: list_induct2') (simp_all add: place_output_simps)
  show ?thesis
    using assms(1) * [OF randomized_vouts_length] assms(2)
    by (auto simp: assign_vouts_def split: if_splits)
qed

lemma store_output_effect:
  assumes "store_output p db = (Ok x, db')"
  shows "\<exists>k t. db' = db\<lparr>db_outputs := t\<rparr> \<and> tb_rows t = output_rows db @ [(po_row p)
    \<lparr>ou_created_at := secs (ou_created_at (po_row p)), ou_updated_at := secs (ou_updated_at (po_row p)),
     ou_output_id := k\<rparr>]"
proof -
  obtain k t where "insert_row ou_output_id_update output_key (output_refs db)
      ((po_row p)\<lparr>ou_created_at := secs (ou_created_at (po_row p)),
        ou_updated_at := secs (ou_updated_at (po_row p))\<rparr>) (db_outputs db) = Ok (t, k)"
      and "db' = db\<lparr>db_outputs := t\<rparr>"
    using assms by (auto simp: store_output_def insert_output_def run_simps)
  from insert_row_OkD(1) [OF this(1)] this(2) show ?thesis by (auto simp: output_rows_def)
qed

lemma store_outputs_effect:
  assumes "forD store_output ps db = (Ok x, db')" "list_all (pending_ok u i) ps"
  shows "\<exists>new t. db' = db\<lparr>db_outputs := t\<rparr> \<and> tb_rows t = output_rows db @ new \<and>
    list_all (fresh_for u i) new \<and> list_all2 matches (map po_record ps) new"
proof -
  have "\<exists>new t. db' = db\<lparr>db_outputs := t\<rparr> \<and> tb_rows t = output_rows db @ new \<and>
      list_all (fresh_for u i) new \<and> list_all2 matches (map po_record ps) new"
    if "mapD store_output ps db = (Ok xs, db')" "list_all (pending_ok u i) ps" for xs
    using that
  proof (induction ps arbitrary: db xs)
    case Nil
    then show ?case by (auto simp: run_simps output_rows_def intro: exI [of _ "db_outputs db"])
  next
    case (Cons p ps)
    then obtain y ys db1 where p: "store_output p db = (Ok y, db1)"
      and ys: "mapD store_output ps db1 = (Ok ys, db')" by (auto simp: run_simps)
    obtain k t where t: "db1 = db\<lparr>db_outputs := t\<rparr>" "tb_rows t = output_rows db @ [(po_row p)
        \<lparr>ou_created_at := secs (ou_created_at (po_row p)), ou_updated_at := secs (ou_updated_at (po_row p)),
         ou_output_id := k\<rparr>]"
      using store_output_effect [OF p] by blast
    obtain new s where s: "db' = db1\<lparr>db_outputs := s\<rparr>" "tb_rows s = output_rows db1 @ new"
        "list_all (fresh_for u i) new" "list_all2 matches (map po_record ps) new"
      using Cons.IH [OF ys] Cons.prems(2) by auto
    have r: "output_rows db1 = tb_rows t" by (simp add: t(1) output_rows_def)
    let ?r = "(po_row p)\<lparr>ou_created_at := secs (ou_created_at (po_row p)),
      ou_updated_at := secs (ou_updated_at (po_row p)), ou_output_id := k\<rparr>"
    have "fresh_for u i ?r" "matches (po_record p) ?r" using Cons.prems(2) by (auto simp: pending_defs)
    then show ?case
      by (intro exI [of _ "?r # new"] exI [of _ s]) (use s t r in simp)
  qed
  then show ?thesis using assms by (auto simp: forD_def run_simps)
qed

section \<open>The whole run\<close>

definition created_row :: "ts \<Rightarrow> entropy \<Rightarrow> int \<Rightarrow> create_action_args \<Rightarrow> int \<Rightarrow> transaction" where
  "created_row now en u args i =
     (new_transaction now en u args)\<lparr>tx_created_at := secs now, tx_updated_at := secs now,
        tx_transaction_id := i\<rparr>"

text \<open>What the run leaves in the database, for the new transaction \<open>i\<close> and the claimed outputs \<open>C\<close>.\<close>

definition action_stored ::
  "ts \<Rightarrow> entropy \<Rightarrow> int \<Rightarrow> create_action_args \<Rightarrow> int \<Rightarrow> int set \<Rightarrow> create_action_result \<Rightarrow>
    database \<Rightarrow> database \<Rightarrow> bool" where
  "action_stored now en u args i C r db db' \<longleftrightarrow>
     i = tb_seq (db_transactions db) + 1 \<and>
     tb_rows (db_transactions db') = tb_rows (db_transactions db) @ [created_row now en u args i] \<and>
     (\<exists>new. output_rows db' = map (claim_in now i C) (output_rows db) @ new \<and>
        list_all (fresh_for u i) new \<and> list_all2 matches (car_outputs r) new) \<and>
     (\<forall>j \<in> C. \<exists>row \<in> set (output_rows db). ou_output_id row = j \<and> claimable u row) \<and>
     paid_by u C db (car_inputs r) \<and> car_reference r = en_reference en"

text \<open>The amounts and lengths of the result are those that change generation worked with.\<close>

definition action_funded ::
  "create_action_args \<Rightarrow> create_action_result \<Rightarrow> fixed_input list \<Rightarrow> change_result \<Rightarrow> bool" where
  "action_funded args r fixed change \<longleftrightarrow>
     map csi_source_satoshis (car_inputs r) =
       map fi_satoshis fixed @ map ar_satoshis (cr_allocated_change_inputs change) \<and>
     map csi_unlocking_script_length (car_inputs r) =
       map fi_unlocking_script_length fixed @ replicate (length (cr_allocated_change_inputs change)) 107 \<and>
     map cso_satoshis (car_outputs r) =
       map fo_satoshis (map fixed_output_of (caa_outputs args)) @ cr_change_outputs change \<and>
     map locking_length (car_outputs r) =
       map fo_locking_script_length (map fixed_output_of (caa_outputs args)) @
       replicate (length (cr_change_outputs change)) 25"

lemma insert_transaction_effect:
  assumes "insert_transaction (new_transaction now en u args) db = Ok (db', i)"
  shows "i = tb_seq (db_transactions db) + 1 \<and> db_outputs db' = db_outputs db \<and>
    tb_rows (db_transactions db') = tb_rows (db_transactions db) @ [created_row now en u args i]"
proof -
  obtain t where t: "insert_row tx_transaction_id_update transaction_key (transaction_refs db)
      ((new_transaction now en u args)\<lparr>tx_created_at := secs (tx_created_at (new_transaction now en u args)),
        tx_updated_at := secs (tx_updated_at (new_transaction now en u args))\<rparr>) (db_transactions db) = Ok (t, i)"
      "db' = db\<lparr>db_transactions := t\<rparr>"
    using assms by (auto simp: insert_transaction_def)
  from insert_row_OkD(1,3) [OF t(1)] t(2) show ?thesis
    by (simp add: created_row_def new_transaction_def)
qed

lemma mark_created_outgoing:
  assumes "update_transaction now i (transaction_partial_default\<lparr>txp_is_outgoing := Some True\<rparr>) db = Ok (db', n)"
    "tb_rows (db_transactions db) = rows @ [created_row now en u args i]"
    "\<forall>r \<in> set rows. tx_transaction_id r \<noteq> i"
  shows "db_outputs db' = db_outputs db \<and> tb_rows (db_transactions db') = tb_rows (db_transactions db)"
proof -
  obtain t where t: "update_rows (\<lambda>r. tx_transaction_id r = i)
        (apply_transaction now (transaction_partial_default\<lparr>txp_is_outgoing := Some True\<rparr>)) transaction_key
        (transaction_refs db) (db_transactions db) = Ok (t, n)" "db' = db\<lparr>db_transactions := t\<rparr>"
    using assms(1) by (auto simp: update_transaction_def)
  have "apply_transaction now (transaction_partial_default\<lparr>txp_is_outgoing := Some True\<rparr>)
      (created_row now en u args i) = created_row now en u args i"
    by (simp add: apply_transaction_def transaction_partial_default_def created_row_def new_transaction_def)
  then have "map (\<lambda>r. if tx_transaction_id r = i then apply_transaction now
        (transaction_partial_default\<lparr>txp_is_outgoing := Some True\<rparr>) r else r) (tb_rows (db_transactions db)) =
      tb_rows (db_transactions db)"
    using assms(2,3) by (auto simp: map_idI)
  then show ?thesis using update_rows_OkD(1) [OF t(1)] t(2) by simp
qed

lemma paid_by_cong: "output_rows db1 = output_rows db2 \<Longrightarrow> paid_by u C db1 inps = paid_by u C db2 inps"
  by (simp add: paid_by_def)

lemma funding_effect:
  assumes taken: "mapD (take_input now u i beef) vis db = (Ok taken, db1)"
    and fund: "fund_action now u i args basket (map fst taken) db1 = (Ok (change, allocated), db2)"
    and ids: "ids_ok ou_output_id (db_outputs db)"
  obtains C ns av where
    "claimed now i u C db db2"
    "paid_by u C db (map snd taken @ map (change_input sdk db3) (enumerate n allocated))"
    "generate_change_sdk_with_no_send (change_args_of basket (map fst taken) args (length av)) ns av = Ok change"
    "map csi_source_satoshis (map snd taken @ map (change_input sdk db3) (enumerate n allocated)) =
       map fi_satoshis (map fst taken) @ map ar_satoshis (cr_allocated_change_inputs change)"
    "map csi_unlocking_script_length (map snd taken @ map (change_input sdk db3) (enumerate n allocated)) =
       map fi_unlocking_script_length (map fst taken) @ replicate (length (cr_allocated_change_inputs change)) 107"
proof -
  obtain C where C: "claimed now i u C db db1" "paid_by u C db (map snd taken)" "list_all same_input taken"
    using take_inputs_effect [OF taken ids] by blast
  have ids1: "ids_ok ou_output_id (db_outputs db1)" using claimed_ids_ok [OF C(1)] ids by blast
  let ?refs = "cr_allocated_change_inputs change" and ?ch = "map (change_input sdk db3) (enumerate n allocated)"
  obtain ns av where D: "claimed now i u (ar_output_id ` set ?refs) db1 db2"
    "list_all2 (stands_for db1) ?refs allocated"
    "generate_change_sdk_with_no_send (change_args_of basket (map fst taken) args (length av)) ns av = Ok change"
    by (rule fund_action_effect [OF fund ids1])
  have "paid_by u (ar_output_id ` set ?refs) db ?ch"
    using change_inputs_paid [OF D(2)] paid_by_claimed [OF C(1)] by blast
  note paid = paid_by_append [OF C(2) this]
  have "map csi_source_satoshis ?ch = map ar_satoshis ?refs"
    unfolding change_inputs_amounts(1) by (rule stands_for_amounts [OF D(2)])
  moreover have "map csi_unlocking_script_length ?ch = replicate (length ?refs) 107"
    unfolding change_inputs_amounts(2) using list_all2_lengthD [OF D(2)] by simp
  moreover have "map csi_source_satoshis (map snd taken) = map fi_satoshis (map fst taken)"
    "map csi_unlocking_script_length (map snd taken) = map fi_unlocking_script_length (map fst taken)"
    using C(3) by (simp_all add: list_all_iff same_input_def)
  ultimately show thesis
    using that [OF claimed_trans [OF C(1) D(1)] paid D(3)] by (simp only: map_append)
qed

lemma do_create_run:
  assumes "do_create_action sdk en now u args basket db = (Ok r, db')"
  obtains i db1 db2 db3 db4 db5 db6 beef taken change allocated callers pending n where
    "insert_transaction (new_transaction now en u args) db = Ok (db1, i)"
    "forD (link_label now u i) (caa_labels args) db1 = (Ok (), db2)"
    "mapD (take_input now u i beef) (enumerate 0 (caa_inputs args)) db2 = (Ok taken, db3)"
    "fund_action now u i args basket (map fst taken) db3 = (Ok (change, allocated), db4)"
    "mapD (caller_output now u i) (enumerate 0 (caa_outputs args)) db4 = (Ok callers, db5)"
    "assign_vouts (en_draw en) args (callers @ map (change_output now en u i (ob_basket_id basket)
       (length (caa_outputs args))) (enumerate 0 (cr_change_outputs change))) = Ok pending"
    "forD store_output pending db5 = (Ok (), db6)"
    "update_transaction now i (transaction_partial_default\<lparr>txp_is_outgoing := Some True\<rparr>) db6 = Ok (db', n)"
    "car_reference r = en_reference en" "car_outputs r = map po_record pending"
    "car_inputs r = map snd taken @ map (change_input sdk db6) (enumerate (length taken) allocated)"
  using assms unfolding do_create_action_def Let_def
  by (auto simp: run_simps)

lemma do_create_effect:
  assumes run: "do_create_action sdk en now u args basket db = (Ok r, db')" and ok: "db_ok db"
  obtains i C ns av fixed change where
    "action_stored now en u args i C r db db'" "action_funded args r fixed change"
    "generate_change_sdk_with_no_send (change_args_of basket fixed args (length av)) ns av = Ok change"
proof (rule do_create_run [OF run], goal_cases)
  case R: (1 i db1 db2 db3 db4 db5 db6 beef taken change allocated callers pending n)
  have ids: "ids_ok ou_output_id (db_outputs db)" "ids_ok tx_transaction_id (db_transactions db)"
    using ok by (simp_all add: db_ok_def id_columns_ok_def)
  note T = insert_transaction_effect [OF R(2)]
  have 2: "db_outputs db2 = db_outputs db" "db_transactions db2 = db_transactions db1"
    using forD_frame [of "link_label now u i" "\<lambda>db. (db_outputs db, db_transactions db)", OF _ R(3)]
      link_label_frame T by auto
  have ids2: "ids_ok ou_output_id (db_outputs db2)" using ids 2 by simp
  obtain C ns av where C: "claimed now i u C db2 db4" "paid_by u C db2 (car_inputs r)"
    "generate_change_sdk_with_no_send (change_args_of basket (map fst taken) args (length av)) ns av = Ok change"
    "map csi_source_satoshis (car_inputs r) =
       map fi_satoshis (map fst taken) @ map ar_satoshis (cr_allocated_change_inputs change)"
    "map csi_unlocking_script_length (car_inputs r) =
       map fi_unlocking_script_length (map fst taken) @ replicate (length (cr_allocated_change_inputs change)) 107"
    unfolding R(12) by (rule funding_effect [OF R(4,5) ids2])
  note P = caller_outputs_effect [OF R(6)]
  let ?ch = "map (change_output now en u i (ob_basket_id basket) (length (caa_outputs args)))
      (enumerate 0 (cr_change_outputs change))"
  have ch: "list_all (pending_ok u i) ?ch" "map (\<lambda>p. cso_satoshis (po_record p)) ?ch = cr_change_outputs change"
    "map (\<lambda>p. locking_length (po_record p)) ?ch = replicate (length (cr_change_outputs change)) 25"
    by (simp_all add: list_all_iff change_output_ok comp_def map_replicate_const)
  have V: "list_all (pending_ok u i) pending"
    "map (\<lambda>p. cso_satoshis (po_record p)) pending =
      map (\<lambda>s. fo_satoshis (fixed_output_of s)) (caa_outputs args) @ cr_change_outputs change"
    "map (\<lambda>p. locking_length (po_record p)) pending =
      map (\<lambda>s. fo_locking_script_length (fixed_output_of s)) (caa_outputs args) @
      replicate (length (cr_change_outputs change)) 25"
    using assign_vouts_effect [OF R(7), of u i] P ch by simp_all
  obtain new t where S: "db6 = db5\<lparr>db_outputs := t\<rparr>" "tb_rows t = output_rows db5 @ new"
      "list_all (fresh_for u i) new" "list_all2 matches (map po_record pending) new"
    using store_outputs_effect [OF R(8) V(1)] by blast
  have tx6: "db_transactions db6 = db_transactions db1" using S(1) P C(1) 2 by (simp add: claimed_def)
  have "\<forall>x \<in> set (tb_rows (db_transactions db)). tx_transaction_id x \<noteq> i"
    using ids(2) T by (fastforce simp: ids_ok_def)
  then have U: "db_outputs db' = db_outputs db6" "tb_rows (db_transactions db') = tb_rows (db_transactions db6)"
    using mark_created_outgoing [OF R(9)] T tx6 by simp_all
  have rows: "output_rows db' = map (claim_in now i C) (output_rows db) @ new"
    using U S P claimed_rows [OF C(1)] 2 by (simp add: output_rows_def)
  have "action_stored now en u args i C r db db'"
    unfolding action_stored_def
  proof (intro conjI)
    show "\<exists>new. output_rows db' = map (claim_in now i C) (output_rows db) @ new \<and>
        list_all (fresh_for u i) new \<and> list_all2 matches (car_outputs r) new"
      using rows S(3,4) R(11) by auto
    show "\<forall>j \<in> C. \<exists>row \<in> set (output_rows db). ou_output_id row = j \<and> claimable u row"
      using C(1) 2 by (simp add: claimed_def output_rows_def)
    show "paid_by u C db (car_inputs r)"
      using C(2) paid_by_cong [of db2 db] 2 by (simp add: output_rows_def)
  qed (use T U tx6 R(10) in simp_all)
  moreover have "action_funded args r (map fst taken) change"
    using C(4,5) V R(11) by (simp add: action_funded_def comp_def)
  ultimately show ?case using R(1) C(3) by blast
qed

lemma storage_create_action_run:
  "storage_create_action sdk en now u args db = (Ok r, db') \<Longrightarrow>
     \<exists>basket. do_create_action sdk en now u args basket db = (Ok r, db')"
  by (auto simp: storage_create_action_def run_simps)

lemma storage_create_action_Err:
  "storage_create_action sdk en now u args db = (Err e, db') \<Longrightarrow> db' = db"
  by (auto simp: storage_create_action_def bindD_def readD_def split: sum.splits dest: in_trx_Err)

end
