(* ===== verification/ActionSafety.thy ===== *)
theory ActionSafety
  imports AbortAction CreateCorrect
begin

text \<open>
  Invariants of the wallet database under the action methods. A locale lists what an invariant has
  to satisfy for each statement the methods execute, and gives that every method keeps it, on every
  path, errors included. It is interpreted for well-formedness of the database, and for
  well-formedness together with the rule that a spendable output has no spender.
\<close>

section \<open>Computations that keep an invariant\<close>

definition writes :: "(database \<Rightarrow> bool) \<Rightarrow> (database \<Rightarrow> (database \<times> 'a) wallet_result) \<Rightarrow> bool" where
  "writes I w \<longleftrightarrow> (\<forall>db db' x. I db \<longrightarrow> w db = Ok (db', x) \<longrightarrow> I db')"

definition preserves :: "(database \<Rightarrow> bool) \<Rightarrow> 'a db_op \<Rightarrow> bool" where
  "preserves I m \<longleftrightarrow> (\<forall>db. I db \<longrightarrow> I (snd (m db)))"

named_theorems keeps \<open>computations that keep an invariant\<close>

lemma preservesI: "(\<And>db. I db \<Longrightarrow> I (snd (m db))) \<Longrightarrow> preserves I m"
  by (simp add: preserves_def)

lemma preservesD: "preserves I m \<Longrightarrow> m db = (r, db') \<Longrightarrow> I db \<Longrightarrow> I db'"
  by (auto simp: preserves_def dest: spec [of _ db])

lemma writesD: "writes I w \<Longrightarrow> w db = Ok (db', x) \<Longrightarrow> I db \<Longrightarrow> I db'"
  by (auto simp: writes_def)

lemma return_keeps [keeps]: "preserves I (returnD x)"
  by (simp add: preserves_def returnD_def)

lemma fail_keeps [keeps]: "preserves I (failD e)"
  by (simp add: preserves_def failD_def)

lemma read_keeps [keeps]: "preserves I (readD q)"
  by (simp add: preserves_def readD_def)

lemma write_keeps [keeps]: "writes I w \<Longrightarrow> preserves I (writeD w)"
  by (rule preservesI) (auto simp: writeD_def dest: writesD split: sum.splits)

lemma bind_keeps [keeps]:
  assumes "preserves I m" "\<And>x. preserves I (f x)"
  shows "preserves I (bindD m f)"
proof (rule preservesI)
  fix db assume "I db"
  then have "I (snd (m db))" using assms(1) by (simp add: preserves_def)
  then show "I (snd (bindD m f db))"
    using assms(2) by (auto simp: bindD_def preserves_def split: prod.split sum.split)
qed

lemma map_keeps [keeps]: "(\<And>x. preserves I (f x)) \<Longrightarrow> preserves I (mapD f xs)"
  by (induction xs) (auto intro!: keeps)

lemma for_keeps [keeps]: "(\<And>x. preserves I (f x)) \<Longrightarrow> preserves I (forD f xs)"
  unfolding forD_def by (intro keeps)

lemma trx_keeps [keeps]:
  assumes "preserves I m"
  shows "preserves I (in_trx m)"
proof (rule preservesI)
  fix db assume "I db"
  moreover from this have "I (snd (m db))" using assms by (simp add: preserves_def)
  ultimately show "I (snd (in_trx m db))" by (auto simp: in_trx_def split: prod.split sum.split)
qed

lemma split_keeps [keeps]:
  "(\<And>a b. preserves I (f a b)) \<Longrightarrow> preserves I (case p of (a, b) \<Rightarrow> f a b)"
  "(b \<Longrightarrow> preserves I m1) \<Longrightarrow> (\<not> b \<Longrightarrow> preserves I m2) \<Longrightarrow> preserves I (if b then m1 else m2)"
  "preserves I m3 \<Longrightarrow> (\<And>x. preserves I (g x)) \<Longrightarrow> preserves I (case v of None \<Rightarrow> m3 | Some x \<Rightarrow> g x)"
  "preserves I m4 \<Longrightarrow> (\<And>x xs. preserves I (h x xs)) \<Longrightarrow> preserves I (case l of [] \<Rightarrow> m4 | x # xs \<Rightarrow> h x xs)"
  "(\<And>x. preserves I (k x)) \<Longrightarrow> (\<And>x. preserves I (k' x)) \<Longrightarrow> preserves I (case s of Inl x \<Rightarrow> k x | Inr x \<Rightarrow> k' x)"
  by (auto split: prod.split option.split list.split sum.split)

section \<open>Invariants of the action methods\<close>

definition tx_fields_only :: "transaction_partial \<Rightarrow> bool" where
  "tx_fields_only p \<longleftrightarrow> txp_user_id p = None \<and> txp_reference p = None"

definition output_fields_only :: "output_partial \<Rightarrow> bool" where
  "output_fields_only p \<longleftrightarrow>
     oup_transaction_id p = None \<and> oup_vout p = None \<and> oup_spendable p \<noteq> None"

locale action_invariant =
  fixes I :: "database \<Rightarrow> bool"
  assumes inserts [keeps]: "writes I (insert_transaction tx)" "writes I (insert_output_basket ob)"
      "writes I (insert_tx_label lb)" "writes I (insert_proven_tx_req pr)"
      "writes I (find_or_insert_user now identity_key)"
      "writes I (\<lambda>db. bind_result (insert_tx_label_map tm db) (\<lambda>db'. Ok (db', ())))"
    and insert_outputs [keeps]:
      "(ou_spendable ou \<Longrightarrow> ou_spent_by ou = None) \<Longrightarrow> writes I (insert_output ou)"
    and update_transactions [keeps]: "tx_fields_only tp \<Longrightarrow> writes I (update_transaction now i tp)"
    and update_outputs [keeps]: "output_fields_only op \<Longrightarrow> writes I (update_output now i op)"
    and update_requests [keeps]: "prp_txid rp = None \<Longrightarrow> writes I (update_proven_tx_req now i rp)"
    and claims [keeps]: "writes I (mark_inputs_spent now ids i u)"
    and releases [keeps]: "writes I (release_inputs_spent_by now ids i)"
begin

lemma write_unit_keeps [keeps]:
  "preserves I (write_unitD (insert_tx_label_map tm))"
  unfolding write_unitD_def by (intro keeps)

lemma find_or_insert_keeps [keeps]:
  "preserves I (find_or_insert_output_basket now u name)" "preserves I (find_or_insert_tx_label now u name)"
  unfolding find_or_insert_output_basket_def find_or_insert_tx_label_def Let_def by (intro keeps)+

lemma take_input_keeps [keeps]: "preserves I (take_input now u i beef vi)"
  unfolding take_input_def by (intro keeps)

lemma take_no_send_change_keeps [keeps]: "preserves I (take_no_send_change u b ps rows)"
  by (induction ps arbitrary: rows) (simp_all, (intro keeps | assumption)+)

lemma fund_action_keeps [keeps]: "preserves I (fund_action now u i args basket fixed)"
  unfolding fund_action_def Let_def by (intro keeps)

lemma caller_output_keeps [keeps]: "preserves I (caller_output now u i vs)"
  unfolding caller_output_def Let_def by (intro keeps)

lemma store_outputs_keep:
  "list_all (pending_ok u i) pending \<Longrightarrow> preserves I (forD store_output pending)"
  unfolding forD_def
proof (rule bind_keeps [OF _ return_keeps])
  assume "list_all (pending_ok u i) pending"
  then show "preserves I (mapD store_output pending)"
    by (induction pending)
      (auto simp: store_output_def pending_ok_def fresh_for_def intro!: bind_keeps return_keeps write_keeps insert_outputs)
qed

lemma do_create_keeps:
  assumes run: "do_create_action sdk en now u args basket db = (Ok r, db')" and inv: "I db"
  shows "I db'"
proof (rule do_create_run [OF run], goal_cases)
  case R: (1 i db1 db2 db3 db4 db5 db6 beef taken change allocated callers pending n)
  have "preserves I (link_label now u i l)" for l
    unfolding link_label_def by (intro keeps)
  then have "I db2" using preservesD [OF for_keeps R(2)] writesD [OF inserts(1) R(1) inv] by blast
  then have "I db3" using preservesD [OF map_keeps R(3)] take_input_keeps by blast
  then have "I db4" using preservesD [OF fund_action_keeps R(4)] by blast
  then have "I db5" using preservesD [OF map_keeps R(5)] caller_output_keeps by blast
  moreover have "list_all (pending_ok u i) pending"
    using assign_vouts_effect [OF R(6), of u i] caller_outputs_effect [OF R(5)] change_output_ok(1)
    unfolding list_all_append list.pred_map comp_def by (simp add: list.pred_True)
  ultimately have "I db6" using preservesD [OF store_outputs_keep R(7)] by blast
  then show ?case
    by (rule writesD [OF update_transactions R(8), rotated]) (simp add: tx_fields_only_def transaction_partial_default_def)
qed

lemma create_action_keeps: "preserves I (create_action sdk en now identity_key args)"
proof -
  have "preserves I (in_trx (do_create_action sdk en now u args basket))" for u basket
    by (rule preservesI) (auto simp: in_trx_def split: prod.split sum.split dest: do_create_keeps)
  then show ?thesis
    unfolding create_action_def storage_create_action_def
    by (intro bind_keeps write_keeps read_keeps split_keeps inserts)
qed

lemma process_action_keeps: "preserves I (process_action batch now identity_key args)"
proof -
  have "preserves I (schedule_send_with b now u txids)" for b u txids
    unfolding schedule_send_with_def schedule_one_def release_request_def set_sending_def
    by (intro keeps; simp add: tx_fields_only_def transaction_partial_default_def proven_tx_req_partial_default_def)
  moreover have "preserves I (commit_action now u txid raw tx rs ts)" for u txid raw tx rs ts
    unfolding commit_action_def release_output_def
    by (intro keeps; simp add: tx_fields_only_def output_fields_only_def transaction_partial_default_def
        output_partial_default_def)
  ultimately show ?thesis
    unfolding process_action_def storage_process_action_def by (intro keeps)
qed

lemma abort_action_keeps: "preserves I (abort_action cd sdk now identity_key reference)"
proof -
  have [keeps]: "preserves I (add_raw_inputs u xs rows)" for u xs rows
    by (induction xs arbitrary: rows) (simp_all add: return_keeps bind_keeps read_keeps split: option.split)
  show ?thesis
    unfolding abort_action_def do_abort_action_def abort_transaction_def consumed_inputs_def retire_output_def
      invalidate_request_def
    by (intro keeps; simp add: tx_fields_only_def output_fields_only_def transaction_partial_default_def
        output_partial_default_def proven_tx_req_partial_default_def)
qed

end

section \<open>Well-formed databases\<close>

lemma insert_keeps_ok:
  "writes db_ok (insert_transaction tx)" "writes db_ok (insert_output_basket ob)"
  "writes db_ok (insert_tx_label lb)" "writes db_ok (insert_proven_tx_req pr)"
  "writes db_ok (insert_output ou)" "writes db_ok (insert_user us)"
  by (auto simp: writes_def insert_transaction_def insert_output_basket_def insert_tx_label_def
      insert_proven_tx_req_def insert_output_def insert_user_def
      dest: transactions.insert_put_ok(1) output_baskets.insert_put_ok(1) tx_labels.insert_put_ok(1)
        proven_tx_reqs.insert_put_ok(1) outputs.insert_put_ok(1) users.insert_put_ok(1))

lemma find_or_insert_user_keeps:
  assumes "\<And>us. writes J (insert_user us)"
  shows "writes J (find_or_insert_user now k)"
  using assms unfolding writes_def find_or_insert_user_def Let_def
  by (auto split: option.splits)

lemma insert_label_map_keeps_ok:
  "writes db_ok (\<lambda>db. bind_result (insert_tx_label_map tm db) (\<lambda>db'. Ok (db', ())))"
  by (auto simp: writes_def insert_tx_label_map_def dest: tx_label_maps.insert_put_ok(1))

lemma apply_keeps_ident:
  "tx_fields_only tp \<Longrightarrow> transaction_ident (apply_transaction now tp t) = transaction_ident t"
  "output_fields_only op \<Longrightarrow> output_ident (apply_output now op r) = output_ident r"
  "prp_txid rp = None \<Longrightarrow> proven_tx_req_ident (apply_proven_tx_req now rp q) = proven_tx_req_ident q"
  "output_ident (claim_row now i r) = output_ident r" "output_ident (release_row now r) = output_ident r"
  by (simp_all add: ident_defs apply_transaction_def apply_output_def apply_proven_tx_req_def tx_fields_only_def
      output_fields_only_def claim_row_def release_row_def)

lemma apply_keeps_ids:
  "tx_transaction_id (apply_transaction now tp t) = tx_transaction_id t"
  "ou_output_id (apply_output now op r) = ou_output_id r"
  "pr_proven_tx_req_id (apply_proven_tx_req now rp q) = pr_proven_tx_req_id q"
  "ou_output_id (claim_row now i r) = ou_output_id r" "ou_output_id (release_row now r) = ou_output_id r"
  by (simp_all add: apply_transaction_def apply_output_def apply_proven_tx_req_def claim_row_def release_row_def)

lemma apply_stored_times:
  "millis (tx_updated_at (apply_transaction now tp t)) = tx_updated_at (apply_transaction now tp t)"
  "millis (ou_updated_at (apply_output now op r)) = ou_updated_at (apply_output now op r)"
  "millis (pr_updated_at (apply_proven_tx_req now rp q)) = pr_updated_at (apply_proven_tx_req now rp q)"
  "millis (ou_updated_at (claim_row now i r)) = ou_updated_at (claim_row now i r)"
  "millis (ou_updated_at (release_row now r)) = ou_updated_at (release_row now r)"
  by (simp_all add: apply_transaction_def apply_output_def apply_proven_tx_req_def claim_row_def release_row_def)

lemmas apply_facts = apply_keeps_ident apply_keeps_ids apply_stored_times

text \<open>A statement on one table, as the model writes it.\<close>

lemma writes_put:
  assumes "\<And>db t n. J db \<Longrightarrow> w db = Ok (t, n) \<Longrightarrow> J (set_table t db)"
  shows "writes J (\<lambda>db. bind_result (w db) (\<lambda>(t, n). Ok (set_table t db, n)))"
  using assms by (auto simp: writes_def)

lemma writes_if: "writes J w \<Longrightarrow> writes J (\<lambda>db. if b then Ok (db, x) else w db)"
  by (auto simp: writes_def)

lemma update_transaction_keeps_ok: "tx_fields_only tp \<Longrightarrow> writes db_ok (update_transaction now i tp)"
  unfolding update_transaction_def [abs_def]
  by (rule writes_put, rule transactions.update_id_keeps(1), assumption+; simp add: apply_facts)

lemma update_output_keeps_ok: "output_fields_only op \<Longrightarrow> writes db_ok (update_output now i op)"
  unfolding update_output_def [abs_def]
  by (rule writes_put, rule outputs.update_id_keeps(1), assumption+; simp add: apply_facts)

lemma update_proven_tx_req_keeps_ok: "prp_txid rp = None \<Longrightarrow> writes db_ok (update_proven_tx_req now i rp)"
  unfolding update_proven_tx_req_def [abs_def]
  by (rule writes_put, rule proven_tx_reqs.update_id_keeps(1), assumption+; simp add: apply_facts)

lemmas update_keeps_ok = update_transaction_keeps_ok update_output_keeps_ok update_proven_tx_req_keeps_ok

lemma claims_keep_ok:
  "writes db_ok (mark_inputs_spent now ids i u)" "writes db_ok (release_inputs_spent_by now ids i)"
  unfolding mark_inputs_spent_def [abs_def] release_inputs_spent_by_def [abs_def]
  by (rule writes_if, rule writes_put, rule outputs.update_id_keeps(1), assumption+; simp add: apply_facts)+

interpretation ok: action_invariant db_ok
  by unfold_locales
    (intro insert_keeps_ok insert_label_map_keeps_ok find_or_insert_user_keeps update_keeps_ok claims_keep_ok; assumption)+

section \<open>Spendable outputs\<close>

definition spends_ok :: "database \<Rightarrow> bool" where
  "spends_ok db \<longleftrightarrow> (\<forall>r \<in> set (output_rows db). ou_spendable r \<longrightarrow> ou_spent_by r = None)"

lemma spends_ok_frame: "spends_ok db \<Longrightarrow> db_outputs db' = db_outputs db \<Longrightarrow> spends_ok db'"
  by (simp add: spends_ok_def output_rows_def)

lemma spends_ok_update:
  assumes "update_rows sel f key refs (db_outputs db) = Ok (t, n)" "spends_ok db"
    "\<And>r. ou_spendable (f r) \<Longrightarrow> ou_spent_by (f r) = None"
  shows "spends_ok (db\<lparr>db_outputs := t\<rparr>)"
  using assms(2,3) update_rows_OkD(1) [OF assms(1)] by (auto simp: spends_ok_def output_rows_def)

lemma insert_keeps_spends:
  "writes spends_ok (insert_transaction tx)" "writes spends_ok (insert_output_basket ob)"
  "writes spends_ok (insert_tx_label lb)" "writes spends_ok (insert_proven_tx_req pr)"
  "writes spends_ok (insert_user us)"
  "writes spends_ok (\<lambda>db. bind_result (insert_tx_label_map tm db) (\<lambda>db'. Ok (db', ())))"
  unfolding insert_transaction_def [abs_def] insert_output_basket_def [abs_def] insert_tx_label_def [abs_def]
    insert_proven_tx_req_def [abs_def] insert_user_def [abs_def] insert_tx_label_map_def
  by (rule writes_put, erule spends_ok_frame, simp)+ (auto simp: writes_def intro: spends_ok_frame)

lemma insert_output_keeps_spends:
  assumes "ou_spendable ou \<Longrightarrow> ou_spent_by ou = None"
  shows "writes spends_ok (insert_output ou)"
  unfolding insert_output_def [abs_def]
proof (rule writes_put)
  fix db t n
  assume "spends_ok db" "insert_row ou_output_id_update output_key (output_refs db)
    (ou\<lparr>ou_created_at := secs (ou_created_at ou), ou_updated_at := secs (ou_updated_at ou)\<rparr>) (db_outputs db) = Ok (t, n)"
  then show "spends_ok (db\<lparr>db_outputs := t\<rparr>)"
    using assms insert_row_OkD(1) by (force simp: spends_ok_def output_rows_def)
qed

lemma other_updates_keep_spends:
  "writes spends_ok (update_transaction now i tp)" "writes spends_ok (update_proven_tx_req now i rp)"
  unfolding update_transaction_def [abs_def] update_proven_tx_req_def [abs_def]
  by (rule writes_put, erule spends_ok_frame, simp)+

lemma output_updates_keep_spends:
  "output_fields_only op \<Longrightarrow> writes spends_ok (update_output now i op)"
  "writes spends_ok (mark_inputs_spent now ids i u)" "writes spends_ok (release_inputs_spent_by now ids i)"
  unfolding update_output_def [abs_def] mark_inputs_spent_def [abs_def] release_inputs_spent_by_def [abs_def]
  by ((rule writes_if)?, rule writes_put, erule (1) spends_ok_update,
      force simp: apply_output_def output_fields_only_def claim_row_def release_row_def)+

interpretation spends: action_invariant "\<lambda>db. db_ok db \<and> spends_ok db"
proof -
  have both: "writes (\<lambda>db. db_ok db \<and> spends_ok db) w"
    if "writes db_ok w" "writes spends_ok w" for w :: "database \<Rightarrow> (database \<times> 'a) wallet_result"
    using that by (auto simp: writes_def)
  show "action_invariant (\<lambda>db. db_ok db \<and> spends_ok db)"
    by unfold_locales
      (intro both insert_keeps_ok insert_label_map_keeps_ok find_or_insert_user_keeps update_keeps_ok claims_keep_ok
        insert_keeps_spends insert_output_keeps_spends other_updates_keep_spends output_updates_keep_spends; assumption?; simp)+
qed

end
