(* ===== verification/CreateExamples.thy ===== *)
theory CreateExamples
  imports CreateCorrect
begin

text \<open>
  The properties of creating an action, and runs of it on a wallet with one coin: a payment, a sweep
  with the max-possible amount, and a payment that names the coin also as \<open>noSend\<close> change.
\<close>

section \<open>Examples\<close>

definition sample_sdk :: sdk where
  "sample_sdk = \<lparr>sdk_merge_beef = (\<lambda>_. Inl ''no BEEF''), sdk_parse_tx = (\<lambda>_. Inl ''no transaction'')\<rparr>"

definition sample_entropy :: entropy where
  "sample_entropy = \<lparr>en_reference = ''ref'', en_prefix = ''prefix'', en_suffix = (\<lambda>k. ''suffix''),
     en_draw = (\<lambda>k. 0)\<rparr>"

definition sample_out_tx :: transaction where
  "sample_out_tx = \<lparr>tx_created_at = 0, tx_updated_at = 0, tx_transaction_id = 1, tx_user_id = 1,
     tx_proven_tx_id = None, tx_status = TsCompleted, tx_reference = ''source'', tx_is_outgoing = False,
     tx_satoshis = 10000, tx_description = [], tx_version = None, tx_lock_time = None,
     tx_txid = Some ''t1'', tx_input_beef = None, tx_raw_tx = None\<rparr>"

definition sample_coin :: output_row where
  "sample_coin = \<lparr>ou_created_at = 0, ou_updated_at = 0, ou_output_id = 1, ou_user_id = 1,
     ou_transaction_id = 1, ou_basket_id = Some 1, ou_spendable = True, ou_change = True,
     ou_output_description = None, ou_vout = 0, ou_satoshis = 10000, ou_provided_by = PbStorage,
     ou_purpose = ''change'', ou_output_type = ''P2PKH'', ou_txid = Some ''t1'',
     ou_sender_identity_key = None, ou_derivation_prefix = None, ou_derivation_suffix = None,
     ou_custom_instructions = None, ou_spent_by = None, ou_sequence_number = None,
     ou_spending_description = None, ou_script_length = Some 25, ou_script_offset = None,
     ou_locking_script = Some []\<rparr>"

definition sample_wallet :: database where
  "sample_wallet = empty_database\<lparr>
     db_users := \<lparr>tb_rows = [\<lparr>us_created_at = 0, us_updated_at = 0, us_user_id = 1,
       us_identity_key = ''me'', us_active_storage = []\<rparr>], tb_seq = 1\<rparr>,
     db_output_baskets := \<lparr>tb_rows = [\<lparr>ob_created_at = 0, ob_updated_at = 0, ob_basket_id = 1,
       ob_user_id = 1, ob_name = ''default'', ob_number_of_desired_utxos = 0,
       ob_minimum_desired_utxo_value = 0, ob_is_deleted = False\<rparr>], tb_seq = 1\<rparr>,
     db_transactions := \<lparr>tb_rows = [sample_out_tx], tb_seq = 1\<rparr>,
     db_outputs := \<lparr>tb_rows = [sample_coin], tb_seq = 1\<rparr>\<rparr>"

definition sample_action :: "u64 \<Rightarrow> storage_out_point list \<Rightarrow> create_action_args" where
  "sample_action satoshis no_send_change = \<lparr>caa_description = ''pay'', caa_inputs = [],
     caa_outputs = [\<lparr>cao_locking_script = ''76a9'', cao_satoshis = satoshis,
       cao_output_description = [], cao_basket = None, cao_custom_instructions = None, cao_tags = []\<rparr>],
     caa_lock_time = 0, caa_version = 1, caa_labels = [],
     caa_options = \<lparr>cop_sign_and_process = None, cop_accept_delayed_broadcast = None,
       cop_trust_self = None, cop_known_txids = [], cop_return_txid_only = None, cop_no_send = None,
       cop_no_send_change = no_send_change, cop_send_with = [], cop_randomize_outputs = Some False\<rparr>,
     caa_input_beef = None, caa_is_new_tx = True, caa_is_sign_action = False,
     caa_is_no_send = (no_send_change \<noteq> []), caa_is_delayed = False, caa_is_send_with = False,
     caa_is_remix_change = False, caa_is_test_werr_review_actions = None,
     caa_include_all_source_transactions = False, caa_random_vals = None\<rparr>"

lemma sample_wallet_ok: "db_ok sample_wallet"
  by code_simp

text \<open>A run is composed of the runs of its steps, each evaluated alone.\<close>

lemma do_create_steps:
  assumes "writeD (insert_transaction (new_transaction now en u args)) db = (Ok i, db1)"
    "forD (link_label now u i) (caa_labels args) db1 = (Ok (), db2)"
    "parse_input_beef sdk (caa_input_beef args) = Ok beef"
    "mapD (take_input now u i beef) (enumerate 0 (caa_inputs args)) db2 = (Ok taken, db3)"
    "fund_action now u i args basket (map fst taken) db3 = (Ok (change, allocated), db4)"
    "mapD (caller_output now u i) (enumerate 0 (caa_outputs args)) db4 = (Ok callers, db5)"
    "assign_vouts (en_draw en) args (callers @ map (change_output now en u i (ob_basket_id basket)
       (length (caa_outputs args))) (enumerate 0 (cr_change_outputs change))) = Ok pending"
    "forD store_output pending db5 = (Ok (), db6)"
    "writeD (update_transaction now i (transaction_partial_default\<lparr>txp_is_outgoing := Some True\<rparr>)) db6 =
       (Ok n, db')"
  shows "\<exists>r. do_create_action sdk en now u args basket db = (Ok r, db') \<and>
     car_inputs r = map snd taken @ map (change_input sdk db6) (enumerate (length taken) allocated) \<and>
     car_outputs r = map po_record pending"
  using assms by (simp add: do_create_action_def bindD_def readD_def returnD_def)

lemma change_inputs_named:
  "map csi_source_satoshis (map (change_input sdk db) (enumerate n rows)) = map (\<lambda>r. word_of_int (ou_satoshis r)) rows"
  "map (\<lambda>inp. (csi_source_txid inp, csi_source_vout inp)) (map (change_input sdk db) (enumerate n rows)) =
     map (\<lambda>r. (case ou_txid r of None \<Rightarrow> [] | Some t \<Rightarrow> t, word_of_int (ou_vout r))) rows"
  by (induction rows arbitrary: n) (simp_all add: change_input_def)

lemma change_outputs_amounts:
  "map (\<lambda>p. cso_satoshis (po_record p)) (map (change_output now en u i b k) (enumerate n amounts)) = amounts"
  by (induction amounts arbitrary: n) (simp_all add: change_output_def)

definition sample_basket :: output_basket where
  "sample_basket = hd (tb_rows (db_output_baskets sample_wallet))"

definition sample_inserted :: database where
  "sample_inserted = sample_wallet\<lparr>db_transactions := \<lparr>tb_rows = [sample_out_tx,
     (new_transaction 0 sample_entropy 1 (sample_action 0 []))\<lparr>tx_transaction_id := 2\<rparr>], tb_seq = 2\<rparr>\<rparr>"

definition sample_caller :: "u64 \<Rightarrow> pending_output" where
  "sample_caller satoshis =
     (case fst (caller_output 0 1 2 (0, hd (caa_outputs (sample_action satoshis []))) sample_wallet) of Inr p \<Rightarrow> p)"

definition sample_pending :: "u64 \<Rightarrow> u64 list \<Rightarrow> pending_output list" where
  "sample_pending satoshis change =
     sample_caller satoshis # map (change_output 0 sample_entropy 1 2 1 1) (enumerate 0 change)"

lemma sample_caller_run:
  "mapD (caller_output 0 1 2) (enumerate 0 (caa_outputs (sample_action s ps))) db = (Ok [sample_caller s], db)"
  "cso_satoshis (po_record (sample_caller s)) = s"
  by (simp_all add: sample_caller_def sample_action_def caller_output_def bindD_def returnD_def Let_def)

definition sample_funded :: database where
  "sample_funded = snd (writeD (mark_inputs_spent 0 [1] 2 1) sample_inserted)"

definition sample_stored :: "u64 \<Rightarrow> u64 list \<Rightarrow> database" where
  "sample_stored satoshis change = snd (forD store_output (sample_pending satoshis change) sample_funded)"

definition sample_created :: "u64 \<Rightarrow> u64 list \<Rightarrow> database" where
  "sample_created satoshis change = snd (writeD (update_transaction 0 2
     (transaction_partial_default\<lparr>txp_is_outgoing := Some True\<rparr>)) (sample_stored satoshis change))"

lemma sample_insert:
  "writeD (insert_transaction (new_transaction 0 sample_entropy 1 (sample_action s ps))) sample_wallet =
     (Ok 2, sample_inserted)"
proof -
  have "new_transaction 0 sample_entropy 1 (sample_action s ps) = new_transaction 0 sample_entropy 1 (sample_action 0 [])"
    by (simp add: new_transaction_def sample_action_def)
  moreover have "writeD (insert_transaction (new_transaction 0 sample_entropy 1 (sample_action 0 []))) sample_wallet =
     (Ok 2, sample_inserted)" by code_simp
  ultimately show ?thesis by simp
qed

lemma sample_create:
  assumes fund: "fund_action 0 1 2 (sample_action s ps) sample_basket [] sample_inserted =
      (Ok (change, allocated), sample_funded)"
    and store: "forD store_output (sample_pending s (cr_change_outputs change))
      sample_funded = (Ok (), db6)"
    and update: "writeD (update_transaction 0 2
      (transaction_partial_default\<lparr>txp_is_outgoing := Some True\<rparr>)) db6 = (Ok n, db')"
  shows "\<exists>r. storage_create_action sample_sdk sample_entropy 0 1 (sample_action s ps) sample_wallet = (Ok r, db') \<and>
     map csi_source_satoshis (car_inputs r) = map (\<lambda>r. word_of_int (ou_satoshis r)) allocated \<and>
     map (\<lambda>inp. (csi_source_txid inp, csi_source_vout inp)) (car_inputs r) =
       map (\<lambda>r. (case ou_txid r of None \<Rightarrow> [] | Some t \<Rightarrow> t, word_of_int (ou_vout r))) allocated \<and>
     map cso_satoshis (car_outputs r) = s # cr_change_outputs change"
proof -
  let ?none = "[] :: (fixed_input \<times> create_sdk_input) list"
  have basket: "verify_one (find_output_baskets (find_output_baskets_default\<lparr>oba_partial :=
         output_basket_partial_default\<lparr>obp_user_id := Some 1, obp_name := Some ''default''\<rparr>\<rparr>) sample_wallet)
     = Ok sample_basket" by code_simp
  have "\<exists>r. do_create_action sample_sdk sample_entropy 0 1 (sample_action s ps) sample_basket sample_wallet = (Ok r, db') \<and>
     car_inputs r = map snd ?none @ map (change_input sample_sdk db6) (enumerate (length ?none) allocated) \<and>
     car_outputs r = map po_record (sample_pending s (cr_change_outputs change))"
  proof (rule do_create_steps [OF sample_insert])
    show "forD (link_label 0 1 2) (caa_labels (sample_action s ps)) sample_inserted = (Ok (), sample_inserted)"
      by (simp add: sample_action_def forD_def bindD_def returnD_def)
    show "parse_input_beef sample_sdk (caa_input_beef (sample_action s ps)) = Ok None"
      by (simp add: sample_action_def parse_input_beef_def)
    show "mapD (take_input 0 1 2 None) (enumerate 0 (caa_inputs (sample_action s ps))) sample_inserted = (Ok ?none, sample_inserted)"
      by (simp add: sample_action_def returnD_def)
    show "fund_action 0 1 2 (sample_action s ps) sample_basket (map fst ?none) sample_inserted =
      (Ok (change, allocated), sample_funded)" using fund by simp
    show "assign_vouts (en_draw sample_entropy) (sample_action s ps) ([sample_caller s] @
        map (change_output 0 sample_entropy 1 2 (ob_basket_id sample_basket)
         (length (caa_outputs (sample_action s ps)))) (enumerate 0 (cr_change_outputs change))) =
      Ok (sample_pending s (cr_change_outputs change))"
      by (simp add: assign_vouts_def sample_pending_def sample_action_def sample_basket_def sample_wallet_def)
  qed (rule sample_caller_run store update)+
  then obtain r where r: "do_create_action sample_sdk sample_entropy 0 1 (sample_action s ps) sample_basket sample_wallet = (Ok r, db')"
     "car_inputs r = map (change_input sample_sdk db6) (enumerate 0 allocated)"
     "car_outputs r = map po_record (sample_pending s (cr_change_outputs change))" by auto
  have "storage_create_action sample_sdk sample_entropy 0 1 (sample_action s ps) sample_wallet = (Ok r, db')"
    using basket r(1) by (simp add: storage_create_action_def bindD_def readD_def in_trx_def)
  moreover have "map csi_source_satoshis (car_inputs r) = map (\<lambda>r. word_of_int (ou_satoshis r)) allocated"
    "map (\<lambda>inp. (csi_source_txid inp, csi_source_vout inp)) (car_inputs r) =
       map (\<lambda>r. (case ou_txid r of None \<Rightarrow> [] | Some t \<Rightarrow> t, word_of_int (ou_vout r))) allocated"
    unfolding r(2) by (rule change_inputs_named)+
  moreover have "map cso_satoshis (car_outputs r) = s # cr_change_outputs change"
    unfolding r(3) sample_pending_def map_map comp_def list.map sample_caller_run
    using change_outputs_amounts [of 0 sample_entropy 1 2 1 1 0 "cr_change_outputs change"] by (simp only: map_map comp_def)
  ultimately show ?thesis by (intro exI [of _ r] conjI)
qed

definition sample_change :: "u64 \<Rightarrow> storage_out_point list \<Rightarrow> change_result" where
  "sample_change satoshis ps =
     (case fst (fund_action 0 1 2 (sample_action satoshis ps) sample_basket [] sample_inserted) of
        Inr (c, _) \<Rightarrow> c)"

definition coin_outpoint :: storage_out_point where
  "coin_outpoint = \<lparr>op_txid = ''t1'', op_vout = 0\<rparr>"

definition sample_runs :: "u64 \<Rightarrow> storage_out_point list \<Rightarrow> output_row list \<Rightarrow> u64 list \<Rightarrow> bool" where
  "sample_runs s ps allocated change \<longleftrightarrow>
     fund_action 0 1 2 (sample_action s ps) sample_basket [] sample_inserted =
       (Ok (sample_change s ps, allocated), sample_funded) \<and>
     cr_change_outputs (sample_change s ps) = change \<and>
     forD store_output (sample_pending s change) sample_funded = (Ok (), sample_stored s change) \<and>
     writeD (update_transaction 0 2 (transaction_partial_default\<lparr>txp_is_outgoing := Some True\<rparr>))
       (sample_stored s change) = (Ok 1, sample_created s change)"

lemma sample_runs_5000: "sample_runs 5000 [] [sample_coin] [4979]"
  by code_simp

lemma sample_runs_max: "sample_runs MAX_POSSIBLE_SATOSHIS [] [sample_coin] []"
  by code_simp

lemma sample_runs_twice: "sample_runs 15000 [coin_outpoint] [sample_coin, sample_coin] [4964]"
  by code_simp

lemma sample_result:
  assumes "sample_runs s ps allocated change"
  obtains r where
    "storage_create_action sample_sdk sample_entropy 0 1 (sample_action s ps) sample_wallet =
       (Ok r, sample_created s change)"
    "map csi_source_satoshis (car_inputs r) = map (\<lambda>r. word_of_int (ou_satoshis r)) allocated"
    "map (\<lambda>inp. (csi_source_txid inp, csi_source_vout inp)) (car_inputs r) =
       map (\<lambda>r. (case ou_txid r of None \<Rightarrow> [] | Some t \<Rightarrow> t, word_of_int (ou_vout r))) allocated"
    "map cso_satoshis (car_outputs r) = s # change"
proof -
  have run: "cr_change_outputs (sample_change s ps) = change"
    "fund_action 0 1 2 (sample_action s ps) sample_basket [] sample_inserted =
       (Ok (sample_change s ps, allocated), sample_funded)"
    "forD store_output (sample_pending s change) sample_funded = (Ok (), sample_stored s change)"
    "writeD (update_transaction 0 2 (transaction_partial_default\<lparr>txp_is_outgoing := Some True\<rparr>))
       (sample_stored s change) = (Ok 1, sample_created s change)"
    using assms by (simp_all add: sample_runs_def)
  show thesis
    using sample_create [OF run(2) _ run(4)] run(1,3) that by auto
qed


section \<open>Properties\<close>

text \<open>
  C1: Creating an action is atomic and never spends an output that is not free. When it fails, the
  database is as before. When it succeeds, one unsigned outgoing transaction row is added; the
  outputs it claims were spendable, unspent outputs of the user, are now unspendable with the new
  transaction as their spender, and all other outputs are unchanged; every input of the result
  spends a claimed output or names no output of the user, and every claimed output is spent by an
  input; the outputs of the result are stored, in order, unspendable and without txid.
\<close>

theorem create_action_claims:
  assumes "db_ok db"
  shows "case storage_create_action sdk en now u args db of
      (Inl e, db') \<Rightarrow> db' = db
    | (Inr r, db') \<Rightarrow> \<exists>i C. action_stored now en u args i C r db db'"
proof (cases "storage_create_action sdk en now u args db")
  case run: (Pair res db')
  show ?thesis
  proof (cases res)
    case (Inl e)
    then show ?thesis using storage_create_action_Err run by (simp add: Inl)
  next
    case (Inr r)
    obtain basket where "do_create_action sdk en now u args basket db = (Ok r, db')"
      using storage_create_action_run run Inr by blast
    then obtain i C where "action_stored now en u args i C r db db'"
      using do_create_effect [OF _ assms] by blast
    then show ?thesis using run Inr by auto
  qed
qed

theorem create_action_claims_witness:
  "db_ok sample_wallet \<and>
   (\<exists>r i C. storage_create_action sample_sdk sample_entropy 0 1 (sample_action 5000 []) sample_wallet =
      (Ok r, sample_created 5000 [4979]) \<and> length (car_inputs r) = 1 \<and>
      action_stored 0 sample_entropy 1 (sample_action 5000 []) i C r sample_wallet
        (sample_created 5000 [4979]))"
proof -
  obtain r where r: "storage_create_action sample_sdk sample_entropy 0 1 (sample_action 5000 []) sample_wallet =
      (Ok r, sample_created 5000 [4979])" "map csi_source_satoshis (car_inputs r) = [10000]"
    by (rule sample_result [OF sample_runs_5000]) (simp add: sample_coin_def)
  have "length (car_inputs r) = 1" using arg_cong [OF r(2), of length] by simp
  then show ?thesis
    using create_action_claims [OF sample_wallet_ok, where sdk = sample_sdk and en = sample_entropy
      and now = 0 and u = 1 and args = "sample_action 5000 []"] r(1) sample_wallet_ok by auto
qed

lemma funded_amounts:
  assumes "action_funded args r fixed change"
    "generate_change_sdk_with_no_send (change_args_of basket fixed args n) ns av = Ok change"
    "\<forall>spec \<in> set (caa_outputs args). cao_satoshis spec \<noteq> MAX_POSSIBLE_SATOSHIS"
  shows "sum_list (map csi_source_satoshis (car_inputs r)) = sum_list (map cso_satoshis (car_outputs r)) +
     div_ceil (transaction_size (map csi_unlocking_script_length (car_inputs r))
       (map locking_length (car_outputs r)) * 100) 1000"
proof -
  have "final_outputs (change_args_of basket fixed args n) change =
      map fo_satoshis (map fixed_output_of (caa_outputs args))"
    using generate_change_no_max [OF assms(2)] assms(3)
    by (simp add: change_args_of_def fixed_output_of_def)
  then show ?thesis
    using balanced_result [OF assms(2)] assms(1)
    by (simp add: action_funded_def funding_def spending_def change_total_def fee_target_def compute_size_def
        change_args_of_def default_fee_model_def)
qed

text \<open>The fee of the result: 100 satoshis per kilobyte of the serialized transaction, rounded up.\<close>

definition action_fee :: "create_action_result \<Rightarrow> u64" where
  "action_fee r = div_ceil (transaction_size (map csi_unlocking_script_length (car_inputs r))
     (map locking_length (car_outputs r)) * 100) 1000"

text \<open>
  C2: When no output asks for the max-possible amount, the transaction that a successful
  createAction describes is balanced: its inputs pay for its outputs and for the fee of 100
  satoshis per kilobyte of its size, the size being that of the serialized transaction with the
  declared unlocking lengths. The equation holds between 64-bit amounts, and between the amounts
  as integers whenever neither side exceeds the 64-bit range.
\<close>

theorem create_action_balanced:
  assumes "storage_create_action sdk en now u args db = (Ok r, db')" and "db_ok db"
    and "\<forall>spec \<in> set (caa_outputs args). cao_satoshis spec \<noteq> MAX_POSSIBLE_SATOSHIS"
  shows "sum_list (map csi_source_satoshis (car_inputs r)) =
      sum_list (map cso_satoshis (car_outputs r)) + action_fee r \<and>
    (nat_total (map csi_source_satoshis (car_inputs r)) < 2 ^ 64 \<longrightarrow>
     nat_total (map cso_satoshis (car_outputs r)) + unat (action_fee r) < 2 ^ 64 \<longrightarrow>
     nat_total (map csi_source_satoshis (car_inputs r)) =
       nat_total (map cso_satoshis (car_outputs r)) + unat (action_fee r))"
proof -
  let ?ins = "map csi_source_satoshis (car_inputs r)"
  let ?outs = "map cso_satoshis (car_outputs r)"
  obtain basket where "do_create_action sdk en now u args basket db = (Ok r, db')"
    using storage_create_action_run [OF assms(1)] by blast
  then have eq: "sum_list ?ins = sum_list ?outs + action_fee r"
    unfolding action_fee_def by (rule do_create_effect [OF _ assms(2)]) (rule funded_amounts [OF _ _ assms(3)])
  have "nat_total ?ins = nat_total ?outs + unat (action_fee r)"
    if "nat_total ?ins < 2 ^ 64" "nat_total ?outs + unat (action_fee r) < 2 ^ 64"
    using eq unat_sum_list [OF that(1)] unat_sum_list [of "?outs @ [action_fee r]"] that(2)
    by (simp add: nat_total_def)
  then show ?thesis using eq by blast
qed

theorem create_action_balanced_witness:
  "\<exists>r. storage_create_action sample_sdk sample_entropy 0 1 (sample_action 5000 []) sample_wallet =
      (Ok r, sample_created 5000 [4979]) \<and> db_ok sample_wallet \<and>
     (\<forall>spec \<in> set (caa_outputs (sample_action 5000 [])). cao_satoshis spec \<noteq> MAX_POSSIBLE_SATOSHIS) \<and>
     10000 = 5000 + 4979 + action_fee r"
proof -
  obtain r where r: "storage_create_action sample_sdk sample_entropy 0 1 (sample_action 5000 []) sample_wallet =
      (Ok r, sample_created 5000 [4979])" "map csi_source_satoshis (car_inputs r) = [10000]"
      "map cso_satoshis (car_outputs r) = [5000, 4979]"
    by (rule sample_result [OF sample_runs_5000]) (simp add: sample_coin_def)
  have "\<forall>spec \<in> set (caa_outputs (sample_action 5000 [])). cao_satoshis spec \<noteq> MAX_POSSIBLE_SATOSHIS"
    by (simp add: sample_action_def MAX_POSSIBLE_SATOSHIS_def)
  then show ?thesis
    using create_action_balanced [OF r(1) sample_wallet_ok] r sample_wallet_ok by auto
qed

text \<open>
  C39: A max-possible output is not filled in: whatever the wallet holds, every output that a
  successful createAction was asked to give the max-possible amount is returned, and stored, with
  the placeholder of 2099999999999999 satoshis, since the amount computed by change generation
  is not read. So when the inputs are worth less, the outputs exceed them.
\<close>

theorem sweep_keeps_sentinel:
  assumes "storage_create_action sdk en now u args db = (Ok r, db')" and "db_ok db"
    and "k < length (caa_outputs args)" and "cao_satoshis (caa_outputs args ! k) = MAX_POSSIBLE_SATOSHIS"
  shows "k < length (car_outputs r) \<and> cso_satoshis (car_outputs r ! k) = 2099999999999999 \<and>
    (\<exists>row \<in> set (output_rows db'). matches (car_outputs r ! k) row \<and> ou_satoshis row = 2099999999999999) \<and>
    (nat_total (map csi_source_satoshis (car_inputs r)) < 2099999999999999 \<longrightarrow>
     nat_total (map csi_source_satoshis (car_inputs r)) < nat_total (map cso_satoshis (car_outputs r)))"
proof -
  obtain basket where "do_create_action sdk en now u args basket db = (Ok r, db')"
    using storage_create_action_run [OF assms(1)] by blast
  then obtain i C fixed change where st: "action_stored now en u args i C r db db'"
    and f: "action_funded args r fixed change"
    using do_create_effect [OF _ assms(2)] by metis
  have outs: "map cso_satoshis (car_outputs r) =
      map (\<lambda>spec. fo_satoshis (fixed_output_of spec)) (caa_outputs args) @ cr_change_outputs change"
    using f by (simp add: action_funded_def comp_def)
  have len: "k < length (car_outputs r)" using arg_cong [OF outs, of length] assms(3) by simp
  have sat: "cso_satoshis (car_outputs r ! k) = 2099999999999999"
    using arg_cong [OF outs, of "\<lambda>xs. xs ! k"] len assms(3,4)
    by (simp add: nth_append fixed_output_of_def MAX_POSSIBLE_SATOSHIS_def)
  obtain new where "output_rows db' = map (claim_in now i C) (output_rows db) @ new"
      "list_all2 matches (car_outputs r) new"
    using st unfolding action_stored_def by blast
  then have "matches (car_outputs r ! k) (new ! k)" "new ! k \<in> set (output_rows db')"
    using len by (auto simp: list_all2_conv_all_nth)
  moreover from this have "ou_satoshis (new ! k) = 2099999999999999" using sat by (simp add: matches_def)
  moreover have "2099999999999999 \<le> nat_total (map cso_satoshis (car_outputs r))"
    using member_le_sum_list [of "2099999999999999" "map unat (map cso_satoshis (car_outputs r))"] len sat
    by (force simp: nat_total_def in_set_conv_nth)
  ultimately show ?thesis using len sat by auto
qed

theorem sweep_keeps_sentinel_witness:
  "\<exists>r db'. storage_create_action sample_sdk sample_entropy 0 1 (sample_action MAX_POSSIBLE_SATOSHIS [])
       sample_wallet = (Ok r, db') \<and> db_ok sample_wallet \<and>
     map csi_source_satoshis (car_inputs r) = [10000] \<and>
     map cso_satoshis (car_outputs r) = [2099999999999999] \<and>
     nat_total (map csi_source_satoshis (car_inputs r)) < nat_total (map cso_satoshis (car_outputs r))"
proof -
  obtain r where r: "storage_create_action sample_sdk sample_entropy 0 1 (sample_action MAX_POSSIBLE_SATOSHIS [])
       sample_wallet = (Ok r, sample_created MAX_POSSIBLE_SATOSHIS [])"
      "map csi_source_satoshis (car_inputs r) = [10000]"
      "map cso_satoshis (car_outputs r) = [2099999999999999]"
    by (rule sample_result [OF sample_runs_max]) (auto simp: sample_coin_def MAX_POSSIBLE_SATOSHIS_def)
  have "nat_total (map csi_source_satoshis (car_inputs r)) < 2099999999999999"
    unfolding r(2) by (simp add: nat_total_def)
  then show ?thesis
    using sweep_keeps_sentinel [OF r(1) sample_wallet_ok, of 0] r sample_wallet_ok
    by (auto simp: sample_action_def)
qed

text \<open>
  A coin can be counted twice: when a \<open>noSend\<close> action names as \<open>noSendChange\<close> a change output
  that is also among the available change, both lists offer it and both copies are allocated. The
  wallet with one coin of 10000 satoshis pays 15000, with a transaction that has the same outpoint
  as two of its inputs.
\<close>

theorem no_send_change_spent_twice:
  "\<exists>r db'. storage_create_action sample_sdk sample_entropy 0 1 (sample_action 15000 [coin_outpoint])
       sample_wallet = (Ok r, db') \<and>
     map (\<lambda>inp. (csi_source_txid inp, csi_source_vout inp)) (car_inputs r) = [(''t1'', 0), (''t1'', 0)] \<and>
     map csi_source_satoshis (car_inputs r) = [10000, 10000] \<and>
     map cso_satoshis (car_outputs r) = [15000, 4964]"
  by (rule sample_result [OF sample_runs_twice]) (auto simp: sample_coin_def)

end
