(* ===== verification/ActionCorrect.thy ===== *)
theory ActionCorrect
  imports ActionSafety CreateExamples
begin

text \<open>
  What committing and aborting an action do to the database: the rows they change and how, that
  they are atomic, that an abort gives back exactly what the action had claimed, and that an action
  that was committed can not be aborted any more.
\<close>

section \<open>An example\<close>

definition sample_signed :: process_action_args where
  "sample_signed = \<lparr>paa_is_new_tx = True, paa_is_send_with = False, paa_is_no_send = True, paa_is_delayed = False,
     paa_reference = Some ''ref'', paa_txid = Some ''t2'', paa_raw_tx = Some [1], paa_send_with = []\<rparr>"

definition sample_unsigned_tx :: transaction where
  "sample_unsigned_tx = (new_transaction 0 sample_entropy 1 (sample_action 0 []))\<lparr>tx_transaction_id := 2\<rparr>"

text \<open>An unsigned transaction that has claimed the coin and has one change output.\<close>

definition sample_unsigned :: database where
  "sample_unsigned = sample_inserted\<lparr>db_outputs := \<lparr>tb_rows = [claim_row 0 2 sample_coin,
     (po_row (change_output 0 sample_entropy 1 2 1 0 (0, 9000)))\<lparr>ou_output_id := 2\<rparr>], tb_seq = 2\<rparr>\<rparr>"

definition sample_committed :: database where
  "sample_committed = snd (commit_action 0 1 ''t2'' [1] sample_unsigned_tx RsNosend TsNosend sample_unsigned)"

definition sample_codec :: codec where
  "sample_codec = \<lparr>cd_base64 = (\<lambda>bytes. map (\<lambda>b. char_of (unat b)) bytes),
     cd_parse_json = (\<lambda>text. if text = ''[]'' then Some (JArray []) else None),
     cd_print_json = (\<lambda>_. []), cd_show_time = (\<lambda>_. [])\<rparr>"

lemma sample_unsigned_ok: "db_ok sample_unsigned"
  by code_simp

lemma sample_unsigned_found: "by_reference 1 ''ref'' sample_unsigned = [sample_unsigned_tx]"
  by code_simp

lemma sample_commit:
  "commit_action 0 1 ''t2'' [1] sample_unsigned_tx RsNosend TsNosend sample_unsigned = (Ok (), sample_committed)"
  by code_simp

lemma sample_process:
  "storage_process_action ''batch'' 0 1 sample_signed sample_unsigned =
     (Ok \<lparr>par_send_with_results = None, par_log = None\<rparr>, sample_committed)"
  using sample_unsigned_found sample_commit
  by (simp add: storage_process_action_def bindD_def readD_def sample_signed_def required_def verify_one_def
      check_signable_def sample_unsigned_tx_def new_transaction_def action_status_def in_trx_def returnD_def)

lemma sample_outputs: "map ou_spendable (output_rows sample_committed) = [False, True]"
  by code_simp

lemma sample_wallet_user:
  "find_user_by_identity_key ''me'' sample_committed = Ok (Some (hd (tb_rows (db_users sample_wallet))))"
  "us_user_id (hd (tb_rows (db_users sample_wallet))) = 1"
  by code_simp+

section \<open>Loops of updates\<close>

lemma find_outputs_of:
  "find_outputs trx (outputs_of u i) db =
     Ok (filter (\<lambda>r. ou_user_id r = u \<and> ou_transaction_id r = i) (output_rows db))"
  by (simp add: find_outputs_def outputs_of_def find_outputs_default_def output_partial_default_def
      outputs_where_def output_rows_def cong: filter_cong)

lemma find_spent_by:
  "find_outputs trx (spent_by_query u i) db =
     Ok (filter (\<lambda>r. ou_user_id r = u \<and> ou_spent_by r = Some i) (output_rows db))"
  by (simp add: find_outputs_def spent_by_query_def find_outputs_default_def output_partial_default_def
      outputs_where_def output_rows_def cong: filter_cong)

lemma update_output_rows:
  assumes "update_output now i p db = Ok (db', n)"
  shows "output_rows db' = map (\<lambda>r. if ou_output_id r = i then apply_output now p r else r) (output_rows db)"
    "\<exists>t. db' = db\<lparr>db_outputs := t\<rparr>"
  using assms update_rows_OkD(1) by (fastforce simp: update_output_def output_rows_def)+

lemma forD_run [run_simps]:
  "forD f [] db = (Ok y, db') \<longleftrightarrow> db' = db"
  "forD f (x # xs) db = (Ok y, db') \<longleftrightarrow> (\<exists>db1. f x db = (Ok (), db1) \<and> forD f xs db1 = (Ok y, db'))"
  by (auto simp: forD_def run_simps)

lemma forD_filter:
  "forD (\<lambda>x. if P x then f x else returnD ()) xs db = (Ok y, db') \<longleftrightarrow> forD f (filter P xs) db = (Ok y, db')"
  by (induction xs arbitrary: db) (auto simp: run_simps)

text \<open>Updating the rows of a list one by one updates the rows with these identifiers.\<close>

definition set_each :: "ts \<Rightarrow> output_partial \<Rightarrow> int set \<Rightarrow> output_row \<Rightarrow> output_row" where
  "set_each now p ids r = (if ou_output_id r \<in> ids then apply_output now p r else r)"

lemma update_each:
  "forD (\<lambda>r. bindD (writeD (update_output now (ou_output_id r) p)) (\<lambda>_. returnD ())) L db = (Ok y, db') \<Longrightarrow>
   distinct (map ou_output_id L) \<Longrightarrow>
     output_rows db' = map (set_each now p (ou_output_id ` set L)) (output_rows db) \<and>
     (\<exists>t. db' = db\<lparr>db_outputs := t\<rparr>)"
proof (induction L arbitrary: db)
  case Nil
  then show ?case by (auto simp: run_simps set_each_def intro: exI [of _ "db_outputs db"])
next
  case (Cons r L)
  from Cons.prems(1) obtain db1 n where step: "update_output now (ou_output_id r) p db = Ok (db1, n)"
    and rest: "forD (\<lambda>r. bindD (writeD (update_output now (ou_output_id r) p)) (\<lambda>_. returnD ())) L db1 = (Ok y, db')"
    by (auto simp: run_simps)
  have "set_each now p (ou_output_id ` set L) (if ou_output_id x = ou_output_id r then apply_output now p x else x) =
      set_each now p (ou_output_id ` set (r # L)) x" for x
    using Cons.prems(2) by (auto simp: set_each_def apply_keeps_ids)
  then show ?case
    using Cons.IH [OF rest] Cons.prems(2) update_output_rows [OF step] by (auto simp: comp_def)
qed

lemma set_each_filter:
  assumes "distinct (map ou_output_id rows)"
  shows "map (set_each now p (ou_output_id ` set (filter P rows))) rows =
    map (\<lambda>r. if P r then apply_output now p r else r) rows"
proof (rule map_cong [OF refl])
  fix r assume "r \<in> set rows"
  then have "ou_output_id r \<in> ou_output_id ` set (filter P rows) \<longleftrightarrow> P r"
    using assms by (auto simp: distinct_map inj_on_def)
  then show "set_each now p (ou_output_id ` set (filter P rows)) r = (if P r then apply_output now p r else r)"
    by (simp add: set_each_def)
qed

section \<open>Committing an action\<close>

definition named_row :: "ts \<Rightarrow> int \<Rightarrow> int \<Rightarrow> string \<Rightarrow> output_row \<Rightarrow> output_row" where
  "named_row now u i txid r =
     (if ou_user_id r = u \<and> ou_transaction_id r = i
      then r\<lparr>ou_txid := Some txid, ou_spendable := True, ou_spent_by := None, ou_updated_at := secs now\<rparr>
      else r)"

definition signed_row :: "ts \<Rightarrow> int \<Rightarrow> string \<Rightarrow> u8 list \<Rightarrow> transaction_status \<Rightarrow> transaction \<Rightarrow> transaction" where
  "signed_row now i txid raw st t =
     (if tx_transaction_id t = i
      then t\<lparr>tx_txid := Some txid, tx_status := st, tx_raw_tx := Some raw, tx_updated_at := secs now\<rparr>
      else t)"

text \<open>The database after the commit of the transaction row \<open>tx\<close>.\<close>

definition action_committed ::
  "ts \<Rightarrow> int \<Rightarrow> string \<Rightarrow> u8 list \<Rightarrow> transaction \<Rightarrow> proven_tx_req_status \<Rightarrow> transaction_status \<Rightarrow>
    database \<Rightarrow> database \<Rightarrow> bool" where
  "action_committed now u txid raw tx rs st db db' \<longleftrightarrow>
     tb_rows (db_transactions db') =
       map (signed_row now (tx_transaction_id tx) txid raw st) (tb_rows (db_transactions db)) \<and>
     output_rows db' = map (named_row now u (tx_transaction_id tx) txid) (output_rows db) \<and>
     (\<forall>req \<in> set (tb_rows (db_proven_tx_reqs db)). pr_txid req \<noteq> txid) \<and>
     (\<exists>k. tb_rows (db_proven_tx_reqs db') = tb_rows (db_proven_tx_reqs db) @
        [(new_request (secs now) rs txid raw tx)\<lparr>pr_proven_tx_req_id := k\<rparr>])"

lemma apply_named:
  "(if ou_user_id r = u \<and> ou_transaction_id r = i then apply_output now (output_partial_default\<lparr>oup_txid := Some txid,
      oup_spendable := Some True\<rparr>) r else r) = named_row now u i txid r"
  by (cases r) (simp add: named_row_def apply_output_def output_partial_default_def set_or_clear_def)

lemma apply_signed:
  "(if tx_transaction_id t = i then apply_transaction now (transaction_partial_default\<lparr>txp_txid := Some txid,
      txp_status := Some st, txp_raw_tx := Some raw\<rparr>) t else t) = signed_row now i txid raw st t"
  by (cases t) (simp add: signed_row_def apply_transaction_def transaction_partial_default_def)

lemma update_transaction_rows:
  assumes "update_transaction now i p db = Ok (db', n)"
  shows "tb_rows (db_transactions db') =
      map (\<lambda>t. if tx_transaction_id t = i then apply_transaction now p t else t) (tb_rows (db_transactions db))"
    "\<exists>t. db' = db\<lparr>db_transactions := t\<rparr>"
  using assms update_rows_OkD(1) by (fastforce simp: update_transaction_def)+

lemma insert_request_rows:
  assumes "insert_proven_tx_req (new_request now rs txid raw tx) db = Ok (db', k)"
  shows "tb_rows (db_proven_tx_reqs db') = tb_rows (db_proven_tx_reqs db) @
      [(new_request (secs now) rs txid raw tx)\<lparr>pr_proven_tx_req_id := k\<rparr>]"
    "\<exists>t. db' = db\<lparr>db_proven_tx_reqs := t\<rparr>"
    "\<forall>req \<in> set (tb_rows (db_proven_tx_reqs db)). pr_txid req \<noteq> txid"
  using assms
  by (auto simp: insert_proven_tx_req_def insert_row_def new_request_def proven_tx_req_key_def Let_def
      image_iff split: if_splits)

lemma commit_action_effect:
  assumes run: "commit_action now u txid raw tx rs st db = (Ok y, db')"
    and ids: "distinct (map ou_output_id (output_rows db))"
  shows "action_committed now u txid raw tx rs st db db'"
proof -
  let ?i = "tx_transaction_id tx"
  from run obtain k db1 n db2 where
    req: "insert_proven_tx_req (new_request now rs txid raw tx) db = Ok (db1, k)" and
    upd: "update_transaction now ?i (transaction_partial_default\<lparr>txp_txid := Some txid, txp_status := Some st,
        txp_raw_tx := Some raw\<rparr>) db1 = Ok (db2, n)" and
    out: "forD (release_output now txid)
        (filter (\<lambda>r. ou_user_id r = u \<and> ou_transaction_id r = ?i) (output_rows db2)) db2 = (Ok y, db')"
    by (auto simp: commit_action_def run_simps find_outputs_of)
  note R = insert_request_rows [OF req] and T = update_transaction_rows [OF upd]
  have rows2: "output_rows db2 = output_rows db" using R(2) T(2) by (auto simp: output_rows_def)
  have loop: "release_output now txid = (\<lambda>r. bindD (writeD (update_output now (ou_output_id r)
      (output_partial_default\<lparr>oup_txid := Some txid, oup_spendable := Some True\<rparr>))) (\<lambda>_. returnD ()))"
    by (rule ext) (rule release_output_def)
  have "distinct (map ou_output_id (filter (\<lambda>r. ou_user_id r = u \<and> ou_transaction_id r = ?i) (output_rows db2)))"
    using ids rows2 by (simp add: distinct_map_filter)
  note U = update_each [OF out [unfolded loop] this]
  then have "output_rows db' = map (named_row now u ?i txid) (output_rows db)"
    using set_each_filter [OF ids] rows2 by (simp add: apply_named)
  then show ?thesis
    using U R T by (auto simp: action_committed_def apply_signed)
qed


lemma by_reference_rows:
  "by_reference u ref db = filter (\<lambda>t. tx_user_id t = u \<and> tx_reference t = ref) (tb_rows (db_transactions db))"
  by (simp add: by_reference_def find_transactions_def find_transactions_default_def transactions_where_def
      transaction_partial_default_def cong: filter_cong)

lemma required_Ok [simp]: "required name v = Ok x \<longleftrightarrow> v = Some x"
  by (cases v) (simp_all add: required_def)

lemma check_signable_Ok [simp]:
  "check_signable tx = Ok y \<longleftrightarrow> tx_is_outgoing tx \<and> tx_status tx \<in> {TsUnsigned, TsUnprocessed}"
  by (auto simp: check_signable_def)

lemma process_new_run:
  assumes "storage_process_action batch now u args db = (Ok r, db')" "paa_is_new_tx args" "paa_send_with args = []"
  obtains ref txid raw tx rs st where
    "paa_reference args = Some ref" "paa_txid args = Some txid" "paa_raw_tx args = Some raw"
    "by_reference u ref db = [tx]" "tx_is_outgoing tx" "tx_status tx \<in> {TsUnsigned, TsUnprocessed}"
    "action_status args = Ok (rs, st)" "commit_action now u txid raw tx rs st db = (Ok (), db')"
  using assms by (auto simp: storage_process_action_def run_simps verify_one_Ok)

lemma process_new_Err:
  assumes "storage_process_action batch now u args db = (Err e, db')" "paa_is_new_tx args" "paa_send_with args = []"
  shows "db' = db"
proof -
  have frame: "bindD m f db = (Err e, db') \<Longrightarrow> (\<And>e db'. m db = (Err e, db') \<Longrightarrow> db' = db) \<Longrightarrow>
      (\<And>x db1. m db = (Ok x, db1) \<Longrightarrow> f x db1 = (Err e, db') \<Longrightarrow> db' = db) \<Longrightarrow> db' = db"
    for m :: "'a db_op" and f :: "'a \<Rightarrow> process_action_result db_op" and db db' e
    by (auto simp: bindD_def split: prod.splits sum.splits)
  show ?thesis
    using assms unfolding storage_process_action_def
    by (auto simp: readD_run returnD_run split_beta elim!: frame) (erule in_trx_Err)+
qed

text \<open>The pair of statuses a new action is committed with.\<close>

definition commit_statuses :: "process_action_args \<Rightarrow> proven_tx_req_status \<times> transaction_status" where
  "commit_statuses args =
     (if paa_is_no_send args then (RsNosend, TsNosend)
      else (if paa_is_delayed args then RsUnsent else RsUnprocessed, TsUnprocessed))"

lemma action_status_Ok: "action_status args = Ok p \<Longrightarrow> p = commit_statuses args"
  by (auto simp: action_status_def commit_statuses_def split: if_splits)

text \<open>
  C5: Committing a signed action is atomic. When it fails, the database is as before. When it
  succeeds, the transaction of the given reference was outgoing and not yet sent; it now has the
  txid, the raw transaction and the status that the flags ask for; every output it created, and no
  other, has the txid and is spendable without a spender; and one proof request with the matching
  status was added, the first one for this txid.
\<close>

theorem process_action_commits:
  assumes "db_ok db" "paa_is_new_tx args" "paa_send_with args = []"
  shows "case storage_process_action batch now u args db of
      (Inl e, db') \<Rightarrow> db' = db
    | (Inr r, db') \<Rightarrow> \<exists>tx txid raw.
        tx \<in> set (tb_rows (db_transactions db)) \<and> tx_user_id tx = u \<and>
        paa_reference args = Some (tx_reference tx) \<and> tx_is_outgoing tx \<and>
        tx_status tx \<in> {TsUnsigned, TsUnprocessed} \<and>
        paa_txid args = Some txid \<and> paa_raw_tx args = Some raw \<and>
        action_committed now u txid raw tx (fst (commit_statuses args)) (snd (commit_statuses args)) db db'"
proof (cases "storage_process_action batch now u args db")
  case run: (Pair res db')
  show ?thesis
  proof (cases res)
    case (Inl e)
    then show ?thesis using process_new_Err [OF _ assms(2,3)] run by (simp add: Inl)
  next
    case (Inr r)
    obtain ref txid raw tx rs st where R: "paa_reference args = Some ref" "paa_txid args = Some txid"
      "paa_raw_tx args = Some raw" "by_reference u ref db = [tx]" "tx_is_outgoing tx"
      "tx_status tx \<in> {TsUnsigned, TsUnprocessed}" "action_status args = Ok (rs, st)"
      "commit_action now u txid raw tx rs st db = (Ok (), db')"
      using process_new_run [OF run [unfolded Inr] assms(2,3)] by metis
    have "tx \<in> set (by_reference u ref db)" using R(4) by simp
    then have tx: "tx \<in> set (tb_rows (db_transactions db))" "tx_user_id tx = u" "tx_reference tx = ref"
      by (simp_all add: by_reference_rows)
    have "distinct (map ou_output_id (output_rows db))"
      using assms(1) by (simp add: db_ok_def id_columns_ok_def ids_ok_def output_rows_def)
    from commit_action_effect [OF R(8) this]
    have "action_committed now u txid raw tx (fst (commit_statuses args)) (snd (commit_statuses args)) db db'"
      using action_status_Ok [OF R(7)] by (metis fst_conv snd_conv)
    then have "\<exists>tx txid raw. tx \<in> set (tb_rows (db_transactions db)) \<and> tx_user_id tx = u \<and>
        paa_reference args = Some (tx_reference tx) \<and> tx_is_outgoing tx \<and>
        tx_status tx \<in> {TsUnsigned, TsUnprocessed} \<and> paa_txid args = Some txid \<and> paa_raw_tx args = Some raw \<and>
        action_committed now u txid raw tx (fst (commit_statuses args)) (snd (commit_statuses args)) db db'"
      using tx R(1-6) by blast
    then show ?thesis unfolding run Inr by simp
  qed
qed


theorem process_action_commits_witness:
  "db_ok sample_unsigned \<and> paa_is_new_tx sample_signed \<and> paa_send_with sample_signed = [] \<and>
   storage_process_action ''batch'' 0 1 sample_signed sample_unsigned =
     (Ok \<lparr>par_send_with_results = None, par_log = None\<rparr>, sample_committed) \<and>
   (\<exists>tx. tx_status tx \<in> {TsUnsigned, TsUnprocessed} \<and>
      action_committed 0 1 ''t2'' [1] tx RsNosend TsNosend sample_unsigned sample_committed) \<and>
   map ou_spendable (output_rows sample_committed) = [False, True]"
proof -
  have s: "paa_is_new_tx sample_signed" "paa_send_with sample_signed = []" "paa_txid sample_signed = Some ''t2''"
    "paa_raw_tx sample_signed = Some [1]" "commit_statuses sample_signed = (RsNosend, TsNosend)"
    by (simp_all add: sample_signed_def commit_statuses_def)
  show ?thesis
    using process_action_commits [OF sample_unsigned_ok s(1,2), where batch = "''batch''" and now = 0 and u = 1]
      sample_process sample_unsigned_ok sample_outputs s by auto
qed

section \<open>Aborting an action\<close>

definition raw_inputs :: "sdk \<Rightarrow> transaction \<Rightarrow> sdk_input list" where
  "raw_inputs sdk tx =
     (case tx_raw_tx tx of
        None \<Rightarrow> []
      | Some raw \<Rightarrow> (case sdk_parse_tx sdk raw of Inl _ \<Rightarrow> [] | Inr parsed \<Rightarrow> xt_inputs parsed))"

definition names_output :: "sdk_input \<Rightarrow> output_row \<Rightarrow> bool" where
  "names_output x r \<longleftrightarrow>
     xi_source_txid x \<noteq> None \<and> ou_txid r = xi_source_txid x \<and> ou_vout r = sint (xi_source_output_index x)"

text \<open>The outputs of the user that a transaction has claimed or that its raw form spends.\<close>

definition consumed_by :: "sdk \<Rightarrow> int \<Rightarrow> transaction \<Rightarrow> output_row \<Rightarrow> bool" where
  "consumed_by sdk u tx r \<longleftrightarrow> ou_user_id r = u \<and>
     (ou_spent_by r = Some (tx_transaction_id tx) \<or> (\<exists>x \<in> set (raw_inputs sdk tx). names_output x r))"

lemma push_new_ids: "ou_output_id ` set (push_new rows found) = ou_output_id ` set rows \<union> ou_output_id ` set found"
proof (induction found arbitrary: rows)
  case Nil
  show ?case by simp
next
  case (Cons r found)
  have "(\<exists>e \<in> set rows. ou_output_id e = ou_output_id r) \<longleftrightarrow> ou_output_id r \<in> ou_output_id ` set rows"
    unfolding image_iff by (rule bex_cong [OF refl]) (rule eq_commute)
  then show ?case using Cons.IH by (simp add: insert_absorb)
qed

lemma add_raw_inputs_rows:
  "add_raw_inputs u xs rows db = (Ok ys, db') \<Longrightarrow> db' = db \<and>
     ou_output_id ` set ys = ou_output_id ` set rows \<union>
       ou_output_id ` {r \<in> set (output_rows db). ou_user_id r = u \<and> (\<exists>x \<in> set xs. names_output x r)}"
proof (induction xs arbitrary: rows)
  case Nil
  then show ?case by (simp add: run_simps)
next
  case (Cons x xs)
  show ?case
  proof (cases "xi_source_txid x")
    case None
    then have "names_output x r \<longleftrightarrow> False" for r by (simp add: names_output_def)
    then show ?thesis using Cons None by simp
  next
    case (Some t)
    let ?named = "filter (\<lambda>r. ou_user_id r = u \<and> ou_vout r = sint (xi_source_output_index x) \<and> ou_txid r = Some t)
      (output_rows db)"
    from Cons.prems Some have "add_raw_inputs u xs (push_new rows ?named) db = (Ok ys, db')"
      by (simp add: run_simps find_by_outpoint)
    note rest = Cons.IH [OF this]
    have "{r \<in> set (output_rows db). ou_user_id r = u \<and> (\<exists>y \<in> set (x # xs). names_output y r)} =
        set ?named \<union> {r \<in> set (output_rows db). ou_user_id r = u \<and> (\<exists>y \<in> set xs. names_output y r)}"
      using Some by (auto simp: names_output_def)
    then show ?thesis using rest by (simp only: push_new_ids image_Un Un_assoc simp_thms)
  qed
qed

lemma consumed_inputs_rows:
  assumes "consumed_inputs sdk u tx db = (Ok inputs, db')"
  shows "db' = db"
    "ou_output_id ` set inputs = ou_output_id ` {r \<in> set (output_rows db). consumed_by sdk u tx r}"
proof -
  let ?claimed = "filter (\<lambda>r. ou_user_id r = u \<and> ou_spent_by r = Some (tx_transaction_id tx)) (output_rows db)"
  have "add_raw_inputs u (raw_inputs sdk tx) ?claimed db = (Ok inputs, db')"
    using assms
    by (auto simp: consumed_inputs_def run_simps find_spent_by raw_inputs_def split: option.splits sum.splits)
  note A = add_raw_inputs_rows [OF this]
  have "{r \<in> set (output_rows db). consumed_by sdk u tx r} = set ?claimed \<union>
      {r \<in> set (output_rows db). ou_user_id r = u \<and> (\<exists>x \<in> set (raw_inputs sdk tx). names_output x r)}"
    by (auto simp: consumed_by_def)
  then show "db' = db"
    "ou_output_id ` set inputs = ou_output_id ` {r \<in> set (output_rows db). consumed_by sdk u tx r}"
    using A by (simp_all only: image_Un simp_thms)
qed

text \<open>
  How an abort changes an output: an output the transaction created is retired, one it consumes and
  that no other transaction has claimed is given back, any other is kept.
\<close>

definition abort_change :: "int \<Rightarrow> int \<Rightarrow> (output_row \<Rightarrow> bool) \<Rightarrow> output_row \<Rightarrow> output_row \<Rightarrow> bool" where
  "abort_change u i consumed r r' \<longleftrightarrow>
     r' = r\<lparr>ou_spendable := ou_spendable r', ou_spent_by := ou_spent_by r', ou_updated_at := ou_updated_at r'\<rparr> \<and>
     (if ou_user_id r = u \<and> ou_transaction_id r = i then \<not> ou_spendable r' \<and> ou_spent_by r' = None
      else if consumed r \<and> ou_spent_by r \<in> {Some i, None} then ou_spendable r' \<and> ou_spent_by r' = None
      else r' = r)"

definition failed_row :: "ts \<Rightarrow> int \<Rightarrow> transaction \<Rightarrow> transaction" where
  "failed_row now i t =
     (if tx_transaction_id t = i then t\<lparr>tx_status := TsFailed, tx_updated_at := secs now\<rparr> else t)"

lemma release_rows:
  assumes "release_inputs_spent_by now ids i db = Ok (db', n)"
  shows "output_rows db' = map (\<lambda>r. if ou_output_id r \<in> set ids \<and> ou_spent_by r \<in> {Some i, None}
      then release_row now r else r) (output_rows db)"
    "\<exists>t. db' = db\<lparr>db_outputs := t\<rparr>"
proof -
  have "output_rows db' = map (\<lambda>r. if ou_output_id r \<in> set ids \<and> ou_spent_by r \<in> {Some i, None}
      then release_row now r else r) (output_rows db) \<and> (\<exists>t. db' = db\<lparr>db_outputs := t\<rparr>)"
  proof (cases "ids = []")
    case True
    then show ?thesis using assms by (auto simp: release_inputs_spent_by_def intro: exI [of _ "db_outputs db"])
  next
    case False
    then show ?thesis
      using assms update_rows_OkD(1) by (fastforce simp: release_inputs_spent_by_def output_rows_def)
  qed
  then show "output_rows db' = map (\<lambda>r. if ou_output_id r \<in> set ids \<and> ou_spent_by r \<in> {Some i, None}
      then release_row now r else r) (output_rows db)" "\<exists>t. db' = db\<lparr>db_outputs := t\<rparr>" by simp_all
qed


lemma release_ids:
  "release_inputs_spent_by now ids i db = Ok (db', n) \<Longrightarrow>
     map ou_output_id (output_rows db') = map ou_output_id (output_rows db)"
  by (drule release_rows(1)) (simp add: release_row_def)

lemma apply_retired:
  "apply_output now (output_partial_default\<lparr>oup_spendable := Some False, oup_spent_by := Some 0\<rparr>) r =
     r\<lparr>ou_spendable := False, ou_spent_by := None, ou_updated_at := secs now\<rparr>"
  by (cases r) (simp add: apply_output_def output_partial_default_def set_or_clear_def)

lemma retire_rows:
  assumes "forD (retire_output now) (filter (\<lambda>r. ou_user_id r = u \<and> ou_transaction_id r = i) (output_rows db)) db =
      (Ok y, db')" "distinct (map ou_output_id (output_rows db))"
  shows "output_rows db' = map (\<lambda>r. if ou_user_id r = u \<and> ou_transaction_id r = i \<and> (ou_spendable r \<or> ou_spent_by r \<noteq> None)
      then r\<lparr>ou_spendable := False, ou_spent_by := None, ou_updated_at := secs now\<rparr> else r) (output_rows db)"
    "\<exists>t. db' = db\<lparr>db_outputs := t\<rparr>"
proof -
  let ?p = "output_partial_default\<lparr>oup_spendable := Some False, oup_spent_by := Some 0\<rparr>"
  let ?mine = "\<lambda>r. ou_user_id r = u \<and> ou_transaction_id r = i \<and> (ou_spendable r \<or> ou_spent_by r \<noteq> None)"
  have loop: "retire_output now = (\<lambda>r. if ou_spendable r \<or> ou_spent_by r \<noteq> None
      then bindD (writeD (update_output now (ou_output_id r) ?p)) (\<lambda>_. returnD ()) else returnD ())"
    by (rule ext) (rule retire_output_def)
  have "forD (\<lambda>r. bindD (writeD (update_output now (ou_output_id r) ?p)) (\<lambda>_. returnD ()))
      (filter ?mine (output_rows db)) db = (Ok y, db')"
    using assms(1) unfolding loop forD_filter by (simp add: conj_ac)
  from update_each [OF this] assms(2)
  have U: "output_rows db' = map (set_each now ?p (ou_output_id ` set (filter ?mine (output_rows db)))) (output_rows db)"
    "\<exists>t. db' = db\<lparr>db_outputs := t\<rparr>" by (simp_all add: distinct_map_filter)
  show "output_rows db' = map (\<lambda>r. if ?mine r
      then r\<lparr>ou_spendable := False, ou_spent_by := None, ou_updated_at := secs now\<rparr> else r) (output_rows db)"
    using U(1) unfolding set_each_filter [OF assms(2)] apply_retired .
  show "\<exists>t. db' = db\<lparr>db_outputs := t\<rparr>" by (rule U(2))
qed

lemma apply_failed:
  "(if tx_transaction_id t = i then apply_transaction now (transaction_partial_default\<lparr>txp_status := Some TsFailed\<rparr>) t
     else t) = failed_row now i t"
  by (cases t) (simp add: failed_row_def apply_transaction_def transaction_partial_default_def)

lemma invalidate_request_frame:
  "invalidate_request cd now ref txid db = (Ok y, db') \<Longrightarrow>
     db_outputs db' = db_outputs db \<and> db_transactions db' = db_transactions db"
  by (auto simp: invalidate_request_def run_simps update_proven_tx_req_def split: option.splits list.splits)

text \<open>The steps of a successful abort.\<close>

lemma abort_run:
  assumes "abort_action cd sdk now key ref db = (Ok b, db')"
  obtains user tx inputs n db1 db2 db3 m where
    "find_user_by_identity_key key db = Ok (Some user)" "action_to_abort cd (us_user_id user) ref db = Ok tx"
    "consumed_inputs sdk (us_user_id user) tx db = (Ok inputs, db)"
    "release_inputs_spent_by now (map ou_output_id inputs) (tx_transaction_id tx) db = Ok (db1, n)"
    "forD (retire_output now) (filter (\<lambda>r. ou_user_id r = us_user_id user \<and> ou_transaction_id r = tx_transaction_id tx)
       (output_rows db1)) db1 = (Ok (), db2)"
    "update_transaction now (tx_transaction_id tx) (transaction_partial_default\<lparr>txp_status := Some TsFailed\<rparr>) db2 =
       Ok (db3, m)"
    "invalidate_request cd now
       (case txid_fallback cd ref of None \<Rightarrow> cd_base64 cd ref | Some t \<Rightarrow> t) (tx_txid tx) db3 = (Ok (), db')"
proof -
  from assms obtain user tx where U: "find_user_by_identity_key key db = Ok (Some user)"
      "action_to_abort cd (us_user_id user) ref db = Ok tx"
    and run: "abort_transaction cd sdk now (us_user_id user) ref tx db = (Ok (), db')"
    by (auto simp: abort_action_def do_abort_action_def run_simps split: option.splits)
  from run obtain inputs db0 where C: "consumed_inputs sdk (us_user_id user) tx db = (Ok inputs, db0)"
    by (auto simp: abort_transaction_def run_simps)
  then have "db0 = db" by (rule consumed_inputs_rows)
  then show thesis
    using run C that [OF U] by (auto simp: abort_transaction_def run_simps find_outputs_of)
qed


lemma abort_outputs:
  assumes release: "release_inputs_spent_by now (map ou_output_id inputs) (tx_transaction_id tx) db = Ok (db1, n)"
    and retire: "forD (retire_output now) (filter (\<lambda>r. ou_user_id r = u \<and> ou_transaction_id r = tx_transaction_id tx)
       (output_rows db1)) db1 = (Ok (), db2)"
    and inputs: "consumed_inputs sdk u tx db = (Ok inputs, db)"
    and ids: "distinct (map ou_output_id (output_rows db))"
  shows "list_all2 (abort_change u (tx_transaction_id tx) (consumed_by sdk u tx)) (output_rows db) (output_rows db2)"
proof -
  let ?i = "tx_transaction_id tx" and ?rows = "output_rows db"
  let ?free = "\<lambda>r. if ou_output_id r \<in> set (map ou_output_id inputs) \<and> ou_spent_by r \<in> {Some ?i, None}
    then release_row now r else r"
  note R = release_rows [OF release]
  have "distinct (map ou_output_id (output_rows db1))" using ids release_ids [OF release] by simp
  note T = retire_rows [OF retire this]
  have "abort_change u ?i (consumed_by sdk u tx) r (if ou_user_id (?free r) = u \<and> ou_transaction_id (?free r) = ?i \<and>
      (ou_spendable (?free r) \<or> ou_spent_by (?free r) \<noteq> None)
      then (?free r)\<lparr>ou_spendable := False, ou_spent_by := None, ou_updated_at := secs now\<rparr> else ?free r)"
    if r: "r \<in> set ?rows" for r
  proof -
    have "ou_output_id r \<in> set (map ou_output_id inputs) \<longleftrightarrow> consumed_by sdk u tx r"
      using consumed_inputs_rows(2) [OF inputs] r ids by (auto simp: distinct_map inj_on_def)
    then show ?thesis
      by (cases r) (auto simp: abort_change_def release_row_def)
  qed
  then show ?thesis
    unfolding T(1) R(1) map_map comp_def list_all2_map2 by (simp add: list_all2_same)
qed

lemma action_to_abort_Ok:
  assumes "action_to_abort cd u ref db = Ok tx"
  shows "tx \<in> set (tb_rows (db_transactions db)) \<and> tx_user_id tx = u \<and> tx_is_outgoing tx \<and> tx_status tx \<notin> un_abortable \<and>
    (tx_reference tx = cd_base64 cd ref \<or> tx_txid tx \<noteq> None \<and> tx_txid tx = txid_fallback cd ref)"
proof -
  have *: "user_transactions_of u t db =
      filter (\<lambda>x. tx_user_id x = u \<and> tx_txid x = Some t) (tb_rows (db_transactions db))" for t
    by (simp add: user_transactions_of_def find_transactions_def find_transactions_default_def transactions_where_def
        transaction_partial_default_def cong: filter_cong)
  obtain rest where found: "find_action cd u ref db = tx # rest" and ok: "tx_is_outgoing tx" "tx_status tx \<notin> un_abortable"
    using assms by (auto simp: action_to_abort_def split: list.splits if_splits)
  show ?thesis
  proof (cases "by_reference u (cd_base64 cd ref) db")
    case Nil
    then obtain t where "txid_fallback cd ref = Some t" "tx \<in> set (user_transactions_of u t db)"
      using found by (auto simp: find_action_def split: option.splits)
    then show ?thesis using ok by (simp add: *)
  next
    case Cons
    then have "tx \<in> set (by_reference u (cd_base64 cd ref) db)"
      using found by (simp add: find_action_def)
    then show ?thesis using ok by (simp add: by_reference_rows)
  qed
qed

section \<open>An action that was committed\<close>

lemma requests_of_rows: "requests_of t db = filter (\<lambda>q. pr_txid q = t) (tb_rows (db_proven_tx_reqs db))"
  by (simp add: requests_of_def find_proven_tx_reqs_def find_proven_tx_reqs_default_def proven_tx_reqs_where_def
      proven_tx_req_partial_default_def cong: filter_cong)

lemma signed_row_simps [simp]:
  "tx_user_id (signed_row now i txid raw st t) = tx_user_id t"
  "tx_reference (signed_row now i txid raw st t) = tx_reference t"
  "tx_transaction_id (signed_row now i txid raw st t) = tx_transaction_id t"
  by (simp_all add: signed_row_def)

lemma committed_found:
  assumes "action_committed now u txid raw tx rs st db db1" "by_reference u ref db = [tx]"
  shows "by_reference u ref db1 = [signed_row now (tx_transaction_id tx) txid raw st tx]"
    "\<exists>k. requests_of txid db1 = [(new_request (secs now) rs txid raw tx)\<lparr>pr_proven_tx_req_id := k\<rparr>]"
proof -
  let ?sg = "signed_row now (tx_transaction_id tx) txid raw st"
  have "by_reference u ref db1 = map ?sg (by_reference u ref db)"
    using assms(1) by (simp add: by_reference_rows action_committed_def filter_map comp_def)
  then show "by_reference u ref db1 = [?sg tx]" using assms(2) by simp
  show "\<exists>k. requests_of txid db1 = [(new_request (secs now) rs txid raw tx)\<lparr>pr_proven_tx_req_id := k\<rparr>]"
    using assms(1) by (auto simp: requests_of_rows action_committed_def new_request_def filter_empty_conv)
qed

lemma invalidate_committed:
  assumes "requests_of txid db = [req]" "pr_history req = ''[]''" "cd_parse_json cd ''[]'' = Some (JArray [])"
  shows "fst (invalidate_request cd now ref (Some txid) db) = Err (history_error req ''is not an object'')"
  using assms by (simp add: invalidate_request_def bindD_def readD_def noted_history_def)

lemma abort_keeps_requests:
  assumes "release_inputs_spent_by now ids i db = Ok (db1, n)"
    "forD (retire_output now) rows db1 = (Ok (), db2)" "update_transaction now i p db2 = Ok (db3, m)"
  shows "db_proven_tx_reqs db3 = db_proven_tx_reqs db"
proof -
  have "db_proven_tx_reqs db2 = db_proven_tx_reqs db1"
    by (rule forD_frame [OF _ assms(2)])
      (auto simp: retire_output_def run_simps split: if_splits dest: update_output_rows(2))
  then show ?thesis
    using release_rows(2) [OF assms(1)] update_transaction_rows(2) [OF assms(3)] by auto
qed

text \<open>
  C17: An action that was committed can not be aborted. processAction stores the text \<open>[]\<close> as the
  history of the proof request, and abortAction refuses a history that is not a JSON object: after
  a successful processAction, aborting the same reference fails and changes nothing, also for a
  \<open>noSend\<close> action, whose inputs thus stay claimed.
\<close>

theorem committed_action_not_abortable:
  assumes "storage_process_action batch now u args db = (Ok r, db1)" and "db_ok db"
    and "paa_is_new_tx args" and "paa_send_with args = []"
    and "find_user_by_identity_key key db1 = Ok (Some user)" and "us_user_id user = u"
    and "paa_reference args = Some (cd_base64 cd ref)"
    and "cd_parse_json cd ''[]'' = Some (JArray [])"
  shows "\<exists>e. abort_action cd sdk now' key ref db1 = (Err e, db1)"
proof (cases "abort_action cd sdk now' key ref db1")
  case run: (Pair res db')
  obtain txid raw tx rs st where P: "by_reference u (cd_base64 cd ref) db = [tx]"
    and commit: "commit_action now u txid raw tx rs st db = (Ok (), db1)"
    using process_new_run [OF assms(1,3,4)] assms(7) by (metis option.inject)
  have "action_committed now u txid raw tx rs st db db1"
    using commit_action_effect [OF commit] assms(2)
    by (simp add: db_ok_def id_columns_ok_def ids_ok_def output_rows_def)
  note F = committed_found [OF this P]
  show ?thesis
  proof (cases res)
    case (Inl e)
    then show ?thesis using run in_trx_Err by (auto simp: abort_action_def)
  next
    case (Inr b)
    have False
    proof (rule abort_run [OF run [unfolded Inr]], goal_cases)
      case R: (1 user' tx' inputs n db2 db3 db4 m)
      have "tx' = signed_row now (tx_transaction_id tx) txid raw st tx"
        using R(1,2) assms(5,6) F(1) by (auto simp: action_to_abort_def find_action_def split: if_splits)
      then have "tx_txid tx' = Some txid" by (simp add: signed_row_def)
      moreover obtain k where "requests_of txid db4 = [(new_request (secs now) rs txid raw tx)\<lparr>pr_proven_tx_req_id := k\<rparr>]"
        using F(2) abort_keeps_requests [OF R(4,5,6)] by (auto simp: requests_of_rows)
      from invalidate_committed [OF this _ assms(8)]
      have "\<exists>e. fst (invalidate_request cd now' ref' (Some txid) db4) = Err e" for ref' by (simp add: new_request_def)
      ultimately show False
        using R(7) by (metis Inl_Inr_False fst_conv)
    qed
    then show ?thesis ..
  qed
qed

theorem committed_action_not_abortable_witness:
  "storage_process_action ''batch'' 0 1 sample_signed sample_unsigned =
     (Ok \<lparr>par_send_with_results = None, par_log = None\<rparr>, sample_committed) \<and> db_ok sample_unsigned \<and>
   cd_parse_json sample_codec ''[]'' = Some (JArray []) \<and>
   (\<exists>e. abort_action sample_codec sample_sdk 0 ''me'' [114, 101, 102] sample_committed = (Err e, sample_committed))"
proof -
  have s: "paa_is_new_tx sample_signed" "paa_send_with sample_signed = []"
    "paa_reference sample_signed = Some (cd_base64 sample_codec [114, 101, 102])"
    "cd_parse_json sample_codec ''[]'' = Some (JArray [])"
    by code_simp+
  show ?thesis
    using committed_action_not_abortable [OF sample_process sample_unsigned_ok s(1,2) sample_wallet_user s(3,4)]
      sample_process sample_unsigned_ok s(4) by blast
qed

end
