(* ===== verification/ActionRoundtrip.thy ===== *)
theory ActionRoundtrip
  imports ActionCorrect
begin

text \<open>
  Aborting an action that is not signed yet always succeeds, an abort gives back what the action
  had claimed, and creating and then aborting an action leaves the outputs of the wallet as they
  were before, but for time stamps and the retired outputs of the action.
\<close>

section \<open>Updates that succeed\<close>

lemma update_rows_total:
  assumes "keyed_ok key t" "\<And>r. key (f r) = key r" "\<And>r. r \<in> set (tb_rows t) \<Longrightarrow> sel r \<Longrightarrow> refs (f r)"
  shows "\<exists>t' n. update_rows sel f key refs t = Ok (t', n)"
proof -
  have "map key (map (\<lambda>r. if sel r then f r else r) (tb_rows t)) = map key (tb_rows t)"
    using assms(2) by simp
  then have "distinct (map key (map (\<lambda>r. if sel r then f r else r) (tb_rows t)))"
    using assms(1) by (simp only: keyed_ok_def)
  then show ?thesis
    using assms(3) unfolding update_rows_def Let_def by (auto simp del: map_map)
qed

lemma outputs_stored:
  assumes "db_ok db"
  shows "keyed_ok output_key (db_outputs db)" "\<And>r. r \<in> set (tb_rows (db_outputs db)) \<Longrightarrow> output_refs db r"
  using assms by (simp_all add: db_ok_def keys_ok_def rows_ok_def)

lemma transactions_stored:
  assumes "db_ok db"
  shows "keyed_ok transaction_key (db_transactions db)"
    "\<And>r. r \<in> set (tb_rows (db_transactions db)) \<Longrightarrow> transaction_refs db r"
  using assms by (simp_all add: db_ok_def keys_ok_def rows_ok_def)

lemma release_total:
  assumes "db_ok db"
  shows "\<exists>db' n. release_inputs_spent_by now ids i db = Ok (db', n)"
proof (cases "ids = []")
  case False
  have "\<exists>t n. update_rows (\<lambda>r. ou_output_id r \<in> set ids \<and> (ou_spent_by r = Some i \<or> ou_spent_by r = None))
      (release_row now) output_key (output_refs db) (db_outputs db) = Ok (t, n)"
    by (rule update_rows_total) (use outputs_stored [OF assms] in \<open>auto simp: output_key_def release_row_def output_refs_def\<close>)
  then show ?thesis using False by (auto simp: release_inputs_spent_by_def)
qed (simp add: release_inputs_spent_by_def)

lemma retire_total:
  assumes "db_ok db"
  shows "\<exists>db'. retire_output now r db = (Ok (), db') \<and> db_ok db'"
proof (cases "ou_spendable r \<or> ou_spent_by r \<noteq> None")
  case True
  let ?p = "output_partial_default\<lparr>oup_spendable := Some False, oup_spent_by := Some 0\<rparr>"
  have "\<exists>t n. update_rows (\<lambda>x. ou_output_id x = ou_output_id r) (apply_output now ?p) output_key (output_refs db)
      (db_outputs db) = Ok (t, n)"
    by (rule update_rows_total) (use outputs_stored [OF assms] in \<open>auto simp: output_key_def apply_retired output_refs_def\<close>)
  then obtain db' n where u: "update_output now (ou_output_id r) ?p db = Ok (db', n)"
    by (auto simp: update_output_def)
  have "db_ok db'"
    by (rule writesD [OF update_output_keeps_ok u assms]) (simp add: output_fields_only_def output_partial_default_def)
  then show ?thesis using u True by (simp add: retire_output_def bindD_def writeD_def returnD_def)
qed (use assms in \<open>simp add: retire_output_def returnD_def\<close>)

lemma retire_loop_total: "db_ok db \<Longrightarrow> \<exists>db'. forD (retire_output now) rows db = (Ok (), db') \<and> db_ok db'"
proof (induction rows arbitrary: db)
  case Nil
  then show ?case by (auto simp: run_simps)
next
  case (Cons r rows)
  then show ?case using retire_total [of db now r] by (fastforce simp: run_simps)
qed

lemma fail_transaction_total:
  assumes "db_ok db"
  shows "\<exists>db' n. update_transaction now i (transaction_partial_default\<lparr>txp_status := Some TsFailed\<rparr>) db = Ok (db', n)"
proof -
  have "\<exists>t n. update_rows (\<lambda>t. tx_transaction_id t = i)
      (apply_transaction now (transaction_partial_default\<lparr>txp_status := Some TsFailed\<rparr>)) transaction_key
      (transaction_refs db) (db_transactions db) = Ok (t, n)"
    by (rule update_rows_total) (use transactions_stored [OF assms] in
      \<open>auto simp: transaction_key_def apply_transaction_def transaction_partial_default_def transaction_refs_def\<close>)
  then show ?thesis by (auto simp: update_transaction_def)
qed

lemma abort_unsigned_total:
  assumes ok: "db_ok db" and user: "find_user_by_identity_key key db = Ok (Some user)"
    and tx: "action_to_abort cd (us_user_id user) ref db = Ok tx" "tx_raw_tx tx = None" "tx_txid tx = None"
  shows "\<exists>db'. abort_action cd sdk now key ref db = (Ok True, db')"
proof -
  let ?u = "us_user_id user" and ?i = "tx_transaction_id tx"
  obtain db1 n where 1: "release_inputs_spent_by now (map ou_output_id
      (filter (\<lambda>r. ou_user_id r = ?u \<and> ou_spent_by r = Some ?i) (output_rows db))) ?i db = Ok (db1, n)"
    using release_total [OF ok] by blast
  then have ok1: "db_ok db1" by (rule writesD [OF claims_keep_ok(2) _ ok])
  obtain db2 where 2: "forD (retire_output now) (filter (\<lambda>r. ou_user_id r = ?u \<and> ou_transaction_id r = ?i)
      (output_rows db1)) db1 = (Ok (), db2)" "db_ok db2" using retire_loop_total [OF ok1] by blast
  obtain db3 m where 3: "update_transaction now ?i (transaction_partial_default\<lparr>txp_status := Some TsFailed\<rparr>) db2 =
      Ok (db3, m)" using fail_transaction_total [OF 2(2)] by blast
  have "abort_transaction cd sdk now ?u ref tx db = (Ok (), db3)"
    using 1 2(1) 3 tx(2,3)
    by (simp add: abort_transaction_def consumed_inputs_def invalidate_request_def bindD_def readD_def writeD_def
        find_spent_by find_outputs_of returnD_def)
  then show ?thesis
    using user tx(1) by (simp add: abort_action_def do_abort_action_def in_trx_def bindD_def readD_def returnD_def)
qed

section \<open>The effect of an abort\<close>

definition action_undone :: "sdk \<Rightarrow> ts \<Rightarrow> int \<Rightarrow> transaction \<Rightarrow> database \<Rightarrow> database \<Rightarrow> bool" where
  "action_undone sdk now u tx db db' \<longleftrightarrow>
     tb_rows (db_transactions db') = map (failed_row now (tx_transaction_id tx)) (tb_rows (db_transactions db)) \<and>
     list_all2 (abort_change u (tx_transaction_id tx) (consumed_by sdk u tx)) (output_rows db) (output_rows db')"

lemma abort_effect:
  assumes run: "abort_action cd sdk now key ref db = (Ok b, db')" and "db_ok db"
  obtains user tx where "find_user_by_identity_key key db = Ok (Some user)"
    "action_to_abort cd (us_user_id user) ref db = Ok tx" "action_undone sdk now (us_user_id user) tx db db'"
proof (rule abort_run [OF run], goal_cases)
  case R: (1 user tx inputs n db1 db2 db3 m)
  have ids: "distinct (map ou_output_id (output_rows db))"
    using assms by (simp add: db_ok_def id_columns_ok_def ids_ok_def output_rows_def)
  have S: "output_rows db' = output_rows db2" "db_transactions db' = db_transactions db3"
    using invalidate_request_frame [OF R(8)] update_transaction_rows(2) [OF R(7)] by (auto simp: output_rows_def)
  have "db_transactions db2 = db_transactions db"
    using release_rows(2) [OF R(5)] retire_rows(2) [OF R(6)] release_ids [OF R(5)] ids by auto
  then have "action_undone sdk now (us_user_id user) tx db db'"
    using update_transaction_rows(1) [OF R(7)] S abort_outputs [OF R(5,6,4) ids]
    by (simp add: apply_failed action_undone_def)
  then show ?case using R(1) [OF R(2,3)] by blast
qed

text \<open>
  C6: Aborting an action is atomic, and gives back what the action had claimed. When it fails, the
  database is as before. When it succeeds, an outgoing transaction of the user, named by reference or
  txid and not yet sent, completed or failed, is failed and no other transaction is changed; the
  outputs it created are unspendable and without spender; the outputs it consumes, unless another
  transaction has claimed them, are spendable and without spender; all other outputs are unchanged.
\<close>

theorem abort_action_restores:
  assumes "db_ok db"
  shows "case abort_action cd sdk now key ref db of
      (Inl e, db') \<Rightarrow> db' = db
    | (Inr b, db') \<Rightarrow> \<exists>user tx. find_user_by_identity_key key db = Ok (Some user) \<and>
        tx \<in> set (tb_rows (db_transactions db)) \<and> tx_user_id tx = us_user_id user \<and>
        (tx_reference tx = cd_base64 cd ref \<or> tx_txid tx \<noteq> None \<and> tx_txid tx = txid_fallback cd ref) \<and>
        tx_is_outgoing tx \<and> tx_status tx \<notin> {TsCompleted, TsFailed, TsSending, TsUnproven} \<and>
        tb_rows (db_transactions db') = map (failed_row now (tx_transaction_id tx)) (tb_rows (db_transactions db)) \<and>
        list_all2 (abort_change (us_user_id user) (tx_transaction_id tx) (consumed_by sdk (us_user_id user) tx))
          (output_rows db) (output_rows db')"
proof (cases "abort_action cd sdk now key ref db")
  case run: (Pair res db')
  show ?thesis
  proof (cases res)
    case (Inl e)
    then show ?thesis using in_trx_Err run by (simp add: abort_action_def Inl)
  next
    case (Inr b)
    obtain user tx where "find_user_by_identity_key key db = Ok (Some user)"
      "action_to_abort cd (us_user_id user) ref db = Ok tx" "action_undone sdk now (us_user_id user) tx db db'"
      using abort_effect [OF run [unfolded Inr] assms] .
    then show ?thesis
      using action_to_abort_Ok unfolding run Inr un_abortable_def action_undone_def prod.case sum.case by blast
  qed
qed

theorem abort_action_restores_witness:
  "db_ok sample_unsigned \<and>
   (\<exists>db'. abort_action sample_codec sample_sdk 0 ''me'' [114, 101, 102] sample_unsigned = (Ok True, db') \<and>
      (\<exists>user tx. find_user_by_identity_key ''me'' sample_unsigned = Ok (Some user) \<and>
        tx_reference tx = ''ref'' \<and> tx_is_outgoing tx \<and>
        list_all2 (abort_change (us_user_id user) (tx_transaction_id tx) (consumed_by sample_sdk (us_user_id user) tx))
          (output_rows sample_unsigned) (output_rows db')))"
proof -
  let ?user = "hd (tb_rows (db_users sample_wallet))"
  have u: "find_user_by_identity_key ''me'' sample_unsigned = Ok (Some ?user)" by code_simp
  have t: "action_to_abort sample_codec (us_user_id ?user) [114, 101, 102] sample_unsigned = Ok sample_unsigned_tx"
    "tx_raw_tx sample_unsigned_tx = None" "tx_txid sample_unsigned_tx = None"
    "cd_base64 sample_codec [114, 101, 102] = ''ref''" "txid_fallback sample_codec [114, 101, 102] = None"
    by code_simp+
  obtain db' where "abort_action sample_codec sample_sdk 0 ''me'' [114, 101, 102] sample_unsigned = (Ok True, db')"
    using abort_unsigned_total [OF sample_unsigned_ok u t(1-3)] by blast
  then show ?thesis
    using abort_action_restores [OF sample_unsigned_ok, where cd = sample_codec and sdk = sample_sdk and now = 0
      and key = "''me''" and ref = "[114, 101, 102]"] sample_unsigned_ok t(4,5) by auto
qed

section \<open>Creating and aborting\<close>

definition untimed :: "output_row \<Rightarrow> output_row" where
  "untimed r = r\<lparr>ou_updated_at := 0\<rparr>"

text \<open>An abort undoes the claims of a transaction that has no raw form yet.\<close>

lemma abort_undoes_claim:
  assumes change: "abort_change u i (\<lambda>r. ou_user_id r = u \<and> ou_spent_by r = Some i) (claim_in now i C r) r'"
    and row: "ou_output_id r \<in> C \<Longrightarrow> claimable u r" "ou_transaction_id r \<noteq> i" "ou_spent_by r \<noteq> Some i"
  shows "untimed r' = untimed r"
proof (cases "ou_output_id r \<in> C")
  case True
  then show ?thesis
    using change row by (cases r; cases r') (auto simp: abort_change_def claim_in_def claim_row_def claimable_def untimed_def)
next
  case False
  then show ?thesis using change row by (simp add: abort_change_def claim_in_def)
qed

lemma abort_keeps_fresh:
  assumes "abort_change u i P r r'" "fresh_for u i r"
  shows "untimed r' = untimed r"
  using assms by (cases r; cases r') (auto simp: abort_change_def fresh_for_def untimed_def)


lemma fresh_transaction_unused:
  assumes "db_ok db" "r \<in> set (output_rows db)"
  shows "ou_transaction_id r \<noteq> tb_seq (db_transactions db) + 1 \<and>
    ou_spent_by r \<noteq> Some (tb_seq (db_transactions db) + 1)"
proof -
  have "refers tx_transaction_id (db_transactions db) (ou_transaction_id r)"
    "refers_null tx_transaction_id (db_transactions db) (ou_spent_by r)"
    using outputs_stored(2) [OF assms(1)] assms(2) by (simp_all add: output_refs_def output_rows_def)
  moreover have "\<forall>t \<in> set (tb_rows (db_transactions db)). tx_transaction_id t \<le> tb_seq (db_transactions db)"
    using assms(1) by (simp add: db_ok_def id_columns_ok_def ids_ok_def)
  ultimately show ?thesis by (fastforce simp: refers_def)
qed

lemma claimed_rows_undone:
  assumes "list_all2 (abort_change u i (\<lambda>r. ou_user_id r = u \<and> ou_spent_by r = Some i)) (map (claim_in now i C) rows @ new) rows'"
    "\<forall>j \<in> C. \<exists>r \<in> set rows. ou_output_id r = j \<and> claimable u r" "distinct (map ou_output_id rows)"
    "\<forall>r \<in> set rows. ou_transaction_id r \<noteq> i \<and> ou_spent_by r \<noteq> Some i" "list_all (fresh_for u i) new"
  shows "map untimed rows' = map untimed rows @ map untimed new"
proof -
  have claim: "claimable u r" if "r \<in> set rows" "ou_output_id r \<in> C" for r
    using assms(2,3) that by (metis distinct_map inj_onD)
  obtain xs ys where rows': "rows' = xs @ ys"
      and old: "list_all2 (abort_change u i (\<lambda>r. ou_user_id r = u \<and> ou_spent_by r = Some i)) (map (claim_in now i C) rows) xs"
      and fresh: "list_all2 (abort_change u i (\<lambda>r. ou_user_id r = u \<and> ou_spent_by r = Some i)) new ys"
    using assms(1) by (auto simp: list_all2_append1)
  have "list_all2 (\<lambda>r r'. untimed r' = untimed r) rows xs"
    using old unfolding list_all2_map1
    by (rule list.rel_mono_strong) (use claim assms(4) in \<open>auto intro: abort_undoes_claim\<close>)
  moreover have "list_all2 (\<lambda>r r'. untimed r' = untimed r) new ys"
    using fresh by (rule list.rel_mono_strong) (use assms(5) in \<open>auto simp: list_all_iff intro: abort_keeps_fresh\<close>)
  ultimately have "map untimed xs = map untimed rows" "map untimed ys = map untimed new"
    by (simp_all add: list_all2_conv_all_nth list_eq_iff_nth_eq)
  then show ?thesis by (simp add: rows')
qed

text \<open>
  C4: Creating an action and aborting it again gives the wallet its outputs back. After a
  successful createAction, aborting its reference succeeds, and every output has the fields it had
  before, the time of its last update aside; the outputs that the action created stay behind,
  unspendable.
\<close>

theorem create_abort_roundtrip:
  assumes "storage_create_action sdk en now u args db = (Ok r, db1)" and "db_ok db"
    and "find_user_by_identity_key key db1 = Ok (Some user)" and "us_user_id user = u"
    and "cd_base64 cd ref = en_reference en"
  shows "\<exists>db2 new. abort_action cd sdk' now' key ref db1 = (Ok True, db2) \<and>
    map untimed (output_rows db2) = map untimed (output_rows db) @ new \<and>
    length new = length (car_outputs r) \<and> (\<forall>o1 \<in> set new. \<not> ou_spendable o1)"
proof -
  obtain basket where run: "do_create_action sdk en now u args basket db = (Ok r, db1)"
    using storage_create_action_run [OF assms(1)] by blast
  obtain i C where S: "action_stored now en u args i C r db db1"
    using do_create_effect [OF run assms(2)] by blast
  let ?tx = "created_row now en u args i" and ?rows = "output_rows db"
  obtain new where new: "output_rows db1 = map (claim_in now i C) ?rows @ new" "list_all (fresh_for u i) new"
      "list_all2 matches (car_outputs r) new" using S by (auto simp: action_stored_def)
  have ok1: "db_ok db1" by (rule ok.do_create_keeps [OF run assms(2)])
  have tx: "tx_reference ?tx = en_reference en" "tx_user_id ?tx = u" "tx_is_outgoing ?tx" "tx_raw_tx ?tx = None"
      "tx_txid ?tx = None" "tx_status ?tx = TsUnsigned" "tx_transaction_id ?tx = i"
    by (simp_all add: created_row_def new_transaction_def)
  have txs: "tb_rows (db_transactions db1) = tb_rows (db_transactions db) @ [?tx]"
    using S by (simp add: action_stored_def)
  have "distinct (map tx_reference (tb_rows (db_transactions db1)))"
    using transactions_stored(1) [OF ok1] by (simp add: keyed_ok_def transaction_key_def [abs_def])
  then have "\<forall>t \<in> set (tb_rows (db_transactions db)). tx_reference t \<noteq> en_reference en"
    unfolding txs using tx(1) by force
  then have "by_reference u (en_reference en) db1 = [?tx]"
    unfolding by_reference_rows txs using tx(1,2) by (simp add: filter_empty_conv)
  then have abortable: "action_to_abort cd (us_user_id user) ref db1 = Ok ?tx"
    using tx assms(4,5) by (simp add: action_to_abort_def find_action_def un_abortable_def)
  obtain db2 where abort: "abort_action cd sdk' now' key ref db1 = (Ok True, db2)"
    using abort_unsigned_total [OF ok1 assms(3) abortable tx(4,5)] by blast
  have "action_undone sdk' now' u ?tx db1 db2"
    using abort_effect [OF abort ok1] assms(3,4) abortable by (metis option.inject sum.inject(2))
  moreover have "consumed_by sdk' u ?tx = (\<lambda>r. ou_user_id r = u \<and> ou_spent_by r = Some i)"
    by (rule ext) (simp add: consumed_by_def raw_inputs_def tx)
  ultimately have undone: "list_all2 (abort_change u i (\<lambda>r. ou_user_id r = u \<and> ou_spent_by r = Some i))
      (map (claim_in now i C) ?rows @ new) (output_rows db2)"
    by (simp add: action_undone_def tx new(1))
  have "map untimed (output_rows db2) = map untimed ?rows @ map untimed new"
    by (rule claimed_rows_undone [OF undone _ _ _ new(2)])
      (use S assms(2) fresh_transaction_unused [OF assms(2)] in
        \<open>auto simp: action_stored_def db_ok_def id_columns_ok_def ids_ok_def output_rows_def\<close>)
  then show ?thesis
    using abort new(2,3) by (auto simp: list_all_iff fresh_for_def untimed_def dest: list_all2_lengthD)
qed


theorem create_abort_roundtrip_witness:
  "\<exists>r db2 new. storage_create_action sample_sdk sample_entropy 0 1 (sample_action 5000 []) sample_wallet =
      (Ok r, sample_created 5000 [4979]) \<and> db_ok sample_wallet \<and>
    abort_action sample_codec sample_sdk 7 ''me'' [114, 101, 102] (sample_created 5000 [4979]) = (Ok True, db2) \<and>
    map untimed (output_rows db2) = map untimed (output_rows sample_wallet) @ new \<and> length new = 2"
proof -
  let ?user = "hd (tb_rows (db_users sample_wallet))"
  obtain r where r: "storage_create_action sample_sdk sample_entropy 0 1 (sample_action 5000 []) sample_wallet =
      (Ok r, sample_created 5000 [4979])" "map cso_satoshis (car_outputs r) = [5000, 4979]"
    by (rule sample_result [OF sample_runs_5000]) simp
  have s: "find_user_by_identity_key ''me'' (sample_created 5000 [4979]) = Ok (Some ?user)" "us_user_id ?user = 1"
    "cd_base64 sample_codec [114, 101, 102] = en_reference sample_entropy"
    by code_simp+
  have "length (car_outputs r) = 2" using arg_cong [OF r(2), of length] by simp
  then show ?thesis
    using create_abort_roundtrip [OF r(1) sample_wallet_ok s, of sample_sdk 7] r(1) sample_wallet_ok by auto
qed

end
