(* ===== verification/BroadcastOutcome.thy ===== *)
theory BroadcastOutcome
  imports ProcessAction
begin

text \<open>
  The outcome of a broadcast (\<open>src/signer/broadcast_outcome.rs\<close>, result structs of
  \<open>src/services/types.rs\<close>): the answers of all providers are classified into one outcome, permanent
  failures are checked against the chain, and the transaction, its proof requests, its outputs and
  the outputs it consumed are updated. The answers of the network services are the argument
  \<open>services\<close>; log output is left out.
\<close>

section \<open>Answers of the services\<close>

record post_tx_result =
  ptr_txid :: string
  ptr_status :: string
  ptr_already_known :: "bool option"
  ptr_double_spend :: "bool option"
  ptr_block_hash :: "string option"
  ptr_block_height :: "u32 option"
  ptr_competing_txs :: "string list option"
  ptr_service_error :: "bool option"
  ptr_orphan_mempool :: "bool option"

record post_beef_result =
  pbr_name :: string
  pbr_status :: string
  pbr_error :: "string option"
  pbr_txid_results :: "post_tx_result list"

record status_for_txid =
  sft_txid :: string
  sft_depth :: "u32 option"
  sft_status :: string

record get_status_result =
  gsr_name :: string
  gsr_status :: string
  gsr_error :: "string option"
  gsr_results :: "status_for_txid list"

record services =
  sv_get_status :: "string \<Rightarrow> get_status_result"
  sv_is_utxo :: "u8 list \<Rightarrow> string \<Rightarrow> u32 \<Rightarrow> bool wallet_result"

section \<open>Classification\<close>

datatype broadcast_outcome =
    BoSuccess
  | BoServiceError "string list"
  | BoInvalidTx "string list"
  | BoDoubleSpend "string list" "string list"
  | BoOrphanMempool "string list"

record broadcast_flags =
  bf_success :: bool
  bf_double_spend :: bool
  bf_orphan :: bool
  bf_invalid :: bool
  bf_competing :: "string list"
  bf_details :: "string list"

definition no_flags :: broadcast_flags where
  "no_flags = \<lparr>bf_success = False, bf_double_spend = False, bf_orphan = False, bf_invalid = False,
     bf_competing = [], bf_details = []\<rparr>"

definition post_detail :: "string \<Rightarrow> post_tx_result \<Rightarrow> string" where
  "post_detail name t = name @ '': '' @ ptr_status t @ '' (txid='' @ ptr_txid t @ '')''"

definition note_txid :: "string \<Rightarrow> broadcast_flags \<Rightarrow> post_tx_result \<Rightarrow> broadcast_flags" where
  "note_txid name f t =
     (if ptr_status t = ''success'' then f\<lparr>bf_success := True\<rparr>
      else
        (let f = f\<lparr>bf_details := bf_details f @ [post_detail name t]\<rparr>
         in if ptr_double_spend t = Some True then
              f\<lparr>bf_double_spend := True,
                bf_competing := bf_competing f @ (case ptr_competing_txs t of None \<Rightarrow> [] | Some c \<Rightarrow> c)\<rparr>
            else if ptr_orphan_mempool t = Some True then f\<lparr>bf_orphan := True\<rparr>
            else if ptr_service_error t \<noteq> Some True then f\<lparr>bf_invalid := True\<rparr>
            else f))"

definition note_provider :: "broadcast_flags \<Rightarrow> post_beef_result \<Rightarrow> broadcast_flags" where
  "note_provider f p =
     foldl (note_txid (pbr_name p)) (if pbr_status p = ''success'' then f\<lparr>bf_success := True\<rparr> else f)
       (pbr_txid_results p)"

definition classify_broadcast_results :: "post_beef_result list \<Rightarrow> broadcast_outcome" where
  "classify_broadcast_results results =
     (let f = foldl note_provider no_flags results
      in if bf_double_spend f then BoDoubleSpend (bf_competing f) (bf_details f)
         else if bf_success f then BoSuccess
         else if bf_invalid f then BoInvalidTx (bf_details f)
         else if bf_orphan f then BoOrphanMempool (bf_details f)
         else BoServiceError (bf_details f))"

section \<open>Reconciliation with the chain\<close>

definition reconcile_tx_status :: "services \<Rightarrow> string \<Rightarrow> broadcast_outcome \<Rightarrow> broadcast_outcome" where
  "reconcile_tx_status sv txid outcome =
     (case outcome of
        BoSuccess \<Rightarrow> outcome
      | BoServiceError _ \<Rightarrow> outcome
      | BoOrphanMempool _ \<Rightarrow> outcome
      | _ \<Rightarrow>
          (let r = sv_get_status sv txid
           in if gsr_status r \<noteq> ''success''
              then BoServiceError [case gsr_error r of None \<Rightarrow> ''chain status query failed'' | Some e \<Rightarrow> e]
              else if \<exists>s \<in> set (gsr_results r). sft_status s = ''mined'' \<or> sft_status s = ''known''
              then BoSuccess else outcome))"

definition spent_by_transaction :: "int \<Rightarrow> find_outputs_args" where
  "spent_by_transaction transaction_id = find_outputs_default\<lparr>oua_partial :=
     output_partial_default\<lparr>oup_spent_by := Some transaction_id\<rparr>\<rparr>"

definition parent_txid :: "output_row \<Rightarrow> database \<Rightarrow> string option" where
  "parent_txid r db =
     (case ou_txid r of
        Some t \<Rightarrow> Some t
      | None \<Rightarrow>
          (case find_transactions (find_transactions_default\<lparr>txa_partial :=
               transaction_partial_default\<lparr>txp_transaction_id := Some (ou_transaction_id r)\<rparr>\<rparr>) db of
             [] \<Rightarrow> None
           | tx # _ \<Rightarrow> tx_txid tx))"

definition still_unspent :: "services \<Rightarrow> database \<Rightarrow> output_row \<Rightarrow> bool" where
  "still_unspent sv db r =
     (case parent_txid r db of
        None \<Rightarrow> False
      | Some t \<Rightarrow>
          (case ou_locking_script r of
             None \<Rightarrow> False
           | Some script \<Rightarrow>
               script \<noteq> [] \<and> sv_is_utxo sv script t (word_of_int (ou_vout r)) = Ok True))"

definition utxo_verified_input_ids :: "services \<Rightarrow> int \<Rightarrow> int list db_op" where
  "utxo_verified_input_ids sv failed_transaction_id =
     bindD (readD (find_outputs False (spent_by_transaction failed_transaction_id))) (\<lambda>consumed.
     readD (\<lambda>db. Ok (map ou_output_id (filter (still_unspent sv db) consumed))))"

section \<open>Transitions\<close>

definition ignoreD :: "'a db_op \<Rightarrow> unit db_op" where
  "ignoreD m db = (Ok (), snd (m db))"

definition set_request_status :: "ts \<Rightarrow> proven_tx_req_status \<Rightarrow> proven_tx_req \<Rightarrow> unit db_op" where
  "set_request_status now status req = bindD (writeD (update_proven_tx_req now (pr_proven_tx_req_id req)
     (proven_tx_req_partial_default\<lparr>prp_status := Some status\<rparr>))) (\<lambda>_. returnD ())"

definition is_orphan :: "broadcast_outcome \<Rightarrow> bool" where
  "is_orphan outcome = (case outcome of BoOrphanMempool _ \<Rightarrow> True | _ \<Rightarrow> False)"

definition apply_success_or_orphan_outcome :: "ts \<Rightarrow> string \<Rightarrow> broadcast_outcome \<Rightarrow> unit db_op" where
  "apply_success_or_orphan_outcome now txid outcome =
     bindD (ignoreD (update_transaction_status now txid
         (if is_orphan outcome then TsSending else TsUnproven))) (\<lambda>_.
     bindD (readD (\<lambda>db. Ok (requests_of txid db))) (\<lambda>reqs.
       forD (\<lambda>req. ignoreD (set_request_status now
         (if is_orphan outcome then RsSending else RsUnmined) req)) reqs))"

text \<open>\<open>i32::saturating_add(1)\<close>.\<close>

definition next_attempt :: "int \<Rightarrow> int" where
  "next_attempt attempts = min (2 ^ 31 - 1) (attempts + 1)"

definition retry_request :: "ts \<Rightarrow> proven_tx_req \<Rightarrow> unit db_op" where
  "retry_request now req = bindD (writeD (update_proven_tx_req now (pr_proven_tx_req_id req)
     (proven_tx_req_partial_default\<lparr>prp_status := Some RsSending,
        prp_attempts := Some (next_attempt (pr_attempts req))\<rparr>))) (\<lambda>_. returnD ())"

definition apply_service_error_outcome :: "ts \<Rightarrow> string \<Rightarrow> unit db_op" where
  "apply_service_error_outcome now txid =
     bindD (readD (\<lambda>db. Ok (requests_of txid db))) (\<lambda>reqs.
     bindD (forD (retry_request now) reqs) (\<lambda>_. update_transaction_status now txid TsSending))"

definition retire_own_output :: "ts \<Rightarrow> output_row \<Rightarrow> unit db_op" where
  "retire_own_output now r = bindD (writeD (update_output now (ou_output_id r)
     (output_partial_default\<lparr>oup_spendable := Some False\<rparr>))) (\<lambda>_. returnD ())"

definition created_by :: "int \<Rightarrow> find_outputs_args" where
  "created_by transaction_id = find_outputs_default\<lparr>oua_partial :=
     output_partial_default\<lparr>oup_transaction_id := Some transaction_id\<rparr>\<rparr>"

definition unspendable_inputs :: "int \<Rightarrow> find_outputs_args" where
  "unspendable_inputs transaction_id = find_outputs_default\<lparr>oua_partial :=
     output_partial_default\<lparr>oup_spent_by := Some transaction_id, oup_spendable := Some False\<rparr>\<rparr>"

text \<open>The database transaction; \<open>safe_ids\<close> are the verified inputs of a double spend.\<close>

definition fail_broadcast ::
  "ts \<Rightarrow> string \<Rightarrow> int \<Rightarrow> proven_tx_req_status \<Rightarrow> int list option \<Rightarrow> int db_op" where
  "fail_broadcast now txid transaction_id req_status safe_ids =
     bindD (update_transaction_status now txid TsFailed) (\<lambda>_.
     bindD (readD (\<lambda>db. Ok (requests_of txid db))) (\<lambda>reqs.
     bindD (forD (set_request_status now req_status) reqs) (\<lambda>_.
     bindD (readD (find_outputs True (created_by transaction_id))) (\<lambda>outputs.
     bindD (forD (retire_own_output now) outputs) (\<lambda>_.
     case safe_ids of
       Some ids \<Rightarrow> writeD (release_inputs_spent_by now ids transaction_id)
     | None \<Rightarrow>
         bindD (readD (find_outputs True (unspendable_inputs transaction_id))) (\<lambda>consumed.
           writeD (release_inputs_spent_by now (map ou_output_id consumed) transaction_id)))))))"

definition transactions_of :: "string \<Rightarrow> database \<Rightarrow> transaction list" where
  "transactions_of txid = find_transactions (find_transactions_default\<lparr>txa_partial :=
     transaction_partial_default\<lparr>txp_txid := Some txid\<rparr>\<rparr>)"

definition apply_permanent_failure :: "services \<Rightarrow> ts \<Rightarrow> string \<Rightarrow> broadcast_outcome \<Rightarrow> unit db_op" where
  "apply_permanent_failure sv now txid effective =
     bindD (readD (\<lambda>db. Ok (transactions_of txid db))) (\<lambda>txs.
     case txs of
       [] \<Rightarrow> returnD ()
     | tx # _ \<Rightarrow>
         (case effective of
            BoDoubleSpend _ _ \<Rightarrow>
              bindD (utxo_verified_input_ids sv (tx_transaction_id tx)) (\<lambda>safe_ids.
              bindD (in_trx (fail_broadcast now txid (tx_transaction_id tx) RsDoubleSpend (Some safe_ids)))
                (\<lambda>_. returnD ()))
          | _ \<Rightarrow>
              bindD (in_trx (fail_broadcast now txid (tx_transaction_id tx) RsInvalid None))
                (\<lambda>_. returnD ())))"

definition handle_permanent_broadcast_failure ::
  "services \<Rightarrow> ts \<Rightarrow> string \<Rightarrow> broadcast_outcome \<Rightarrow> broadcast_outcome db_op" where
  "handle_permanent_broadcast_failure sv now txid outcome =
     (let effective = reconcile_tx_status sv txid outcome
      in case effective of
           BoSuccess \<Rightarrow> returnD effective
         | BoServiceError _ \<Rightarrow> bindD (apply_service_error_outcome now txid) (\<lambda>_. returnD effective)
         | BoOrphanMempool _ \<Rightarrow> returnD effective
         | _ \<Rightarrow> bindD (apply_permanent_failure sv now txid effective) (\<lambda>_. returnD effective))"

end
