(* ===== verification/BroadcastCorrect.thy ===== *)
theory BroadcastCorrect
  imports ActionRoundtrip BroadcastOutcome
begin

text \<open>
  The classification of provider answers by its priorities, and the effect of a
  permanent broadcast failure: the transaction is failed, its own outputs are retired, and of the
  outputs it consumed exactly those are given back that it is safe to spend again.
\<close>

section \<open>Classification\<close>

definition reports :: "post_beef_result list \<Rightarrow> (string \<times> post_tx_result) list" where
  "reports results = concat (map (\<lambda>p. map (Pair (pbr_name p)) (pbr_txid_results p)) results)"

definition failed_report :: "string \<times> post_tx_result \<Rightarrow> bool" where
  "failed_report x \<longleftrightarrow> ptr_status (snd x) \<noteq> ''success''"

definition double_spend_report :: "string \<times> post_tx_result \<Rightarrow> bool" where
  "double_spend_report x \<longleftrightarrow> failed_report x \<and> ptr_double_spend (snd x) = Some True"

definition orphan_report :: "string \<times> post_tx_result \<Rightarrow> bool" where
  "orphan_report x \<longleftrightarrow> failed_report x \<and> ptr_double_spend (snd x) \<noteq> Some True \<and>
     ptr_orphan_mempool (snd x) = Some True"

definition rejection_report :: "string \<times> post_tx_result \<Rightarrow> bool" where
  "rejection_report x \<longleftrightarrow> failed_report x \<and> ptr_double_spend (snd x) \<noteq> Some True \<and>
     ptr_orphan_mempool (snd x) \<noteq> Some True \<and> ptr_service_error (snd x) \<noteq> Some True"

lemmas report_defs = failed_report_def double_spend_report_def orphan_report_def rejection_report_def

definition competing_of :: "string \<times> post_tx_result \<Rightarrow> string list" where
  "competing_of x = (case ptr_competing_txs (snd x) of None \<Rightarrow> [] | Some c \<Rightarrow> c)"

text \<open>The flags gathered from a list of reports, added to the flags so far.\<close>

definition with_reports :: "broadcast_flags \<Rightarrow> bool \<Rightarrow> (string \<times> post_tx_result) list \<Rightarrow> broadcast_flags" where
  "with_reports f success xs =
     \<lparr>bf_success = (bf_success f \<or> success \<or> (\<exists>x \<in> set xs. \<not> failed_report x)),
      bf_double_spend = (bf_double_spend f \<or> (\<exists>x \<in> set xs. double_spend_report x)),
      bf_orphan = (bf_orphan f \<or> (\<exists>x \<in> set xs. orphan_report x)),
      bf_invalid = (bf_invalid f \<or> (\<exists>x \<in> set xs. rejection_report x)),
      bf_competing = bf_competing f @ concat (map competing_of (filter double_spend_report xs)),
      bf_details = bf_details f @ map (\<lambda>(n, t). post_detail n t) (filter failed_report xs)\<rparr>"

lemma note_txid_reports: "note_txid name f t = with_reports f False [(name, t)]"
  by (auto simp: note_txid_def with_reports_def report_defs competing_of_def Let_def split: option.split)

lemma with_reports_append:
  "with_reports (with_reports f s xs) s' ys = with_reports f (s \<or> s') (xs @ ys)"
  by (auto simp: with_reports_def)

lemma with_reports_Nil: "with_reports f s [] = (if s then f\<lparr>bf_success := True\<rparr> else f)"
  by (simp add: with_reports_def)

lemma note_provider_reports:
  "note_provider f p = with_reports f (pbr_status p = ''success'') (map (Pair (pbr_name p)) (pbr_txid_results p))"
proof -
  have "foldl (note_txid n) g ts = with_reports g False (map (Pair n) ts)" for g n ts
    by (induction ts arbitrary: g) (simp_all add: note_txid_reports with_reports_append with_reports_Nil)
  then have "note_provider f p =
      with_reports (with_reports f (pbr_status p = ''success'') []) False (map (Pair (pbr_name p)) (pbr_txid_results p))"
    by (simp add: note_provider_def with_reports_Nil)
  then show ?thesis by (simp add: with_reports_append)
qed

lemma all_reports:
  "foldl note_provider f results = with_reports f (\<exists>p \<in> set results. pbr_status p = ''success'') (reports results)"
  by (induction results arbitrary: f)
    (simp_all add: note_provider_reports with_reports_append with_reports_Nil reports_def)

text \<open>
  C19: The answers of the providers are classified by fixed priorities. A double spend flagged on any
  entry whose status is not success wins over everything; else one acceptance, of a whole post or
  of one entry, is a success; else one failed entry without orphan flag and service error is an invalid
  transaction; else an orphan flag on a failed entry; and only otherwise a service error. Flags on an
  entry with status success are ignored, although the comment on the function says that any double
  spend flag counts. Details and competing transactions are those of the failed entries, in order.
\<close>

theorem broadcast_classified:
  "classify_broadcast_results results =
     (let details = map (\<lambda>(n, t). post_detail n t) (filter failed_report (reports results))
      in if \<exists>x \<in> set (reports results). double_spend_report x
         then BoDoubleSpend (concat (map competing_of (filter double_spend_report (reports results)))) details
         else if (\<exists>p \<in> set results. pbr_status p = ''success'') \<or> (\<exists>x \<in> set (reports results). \<not> failed_report x)
         then BoSuccess
         else if \<exists>x \<in> set (reports results). rejection_report x then BoInvalidTx details
         else if \<exists>x \<in> set (reports results). orphan_report x then BoOrphanMempool details
         else BoServiceError details)"
  by (simp add: classify_broadcast_results_def all_reports with_reports_def no_flags_def Let_def)


section \<open>Steps that succeed on a well-formed database\<close>

definition succeeds :: "'a db_op \<Rightarrow> bool" where
  "succeeds m \<longleftrightarrow> (\<forall>db. db_ok db \<longrightarrow> (\<exists>x db'. m db = (Ok x, db') \<and> db_ok db'))"

named_theorems totals \<open>computations that succeed\<close>

lemma succeedsE:
  assumes "succeeds m" "db_ok db"
  obtains x db' where "m db = (Ok x, db')" "db_ok db'"
  using assms by (auto simp: succeeds_def)

lemma return_total [totals]: "succeeds (returnD x)"
  by (simp add: succeeds_def returnD_def)

lemma bind_total [totals]: "succeeds m \<Longrightarrow> (\<And>x. succeeds (f x)) \<Longrightarrow> succeeds (bindD m f)"
  unfolding succeeds_def by (fastforce simp: bindD_def)

lemma for_total [totals]: "(\<And>x. succeeds (f x)) \<Longrightarrow> succeeds (forD f xs)"
proof -
  assume f: "\<And>x. succeeds (f x)"
  have "succeeds (mapD f xs)" by (induction xs) (simp_all add: return_total bind_total f)
  then show ?thesis unfolding forD_def by (intro totals)
qed

lemma read_total [totals]: "succeeds (readD (\<lambda>db. Ok (q db)))"
  by (simp add: succeeds_def readD_def)

lemma write_total: "(\<And>db. db_ok db \<Longrightarrow> \<exists>db' x. w db = Ok (db', x)) \<Longrightarrow> writes db_ok w \<Longrightarrow> succeeds (writeD w)"
  unfolding succeeds_def writeD_def writes_def by fastforce

lemma update_output_total:
  assumes "output_fields_only p" "oup_user_id p = None" "oup_basket_id p = None" "oup_spent_by p \<in> {None, Some 0}"
  shows "succeeds (writeD (update_output now i p))"
proof (rule write_total [OF _ update_output_keeps_ok [OF assms(1)]])
  fix db assume ok: "db_ok db"
  have "\<exists>t n. update_rows (\<lambda>r. ou_output_id r = i) (apply_output now p) output_key (output_refs db)
      (db_outputs db) = Ok (t, n)"
    by (rule update_rows_total)
      (use outputs_stored [OF ok] assms in \<open>auto simp: output_key_def apply_output_def output_refs_def
        output_fields_only_def set_or_clear_def\<close>)
  then show "\<exists>db' n. update_output now i p db = Ok (db', n)" by (auto simp: update_output_def)
qed

lemma update_transaction_total:
  assumes "tx_fields_only p" "txp_proven_tx_id p = None"
  shows "succeeds (writeD (update_transaction now i p))"
proof (rule write_total [OF _ update_transaction_keeps_ok [OF assms(1)]])
  fix db assume ok: "db_ok db"
  have "\<exists>t n. update_rows (\<lambda>r. tx_transaction_id r = i) (apply_transaction now p) transaction_key
      (transaction_refs db) (db_transactions db) = Ok (t, n)"
    by (rule update_rows_total)
      (use transactions_stored [OF ok] assms in \<open>auto simp: transaction_key_def apply_transaction_def
        transaction_refs_def tx_fields_only_def\<close>)
  then show "\<exists>db' n. update_transaction now i p db = Ok (db', n)" by (auto simp: update_transaction_def)
qed

lemma update_request_total:
  assumes "prp_txid p = None" "prp_proven_tx_id p = None"
  shows "succeeds (writeD (update_proven_tx_req now i p))"
proof (rule write_total [OF _ update_proven_tx_req_keeps_ok [OF assms(1)]])
  fix db assume ok: "db_ok db"
  have "keyed_ok proven_tx_req_key (db_proven_tx_reqs db)"
    "\<And>r. r \<in> set (tb_rows (db_proven_tx_reqs db)) \<Longrightarrow> proven_tx_req_refs db r"
    using ok by (simp_all add: db_ok_def keys_ok_def rows_ok_def)
  then have "\<exists>t n. update_rows (\<lambda>r. pr_proven_tx_req_id r = i) (apply_proven_tx_req now p) proven_tx_req_key
      (proven_tx_req_refs db) (db_proven_tx_reqs db) = Ok (t, n)"
    by (intro update_rows_total)
      (use assms in \<open>auto simp: proven_tx_req_key_def apply_proven_tx_req_def proven_tx_req_refs_def\<close>)
  then show "\<exists>db' n. update_proven_tx_req now i p db = Ok (db', n)" by (auto simp: update_proven_tx_req_def)
qed

lemma release_inputs_total: "succeeds (writeD (release_inputs_spent_by now ids i))"
  by (rule write_total [OF release_total claims_keep_ok(2)])

lemma request_steps_total [totals]:
  "succeeds (set_request_status now status req)" "succeeds (retry_request now req)"
  unfolding set_request_status_def retry_request_def
  by (intro totals update_request_total; simp add: proven_tx_req_partial_default_def)+

lemma retire_own_total [totals]: "succeeds (retire_own_output now r)"
  unfolding retire_own_output_def
  by (intro totals update_output_total; simp add: output_fields_only_def output_partial_default_def)

lemma find_outputs_total:
  "\<not> oua_for_update a \<Longrightarrow> oup_locking_script (oua_partial a) = None \<Longrightarrow> succeeds (readD (find_outputs trx a))"
  by (simp add: succeeds_def readD_def find_outputs_def Let_def)


section \<open>Statuses\<close>

definition status_row :: "ts \<Rightarrow> int \<Rightarrow> transaction_status \<Rightarrow> transaction \<Rightarrow> transaction" where
  "status_row now i st t =
     (if tx_transaction_id t = i then t\<lparr>tx_status := st, tx_updated_at := secs now\<rparr> else t)"

definition request_row ::
  "ts \<Rightarrow> string \<Rightarrow> (proven_tx_req \<Rightarrow> proven_tx_req) \<Rightarrow> proven_tx_req \<Rightarrow> proven_tx_req" where
  "request_row now txid f q = (if pr_txid q = txid then (f q)\<lparr>pr_updated_at := secs now\<rparr> else q)"

lemma transactions_of_rows: "transactions_of t db = filter (\<lambda>x. tx_txid x = Some t) (tb_rows (db_transactions db))"
  by (simp add: transactions_of_def find_transactions_def find_transactions_default_def transactions_where_def
      transaction_partial_default_def cong: filter_cong)

lemma apply_status:
  "(if tx_transaction_id t = i then apply_transaction now (transaction_partial_default\<lparr>txp_status := Some st\<rparr>) t
     else t) = status_row now i st t"
  by (cases t) (simp add: status_row_def apply_transaction_def transaction_partial_default_def)

lemma status_update:
  assumes "transactions_of txid db = tx # txs" "db_ok db"
  obtains t where "update_transaction_status now txid st db = (Ok (), db\<lparr>db_transactions := t\<rparr>)"
    "tb_rows t = map (status_row now (tx_transaction_id tx) st) (tb_rows (db_transactions db))"
    "db_ok (db\<lparr>db_transactions := t\<rparr>)"
proof -
  have found: "find_transactions (find_transactions_default\<lparr>txa_partial :=
      transaction_partial_default\<lparr>txp_txid := Some txid\<rparr>, txa_no_raw_tx := True\<rparr>) db = tx # txs"
    using assms(1)
    by (simp add: transactions_of_rows find_transactions_def find_transactions_default_def transactions_where_def
        transaction_partial_default_def cong: filter_cong)
  have "succeeds (writeD (update_transaction now (tx_transaction_id tx)
      (transaction_partial_default\<lparr>txp_status := Some st\<rparr>)))"
    by (rule update_transaction_total) (simp_all add: tx_fields_only_def transaction_partial_default_def)
  then obtain n db' where u: "update_transaction now (tx_transaction_id tx)
      (transaction_partial_default\<lparr>txp_status := Some st\<rparr>) db = Ok (db', n)" "db_ok db'"
    using assms(2) by (elim succeedsE) (auto simp: run_simps)
  note T = update_transaction_rows [OF u(1)]
  obtain t where t: "db' = db\<lparr>db_transactions := t\<rparr>" using T(2) by blast
  show thesis
  proof (rule that [of t])
    show "update_transaction_status now txid st db = (Ok (), db\<lparr>db_transactions := t\<rparr>)"
      using u(1) t
      by (simp add: update_transaction_status_def bindD_def readD_def found writeD_def returnD_def)
    show "tb_rows t = map (status_row now (tx_transaction_id tx) st) (tb_rows (db_transactions db))"
      using T(1) t by (simp add: apply_status)
  qed (use u(2) t in simp)
qed

lemma filter_key: "distinct (map k xs) \<Longrightarrow> q \<in> set xs \<Longrightarrow> filter (\<lambda>x. k x = k q) xs = [q]"
proof (induction xs)
  case (Cons x xs)
  then show ?case by (cases "x = q") (auto simp: filter_empty_conv image_iff)
qed simp

lemma requests_stored:
  assumes "db_ok db"
  shows "distinct (map pr_txid (tb_rows (db_proven_tx_reqs db)))"
    "distinct (map pr_proven_tx_req_id (tb_rows (db_proven_tx_reqs db)))"
  using assms by (simp_all add: db_ok_def keys_ok_def rows_ok_def keyed_ok_def proven_tx_req_key_def [abs_def]
      id_columns_ok_def ids_ok_def)

text \<open>A txid has at most one request; the loop over the requests of a txid updates that one.\<close>

lemma request_loop:
  assumes ok: "db_ok db"
    and step: "\<And>q. f q = bindD (writeD (update_proven_tx_req now (pr_proven_tx_req_id q) (p q))) (\<lambda>_. returnD ())"
    and p: "\<And>q. prp_txid (p q) = None \<and> prp_proven_tx_id (p q) = None \<and> prp_updated_at (p q) = None"
  obtains t where "forD f (requests_of txid db) db = (Ok (), db\<lparr>db_proven_tx_reqs := t\<rparr>)"
    "tb_rows t = map (\<lambda>q. if pr_txid q = txid then apply_proven_tx_req now (p q) q else q)
      (tb_rows (db_proven_tx_reqs db))"
    "db_ok (db\<lparr>db_proven_tx_reqs := t\<rparr>)"
proof -
  let ?rows = "tb_rows (db_proven_tx_reqs db)"
  show thesis
  proof (cases "\<exists>q \<in> set ?rows. pr_txid q = txid")
    case False
    then have "requests_of txid db = []" by (simp add: requests_of_rows filter_empty_conv)
    moreover have "?rows = map (\<lambda>q. if pr_txid q = txid then apply_proven_tx_req now (p q) q else q) ?rows"
      using False by (simp add: map_idI)
    ultimately show thesis
      using ok that [of "db_proven_tx_reqs db"] by (simp add: forD_def returnD_def bindD_def)
  next
    case True
    then obtain q where q: "q \<in> set ?rows" "pr_txid q = txid" by blast
    have one: "requests_of txid db = [q]"
      using filter_key [OF requests_stored(1) [OF ok] q(1)] q(2) by (simp add: requests_of_rows)
    have "succeeds (writeD (update_proven_tx_req now (pr_proven_tx_req_id q) (p q)))"
      using p by (simp add: update_request_total)
    then obtain n db' where u: "update_proven_tx_req now (pr_proven_tx_req_id q) (p q) db = Ok (db', n)" "db_ok db'"
      using ok by (elim succeedsE) (auto simp: run_simps)
    obtain t where t: "db' = db\<lparr>db_proven_tx_reqs := t\<rparr>"
        "tb_rows t = map (\<lambda>x. if pr_proven_tx_req_id x = pr_proven_tx_req_id q
          then apply_proven_tx_req now (p q) x else x) ?rows"
      using u(1) update_rows_OkD(1) by (fastforce simp: update_proven_tx_req_def)
    have same: "pr_proven_tx_req_id x = pr_proven_tx_req_id q \<longleftrightarrow> x = q" "pr_txid x = txid \<longleftrightarrow> x = q"
      if "x \<in> set ?rows" for x
      using requests_stored [OF ok] q that by (auto simp: distinct_map inj_on_def)
    have "tb_rows t = map (\<lambda>q. if pr_txid q = txid then apply_proven_tx_req now (p q) q else q) ?rows"
      unfolding t(2) by (rule map_cong [OF refl]) (auto simp: same)
    then show thesis
      using u t(1) that [of t] by (simp add: one forD_def step bindD_def writeD_def returnD_def)
  qed
qed


section \<open>Permanent failures\<close>

definition failure_change :: "int \<Rightarrow> (output_row \<Rightarrow> bool) \<Rightarrow> output_row \<Rightarrow> output_row \<Rightarrow> bool" where
  "failure_change i restored r r' \<longleftrightarrow>
     r' = r\<lparr>ou_spendable := ou_spendable r', ou_spent_by := ou_spent_by r', ou_updated_at := ou_updated_at r'\<rparr> \<and>
     (if restored r then ou_spendable r' \<and> ou_spent_by r' = None
      else if ou_transaction_id r = i then \<not> ou_spendable r' \<and> ou_spent_by r' = ou_spent_by r
      else r' = r)"

definition broadcast_failed ::
  "ts \<Rightarrow> string \<Rightarrow> int \<Rightarrow> proven_tx_req_status \<Rightarrow> (output_row \<Rightarrow> bool) \<Rightarrow> database \<Rightarrow> database \<Rightarrow> bool" where
  "broadcast_failed now txid i rs restored db db' \<longleftrightarrow>
     tb_rows (db_transactions db') = map (status_row now i TsFailed) (tb_rows (db_transactions db)) \<and>
     tb_rows (db_proven_tx_reqs db') =
       map (request_row now txid (pr_status_update (\<lambda>_. rs))) (tb_rows (db_proven_tx_reqs db)) \<and>
     list_all2 (failure_change i restored) (output_rows db) (output_rows db')"

lemma find_created_by:
  "find_outputs trx (created_by i) db = Ok (filter (\<lambda>r. ou_transaction_id r = i) (output_rows db))"
  by (simp add: find_outputs_def created_by_def find_outputs_default_def output_partial_default_def
      outputs_where_def output_rows_def cong: filter_cong)

lemma find_unspendable_inputs:
  "find_outputs trx (unspendable_inputs i) db =
     Ok (filter (\<lambda>r. \<not> ou_spendable r \<and> ou_spent_by r = Some i) (output_rows db))"
  by (simp add: find_outputs_def unspendable_inputs_def find_outputs_default_def output_partial_default_def
      outputs_where_def output_rows_def where_eq_def cong: filter_cong)

lemma find_spent_by_transaction:
  "find_outputs trx (spent_by_transaction i) db = Ok (filter (\<lambda>r. ou_spent_by r = Some i) (output_rows db))"
  by (simp add: find_outputs_def spent_by_transaction_def find_outputs_default_def output_partial_default_def
      outputs_where_def output_rows_def cong: filter_cong)

lemma apply_own:
  "apply_output now (output_partial_default\<lparr>oup_spendable := Some False\<rparr>) r =
     r\<lparr>ou_spendable := False, ou_updated_at := secs now\<rparr>"
  by (cases r) (simp add: apply_output_def output_partial_default_def set_or_clear_def)

lemma retire_own_loop:
  assumes ok: "db_ok db"
  obtains t where "forD (retire_own_output now) (filter (\<lambda>r. ou_transaction_id r = i) (output_rows db)) db =
      (Ok (), db\<lparr>db_outputs := t\<rparr>)"
    "tb_rows t = map (\<lambda>r. if ou_transaction_id r = i then r\<lparr>ou_spendable := False, ou_updated_at := secs now\<rparr> else r)
      (output_rows db)"
    "db_ok (db\<lparr>db_outputs := t\<rparr>)"
proof -
  let ?L = "filter (\<lambda>r. ou_transaction_id r = i) (output_rows db)"
  have "succeeds (forD (retire_own_output now) ?L)" by (intro totals)
  then obtain y db' where run: "forD (retire_own_output now) ?L db = (Ok y, db')" and ok': "db_ok db'"
    using ok by (rule succeedsE)
  have ids: "distinct (map ou_output_id (output_rows db))"
    using ok by (simp add: db_ok_def id_columns_ok_def ids_ok_def output_rows_def)
  have step: "retire_own_output now = (\<lambda>r. bindD (writeD (update_output now (ou_output_id r)
      (output_partial_default\<lparr>oup_spendable := Some False\<rparr>))) (\<lambda>_. returnD ()))"
    by (rule ext) (rule retire_own_output_def)
  have "distinct (map ou_output_id ?L)" using ids by (simp add: distinct_map_filter)
  note U = update_each [OF run [unfolded step] this]
  have "output_rows db' = map (\<lambda>r. if ou_transaction_id r = i then r\<lparr>ou_spendable := False, ou_updated_at := secs now\<rparr> else r)
      (output_rows db)"
    using U unfolding set_each_filter [OF ids] apply_own by blast
  then show thesis using U run ok' that by (auto simp: output_rows_def)
qed

lemma failure_rows:
  assumes "release_inputs_spent_by now ids i db3 = Ok (db', n)"
    and rows: "output_rows db3 = map (\<lambda>r. if ou_transaction_id r = i then r\<lparr>ou_spendable := False, ou_updated_at := secs now\<rparr> else r)
      (output_rows db)"
    and ids: "\<And>r. r \<in> set (output_rows db) \<Longrightarrow>
      ou_output_id r \<in> set ids \<and> ou_spent_by r \<in> {Some i, None} \<longleftrightarrow> restored r"
  shows "list_all2 (failure_change i restored) (output_rows db) (output_rows db')"
proof -
  have "failure_change i restored r
      (if ou_output_id r \<in> set ids \<and> ou_spent_by r \<in> {Some i, None}
       then release_row now (if ou_transaction_id r = i then r\<lparr>ou_spendable := False, ou_updated_at := secs now\<rparr> else r)
       else if ou_transaction_id r = i then r\<lparr>ou_spendable := False, ou_updated_at := secs now\<rparr> else r)"
    if r: "r \<in> set (output_rows db)" for r
    using ids [OF r] by (cases r) (simp add: failure_change_def release_row_def)
  then show ?thesis
    unfolding release_rows(1) [OF assms(1)] rows map_map comp_def list_all2_map2
    by (simp add: list_all2_same if_distrib [where f = ou_output_id] if_distrib [where f = ou_spent_by] cong: if_cong)
qed


lemma released_ids:
  assumes "db_ok db" "spends_ok db" "r \<in> set (output_rows db)"
  shows "ou_output_id r \<in> set (map ou_output_id (filter (\<lambda>r. \<not> ou_spendable r \<and> ou_spent_by r = Some i)
      (map (\<lambda>r. if ou_transaction_id r = i then r\<lparr>ou_spendable := False, ou_updated_at := secs now\<rparr> else r) (output_rows db))))
    \<and> ou_spent_by r \<in> {Some i, None} \<longleftrightarrow> ou_spent_by r = Some i"
proof -
  let ?f = "\<lambda>r. if ou_transaction_id r = i then r\<lparr>ou_spendable := False, ou_updated_at := secs now\<rparr> else r"
  have spent: "\<not> ou_spendable x" if "x \<in> set (output_rows db)" "ou_spent_by x = Some i" for x
    using assms(2) that by (auto simp: spends_ok_def)
  have "inj_on ou_output_id (set (output_rows db))"
    using assms(1) by (simp add: db_ok_def id_columns_ok_def ids_ok_def output_rows_def distinct_map)
  then have inj: "ou_output_id r \<in> ou_output_id ` A \<longleftrightarrow> r \<in> A" if "A \<subseteq> set (output_rows db)" for A
    using assms(3) that by (auto simp: inj_on_def)
  have keep: "ou_output_id (?f x) = ou_output_id x" for x by simp
  have "filter (\<lambda>r. \<not> ou_spendable (?f r) \<and> ou_spent_by (?f r) = Some i) (output_rows db) =
      filter (\<lambda>r. ou_spent_by r = Some i) (output_rows db)"
    by (rule filter_cong) (use spent in auto)
  then have "map ou_output_id (filter (\<lambda>r. \<not> ou_spendable r \<and> ou_spent_by r = Some i) (map ?f (output_rows db))) =
      map ou_output_id (filter (\<lambda>r. ou_spent_by r = Some i) (output_rows db))"
    unfolding filter_map map_map comp_def keep by simp
  then show ?thesis
    using assms(3) inj [of "{r \<in> set (output_rows db). ou_spent_by r = Some i}"] by (auto simp del: map_map)
qed

lemma fail_broadcast_effect:
  assumes ok: "db_ok db" and sp: "spends_ok db" and tx: "transactions_of txid db = tx # txs"
    and ids: "\<And>r. r \<in> set (output_rows db) \<Longrightarrow> (case safe_ids of
        None \<Rightarrow> ou_spent_by r = Some (tx_transaction_id tx)
      | Some ids \<Rightarrow> ou_output_id r \<in> set ids \<and> ou_spent_by r \<in> {Some (tx_transaction_id tx), None}) \<longleftrightarrow> restored r"
  obtains n db' where "fail_broadcast now txid (tx_transaction_id tx) rs safe_ids db = (Ok n, db')" "db_ok db'"
    "broadcast_failed now txid (tx_transaction_id tx) rs restored db db'"
proof -
  let ?i = "tx_transaction_id tx"
  obtain t1 where 1: "update_transaction_status now txid TsFailed db = (Ok (), db\<lparr>db_transactions := t1\<rparr>)"
    "tb_rows t1 = map (status_row now ?i TsFailed) (tb_rows (db_transactions db))" "db_ok (db\<lparr>db_transactions := t1\<rparr>)"
    using status_update [OF tx ok] .
  let ?db1 = "db\<lparr>db_transactions := t1\<rparr>"
  obtain t2 where 2: "forD (set_request_status now rs) (requests_of txid ?db1) ?db1 = (Ok (), ?db1\<lparr>db_proven_tx_reqs := t2\<rparr>)"
    "tb_rows t2 = map (\<lambda>q. if pr_txid q = txid then apply_proven_tx_req now
        (proven_tx_req_partial_default\<lparr>prp_status := Some rs\<rparr>) q else q) (tb_rows (db_proven_tx_reqs ?db1))"
    "db_ok (?db1\<lparr>db_proven_tx_reqs := t2\<rparr>)"
    by (rule request_loop [OF 1(3) set_request_status_def]) (simp_all add: proven_tx_req_partial_default_def)
  let ?db2 = "?db1\<lparr>db_proven_tx_reqs := t2\<rparr>"
  obtain t3 where 3: "forD (retire_own_output now) (filter (\<lambda>r. ou_transaction_id r = ?i) (output_rows ?db2)) ?db2 =
      (Ok (), ?db2\<lparr>db_outputs := t3\<rparr>)"
    "tb_rows t3 = map (\<lambda>r. if ou_transaction_id r = ?i then r\<lparr>ou_spendable := False, ou_updated_at := secs now\<rparr> else r)
      (output_rows ?db2)" "db_ok (?db2\<lparr>db_outputs := t3\<rparr>)"
    using retire_own_loop [OF 2(3)] .
  let ?db3 = "?db2\<lparr>db_outputs := t3\<rparr>"
  define ids' where "ids' = (case safe_ids of Some ids \<Rightarrow> ids
    | None \<Rightarrow> map ou_output_id (filter (\<lambda>r. \<not> ou_spendable r \<and> ou_spent_by r = Some ?i) (output_rows ?db3)))"
  have rows2: "output_rows ?db2 = output_rows db" and rows3: "output_rows ?db3 = tb_rows t3"
    by (simp_all add: output_rows_def)
  obtain db' n where 4: "release_inputs_spent_by now ids' ?i ?db3 = Ok (db', n)" "db_ok db'"
    using succeedsE [OF release_inputs_total 3(3)] by (metis writeD_run)
  have run: "fail_broadcast now txid ?i rs safe_ids db = (Ok n, db')"
    using 1(1) 2(1) 3(1) 4(1)
    by (cases safe_ids) (simp_all add: fail_broadcast_def bindD_def readD_def writeD_def find_created_by
        find_unspendable_inputs ids'_def)
  have "ou_output_id r \<in> set ids' \<and> ou_spent_by r \<in> {Some ?i, None} \<longleftrightarrow> restored r" if r: "r \<in> set (output_rows db)" for r
    using ids [OF r] released_ids [OF ok sp r, of ?i now] unfolding ids'_def rows3 3(2) rows2
    by (cases safe_ids) simp_all
  then have "list_all2 (failure_change ?i restored) (output_rows db) (output_rows db')"
    using failure_rows [OF 4(1)] 3(2) rows2 rows3 by simp
  moreover have "db_transactions db' = t1" "db_proven_tx_reqs db' = t2"
    using release_rows(2) [OF 4(1)] by auto
  ultimately show thesis
    using that [OF run 4(2)] 1(2) 2(2)
    by (simp add: broadcast_failed_def request_row_def apply_proven_tx_req_def proven_tx_req_partial_default_def)
qed


lemma verified_inputs_run:
  "utxo_verified_input_ids sv i db =
     (Ok (map ou_output_id (filter (\<lambda>r. ou_spent_by r = Some i \<and> still_unspent sv db r) (output_rows db))), db)"
  by (simp add: utxo_verified_input_ids_def bindD_def readD_def find_spent_by_transaction conj_commute)

lemma verified_ids:
  assumes "db_ok db" "r \<in> set (output_rows db)"
  shows "ou_output_id r \<in> set (map ou_output_id (filter P (output_rows db))) \<longleftrightarrow> P r"
proof -
  have "inj_on ou_output_id (set (output_rows db))"
    using assms(1) by (simp add: db_ok_def id_columns_ok_def ids_ok_def output_rows_def distinct_map)
  then show ?thesis using assms(2) by (auto simp: inj_on_def)
qed

text \<open>
  C9: A permanent broadcast failure that the chain does not contradict is applied completely and
  gives back only outputs that are safe to spend. The call succeeds; the transaction is failed, its
  requests are marked, its own outputs become unspendable; of the outputs it had claimed, an invalid
  transaction gives back all, a double spend exactly those that the services report as unspent;
  every other output is unchanged.
\<close>

theorem permanent_failure_restores:
  assumes "db_ok db" "spends_ok db" "transactions_of txid db = tx # txs"
    and "gsr_status (sv_get_status sv txid) = ''success''"
    and "\<forall>s \<in> set (gsr_results (sv_get_status sv txid)). sft_status s \<notin> {''mined'', ''known''}"
    and "outcome = BoDoubleSpend competing details \<or> outcome = BoInvalidTx details"
  shows "\<exists>db'. handle_permanent_broadcast_failure sv now txid outcome db = (Ok outcome, db') \<and> db_ok db' \<and>
    (case outcome of
       BoDoubleSpend _ _ \<Rightarrow> broadcast_failed now txid (tx_transaction_id tx) RsDoubleSpend
         (\<lambda>r. ou_spent_by r = Some (tx_transaction_id tx) \<and> still_unspent sv db r) db db'
     | _ \<Rightarrow> broadcast_failed now txid (tx_transaction_id tx) RsInvalid
         (\<lambda>r. ou_spent_by r = Some (tx_transaction_id tx)) db db')"
  using assms(6)
proof
  let ?i = "tx_transaction_id tx"
  assume o: "outcome = BoDoubleSpend competing details"
  let ?safe = "\<lambda>r. ou_spent_by r = Some ?i \<and> still_unspent sv db r"
  obtain n db' where F: "fail_broadcast now txid ?i RsDoubleSpend
      (Some (map ou_output_id (filter ?safe (output_rows db)))) db = (Ok n, db')" "db_ok db'"
      "broadcast_failed now txid ?i RsDoubleSpend ?safe db db'"
    by (rule fail_broadcast_effect [OF assms(1-3), where restored = ?safe and rs = RsDoubleSpend and
        safe_ids = "Some (map ou_output_id (filter ?safe (output_rows db)))"])
      (use verified_ids [OF assms(1), where P = ?safe] in auto)
  then show ?thesis
    using assms(3-5) o
    by (auto simp: handle_permanent_broadcast_failure_def reconcile_tx_status_def Let_def apply_permanent_failure_def
        bindD_def readD_def verified_inputs_run in_trx_def returnD_def)
next
  let ?i = "tx_transaction_id tx"
  assume o: "outcome = BoInvalidTx details"
  obtain n db' where F: "fail_broadcast now txid ?i RsInvalid None db = (Ok n, db')" "db_ok db'"
      "broadcast_failed now txid ?i RsInvalid (\<lambda>r. ou_spent_by r = Some ?i) db db'"
    by (rule fail_broadcast_effect [OF assms(1-3), where restored = "\<lambda>r. ou_spent_by r = Some ?i" and
        rs = RsInvalid and safe_ids = None]) auto
  then show ?thesis
    using assms(3-5) o
    by (auto simp: handle_permanent_broadcast_failure_def reconcile_tx_status_def Let_def apply_permanent_failure_def
        bindD_def readD_def in_trx_def returnD_def)
qed

section \<open>An example\<close>

text \<open>A sent transaction that claimed the coin; the services answer the same for every question.\<close>

definition sample_services :: "string \<Rightarrow> bool wallet_result \<Rightarrow> services" where
  "sample_services status utxo = \<lparr>sv_get_status = (\<lambda>_. \<lparr>gsr_name = ''woc'', gsr_status = status, gsr_error = None,
     gsr_results = []\<rparr>), sv_is_utxo = (\<lambda>_ _ _. utxo)\<rparr>"

lemma sample_committed_facts:
  "db_ok sample_committed" "list_all (\<lambda>r. ou_spendable r \<longrightarrow> ou_spent_by r = None) (output_rows sample_committed)"
  "map tx_transaction_id (transactions_of ''t2'' sample_committed) = [2]"
  by code_simp+

lemma sample_committed_spends: "spends_ok sample_committed"
  using sample_committed_facts(2) by (simp add: spends_ok_def list_all_iff)

lemma sample_committed_tx:
  obtains tx where "transactions_of ''t2'' sample_committed = [tx]" "tx_transaction_id tx = 2"
  using sample_committed_facts(3) by auto

theorem permanent_failure_restores_witness:
  "db_ok sample_committed \<and> spends_ok sample_committed \<and>
   (\<exists>tx db'. transactions_of ''t2'' sample_committed = [tx] \<and>
      handle_permanent_broadcast_failure (sample_services ''success'' (Ok True)) 5 ''t2'' (BoInvalidTx []) sample_committed =
        (Ok (BoInvalidTx []), db') \<and>
      broadcast_failed 5 ''t2'' 2 RsInvalid (\<lambda>r. ou_spent_by r = Some 2) sample_committed db')"
proof -
  obtain tx where tx: "transactions_of ''t2'' sample_committed = [tx]" "tx_transaction_id tx = 2"
    by (rule sample_committed_tx)
  have sv: "gsr_status (sv_get_status (sample_services ''success'' (Ok True)) ''t2'') = ''success''"
    "\<forall>s \<in> set (gsr_results (sv_get_status (sample_services ''success'' (Ok True)) ''t2'')). sft_status s \<notin> {''mined'', ''known''}"
    by (simp_all add: sample_services_def)
  show ?thesis
    using permanent_failure_restores [OF sample_committed_facts(1) sample_committed_spends tx(1) sv, of "BoInvalidTx []" "[]" "[]" 5]
      tx sample_committed_facts(1) sample_committed_spends by auto
qed

text \<open>A retry: the request counts one more attempt and waits to be sent again.\<close>

lemma service_error_effect:
  assumes "db_ok db" "transactions_of txid db = tx # txs"
  shows "\<exists>db'. apply_service_error_outcome now txid db = (Ok (), db') \<and> db_outputs db' = db_outputs db \<and>
    tb_rows (db_transactions db') = map (status_row now (tx_transaction_id tx) TsSending) (tb_rows (db_transactions db)) \<and>
    tb_rows (db_proven_tx_reqs db') = map (request_row now txid (\<lambda>q. q\<lparr>pr_status := RsSending,
      pr_attempts := next_attempt (pr_attempts q)\<rparr>)) (tb_rows (db_proven_tx_reqs db))"
proof -
  obtain t where 1: "forD (retry_request now) (requests_of txid db) db = (Ok (), db\<lparr>db_proven_tx_reqs := t\<rparr>)"
    "tb_rows t = map (\<lambda>q. if pr_txid q = txid then apply_proven_tx_req now
        (proven_tx_req_partial_default\<lparr>prp_status := Some RsSending,
          prp_attempts := Some (next_attempt (pr_attempts q))\<rparr>) q else q) (tb_rows (db_proven_tx_reqs db))"
    "db_ok (db\<lparr>db_proven_tx_reqs := t\<rparr>)"
    by (rule request_loop [OF assms(1) retry_request_def]) (simp_all add: proven_tx_req_partial_default_def)
  have found: "transactions_of txid (db\<lparr>db_proven_tx_reqs := t\<rparr>) = tx # txs"
    using assms(2) by (simp add: transactions_of_rows)
  obtain t' where 2: "update_transaction_status now txid TsSending (db\<lparr>db_proven_tx_reqs := t\<rparr>) =
      (Ok (), db\<lparr>db_proven_tx_reqs := t, db_transactions := t'\<rparr>)"
    "tb_rows t' = map (status_row now (tx_transaction_id tx) TsSending) (tb_rows (db_transactions db))"
    by (rule status_update [OF found 1(3), where now = now and st = TsSending]) simp
  show ?thesis
    using 1(1,2) 2
    by (simp add: apply_service_error_outcome_def bindD_def readD_def request_row_def apply_proven_tx_req_def
        proven_tx_req_partial_default_def)
qed

text \<open>
  C20: A permanent failure is never applied against the chain or without an answer from it. When a
  service has seen the transaction, the verdict becomes a success and nothing is changed. When the
  status query itself fails, no output is touched: the transaction and its request go back to
  sending, with one more counted attempt.
\<close>

theorem unconfirmed_failure_retried:
  assumes "db_ok db" "transactions_of txid db = tx # txs"
    and "outcome = BoDoubleSpend competing details \<or> outcome = BoInvalidTx details"
    and "gsr_status (sv_get_status sv txid) \<noteq> ''success'' \<or>
      (\<exists>s \<in> set (gsr_results (sv_get_status sv txid)). sft_status s \<in> {''mined'', ''known''})"
  shows "\<exists>verdict db'. handle_permanent_broadcast_failure sv now txid outcome db = (Ok verdict, db') \<and>
    db_outputs db' = db_outputs db \<and>
    (if gsr_status (sv_get_status sv txid) = ''success'' then verdict = BoSuccess \<and> db' = db
     else
       tb_rows (db_transactions db') =
         map (status_row now (tx_transaction_id tx) TsSending) (tb_rows (db_transactions db)) \<and>
       tb_rows (db_proven_tx_reqs db') = map (request_row now txid (\<lambda>q. q\<lparr>pr_status := RsSending,
         pr_attempts := next_attempt (pr_attempts q)\<rparr>)) (tb_rows (db_proven_tx_reqs db)))"
proof (cases "gsr_status (sv_get_status sv txid) = ''success''")
  case True
  then have "reconcile_tx_status sv txid outcome = BoSuccess"
    using assms(3,4) by (auto simp: reconcile_tx_status_def Let_def)
  then show ?thesis
    using True by (simp add: handle_permanent_broadcast_failure_def Let_def returnD_def)
next
  case False
  then obtain e where e: "reconcile_tx_status sv txid outcome = BoServiceError e"
    using assms(3) by (auto simp: reconcile_tx_status_def Let_def)
  show ?thesis
    using service_error_effect [OF assms(1,2), of now] False
    by (auto simp: handle_permanent_broadcast_failure_def e Let_def bindD_def returnD_def)
qed

theorem unconfirmed_failure_retried_witness:
  "db_ok sample_committed \<and>
   (\<exists>verdict db'. handle_permanent_broadcast_failure (sample_services ''error'' (Ok True)) 5 ''t2'' (BoInvalidTx [])
      sample_committed = (Ok verdict, db') \<and> db_outputs db' = db_outputs sample_committed \<and>
      tb_rows (db_transactions db') = map (status_row 5 2 TsSending) (tb_rows (db_transactions sample_committed)))"
proof -
  obtain tx where tx: "transactions_of ''t2'' sample_committed = [tx]" "tx_transaction_id tx = 2"
    by (rule sample_committed_tx)
  have sv: "gsr_status (sv_get_status (sample_services ''error'' (Ok True)) ''t2'') \<noteq> ''success''"
    by (simp add: sample_services_def)
  show ?thesis
    using unconfirmed_failure_retried [OF sample_committed_facts(1) tx(1), of "BoInvalidTx []" "[]" "[]"
        "sample_services ''error'' (Ok True)" 5] sv tx sample_committed_facts(1) by auto
qed

end
