(* ===== verification/WalletReach.thy ===== *)
theory WalletReach
  imports BroadcastCorrect
begin

text \<open>
  The wallet database as a state machine: its steps are the calls of the action methods and of
  the broadcast outcome handlers, with any arguments, any answers of the services and any result,
  errors included. The handlers join the action methods in the locale of action invariants, which
  is interpreted once more: no row of any table disappears or changes its identity. The invariants
  then hold in every database reached from one where they hold.
\<close>

section \<open>The outcome handlers keep the action invariants\<close>

lemma ignore_keeps [keeps]: "preserves I m \<Longrightarrow> preserves I (ignoreD m)"
  by (simp add: preserves_def ignoreD_def)

context action_invariant
begin

lemma transaction_status_keeps [keeps]: "preserves I (update_transaction_status now txid st)"
  unfolding update_transaction_status_def
  by (intro keeps; simp add: tx_fields_only_def transaction_partial_default_def)

lemma request_keeps [keeps]:
  "preserves I (set_request_status now st req)" "preserves I (retry_request now req)"
  unfolding set_request_status_def retry_request_def
  by (intro keeps; simp add: proven_tx_req_partial_default_def)+

lemma fail_broadcast_keeps [keeps]: "preserves I (fail_broadcast now txid i st ids)"
  unfolding fail_broadcast_def retire_own_output_def
  by (intro keeps; simp add: output_fields_only_def output_partial_default_def)

lemma permanent_failure_keeps: "preserves I (handle_permanent_broadcast_failure sv now txid outcome)"
proof -
  have "preserves I (apply_permanent_failure sv now txid effective)" for effective
    unfolding apply_permanent_failure_def utxo_verified_input_ids_def
    by (cases effective) (simp_all, (intro keeps)+)
  then show ?thesis
    unfolding handle_permanent_broadcast_failure_def apply_service_error_outcome_def Let_def
    by (cases "reconcile_tx_status sv txid outcome") (simp_all, (intro keeps | assumption)+)
qed

lemma success_or_orphan_keeps: "preserves I (apply_success_or_orphan_outcome now txid outcome)"
  unfolding apply_success_or_orphan_outcome_def by (intro keeps)

end

section \<open>Rows persist\<close>

definition kept :: "database \<Rightarrow> database \<Rightarrow> bool" where
  "kept db0 db \<longleftrightarrow> db_ok db \<and> db_keeps db0 db"

lemma kept_step: "kept db0 db \<Longrightarrow> db_ok db' \<Longrightarrow> db_keeps db db' \<Longrightarrow> kept db0 db'"
  by (auto simp: kept_def intro: db_keeps_trans)

lemma insert_keeps_kept:
  "writes (kept db0) (insert_transaction tx)" "writes (kept db0) (insert_output_basket ob)"
  "writes (kept db0) (insert_tx_label lb)" "writes (kept db0) (insert_proven_tx_req pr)"
  "writes (kept db0) (insert_output ou)" "writes (kept db0) (insert_user us)"
  by (auto simp: writes_def insert_transaction_def insert_output_basket_def insert_tx_label_def
      insert_proven_tx_req_def insert_output_def insert_user_def kept_def
      dest: transactions.insert_put_ok output_baskets.insert_put_ok tx_labels.insert_put_ok
        proven_tx_reqs.insert_put_ok outputs.insert_put_ok users.insert_put_ok
      intro: db_keeps_trans [OF _ db_grows_keeps])

lemma insert_label_map_keeps_kept:
  "writes (kept db0) (\<lambda>db. bind_result (insert_tx_label_map tm db) (\<lambda>db'. Ok (db', ())))"
  by (auto simp: writes_def insert_tx_label_map_def kept_def dest: tx_label_maps.insert_put_ok
      intro: db_keeps_trans [OF _ db_grows_keeps])

lemma kept_put:
  assumes "\<And>db t n. db_ok db \<Longrightarrow> w db = Ok (t, n) \<Longrightarrow> db_ok (put t db) \<and> db_keeps db (put t db)"
  shows "writes (kept db0) (\<lambda>db. bind_result (w db) (\<lambda>(t, n). Ok (put t db, n)))"
  by (rule writes_put) (metis assms kept_def kept_step)

lemma update_transaction_keeps_kept: "tx_fields_only tp \<Longrightarrow> writes (kept db0) (update_transaction now i tp)"
  unfolding update_transaction_def [abs_def]
  by (rule kept_put, rule conjI; rule transactions.update_id_keeps, assumption+; simp add: apply_facts)

lemma update_output_keeps_kept: "output_fields_only op \<Longrightarrow> writes (kept db0) (update_output now i op)"
  unfolding update_output_def [abs_def]
  by (rule kept_put, rule conjI; rule outputs.update_id_keeps, assumption+; simp add: apply_facts)

lemma update_request_keeps_kept: "prp_txid rp = None \<Longrightarrow> writes (kept db0) (update_proven_tx_req now i rp)"
  unfolding update_proven_tx_req_def [abs_def]
  by (rule kept_put, rule conjI; rule proven_tx_reqs.update_id_keeps, assumption+; simp add: apply_facts)

lemmas update_keeps_kept = update_transaction_keeps_kept update_output_keeps_kept update_request_keeps_kept

lemma claims_keep_kept:
  "writes (kept db0) (mark_inputs_spent now ids i u)" "writes (kept db0) (release_inputs_spent_by now ids i)"
  unfolding mark_inputs_spent_def [abs_def] release_inputs_spent_by_def [abs_def]
  by (rule writes_if, rule kept_put, rule conjI; rule outputs.update_id_keeps, assumption+; simp add: apply_facts)+

interpretation rows: action_invariant "kept db0"
  by unfold_locales
    (intro insert_keeps_kept insert_label_map_keeps_kept find_or_insert_user_keeps update_keeps_kept
      claims_keep_kept; assumption)+

section \<open>Steps of the wallet\<close>

inductive wallet_step :: "database \<Rightarrow> database \<Rightarrow> bool" where
  create: "wallet_step db (snd (create_action sdk en now identity_key args db))"
| process: "wallet_step db (snd (process_action batch now identity_key pargs db))"
| abort: "wallet_step db (snd (abort_action cd sdk now identity_key reference db))"
| sent: "wallet_step db (snd (apply_success_or_orphan_outcome now txid outcome db))"
| retry: "wallet_step db (snd (apply_service_error_outcome now txid db))"
| failed: "wallet_step db (snd (handle_permanent_broadcast_failure sv now txid outcome db))"

text \<open>The steps keep whatever every statement of the methods keeps.\<close>

context action_invariant
begin

lemma wallet_step_keeps: "wallet_step db db' \<Longrightarrow> I db \<Longrightarrow> I db'"
proof (induction rule: wallet_step.induct)
  case (retry db now txid)
  have "preserves I (apply_service_error_outcome now txid)"
    unfolding apply_service_error_outcome_def by (intro keeps)
  then show ?case using retry by (simp add: preserves_def)
qed (use create_action_keeps process_action_keeps abort_action_keeps success_or_orphan_keeps
    permanent_failure_keeps in \<open>simp_all add: preserves_def\<close>)

lemma reachable_keeps: "wallet_step\<^sup>*\<^sup>* db db' \<Longrightarrow> I db \<Longrightarrow> I db'"
  by (induction rule: rtranclp_induct) (auto intro: wallet_step_keeps)

end

section \<open>Properties\<close>

text \<open>
  C18: The wallet is safe along every run. Whatever calls of createAction, processAction,
  abortAction and the broadcast outcome handlers follow each other, with whatever arguments,
  service answers and errors: a database that satisfies its constraints and whose spendable
  outputs have no spender leads only to such databases, and no row of any table is lost or
  changes its identity (for an output, its id, its transaction and its position).
\<close>

theorem wallet_runs_safe:
  assumes "wallet_step\<^sup>*\<^sup>* db db'" and "db_ok db" and "spends_ok db"
  shows "db_ok db' \<and> spends_ok db' \<and> db_keeps db db'"
  using spends.reachable_keeps [OF assms(1)] rows.reachable_keeps [OF assms(1), of db] assms(2,3)
  by (simp add: kept_def)

lemma sample_wallet_spends: "spends_ok sample_wallet"
proof -
  have "list_all (\<lambda>r. ou_spendable r \<longrightarrow> ou_spent_by r = None) (output_rows sample_wallet)" by code_simp
  then show ?thesis by (simp add: spends_ok_def list_all_iff)
qed

lemma sample_user_found:
  "writeD (find_or_insert_user 0 ''me'') sample_wallet =
     (Ok (hd (tb_rows (db_users sample_wallet)), False), sample_wallet)"
  "us_user_id (hd (tb_rows (db_users sample_wallet))) = 1"
  by code_simp+

theorem wallet_runs_safe_witness:
  "\<exists>r db'. create_action sample_sdk sample_entropy 0 ''me'' (sample_action 5000 []) sample_wallet =
      (Ok r, sample_created 5000 [4979]) \<and>
    db' = snd (abort_action sample_codec sample_sdk 7 ''me'' [114, 101, 102] (sample_created 5000 [4979])) \<and>
    wallet_step\<^sup>*\<^sup>* sample_wallet db' \<and> db_ok sample_wallet \<and> spends_ok sample_wallet \<and>
    db_ok db' \<and> spends_ok db' \<and> db_keeps sample_wallet db'"
proof -
  let ?db' = "snd (abort_action sample_codec sample_sdk 7 ''me'' [114, 101, 102] (sample_created 5000 [4979]))"
  obtain r where "storage_create_action sample_sdk sample_entropy 0 1 (sample_action 5000 []) sample_wallet =
      (Ok r, sample_created 5000 [4979])"
    by (rule sample_result [OF sample_runs_5000])
  then have r: "create_action sample_sdk sample_entropy 0 ''me'' (sample_action 5000 []) sample_wallet =
      (Ok r, sample_created 5000 [4979])"
    by (simp add: create_action_def bindD_def sample_user_found)
  have "wallet_step sample_wallet (sample_created 5000 [4979])"
    using wallet_step.create [of sample_wallet sample_sdk sample_entropy 0 "''me''" "sample_action 5000 []"]
    by (simp add: r)
  then have run: "wallet_step\<^sup>*\<^sup>* sample_wallet ?db'"
    using wallet_step.abort by (meson rtranclp.rtrancl_into_rtrancl rtranclp.rtrancl_refl)
  show ?thesis
    using wallet_runs_safe [OF run sample_wallet_ok sample_wallet_spends] r run sample_wallet_ok
      sample_wallet_spends by blast
qed

end
