(* ===== verification/BeefBuild.thy ===== *)
theory BeefBuild
  imports CreateAction BroadcastOutcome WalletErrors
begin

text \<open>
  Building the proof package (BEEF) of a transaction from the rows of the wallet
  (\<open>src/storage/beef.rs\<close>) and merging the packages of the inputs of a new action
  (\<open>merge_input_beef\<close> of \<open>src/storage/methods/create_action.rs\<close>). The walk along the inputs is a
  recursion with a bound on its depth; out of bound is \<open>None\<close>. The package itself, its merging and
  its binary form belong to the \<open>bsv\<close> crate: a package is a value of the type variable \<open>'b\<close>, a merkle
  path of the type variable \<open>'m\<close>, and the operations are the argument \<open>beef_sdk\<close>. The two copies of
  the walk in the source, for the two storage traits, are one definition here.
\<close>

section \<open>The library\<close>

record ('b, 'm) beef_sdk =
  bk_new :: 'b
  bk_find_txid :: "string \<Rightarrow> 'b \<Rightarrow> bool"
  bk_push_txid :: "string \<Rightarrow> 'b \<Rightarrow> 'b"
  bk_parse_path :: "u8 list \<Rightarrow> string + 'm"
  bk_merge_bump :: "'m \<Rightarrow> 'b \<Rightarrow> string + ('b \<times> nat)"
  bk_merge_raw_tx :: "u8 list \<Rightarrow> nat option \<Rightarrow> 'b \<Rightarrow> string + 'b"
  bk_merge_binary :: "u8 list \<Rightarrow> 'b \<Rightarrow> string + 'b"
  bk_sort_txs :: "'b \<Rightarrow> 'b"
  bk_tx_count :: "'b \<Rightarrow> nat"
  bk_to_binary :: "'b \<Rightarrow> string + u8 list"
  bk_from_binary :: "u8 list \<Rightarrow> string + 'b"

section \<open>Collecting the transactions\<close>

datatype trust_self = TrustKnown | TrustKnownAndNew | TrustNo

record collected_tx =
  ct_raw_tx :: "u8 list"
  ct_txid :: string
  ct_merkle_path :: "u8 list option"
  ct_txid_only :: bool
  ct_input_beef :: "u8 list option"

record walk =
  wk_collected :: "collected_tx list"
  wk_visited :: "string set"

definition txid_only :: "string \<Rightarrow> collected_tx" where
  "txid_only txid = \<lparr>ct_raw_tx = [], ct_txid = txid, ct_merkle_path = None, ct_txid_only = True,
     ct_input_beef = None\<rparr>"

definition collect :: "collected_tx \<Rightarrow> walk \<Rightarrow> walk" where
  "collect c w = w\<lparr>wk_collected := wk_collected w @ [c]\<rparr>"

definition visit :: "string \<Rightarrow> walk \<Rightarrow> walk" where
  "visit txid w = w\<lparr>wk_visited := insert txid (wk_visited w)\<rparr>"

definition proven_of :: "string \<Rightarrow> database \<Rightarrow> proven_tx list" where
  "proven_of txid = find_proven_txs (find_proven_txs_default\<lparr>pta_partial :=
     proven_tx_partial_default\<lparr>ptp_txid := Some txid\<rparr>\<rparr>)"

definition proven_leaf :: "trust_self \<Rightarrow> string \<Rightarrow> proven_tx \<Rightarrow> collected_tx" where
  "proven_leaf trust txid ptx =
     (if trust = TrustKnown then txid_only txid
      else \<lparr>ct_raw_tx = pt_raw_tx ptx, ct_txid = txid, ct_merkle_path = Some (pt_merkle_path ptx),
        ct_txid_only = False, ct_input_beef = None\<rparr>)"

definition unproven_node :: "string \<Rightarrow> u8 list \<Rightarrow> transaction \<Rightarrow> collected_tx" where
  "unproven_node txid raw tx = \<lparr>ct_raw_tx = raw, ct_txid = txid, ct_merkle_path = None, ct_txid_only = False,
     ct_input_beef = (case tx_input_beef tx of None \<Rightarrow> None | Some ib \<Rightarrow> if ib = [] then None else Some ib)\<rparr>"

definition collect_if_known :: "string set \<Rightarrow> string \<Rightarrow> walk \<Rightarrow> walk" where
  "collect_if_known known txid w = (if txid \<in> known then collect (txid_only txid) w else w)"

function collect_tx_recursive ::
    "sdk \<Rightarrow> database \<Rightarrow> trust_self \<Rightarrow> string set \<Rightarrow> nat \<Rightarrow> string \<Rightarrow> walk \<Rightarrow> walk wallet_result option"
  and collect_inputs ::
    "sdk \<Rightarrow> database \<Rightarrow> trust_self \<Rightarrow> string set \<Rightarrow> nat \<Rightarrow> sdk_input list \<Rightarrow> walk \<Rightarrow> walk wallet_result option" where
  "collect_tx_recursive sdk db trust known 0 txid w = None"
| "collect_tx_recursive sdk db trust known (Suc n) txid w =
     (if txid \<in> wk_visited w then Some (Ok w)
      else
        (case proven_of txid db of
           ptx # _ \<Rightarrow> Some (Ok (collect (proven_leaf trust txid ptx) (visit txid w)))
         | [] \<Rightarrow>
             (case transactions_of txid db of
                [] \<Rightarrow> Some (Ok (collect_if_known known txid (visit txid w)))
              | tx # _ \<Rightarrow>
                  if trust = TrustKnown then Some (Ok (collect (txid_only txid) (visit txid w)))
                  else
                    (case tx_raw_tx tx of
                       None \<Rightarrow> Some (Ok (collect_if_known known txid (visit txid w)))
                     | Some raw \<Rightarrow>
                         (case sdk_parse_tx sdk raw of
                            Inl e \<Rightarrow> Some (Err (Internal (''Failed to parse raw_tx for '' @ txid @ '': '' @ e)))
                          | Inr parsed \<Rightarrow>
                              (case collect_inputs sdk db trust known n (xt_inputs parsed) (visit txid w) of
                                 None \<Rightarrow> None
                               | Some (Inl e) \<Rightarrow> Some (Err e)
                               | Some (Inr w') \<Rightarrow> Some (Ok (collect (unproven_node txid raw tx) w'))))))))"
| "collect_inputs sdk db trust known n [] w = Some (Ok w)"
| "collect_inputs sdk db trust known n (x # xs) w =
     (case xi_source_txid x of
        None \<Rightarrow> collect_inputs sdk db trust known n xs w
      | Some source \<Rightarrow>
          if source \<in> wk_visited w then collect_inputs sdk db trust known n xs w
          else if source \<in> known
          then collect_inputs sdk db trust known n xs (collect (txid_only source) (visit source w))
          else
            (case collect_tx_recursive sdk db trust known n source w of
               None \<Rightarrow> None
             | Some (Inl e) \<Rightarrow> Some (Err e)
             | Some (Inr w') \<Rightarrow> collect_inputs sdk db trust known n xs w'))"
  by pat_completeness auto
termination
  by (relation "measures [\<lambda>x. case x of Inl (_, _, _, _, n, _, _) \<Rightarrow> n | Inr (_, _, _, _, n, _, _) \<Rightarrow> n,
      \<lambda>x. case x of Inl _ \<Rightarrow> 0 | Inr (_, _, _, _, _, xs, _) \<Rightarrow> Suc (length xs)]") auto

section \<open>Assembling the package\<close>

definition relabel :: "string \<Rightarrow> string + 'a \<Rightarrow> 'a wallet_result" where
  "relabel what r = (case r of Inl e \<Rightarrow> Err (Internal (what @ '': '' @ e)) | Inr x \<Rightarrow> Ok x)"

definition merge_collected :: "('b, 'm) beef_sdk \<Rightarrow> collected_tx \<Rightarrow> 'b \<Rightarrow> 'b wallet_result" where
  "merge_collected bk c beef =
     (if ct_txid_only c then
        Ok (if bk_find_txid bk (ct_txid c) beef then beef else bk_push_txid bk (ct_txid c) beef)
      else
        bind_result (case ct_merkle_path c of
            None \<Rightarrow> Ok (beef, None)
          | Some path \<Rightarrow>
              bind_result (relabel (''Failed to parse merkle_path for '' @ ct_txid c) (bk_parse_path bk path)) (\<lambda>mp.
              bind_result (relabel (''Failed to merge bump for '' @ ct_txid c) (bk_merge_bump bk mp beef)) (\<lambda>(beef, i).
                Ok (beef, Some i)))) (\<lambda>(beef, bump_index).
        bind_result (relabel (''Failed to merge raw_tx for '' @ ct_txid c)
            (bk_merge_raw_tx bk (ct_raw_tx c) bump_index beef)) (\<lambda>beef.
        case ct_input_beef c of
          None \<Rightarrow> Ok beef
        | Some ib \<Rightarrow> relabel (''Failed to merge stored inputBEEF for '' @ ct_txid c) (bk_merge_binary bk ib beef))))"

fun merge_all :: "('b, 'm) beef_sdk \<Rightarrow> collected_tx list \<Rightarrow> 'b \<Rightarrow> 'b wallet_result" where
  "merge_all bk [] beef = Ok beef"
| "merge_all bk (c # cs) beef = bind_result (merge_collected bk c beef) (merge_all bk cs)"

definition build_beef_from_collected :: "('b, 'm) beef_sdk \<Rightarrow> collected_tx list \<Rightarrow> u8 list option wallet_result" where
  "build_beef_from_collected bk collected =
     (if collected = [] then Ok None
      else
        bind_result (merge_all bk collected (bk_new bk)) (\<lambda>beef.
        bind_result (relabel ''Failed to serialize BEEF'' (bk_to_binary bk (bk_sort_txs bk beef))) (\<lambda>bytes.
          Ok (Some bytes))))"

text \<open>
  The depth bound: every transaction on the path of the walk is a different row of the transactions
  table, and one level is for the leaf.
\<close>

definition walk_bound :: "database \<Rightarrow> nat" where
  "walk_bound db = length (tb_rows (db_transactions db)) + 1"

definition get_valid_beef_for_txid ::
  "sdk \<Rightarrow> ('b, 'm) beef_sdk \<Rightarrow> database \<Rightarrow> string \<Rightarrow> trust_self \<Rightarrow> string set \<Rightarrow> u8 list option wallet_result option" where
  "get_valid_beef_for_txid sdk bk db txid trust known =
     (case collect_tx_recursive sdk db trust known (walk_bound db) txid \<lparr>wk_collected = [], wk_visited = {}\<rparr> of
        None \<Rightarrow> None
      | Some (Inl e) \<Rightarrow> Some (Err e)
      | Some (Inr w) \<Rightarrow> Some (build_beef_from_collected bk (wk_collected w)))"

definition get_beef_for_transaction ::
  "sdk \<Rightarrow> ('b, 'm) beef_sdk \<Rightarrow> database \<Rightarrow> string \<Rightarrow> string set \<Rightarrow> 'b wallet_result option" where
  "get_beef_for_transaction sdk bk db txid known =
     map_option (\<lambda>r. bind_result r (\<lambda>found.
       case found of
         None \<Rightarrow> Err (Internal (''getBeefForTransaction: storage cannot hydrate a BEEF for '' @ txid @
           '' (not proven and no stored transaction)''))
       | Some bytes \<Rightarrow> relabel (''getBeefForTransaction: hydrated BEEF for '' @ txid @ '' failed to parse'')
           (bk_from_binary bk bytes)))
     (get_valid_beef_for_txid sdk bk db txid TrustNo known)"

section \<open>The packages of the inputs of an action\<close>

fun merge_inputs ::
  "sdk \<Rightarrow> ('b, 'm) beef_sdk \<Rightarrow> database \<Rightarrow> create_sdk_input list \<Rightarrow> string set \<Rightarrow> 'b \<Rightarrow> 'b wallet_result option" where
  "merge_inputs sdk bk db [] known beef = Some (Ok beef)"
| "merge_inputs sdk bk db (inp # inps) known beef =
     (let txid = csi_source_txid inp
      in if txid \<noteq> [] \<and> \<not> bk_find_txid bk txid beef then
           (case get_valid_beef_for_txid sdk bk db txid TrustNo known of
              None \<Rightarrow> None
            | Some (Inl e) \<Rightarrow>
                Some (Err (Internal (''Failed to fetch BEEF for input '' @ txid @ '': '' @ error_display e)))
            | Some (Inr None) \<Rightarrow>
                Some (Err (Internal (''No BEEF ancestry available for input '' @ txid @
                  '': not in the provided inputBEEF and storage cannot produce its transaction (fail closed '' @
                  ''rather than return a partial BEEF)'')))
            | Some (Inr (Some bytes)) \<Rightarrow>
                (case bk_merge_binary bk bytes beef of
                   Inl e \<Rightarrow> Some (Err (Internal (''Failed to merge BEEF for input '' @ txid @ '': '' @ e)))
                 | Inr beef' \<Rightarrow> merge_inputs sdk bk db inps (insert txid known) beef'))
         else merge_inputs sdk bk db inps known beef)"


definition merge_input_beef ::
  "sdk \<Rightarrow> ('b, 'm) beef_sdk \<Rightarrow> database \<Rightarrow> create_action_result \<Rightarrow> create_action_result wallet_result option" where
  "merge_input_beef sdk bk db result =
     (case (case car_input_beef result of
         None \<Rightarrow> Ok (bk_new bk)
       | Some ib \<Rightarrow>
           if ib = [] then Ok (bk_new bk)
           else relabel (''Failed to merge caller-provided inputBEEF ('' @ show_nat (length ib) @ '' bytes)'')
             (bk_merge_binary bk ib (bk_new bk))) of
        Inl e \<Rightarrow> Some (Err e)
      | Inr beef \<Rightarrow>
          (case merge_inputs sdk bk db (car_inputs result) {} beef of
             None \<Rightarrow> None
           | Some (Inl e) \<Rightarrow> Some (Err e)
           | Some (Inr beef) \<Rightarrow>
               Some (if bk_tx_count bk beef = 0 then Ok (result\<lparr>car_input_beef := None\<rparr>)
                 else (case bk_to_binary bk beef of
                   Inl e \<Rightarrow> Err (Internal (''Failed to serialize merged BEEF ('' @
                       show_nat (bk_tx_count bk beef) @ '' txs): '' @ e))
                 | Inr bytes \<Rightarrow> Ok (result\<lparr>car_input_beef := Some bytes\<rparr>)))))"

end
