(* ===== verification/BeefCorrect.thy ===== *)
theory BeefCorrect
  imports BeefBuild CreateExamples
begin

text \<open>
  The walk that collects a transaction and its unproven ancestors always ends within its depth
  bound; it collects no transaction twice and, since a transaction can not spend its own
  descendants, every ancestor that the storage can produce before the transactions that spend it.
\<close>

section \<open>The walk ends\<close>

definition stored_txids :: "database \<Rightarrow> string set" where
  "stored_txids db = {t. \<exists>tx \<in> set (tb_rows (db_transactions db)). tx_txid tx = Some t}"

definition unvisited :: "database \<Rightarrow> walk \<Rightarrow> nat" where
  "unvisited db w = card (stored_txids db - wk_visited w)"

lemma stored_txids_finite: "finite (stored_txids db)"
proof -
  have "stored_txids db \<subseteq> the ` tx_txid ` set (tb_rows (db_transactions db))"
    by (force simp: stored_txids_def)
  then show ?thesis by (rule finite_subset) simp
qed

lemma stored_txids_card: "card (stored_txids db) \<le> length (tb_rows (db_transactions db))"
proof -
  have "stored_txids db \<subseteq> set (map (\<lambda>tx. the (tx_txid tx)) (tb_rows (db_transactions db)))"
    by (force simp: stored_txids_def)
  then have "card (stored_txids db) \<le> card (set (map (\<lambda>tx. the (tx_txid tx)) (tb_rows (db_transactions db))))"
    by (rule card_mono [rotated]) simp
  also have "\<dots> \<le> length (map (\<lambda>tx. the (tx_txid tx)) (tb_rows (db_transactions db)))" by (rule card_length)
  finally show ?thesis by simp
qed

lemma found_stored:
  assumes "transactions_of txid db = tx # txs"
  shows "txid \<in> stored_txids db"
proof -
  have "tx \<in> set (transactions_of txid db)" by (simp add: assms)
  then show ?thesis
    by (auto simp: transactions_of_def find_transactions_def find_transactions_default_def transactions_where_def
        transaction_partial_default_def stored_txids_def)
qed

lemma walk_simps [simp]:
  "wk_visited (collect c w) = wk_visited w" "wk_visited (visit t w) = insert t (wk_visited w)"
  "wk_visited (collect_if_known known t w) = wk_visited w"
  "wk_collected (collect c w) = wk_collected w @ [c]" "wk_collected (visit t w) = wk_collected w"
  by (simp_all add: collect_def visit_def collect_if_known_def)

lemma unvisited_mono: "wk_visited w \<subseteq> wk_visited w' \<Longrightarrow> unvisited db w' \<le> unvisited db w"
  unfolding unvisited_def by (rule card_mono) (auto simp: stored_txids_finite)

lemma unvisited_visit:
  assumes "t \<in> stored_txids db" "t \<notin> wk_visited w"
  shows "unvisited db w = Suc (unvisited db (visit t w))"
proof -
  have "stored_txids db - wk_visited (visit t w) = stored_txids db - wk_visited w - {t}" by auto
  then show ?thesis
    using assms card.remove [of "stored_txids db - wk_visited w" t] by (simp add: unvisited_def stored_txids_finite)
qed

section \<open>Steps of the walk\<close>

definition is_leaf :: "collected_tx \<Rightarrow> bool" where
  "is_leaf c \<longleftrightarrow> ct_txid_only c \<or> ct_merkle_path c \<noteq> None"

definition unknown_tx :: "database \<Rightarrow> trust_self \<Rightarrow> string set \<Rightarrow> string \<Rightarrow> bool" where
  "unknown_tx db trust known t \<longleftrightarrow> t \<notin> known \<and> proven_of t db = [] \<and>
     (case transactions_of t db of [] \<Rightarrow> True | tx # _ \<Rightarrow> trust \<noteq> TrustKnown \<and> tx_raw_tx tx = None)"

text \<open>A stored transaction whose inputs are walked.\<close>

definition walked :: "sdk \<Rightarrow> database \<Rightarrow> trust_self \<Rightarrow> string \<Rightarrow> transaction \<Rightarrow> u8 list \<Rightarrow> sdk_tx \<Rightarrow> bool" where
  "walked sdk db trust t tx raw parsed \<longleftrightarrow> proven_of t db = [] \<and> (\<exists>txs. transactions_of t db = tx # txs) \<and>
     trust \<noteq> TrustKnown \<and> tx_raw_tx tx = Some raw \<and> sdk_parse_tx sdk raw = Inr parsed"

lemma walk_tx_cases:
  assumes "collect_tx_recursive sdk db trust known (Suc n) txid w = Some (Ok w')"
  obtains (seen) "txid \<in> wk_visited w" "w' = w"
  | (leaf) c where "txid \<notin> wk_visited w" "w' = collect c (visit txid w)" "ct_txid c = txid" "is_leaf c"
      "\<not> unknown_tx db trust known txid"
  | (missing) "txid \<notin> wk_visited w" "w' = visit txid w" "unknown_tx db trust known txid"
  | (node) tx raw parsed w1 where "txid \<notin> wk_visited w" "walked sdk db trust txid tx raw parsed"
      "collect_inputs sdk db trust known n (xt_inputs parsed) (visit txid w) = Some (Ok w1)"
      "w' = collect (unproven_node txid raw tx) w1"
proof (cases "txid \<in> wk_visited w")
  case True
  then have "w' = w" using assms by simp
  then show thesis using True seen by blast
next
  case new: False
  have leaf': "is_leaf (txid_only txid)" "ct_txid (txid_only txid) = txid"
    "is_leaf (proven_leaf trust txid ptx)" "ct_txid (proven_leaf trust txid ptx) = txid" for ptx
    by (simp_all add: is_leaf_def txid_only_def proven_leaf_def)
  have known: "thesis" if "w' = collect_if_known known txid (visit txid w)"
      "txid \<notin> known \<Longrightarrow> unknown_tx db trust known txid"
    using that new leaf missing leaf' by (auto simp: collect_if_known_def unknown_tx_def split: if_splits)
  show thesis
  proof (cases "proven_of txid db")
    case (Cons ptx rest)
    then show thesis using assms new leaf leaf' by (auto simp: unknown_tx_def)
  next
    case Nil
    show thesis
    proof (cases "transactions_of txid db")
      case none: Nil
      then show thesis using assms new Nil known by (auto simp: unknown_tx_def)
    next
      case (Cons tx txs)
      show thesis
      proof (cases "trust = TrustKnown")
        case True
        then show thesis using assms new Nil Cons leaf leaf' by (auto simp: unknown_tx_def)
      next
        case False
        show thesis
        proof (cases "tx_raw_tx tx")
          case None
          then show thesis using assms new Nil Cons False known by (auto simp: unknown_tx_def)
        next
          case (Some raw)
          then show thesis
            using assms new Nil Cons False node
            by (auto simp: walked_def split: sum.splits option.splits)
        qed
      qed
    qed
  qed
qed

lemma walk_tx_None:
  assumes "collect_tx_recursive sdk db trust known (Suc n) txid w = None"
  shows "txid \<notin> wk_visited w \<and> txid \<in> stored_txids db \<and>
    (\<exists>xs. collect_inputs sdk db trust known n xs (visit txid w) = None)"
  using assms found_stored [of txid db]
  by (auto split: if_splits list.splits option.splits sum.splits)

lemma walk_inputs_cases:
  assumes "collect_inputs sdk db trust known n (x # xs) w = Some (Ok w')"
  obtains (skip) "collect_inputs sdk db trust known n xs w = Some (Ok w')"
      "\<And>s. xi_source_txid x = Some s \<Longrightarrow> s \<in> wk_visited w"
  | (known) s where "xi_source_txid x = Some s" "s \<notin> wk_visited w" "s \<in> known"
      "collect_inputs sdk db trust known n xs (collect (txid_only s) (visit s w)) = Some (Ok w')"
  | (down) s w1 where "xi_source_txid x = Some s" "collect_tx_recursive sdk db trust known n s w = Some (Ok w1)"
      "collect_inputs sdk db trust known n xs w1 = Some (Ok w')"
  using assms by (auto split: option.splits if_splits sum.splits)

lemma walk_inputs_None:
  assumes "collect_inputs sdk db trust known n (x # xs) w = None"
  shows "(\<exists>w1. wk_visited w \<subseteq> wk_visited w1 \<and> collect_inputs sdk db trust known n xs w1 = None) \<or>
    (\<exists>s. collect_tx_recursive sdk db trust known n s w = None) \<or>
    (\<exists>s w1. collect_tx_recursive sdk db trust known n s w = Some (Ok w1) \<and>
       collect_inputs sdk db trust known n xs w1 = None)"
  using assms
  by (auto split: option.splits if_splits sum.splits
      intro: exI [of _ w] exI [of _ "collect (txid_only _) (visit _ w)"])

text \<open>The walk only adds to what it has visited.\<close>

lemma inputs_visit:
  assumes tx: "\<And>txid w w'. collect_tx_recursive sdk db trust known n txid w = Some (Ok w') \<Longrightarrow>
      insert txid (wk_visited w) \<subseteq> wk_visited w'"
  shows "collect_inputs sdk db trust known n xs w = Some (Ok w') \<Longrightarrow>
      wk_visited w \<union> {s. \<exists>x \<in> set xs. xi_source_txid x = Some s} \<subseteq> wk_visited w'"
proof (induction xs arbitrary: w)
  case (Cons x xs)
  from Cons.prems show ?case
  proof (cases rule: walk_inputs_cases)
    case skip
    then show ?thesis using Cons.IH [OF skip(1)] by auto
  next
    case (known s)
    then show ?thesis using Cons.IH [OF known(4)] by auto
  next
    case (down s w1)
    then show ?thesis using Cons.IH [OF down(3)] tx [OF down(2)] by auto
  qed
qed simp

lemma tx_visits:
  "collect_tx_recursive sdk db trust known n txid w = Some (Ok w') \<Longrightarrow> insert txid (wk_visited w) \<subseteq> wk_visited w'"
proof (induction n arbitrary: txid w w')
  case (Suc n)
  from Suc.prems show ?case
  proof (cases rule: walk_tx_cases)
    case (node tx raw parsed w1)
    then show ?thesis using inputs_visit [OF Suc.IH node(3)] by auto
  qed auto
qed simp

lemma inputs_visits:
  "collect_inputs sdk db trust known n xs w = Some (Ok w') \<Longrightarrow>
     wk_visited w \<union> {s. \<exists>x \<in> set xs. xi_source_txid x = Some s} \<subseteq> wk_visited w'"
  by (rule inputs_visit [OF tx_visits])

lemma inputs_return:
  assumes tx: "\<And>txid w. unvisited db w < n \<Longrightarrow> collect_tx_recursive sdk db trust known n txid w \<noteq> None"
  shows "unvisited db w < n \<Longrightarrow> collect_inputs sdk db trust known n xs w \<noteq> None"
proof (induction xs arbitrary: w)
  case (Cons x xs)
  have grow: "unvisited db w1 < n" if "wk_visited w \<subseteq> wk_visited w1" for w1
    using unvisited_mono [OF that, of db] Cons.prems by simp
  have "wk_visited w \<subseteq> wk_visited w1" if "collect_tx_recursive sdk db trust known n s w = Some (Ok w1)" for s w1
    using tx_visits [OF that] by blast
  then show ?case
    using walk_inputs_None [of sdk db trust known n x xs w] tx [OF Cons.prems] Cons.IH grow by blast
qed simp

lemma tx_returns: "unvisited db w < n \<Longrightarrow> collect_tx_recursive sdk db trust known n txid w \<noteq> None"
proof (induction n arbitrary: txid w)
  case (Suc n)
  show ?case
  proof
    assume "collect_tx_recursive sdk db trust known (Suc n) txid w = None"
    then obtain xs where x: "txid \<notin> wk_visited w" "txid \<in> stored_txids db"
        "collect_inputs sdk db trust known n xs (visit txid w) = None"
      using walk_tx_None by blast
    have "unvisited db (visit txid w) < n" using unvisited_visit [OF x(2,1)] Suc.prems by simp
    then show False using inputs_return [OF Suc.IH] x(3) by blast
  qed
qed simp

text \<open>
  C15: Building the proof package of a transaction always ends: the walk along the inputs of the
  stored transactions returns a result within a depth of the number of stored transactions plus
  one, whatever the transactions, also when they refer to each other in a cycle.
\<close>

theorem beef_walk_ends:
  "\<exists>r. get_valid_beef_for_txid sdk bk db txid trust known = Some r"
proof -
  have "unvisited db \<lparr>wk_collected = [], wk_visited = {}\<rparr> < walk_bound db"
    using stored_txids_card [of db] by (simp add: unvisited_def walk_bound_def)
  from tx_returns [OF this, of sdk trust known txid] obtain r where
    "collect_tx_recursive sdk db trust known (walk_bound db) txid \<lparr>wk_collected = [], wk_visited = {}\<rparr> = Some r" by auto
  then show ?thesis by (cases r) (simp_all add: get_valid_beef_for_txid_def)
qed


section \<open>Missing ancestors\<close>

lemma inputs_known:
  assumes tx: "\<And>txid w w'. collect_tx_recursive sdk db trust known n txid w = Some (Ok w') \<Longrightarrow>
      \<forall>c \<in> set (wk_collected w). \<not> unknown_tx db trust known (ct_txid c) \<Longrightarrow>
      \<forall>c \<in> set (wk_collected w'). \<not> unknown_tx db trust known (ct_txid c)"
  shows "collect_inputs sdk db trust known n xs w = Some (Ok w') \<Longrightarrow>
      \<forall>c \<in> set (wk_collected w). \<not> unknown_tx db trust known (ct_txid c) \<Longrightarrow>
      \<forall>c \<in> set (wk_collected w'). \<not> unknown_tx db trust known (ct_txid c)"
proof (induction xs arbitrary: w)
  case (Cons x xs)
  from Cons.prems(1) show ?case
  proof (cases rule: walk_inputs_cases)
    case skip
    then show ?thesis using Cons by simp
  next
    case (known s)
    show ?thesis
      by (rule Cons.IH [OF known(4)]) (use known(3) Cons.prems(2) in \<open>auto simp: txid_only_def unknown_tx_def\<close>)
  next
    case (down s w1)
    show ?thesis by (rule Cons.IH [OF down(3) tx [OF down(2) Cons.prems(2)]])
  qed
qed simp

lemma tx_collects_known:
  "collect_tx_recursive sdk db trust known n txid w = Some (Ok w') \<Longrightarrow>
     \<forall>c \<in> set (wk_collected w). \<not> unknown_tx db trust known (ct_txid c) \<Longrightarrow>
     \<forall>c \<in> set (wk_collected w'). \<not> unknown_tx db trust known (ct_txid c)"
proof (induction n arbitrary: txid w w')
  case (Suc n)
  from Suc.prems(1) show ?case
  proof (cases rule: walk_tx_cases)
    case (node tx raw parsed w1)
    have "\<forall>c \<in> set (wk_collected w1). \<not> unknown_tx db trust known (ct_txid c)"
      by (rule inputs_known [OF Suc.IH node(3)]) (use Suc.prems(2) in simp_all)
    moreover have "\<not> unknown_tx db trust known txid" using node(2) by (auto simp: walked_def unknown_tx_def)
    ultimately show ?thesis using node(4) by (simp add: unproven_node_def)
  qed (use Suc.prems(2) in auto)
qed simp

text \<open>The walk fails only at a stored raw transaction that can not be parsed.\<close>

definition unparsable :: "sdk \<Rightarrow> database \<Rightarrow> bool" where
  "unparsable sdk db \<longleftrightarrow> (\<exists>tx \<in> set (tb_rows (db_transactions db)). \<exists>raw m. tx_raw_tx tx = Some raw \<and> sdk_parse_tx sdk raw = Inl m)"

lemma inputs_error:
  assumes tx: "\<And>txid w. collect_tx_recursive sdk db trust known n txid w = Some (Err e) \<Longrightarrow> unparsable sdk db"
  shows "collect_inputs sdk db trust known n xs w = Some (Err e) \<Longrightarrow> unparsable sdk db"
proof (induction xs arbitrary: w)
  case (Cons x xs)
  then show ?case using tx by (auto split: option.splits if_splits sum.splits)
qed simp

lemma tx_error: "collect_tx_recursive sdk db trust known n txid w = Some (Err e) \<Longrightarrow> unparsable sdk db"
proof (induction n arbitrary: txid w)
  case (Suc n)
  have stored: "tx \<in> set (tb_rows (db_transactions db))" if "transactions_of txid db = tx # txs" for tx txs
  proof -
    have "tx \<in> set (transactions_of txid db)" by (simp add: that)
    then show ?thesis
      by (auto simp: transactions_of_def find_transactions_def find_transactions_default_def transactions_where_def)
  qed
  from Suc.prems show ?case
    using inputs_error [OF Suc.IH] stored
    by (auto simp: unparsable_def split: if_splits list.splits option.splits sum.splits)
qed simp

section \<open>Ancestors first\<close>

definition sources :: "sdk \<Rightarrow> collected_tx \<Rightarrow> string set" where
  "sources sdk c =
     (if is_leaf c then {}
      else (case sdk_parse_tx sdk (ct_raw_tx c) of
        Inl _ \<Rightarrow> {} | Inr p \<Rightarrow> {s. \<exists>x \<in> set (xt_inputs p). xi_source_txid x = Some s}))"

definition parents_first :: "sdk \<Rightarrow> (string \<Rightarrow> bool) \<Rightarrow> collected_tx list \<Rightarrow> bool" where
  "parents_first sdk absent L \<longleftrightarrow>
     (\<forall>i < length L. \<forall>s \<in> sources sdk (L ! i). s \<in> ct_txid ` set (take i L) \<or> absent s)"

lemma parents_first_snoc:
  "parents_first sdk absent (L @ [c]) \<longleftrightarrow>
     parents_first sdk absent L \<and> (\<forall>s \<in> sources sdk c. s \<in> ct_txid ` set L \<or> absent s)"
  by (auto simp: parents_first_def nth_append less_Suc_eq)

text \<open>A transaction names its parents by their hashes, so no stored transaction is its own ancestor.\<close>

definition parents_older :: "sdk \<Rightarrow> database \<Rightarrow> (string \<Rightarrow> nat) \<Rightarrow> bool" where
  "parents_older sdk db age \<longleftrightarrow>
     (\<forall>tx \<in> set (tb_rows (db_transactions db)). \<forall>t raw p.
        tx_txid tx = Some t \<longrightarrow> tx_raw_tx tx = Some raw \<longrightarrow> sdk_parse_tx sdk raw = Inr p \<longrightarrow>
        (\<forall>x \<in> set (xt_inputs p). \<forall>s. xi_source_txid x = Some s \<longrightarrow> age s < age t))"

definition walk_ok :: "sdk \<Rightarrow> (string \<Rightarrow> bool) \<Rightarrow> string set \<Rightarrow> walk \<Rightarrow> bool" where
  "walk_ok sdk absent open w \<longleftrightarrow>
     wk_visited w \<subseteq> open \<union> ct_txid ` set (wk_collected w) \<union> {t. absent t} \<and>
     ct_txid ` set (wk_collected w) \<subseteq> wk_visited w \<and> ct_txid ` set (wk_collected w) \<inter> open = {} \<and>
     distinct (map ct_txid (wk_collected w)) \<and> parents_first sdk absent (wk_collected w)"

lemma walk_ok_collect:
  assumes "walk_ok sdk absent open w" "ct_txid c \<notin> wk_visited w" "ct_txid c \<notin> open" "is_leaf c"
  shows "walk_ok sdk absent open (collect c (visit (ct_txid c) w))"
  using assms by (auto simp: walk_ok_def parents_first_snoc sources_def)

lemma walked_older:
  assumes "parents_older sdk db age" "walked sdk db trust t tx raw parsed" "x \<in> set (xt_inputs parsed)"
    "xi_source_txid x = Some s"
  shows "age s < age t"
proof -
  obtain txs where "transactions_of t db = tx # txs" using assms(2) by (auto simp: walked_def)
  then have "tx \<in> set (transactions_of t db)" by simp
  then have "tx \<in> set (tb_rows (db_transactions db))" "tx_txid tx = Some t"
    by (auto simp: transactions_of_def find_transactions_def find_transactions_default_def transactions_where_def
        transaction_partial_default_def)
  then show ?thesis using assms by (auto simp: parents_older_def walked_def)
qed

lemma inputs_ordered:
  assumes tx: "\<And>txid w w'. collect_tx_recursive sdk db trust known n txid w = Some (Ok w') \<Longrightarrow>
      walk_ok sdk (unknown_tx db trust known) open w \<Longrightarrow> \<forall>t \<in> open. age txid < age t \<Longrightarrow>
      walk_ok sdk (unknown_tx db trust known) open w'"
  shows "collect_inputs sdk db trust known n xs w = Some (Ok w') \<Longrightarrow>
      walk_ok sdk (unknown_tx db trust known) open w \<Longrightarrow>
      \<forall>x \<in> set xs. \<forall>s. xi_source_txid x = Some s \<longrightarrow> (\<forall>t \<in> open. age s < (age t :: nat)) \<Longrightarrow>
      walk_ok sdk (unknown_tx db trust known) open w'"
proof (induction xs arbitrary: w)
  case (Cons x xs)
  from Cons.prems(1) show ?case
  proof (cases rule: walk_inputs_cases)
    case skip
    then show ?thesis using Cons by simp
  next
    case (known s)
    have "walk_ok sdk (unknown_tx db trust known) open (collect (txid_only s) (visit s w))"
      using walk_ok_collect [OF Cons.prems(2), of "txid_only s"] known Cons.prems(3)
      by (auto simp: txid_only_def is_leaf_def)
    then show ?thesis using Cons.IH [OF known(4)] Cons.prems(3) by simp
  next
    case (down s w1)
    have "walk_ok sdk (unknown_tx db trust known) open w1"
      using tx [OF down(2) Cons.prems(2)] Cons.prems(3) down(1) by auto
    then show ?thesis using Cons.IH [OF down(3)] Cons.prems(3) by simp
  qed
qed simp

lemma walk_ok_node:
  assumes ok: "walk_ok sdk absent (insert txid open) w" and "txid \<notin> open"
    and src: "\<forall>s \<in> sources sdk c. s \<in> wk_visited w \<and> s \<notin> insert txid open"
    and c: "ct_txid c = txid" "txid \<in> wk_visited w"
  shows "walk_ok sdk absent open (collect c w)"
proof -
  have "\<forall>s \<in> sources sdk c. s \<in> ct_txid ` set (wk_collected w) \<or> absent s"
    using ok src by (auto simp: walk_ok_def)
  then show ?thesis using ok assms(2) c by (auto simp: walk_ok_def parents_first_snoc)
qed

lemma tx_ordered:
  assumes age: "parents_older sdk db age"
  shows "collect_tx_recursive sdk db trust known n txid w = Some (Ok w') \<Longrightarrow>
      walk_ok sdk (unknown_tx db trust known) open w \<Longrightarrow> \<forall>t \<in> open. age txid < age t \<Longrightarrow>
      walk_ok sdk (unknown_tx db trust known) open w'"
proof (induction n arbitrary: txid w w' "open")
  case (Suc n)
  have "txid \<notin> open" using Suc.prems(3) by auto
  from Suc.prems(1) show ?case
  proof (cases rule: walk_tx_cases)
    case seen
    then show ?thesis using Suc.prems by simp
  next
    case (leaf c)
    then show ?thesis using walk_ok_collect [OF Suc.prems(2), of c] \<open>txid \<notin> open\<close> by simp
  next
    case missing
    then show ?thesis using Suc.prems(2) by (auto simp: walk_ok_def)
  next
    case (node tx raw parsed w1)
    let ?open = "insert txid open"
    have younger: "\<forall>x \<in> set (xt_inputs parsed). \<forall>s. xi_source_txid x = Some s \<longrightarrow> (\<forall>t \<in> ?open. age s < age t)"
      using walked_older [OF age node(2)] Suc.prems(3) by (auto intro: less_trans)
    have "walk_ok sdk (unknown_tx db trust known) ?open (visit txid w)"
      using Suc.prems(2) node(1) by (auto simp: walk_ok_def)
    from inputs_ordered [OF Suc.IH node(3) this younger]
    have ok1: "walk_ok sdk (unknown_tx db trust known) ?open w1" .
    have "sources sdk (unproven_node txid raw tx) = {s. \<exists>x \<in> set (xt_inputs parsed). xi_source_txid x = Some s}"
      using node(2) by (simp add: sources_def is_leaf_def unproven_node_def walked_def)
    moreover have "s \<in> wk_visited w1 \<and> s \<notin> ?open" if "x \<in> set (xt_inputs parsed)" "xi_source_txid x = Some s" for x s
    proof
      show "s \<in> wk_visited w1" using inputs_visits [OF node(3)] that by auto
      show "s \<notin> ?open"
      proof
        assume "s \<in> ?open"
        then have "age s < age s" using younger that by blast
        then show False by simp
      qed
    qed
    ultimately have "\<forall>s \<in> sources sdk (unproven_node txid raw tx). s \<in> wk_visited w1 \<and> s \<notin> ?open" by blast
    moreover have "txid \<in> wk_visited w1" using inputs_visits [OF node(3)] by auto
    ultimately show ?thesis
      using walk_ok_node [OF ok1 \<open>txid \<notin> open\<close>, of "unproven_node txid raw tx"] node(4) by (simp add: unproven_node_def)
  qed
qed simp


section \<open>An example\<close>

text \<open>
  The byte of a raw transaction is its number, and transaction two spends transaction one; a package
  is the list of the raw transactions merged into it.
\<close>

definition chain_sdk :: sdk where
  "chain_sdk = \<lparr>sdk_merge_beef = (\<lambda>_. Inl []), sdk_parse_tx = (\<lambda>raw. Inr \<lparr>xt_inputs =
     (if raw = [2] then [\<lparr>xi_source_txid = Some ''t1'', xi_source_output_index = 0\<rparr>] else []), xt_outputs = []\<rparr>)\<rparr>"

definition chain_beef :: "(u8 list, unit) beef_sdk" where
  "chain_beef = \<lparr>bk_new = [], bk_find_txid = (\<lambda>_ _. False), bk_push_txid = (\<lambda>_ b. b), bk_parse_path = (\<lambda>_. Inr ()),
     bk_merge_bump = (\<lambda>_ b. Inr (b, 0)), bk_merge_raw_tx = (\<lambda>raw _ b. Inr (b @ raw)), bk_merge_binary = (\<lambda>_ b. Inr b),
     bk_sort_txs = (\<lambda>b. b), bk_tx_count = length, bk_to_binary = Inr, bk_from_binary = Inr\<rparr>"

definition chain_row :: "int \<Rightarrow> string \<Rightarrow> u8 list \<Rightarrow> transaction" where
  "chain_row i txid raw = sample_out_tx\<lparr>tx_transaction_id := i, tx_reference := txid, tx_txid := Some txid,
     tx_raw_tx := Some raw\<rparr>"

definition chain_db :: "transaction list \<Rightarrow> database" where
  "chain_db rows = empty_database\<lparr>db_transactions := \<lparr>tb_rows = rows, tb_seq = 2\<rparr>\<rparr>"

definition chain_age :: "string \<Rightarrow> nat" where
  "chain_age t = (if t = ''t2'' then 1 else 0)"

lemma chain_walk:
  "map_option (map_sum id (\<lambda>w. map ct_txid (wk_collected w)))
     (collect_tx_recursive chain_sdk (chain_db [chain_row 1 ''t1'' [1], chain_row 2 ''t2'' [2]]) TrustNo {} 3 ''t2''
       \<lparr>wk_collected = [], wk_visited = {}\<rparr>) = Some (Inr [''t1'', ''t2''])"
  by code_simp

section \<open>Properties\<close>

text \<open>
  C10: The package of a transaction lists ancestors first. Since no stored transaction is its own
  ancestor, the walk collects no txid twice, and every source transaction of a collected unproven
  transaction stands before it, unless the storage has neither a proof nor the raw form of it and
  the caller does not know it.
\<close>

theorem beef_ancestors_first:
  assumes "collect_tx_recursive sdk db trust known n txid \<lparr>wk_collected = [], wk_visited = {}\<rparr> = Some (Ok w)"
    and "parents_older sdk db age"
  shows "distinct (map ct_txid (wk_collected w)) \<and> parents_first sdk (unknown_tx db trust known) (wk_collected w) \<and>
    (unknown_tx db trust known txid \<or> txid \<in> ct_txid ` set (wk_collected w))"
proof -
  have "walk_ok sdk (unknown_tx db trust known) {} \<lparr>wk_collected = [], wk_visited = {}\<rparr>"
    by (simp add: walk_ok_def parents_first_def)
  then have "walk_ok sdk (unknown_tx db trust known) {} w"
    using tx_ordered [OF assms(2,1), of "{}"] by simp
  then show ?thesis using tx_visits [OF assms(1)] by (auto simp: walk_ok_def)
qed

theorem beef_ancestors_first_witness:
  "\<exists>w. collect_tx_recursive chain_sdk (chain_db [chain_row 1 ''t1'' [1], chain_row 2 ''t2'' [2]]) TrustNo {} 3 ''t2''
       \<lparr>wk_collected = [], wk_visited = {}\<rparr> = Some (Ok w) \<and>
     parents_older chain_sdk (chain_db [chain_row 1 ''t1'' [1], chain_row 2 ''t2'' [2]]) chain_age \<and>
     map ct_txid (wk_collected w) = [''t1'', ''t2''] \<and>
     parents_first chain_sdk (unknown_tx (chain_db [chain_row 1 ''t1'' [1], chain_row 2 ''t2'' [2]]) TrustNo {})
       (wk_collected w)"
proof -
  let ?db = "chain_db [chain_row 1 ''t1'' [1], chain_row 2 ''t2'' [2]]"
  obtain w where w: "collect_tx_recursive chain_sdk ?db TrustNo {} 3 ''t2'' \<lparr>wk_collected = [], wk_visited = {}\<rparr> =
      Some (Ok w)" "map ct_txid (wk_collected w) = [''t1'', ''t2'']"
    using chain_walk by (cases "collect_tx_recursive chain_sdk ?db TrustNo {} 3 ''t2'' \<lparr>wk_collected = [], wk_visited = {}\<rparr>";
        cases "the (collect_tx_recursive chain_sdk ?db TrustNo {} 3 ''t2'' \<lparr>wk_collected = [], wk_visited = {}\<rparr>)")
      simp_all
  have "parents_older chain_sdk ?db chain_age"
    by (auto simp: parents_older_def chain_db_def chain_row_def chain_sdk_def chain_age_def)
  then show ?thesis using beef_ancestors_first [OF w(1), of chain_age] w by (intro exI [of _ w]) simp
qed

text \<open>
  C40: A missing ancestor never makes the construction of a package fail, although the functions are
  documented to fail closed and never to return a partial package. When all stored raw transactions can
  be parsed, the walk succeeds whatever ancestors the storage lacks, it leaves out every transaction
  that is neither proven, nor stored with its raw form, nor known to the caller, and
  \<open>get_beef_for_transaction\<close> returns whatever the SDK assembles and parses from the rest.
\<close>

theorem partial_beef_returned:
  assumes "\<forall>tx \<in> set (tb_rows (db_transactions db)). \<forall>raw. tx_raw_tx tx = Some raw \<longrightarrow> (\<exists>p. sdk_parse_tx sdk raw = Inr p)"
  shows "\<exists>w. collect_tx_recursive sdk db TrustNo known (walk_bound db) txid \<lparr>wk_collected = [], wk_visited = {}\<rparr> = Some (Ok w) \<and>
    (\<forall>c \<in> set (wk_collected w). \<not> unknown_tx db TrustNo known (ct_txid c)) \<and>
    (\<forall>bytes beef. build_beef_from_collected bk (wk_collected w) = Ok (Some bytes) \<longrightarrow> bk_from_binary bk bytes = Inr beef \<longrightarrow>
       get_beef_for_transaction sdk bk db txid known = Some (Ok beef))"
proof -
  let ?w = "\<lparr>wk_collected = [], wk_visited = {}\<rparr>"
  have "unvisited db ?w < walk_bound db"
    using stored_txids_card [of db] by (simp add: unvisited_def walk_bound_def)
  from tx_returns [OF this, of sdk TrustNo known txid] obtain r where
    r: "collect_tx_recursive sdk db TrustNo known (walk_bound db) txid ?w = Some r" by auto
  have "r \<noteq> Err e" for e using tx_error [of sdk db TrustNo known "walk_bound db" txid ?w e] r assms by (fastforce simp: unparsable_def)
  then obtain w where w: "collect_tx_recursive sdk db TrustNo known (walk_bound db) txid ?w = Some (Ok w)"
    using r by (cases r) auto
  moreover have "\<forall>c \<in> set (wk_collected w). \<not> unknown_tx db TrustNo known (ct_txid c)"
    by (rule tx_collects_known [OF w]) simp
  moreover have "get_beef_for_transaction sdk bk db txid known = Some (Ok beef)"
    if "build_beef_from_collected bk (wk_collected w) = Ok (Some bytes)" "bk_from_binary bk bytes = Inr beef" for bytes beef
    using w that by (simp add: get_beef_for_transaction_def get_valid_beef_for_txid_def relabel_def)
  ultimately show ?thesis by blast
qed

theorem partial_beef_returned_witness:
  "unknown_tx (chain_db [chain_row 2 ''t2'' [2]]) TrustNo {} ''t1'' \<and>
   get_beef_for_transaction chain_sdk chain_beef (chain_db [chain_row 2 ''t2'' [2]]) ''t2'' {} = Some (Ok [2])"
proof -
  let ?db = "chain_db [chain_row 2 ''t2'' [2]]" and ?w0 = "\<lparr>wk_collected = [], wk_visited = {}\<rparr>"
  have parses: "\<forall>tx \<in> set (tb_rows (db_transactions ?db)). \<forall>raw. tx_raw_tx tx = Some raw \<longrightarrow> (\<exists>p. sdk_parse_tx chain_sdk raw = Inr p)"
    by (simp add: chain_sdk_def)
  have walk: "collect_tx_recursive chain_sdk ?db TrustNo {} (walk_bound ?db) ''t2'' ?w0 =
      Some (Ok \<lparr>wk_collected = [unproven_node ''t2'' [2] (chain_row 2 ''t2'' [2])], wk_visited = {''t1'', ''t2''}\<rparr>)" by code_simp
  have built: "build_beef_from_collected chain_beef [unproven_node ''t2'' [2] (chain_row 2 ''t2'' [2])] = Ok (Some [2])"
    "bk_from_binary chain_beef [2] = Inr [2]" by code_simp+
  have "unknown_tx ?db TrustNo {} ''t1''" by code_simp
  then show ?thesis using partial_beef_returned [OF parses, of "{}" "''t2''" chain_beef] walk built by auto
qed

end
