(* ===== verification/Spec2Isabelle.thy ===== *)
theory Spec2Isabelle
  imports HeaderArchive ServiceRotation SyncLoop WalletReach BeefCorrect
begin

text \<open>
  A verification library for the Rust wallet toolbox.

  \<^bold>\<open>The program.\<close> The toolbox is the storage, synchronisation, header tracking and service layer of a
  BSV wallet. A wallet keeps its users, transactions, outputs and certificates in one or more
  relational stores; a store manager copies a user's rows from one store to another in chunks. The
  storage methods create, commit and abort actions: they claim outputs of the user, fund the new
  transaction by generating change, and collect the proof packages of its inputs; the signer
  classifies the answers of the broadcast services and moves the rows to their next state. A
  header tracker follows the heaviest chain of block headers; network services are reached through
  rotating collections of providers; and every error crosses process boundaries as a coded wire
  object. The development follows these parts, each in its own theories, from the source under
  \<open>src/\<close>.

  \<^bold>\<open>Shared vocabulary.\<close> Theory Prelude has the machine integers (words of the width of the Rust type
  wherever arithmetic may wrap), \<open>Result\<close> as a sum with the error on the left, the error type of
  \<open>src/error.rs\<close>, decimal rendering for \<open>format!\<close>, and the generic lemmas on lists, options and words.

  \<^bold>\<open>Funding transactions.\<close>
    \<^item> TxSize: \<open>src/utility/tx_size.rs\<close>. The computed size is the length of the documented layout.
    \<^item> ChangeStorage: the allocator \<open>ChangeStorage\<close> of \<open>src/storage/methods/generate_change.rs\<close>. A
      locale states what change generation needs of an allocator (coins are neither lost nor
      duplicated, an allocation shrinks the free coins); it is interpreted on the vector the code
      keeps. Allocation takes noSend change first and is best fit otherwise.
    \<^item> GenerateChange: \<open>generate_change_sdk_with_no_send\<close> with all its loops and exits on wrapping
      64-bit values. The funding and starvation loops terminate by measures on the free coins and
      the outputs. The lemmas give the balance of inputs against outputs, change and fee; the
      conservation of satoshis as integers within the 64-bit range; that no coin is spent more often
      than it is offered; that the internal consistency errors are unreachable; what an
      insufficient-funds error means. The list of random numbers is an argument, as in the code.

  \<^bold>\<open>Actions.\<close> All on the wallet database of the storage theories below.
    \<^item> ActionDb: computations on the database with errors and roll back, and the statements that the
      methods share (claims and releases of outputs, find-or-insert helpers, status updates).
    \<^item> OutputShuffle: the shuffle of output positions, with its index computed in double precision.
      The positions are a permutation because the rounded product never reaches the length.
    \<^item> CreateAction, CreateCorrect, CreateExamples: \<open>src/storage/methods/create_action.rs\<close>. The effect
      of a run on every table it touches, that it claims only free outputs of the user, and that its
      inputs pay for its outputs and the fee when no output asks for the max-possible amount. Parsing
      of BEEF and raw transactions is the argument \<open>sdk\<close>, random texts and draws the argument
      \<open>entropy\<close>.
    \<^item> ProcessAction and AbortAction: \<open>process_action.rs\<close> and \<open>abort_action.rs\<close>. ActionCorrect and
      ActionRoundtrip give their effect row by row, that they are atomic, and that creating and
      aborting an action gives every output back.
    \<^item> ActionSafety: a locale of the invariants that every statement of the methods keeps, interpreted
      for the constraints of the database and for the rule that a spendable output has no spender.
    \<^item> BroadcastOutcome and BroadcastCorrect: \<open>src/signer/broadcast_outcome.rs\<close>. The classification of
      provider answers, and what a success, a retry, an invalid transaction and a double spend do to
      the transaction, its requests, its outputs and the outputs it consumed. The network is the
      argument \<open>services\<close>.
    \<^item> WalletReach: the methods and the outcome handlers as the steps of a state machine; the
      invariants, and that no row is lost, hold along every run.
    \<^item> BeefBuild and BeefCorrect: the proof packages of \<open>src/storage/beef.rs\<close>. The walk over ancestors has
      a depth bound, the number of stored transactions plus one, which is proved never to be
      exhausted, on cyclic data too; on acyclic data ancestors come before their descendants. The
      package format is a parameter.

  \<^bold>\<open>Block headers.\<close>
    \<^item> ByteArith and BlockHeaders: 256-bit arithmetic on byte arrays, height ranges, headers, their
      80-byte forms and chain work (\<open>src/chaintracks/types.rs\<close> and the deserialisers of
      \<open>src/chaintracks/ingestors\<close>). The byte routines compute the integer operations they stand for;
      work (of wide targets), cumulative work and its comparison are the arithmetic definitions; the
      WhatsOnChain parser inverts the serialiser. The \<open>hex\<close> and \<open>sha2\<close> crates are fields of a codec
      argument; the round trip of hex and the length of a digest are the hypotheses used, where they
      are used.
    \<^item> HeaderStore, ChainSelect, HeaderArchive: \<open>MemoryStorage\<close> of \<open>src/chaintracks/storage/memory.rs\<close>,
      whose operations run under one lock and are therefore state transformers. Walks along parent
      links are partial functions into options, since the loops of the code have no bound;
      ChainSelect proves that they return when headers are numbered above their parents, so that
      insertion is total. The invariant says that the tip has maximal cumulative work and that the
      active headers are exactly the tip and its ancestors. It is kept by every insertion of a header
      one above its stored parent on a branch that leaves the active chain within the
      reorganisation threshold: there the search for the common ancestor is proved to succeed. On a
      deeper branch it fails, and the code leaves both branches active. HeaderArchive treats
      pruning, migration, deletion and the range queries.

  \<^bold>\<open>Errors and services.\<close>
    \<^item> WalletErrors: codes, texts and the wire object of every error of \<open>src/error.rs\<close>, and for which
      errors the round trip is the identity.
    \<^item> ServiceRotation: \<open>src/services/service_collection.rs\<close> with its call histories and
      \<open>src/services/types.rs\<close>. The bounded history and the
      counters refine a plain log of calls; rotation visits every provider. The provider type is a
      type variable and clock readings are arguments.

  \<^bold>\<open>Storage.\<close>
    \<^item> SqlTable: a table as a list of rows with its sequence, and the statement shapes that the code
      issues (filtered, ordered and paged selection, insertion with unique keys and references,
      updates). Inserts cut time stamps to seconds and filters compare as the text columns do.
    \<^item> StorageTables: the thirteen row structs of \<open>src/tables\<close>, the filters of
      \<open>src/storage/find_args.rs\<close>, and the statements of \<open>src/storage/sqlx_impl\<close> (\<open>find.rs\<close>, \<open>insert.rs\<close>,
      \<open>update.rs\<close>) in the SQLite dialect with the constraints of the schema. Identifier columns and
      satoshis are unbounded integers: nothing is computed on them but comparison, and a sequence
      that passes $2^{63}$ is out of scope.
    \<^item> StorageDb: the database invariant (identifiers drawn from the sequence, unique keys, references
      with targets, stored precision of time stamps). One locale describes what a table is to the
      rest of the database; its thirteen interpretations give that every statement keeps the
      invariant and loses no row.

  \<^bold>\<open>Synchronisation.\<close>
    \<^item> SyncMap and SyncProcess: \<open>src/storage/sync/sync_map.rs\<close>, \<open>merge.rs\<close> and
      \<open>process_sync_chunk.rs\<close>. A merge step is a function of the database, the identifier maps and the
      result counters, and keeps what it did before an error, as the code does without a database
      transaction.
    \<^item> SyncCorrect, SyncEntities, SyncChunk, SyncCounts, SyncReplay: triples over that step type. Every
      outcome leaves database and identifier maps consistent and loses nothing; a successful merge
      holds every row of the chunk under the translated references; the counters never exceed the
      received rows; unmapped required references are refused; a chunk processed again inserts
      nothing.
    \<^item> SyncExtract: \<open>get_sync_chunk\<close> with its two shared budgets. The paging loop terminates because
      every page it continues after has used up item budget. Each of the twelve queries is an
      interpretation of one locale of paged sources, whose lemma says what prefix of the window a
      page loop returns. The length of a row's JSON text is a parameter; no law of it is used but
      that lengths are not negative, and only for the byte budget.
    \<^item> SyncSession and SyncLoop: \<open>RequestSyncChunkArgs\<close>, the sync states, the tenant check of
      \<open>src/storage/traits/scope.rs\<close>, the two provider calls of \<open>src/storage/traits/wallet_provider.rs\<close>
      and the loops \<open>sync_to_writer\<close> and \<open>sync_from_reader\<close> of \<open>src/storage/manager.rs\<close>. The loop is a
      partial function into options, so that not returning is a value; it is proved to return for
      every reader and consistent writer, and a session that succeeds has merged the whole window of
      the reader. The persisted JSON text of an identifier map is represented by what it denotes,
      with time stamps cut to milliseconds as the serialiser does. Clock readings and random
      reference numbers are functions of the round; one reading serves all statements of a round.

  \<^bold>\<open>Divergences shown.\<close> A max-possible output without funds gets a wrapped amount
  (\<open>max_possible_underfunded_wraps\<close>); work of narrow targets is wrong
  (\<open>calculate_work_narrow_target_wrong\<close>); pruning can hide an active header
  (\<open>prune_hides_active_header\<close>); one of the two header parsers reverses hashes that are not reversed
  elsewhere (\<open>cdn_header_reverses_hashes\<close>); the wire form repeats the error prefix
  (\<open>error_wire_text_doubles\<close>); a backup that numbers the user differently refuses every session
  (\<open>foreign_user_id_refused\<close>); a max-possible output of an action keeps its placeholder amount
  (\<open>sweep_keeps_sentinel\<close>); noSend change that is also available can be spent twice by one action
  (\<open>no_send_change_spent_twice\<close>); a committed action can not be aborted
  (\<open>committed_action_not_abortable\<close>); a double spend flag on an entry with status success is ignored
  (\<open>broadcast_classified\<close>); a package without a needed ancestor is returned
  (\<open>partial_beef_returned\<close>).

  \<^bold>\<open>Not modelled.\<close> The statements for MySQL and PostgreSQL, which repeat the SQLite ones; connection
  pools and isolation of concurrent database transactions; HTTP and JSON-RPC clients and servers;
  the key deriver, scripts, the binary form of BEEF and signatures, which belong to other crates;
  the storage methods that internalize and list actions, outputs and certificates; the monitor
  tasks; the wallet and signer facades; the locks and the choice of the active store in the
  manager. Concurrent sessions on one writer are not considered: the manager holds its sync lock
  for a whole session.
\<close>

end
